(* ===== verification/Prelude.thy ===== *)
theory Prelude
  imports "HOL-Library.Word" "HOL-Library.Monad_Syntax"
begin

text \<open>
  Prelude of the development: the machine integer types, the return codes and
  the BUG_ON outcome shared by every component, the collections of simplification
  rules, and the generic lemmas on options, lists and words.

  Conventions of all theories.  A function of the driver that only computes is a
  HOL function.  A function with effects takes its state explicitly and returns
  it updated.  \<^verbatim>\<open>BUG_ON\<close> and the dereference of a null pointer stop the kernel:
  such a function lives in the option monad and the value \<^verbatim>\<open>None\<close> is the stop.
  Integer return codes are kept as the negative errno values of the code.
\<close>

unbundle bit_operations_syntax

type_synonym u8 = "8 word"
type_synonym u16 = "16 word"
type_synonym u32 = "32 word"
type_synonym u64 = "64 word"
type_synonym addr = "64 word"

named_theorems const_defs \<open>definitions of the named constants of the headers\<close>
named_theorems io_simps \<open>effect of the register accesses on the bus\<close>
named_theorems step_defs \<open>definitions of small operations, unfolded in proofs\<close>

section \<open>Return codes\<close>

abbreviation (input) EPERM :: int where "EPERM \<equiv> 1"
abbreviation (input) EIO :: int where "EIO \<equiv> 5"
abbreviation (input) EAGAIN :: int where "EAGAIN \<equiv> 11"
abbreviation (input) ENOMEM :: int where "ENOMEM \<equiv> 12"
abbreviation (input) EFAULT :: int where "EFAULT \<equiv> 14"
abbreviation (input) EBUSY :: int where "EBUSY \<equiv> 16"
abbreviation (input) ENODEV :: int where "ENODEV \<equiv> 19"
abbreviation (input) EINVAL :: int where "EINVAL \<equiv> 22"
abbreviation (input) ENOTTY :: int where "ENOTTY \<equiv> 25"
abbreviation (input) ENOSPC :: int where "ENOSPC \<equiv> 28"
abbreviation (input) EPROTO :: int where "EPROTO \<equiv> 71"
abbreviation (input) EPROTONOSUPPORT :: int where "EPROTONOSUPPORT \<equiv> 93"
abbreviation (input) ENOSYS :: int where "ENOSYS \<equiv> 38"
abbreviation (input) ERESTARTSYS :: int where "ERESTARTSYS \<equiv> 512"
abbreviation (input) ENOIOCTLCMD :: int where "ENOIOCTLCMD \<equiv> 515"

section \<open>The kernel stop\<close>

definition BUG_ON :: "bool \<Rightarrow> unit option" where
  "BUG_ON b = (if b then None else Some ())"

lemma BUG_ON_simps [simp]:
  "BUG_ON False = Some ()" "BUG_ON True = None"
  by (simp_all add: BUG_ON_def)

lemma BUG_ON_eq_Some [simp]: "BUG_ON b = Some u \<longleftrightarrow> \<not> b"
  by (simp add: BUG_ON_def)

lemma BUG_ON_eq_None [simp]: "BUG_ON b = None \<longleftrightarrow> b"
  by (simp add: BUG_ON_def)

lemma bind_BUG_ON [simp]:
  "Option.bind (BUG_ON b) f = (if b then None else f ())"
  by (simp add: BUG_ON_def)

section \<open>Lists\<close>

lemma sum_list_map_take_drop:
  "sum_list (map f (take n xs)) + sum_list (map f (drop n xs)) = sum_list (map (f :: 'a \<Rightarrow> nat) xs)"
  by (metis append_take_drop_id map_append sum_list_append)

lemma nth_list_update_if:
  "i < length xs \<Longrightarrow> xs[i := v] ! j = (if i = j then v else xs ! j)"
  by simp

lemma hd_in_set: "xs \<noteq> [] \<Longrightarrow> hd xs \<in> set xs"
  by simp

lemma distinct_tl_hd: "distinct xs \<Longrightarrow> xs \<noteq> [] \<Longrightarrow> hd xs \<notin> set (tl xs)"
  by (cases xs) simp_all

section \<open>Words\<close>

lemma u32_AND_low [simp]: "(x :: u32) AND 0xffffffff = x"
proof -
  have "(0xffffffff :: u32) = - 1" by simp
  then show ?thesis by (metis and.right_neutral)
qed

lemma unat_ucast_u32_u64 [simp]: "unat (ucast (x :: u32) :: u64) = unat x"
  by transfer (simp add: take_bit_take_bit min_def)

lemma unat_of_nat_u32: "n < 2 ^ 32 \<Longrightarrow> unat (of_nat n :: u32) = n"
  by (simp add: unat_of_nat)

lemma push_drop_bit_u64: "push_bit 32 (drop_bit 32 (a :: u64)) OR (a AND 0xffffffff) = a"
proof -
  have m: "(0xffffffff :: u64) = mask 32" by (simp add: mask_eq_exp_minus_1)
  show ?thesis unfolding m
    by (rule bit_word_eqI) (auto simp: bit_simps)
qed

end
