(* ===== verification/Regs.thy ===== *)
theory Regs
  imports Prelude
begin

text \<open>
  The constants, the register files and the register bus of libxdma.h.

  A register file is the list of the fields of the C structure in order, each
  with its number of 32-bit words; the offset of a field is computed from the
  list, as the compiler does for a packed structure of \<^verbatim>\<open>u32\<close>.  The device is not
  under src/: what a read returns is a parameter, a function of all earlier
  accesses and of the address, carried in the bus state beside the log of the
  accesses made so far.
\<close>

unbundle bit_operations_syntax

section \<open>Constants\<close>

definition XDMA_BAR_NUM :: nat where [const_defs]: "XDMA_BAR_NUM = 6"
definition XDMA_BAR_SIZE :: nat where [const_defs]: "XDMA_BAR_SIZE = 0x8000"
definition XDMA_CHANNEL_NUM_MAX :: nat where [const_defs]: "XDMA_CHANNEL_NUM_MAX = 4"
definition XDMA_ENG_IRQ_NUM :: nat where [const_defs]: "XDMA_ENG_IRQ_NUM = 1"
definition MAX_EXTRA_ADJ :: int where [const_defs]: "MAX_EXTRA_ADJ = 15"
definition RX_STATUS_EOP :: u32 where [const_defs]: "RX_STATUS_EOP = 1"
definition XDMA_OFS_INT_CTRL :: addr where [const_defs]: "XDMA_OFS_INT_CTRL = 0x2000"
definition XDMA_OFS_CONFIG :: addr where [const_defs]: "XDMA_OFS_CONFIG = 0x3000"
definition XDMA_TRANSFER_MAX_DESC :: nat where
  [const_defs]: "XDMA_TRANSFER_MAX_DESC = 2048"
definition XDMA_DESC_BLEN_BITS :: nat where [const_defs]: "XDMA_DESC_BLEN_BITS = 28"
definition XDMA_DESC_BLEN_MAX :: u32 where
  [const_defs]: "XDMA_DESC_BLEN_MAX = push_bit XDMA_DESC_BLEN_BITS 1 - 1"

definition XDMA_CTRL_RUN_STOP :: u32 where [const_defs]: "XDMA_CTRL_RUN_STOP = push_bit 0 1"
definition XDMA_CTRL_IE_DESC_STOPPED :: u32 where
  [const_defs]: "XDMA_CTRL_IE_DESC_STOPPED = push_bit 1 1"
definition XDMA_CTRL_IE_DESC_COMPLETED :: u32 where
  [const_defs]: "XDMA_CTRL_IE_DESC_COMPLETED = push_bit 2 1"
definition XDMA_CTRL_IE_DESC_ALIGN_MISMATCH :: u32 where
  [const_defs]: "XDMA_CTRL_IE_DESC_ALIGN_MISMATCH = push_bit 3 1"
definition XDMA_CTRL_IE_MAGIC_STOPPED :: u32 where
  [const_defs]: "XDMA_CTRL_IE_MAGIC_STOPPED = push_bit 4 1"
definition XDMA_CTRL_IE_IDLE_STOPPED :: u32 where
  [const_defs]: "XDMA_CTRL_IE_IDLE_STOPPED = push_bit 6 1"
definition XDMA_CTRL_IE_READ_ERROR :: u32 where
  [const_defs]: "XDMA_CTRL_IE_READ_ERROR = push_bit 9 0x1F"
definition XDMA_CTRL_IE_DESC_ERROR :: u32 where
  [const_defs]: "XDMA_CTRL_IE_DESC_ERROR = push_bit 19 0x1F"
definition XDMA_CTRL_NON_INCR_ADDR :: u32 where
  [const_defs]: "XDMA_CTRL_NON_INCR_ADDR = push_bit 25 1"
definition XDMA_CTRL_POLL_MODE_WB :: u32 where
  [const_defs]: "XDMA_CTRL_POLL_MODE_WB = push_bit 26 1"

definition XDMA_STAT_BUSY :: u32 where [const_defs]: "XDMA_STAT_BUSY = push_bit 0 1"
definition XDMA_STAT_DESC_STOPPED :: u32 where
  [const_defs]: "XDMA_STAT_DESC_STOPPED = push_bit 1 1"
definition XDMA_STAT_DESC_COMPLETED :: u32 where
  [const_defs]: "XDMA_STAT_DESC_COMPLETED = push_bit 2 1"
definition XDMA_STAT_ALIGN_MISMATCH :: u32 where
  [const_defs]: "XDMA_STAT_ALIGN_MISMATCH = push_bit 3 1"
definition XDMA_STAT_MAGIC_STOPPED :: u32 where
  [const_defs]: "XDMA_STAT_MAGIC_STOPPED = push_bit 4 1"
definition XDMA_STAT_INVALID_LEN :: u32 where
  [const_defs]: "XDMA_STAT_INVALID_LEN = push_bit 5 1"
definition XDMA_STAT_IDLE_STOPPED :: u32 where
  [const_defs]: "XDMA_STAT_IDLE_STOPPED = push_bit 6 1"
definition XDMA_STAT_COMMON_ERR_MASK :: u32 where
  [const_defs]: "XDMA_STAT_COMMON_ERR_MASK =
    XDMA_STAT_ALIGN_MISMATCH OR XDMA_STAT_MAGIC_STOPPED OR XDMA_STAT_INVALID_LEN"
definition XDMA_STAT_DESC_ERR_MASK :: u32 where
  [const_defs]: "XDMA_STAT_DESC_ERR_MASK =
    push_bit 19 1 OR push_bit 20 1 OR push_bit 21 1 OR push_bit 22 1 OR push_bit 23 1"
definition XDMA_STAT_H2C_R_ERR_MASK :: u32 where
  [const_defs]: "XDMA_STAT_H2C_R_ERR_MASK =
    push_bit 9 1 OR push_bit 10 1 OR push_bit 11 1 OR push_bit 12 1 OR push_bit 13 1"
definition XDMA_STAT_H2C_W_ERR_MASK :: u32 where
  [const_defs]: "XDMA_STAT_H2C_W_ERR_MASK = push_bit 14 1 OR push_bit 15 1"
definition XDMA_STAT_C2H_R_ERR_MASK :: u32 where
  [const_defs]: "XDMA_STAT_C2H_R_ERR_MASK = push_bit 9 1 OR push_bit 10 1"
definition XDMA_STAT_H2C_ERR_MASK :: u32 where
  [const_defs]: "XDMA_STAT_H2C_ERR_MASK =
    XDMA_STAT_COMMON_ERR_MASK OR XDMA_STAT_DESC_ERR_MASK OR
    XDMA_STAT_H2C_R_ERR_MASK OR XDMA_STAT_H2C_W_ERR_MASK"
definition XDMA_STAT_C2H_ERR_MASK :: u32 where
  [const_defs]: "XDMA_STAT_C2H_ERR_MASK =
    XDMA_STAT_COMMON_ERR_MASK OR XDMA_STAT_DESC_ERR_MASK OR XDMA_STAT_C2H_R_ERR_MASK"

definition XDMA_DESC_STOPPED :: u32 where [const_defs]: "XDMA_DESC_STOPPED = push_bit 0 1"
definition XDMA_DESC_COMPLETED :: u32 where [const_defs]: "XDMA_DESC_COMPLETED = push_bit 1 1"
definition XDMA_DESC_EOP :: u32 where [const_defs]: "XDMA_DESC_EOP = push_bit 4 1"
definition XDMA_PERF_RUN :: u32 where [const_defs]: "XDMA_PERF_RUN = push_bit 0 1"
definition XDMA_PERF_CLEAR :: u32 where [const_defs]: "XDMA_PERF_CLEAR = push_bit 1 1"
definition XDMA_PERF_AUTO :: u32 where [const_defs]: "XDMA_PERF_AUTO = push_bit 2 1"

definition MAGIC_ENGINE :: u64 where [const_defs]: "MAGIC_ENGINE = 0xEEEEEEEE"
definition MAGIC_DEVICE :: u64 where [const_defs]: "MAGIC_DEVICE = 0xDDDDDDDD"
definition XDMA_ID_H2C :: u32 where [const_defs]: "XDMA_ID_H2C = 0x1fc0"
definition XDMA_ID_C2H :: u32 where [const_defs]: "XDMA_ID_C2H = 0x1fc1"
definition CYCLIC_RX_PAGES_MAX :: int where [const_defs]: "CYCLIC_RX_PAGES_MAX = 256"
definition LS_BYTE_MASK :: u32 where [const_defs]: "LS_BYTE_MASK = 0x000000FF"
definition BLOCK_ID_MASK :: u32 where [const_defs]: "BLOCK_ID_MASK = 0xFFF00000"
definition BLOCK_ID_HEAD :: u32 where [const_defs]: "BLOCK_ID_HEAD = 0x1FC00000"
definition IRQ_BLOCK_ID :: u32 where [const_defs]: "IRQ_BLOCK_ID = 0x1fc20000"
definition CONFIG_BLOCK_ID :: u32 where [const_defs]: "CONFIG_BLOCK_ID = 0x1fc30000"
definition WB_COUNT_MASK :: u32 where [const_defs]: "WB_COUNT_MASK = 0x00ffffff"
definition WB_ERR_MASK :: u32 where [const_defs]: "WB_ERR_MASK = push_bit 31 1"
definition MAX_USER_IRQ :: nat where [const_defs]: "MAX_USER_IRQ = 16"
definition MAX_DESC_BUS_ADDR :: u64 where [const_defs]: "MAX_DESC_BUS_ADDR = 0xffffffff"
definition DESC_MAGIC :: u32 where [const_defs]: "DESC_MAGIC = 0xAD4B0000"
definition C2H_WB :: u32 where [const_defs]: "C2H_WB = 0x52B4"
definition H2C_CHANNEL_OFFSET :: nat where [const_defs]: "H2C_CHANNEL_OFFSET = 0x1000"
definition SGDMA_OFFSET_FROM_CHANNEL :: nat where
  [const_defs]: "SGDMA_OFFSET_FROM_CHANNEL = 0x4000"
definition CHANNEL_SPACING :: nat where [const_defs]: "CHANNEL_SPACING = 0x100"
definition TARGET_SPACING :: nat where [const_defs]: "TARGET_SPACING = 0x1000"
definition BYPASS_MODE_SPACING :: nat where [const_defs]: "BYPASS_MODE_SPACING = 0x0100"

definition PCI_DMA_H :: "u64 \<Rightarrow> u64" where "PCI_DMA_H a = drop_bit 16 (drop_bit 16 a)"
definition PCI_DMA_L :: "u64 \<Rightarrow> u64" where "PCI_DMA_L a = a AND 0xffffffff"

definition build_u32 :: "u32 \<Rightarrow> u32 \<Rightarrow> u32" where
  "build_u32 hi lo = push_bit 16 (hi AND 0xFFFF) OR (lo AND 0xFFFF)"

definition build_u64 :: "u64 \<Rightarrow> u64 \<Rightarrow> u64" where
  "build_u64 hi lo = push_bit 32 (hi AND 0xFFFFFFF) OR (lo AND 0xFFFFFFFF)"

section \<open>Register files\<close>

fun reg_offset :: "('f \<times> nat) list \<Rightarrow> 'f \<Rightarrow> nat" where
  "reg_offset [] f = 0"
| "reg_offset ((g, n) # fs) f = (if g = f then 0 else 4 * n + reg_offset fs f)"

fun reg_size :: "('f \<times> nat) list \<Rightarrow> nat" where
  "reg_size [] = 0"
| "reg_size ((g, n) # fs) = 4 * n + reg_size fs"

definition reg_addr :: "('f \<times> nat) list \<Rightarrow> addr \<Rightarrow> 'f \<Rightarrow> addr" where
  "reg_addr fs base f = base + of_nat (reg_offset fs f)"

datatype config_reg = CR_identifier | CR_reserved_1 | CR_msi_enable

definition config_regs :: "(config_reg \<times> nat) list" where
  "config_regs = [(CR_identifier, 1), (CR_reserved_1, 4), (CR_msi_enable, 1)]"

datatype engine_reg =
  ER_identifier | ER_control | ER_control_w1s | ER_control_w1c | ER_reserved_1
| ER_status | ER_status_rc | ER_completed_desc_count | ER_alignments | ER_reserved_2
| ER_poll_mode_wb_lo | ER_poll_mode_wb_hi | ER_interrupt_enable_mask
| ER_interrupt_enable_mask_w1s | ER_interrupt_enable_mask_w1c | ER_reserved_3
| ER_perf_ctrl | ER_perf_cyc_lo | ER_perf_cyc_hi | ER_perf_dat_lo | ER_perf_dat_hi
| ER_perf_pnd_lo | ER_perf_pnd_hi

definition engine_regs :: "(engine_reg \<times> nat) list" where
  "engine_regs =
    [(ER_identifier, 1), (ER_control, 1), (ER_control_w1s, 1), (ER_control_w1c, 1),
     (ER_reserved_1, 12),
     (ER_status, 1), (ER_status_rc, 1), (ER_completed_desc_count, 1), (ER_alignments, 1),
     (ER_reserved_2, 14),
     (ER_poll_mode_wb_lo, 1), (ER_poll_mode_wb_hi, 1), (ER_interrupt_enable_mask, 1),
     (ER_interrupt_enable_mask_w1s, 1), (ER_interrupt_enable_mask_w1c, 1),
     (ER_reserved_3, 9),
     (ER_perf_ctrl, 1), (ER_perf_cyc_lo, 1), (ER_perf_cyc_hi, 1), (ER_perf_dat_lo, 1),
     (ER_perf_dat_hi, 1), (ER_perf_pnd_lo, 1), (ER_perf_pnd_hi, 1)]"

datatype sgdma_reg =
  SG_identifier | SG_reserved_1 | SG_first_desc_lo | SG_first_desc_hi
| SG_first_desc_adjacent | SG_credits

definition engine_sgdma_regs :: "(sgdma_reg \<times> nat) list" where
  "engine_sgdma_regs =
    [(SG_identifier, 1), (SG_reserved_1, 31), (SG_first_desc_lo, 1), (SG_first_desc_hi, 1),
     (SG_first_desc_adjacent, 1), (SG_credits, 1)]"

datatype interrupt_reg =
  IR_identifier | IR_user_int_enable | IR_user_int_enable_w1s | IR_user_int_enable_w1c
| IR_channel_int_enable | IR_channel_int_enable_w1s | IR_channel_int_enable_w1c
| IR_reserved_1 | IR_user_int_request | IR_channel_int_request | IR_user_int_pending
| IR_channel_int_pending | IR_reserved_2 | IR_user_msi_vector | IR_channel_msi_vector

definition interrupt_regs :: "(interrupt_reg \<times> nat) list" where
  "interrupt_regs =
    [(IR_identifier, 1), (IR_user_int_enable, 1), (IR_user_int_enable_w1s, 1),
     (IR_user_int_enable_w1c, 1), (IR_channel_int_enable, 1),
     (IR_channel_int_enable_w1s, 1), (IR_channel_int_enable_w1c, 1), (IR_reserved_1, 9),
     (IR_user_int_request, 1), (IR_channel_int_request, 1), (IR_user_int_pending, 1),
     (IR_channel_int_pending, 1), (IR_reserved_2, 12), (IR_user_msi_vector, 8),
     (IR_channel_msi_vector, 8)]"

datatype sgdma_common_reg =
  SC_padding | SC_credit_mode_enable | SC_credit_mode_enable_w1s | SC_credit_mode_enable_w1c

definition sgdma_common_regs :: "(sgdma_common_reg \<times> nat) list" where
  "sgdma_common_regs =
    [(SC_padding, 8), (SC_credit_mode_enable, 1), (SC_credit_mode_enable_w1s, 1),
     (SC_credit_mode_enable_w1c, 1)]"

lemma engine_reg_offsets [simp]:
  "reg_offset engine_regs ER_control = 0x04"
  "reg_offset engine_regs ER_control_w1s = 0x08"
  "reg_offset engine_regs ER_control_w1c = 0x0C"
  "reg_offset engine_regs ER_status = 0x40"
  "reg_offset engine_regs ER_status_rc = 0x44"
  "reg_offset engine_regs ER_completed_desc_count = 0x48"
  "reg_offset engine_regs ER_alignments = 0x4C"
  "reg_offset engine_regs ER_poll_mode_wb_lo = 0x88"
  "reg_offset engine_regs ER_interrupt_enable_mask = 0x90"
  "reg_offset engine_regs ER_perf_ctrl = 0xC0"
  by (simp_all add: engine_regs_def)

lemma reg_offset_bound:
  "f \<in> fst ` set fs \<Longrightarrow> \<forall>(g, n) \<in> set fs. 0 < n \<Longrightarrow> reg_offset fs f + 4 \<le> reg_size fs"
proof (induction fs)
  case (Cons x xs)
  obtain g n where x: "x = (g, n)" by force
  show ?case
  proof (cases "g = f")
    case True
    then show ?thesis using Cons.prems by (simp add: x)
  next
    case False
    then show ?thesis using Cons by (auto simp: x)
  qed
qed simp

lemma reg_offset_inj:
  "f \<in> fst ` set fs \<Longrightarrow> g \<in> fst ` set fs \<Longrightarrow> \<forall>(h, n) \<in> set fs. 0 < n \<Longrightarrow>
   reg_offset fs f = reg_offset fs g \<Longrightarrow> f = g"
  by (induction fs) (force split: if_splits)+

section \<open>The register bus\<close>

datatype io_event = Wr addr u32 | Rd addr u32

record bus =
  hw :: "io_event list \<Rightarrow> addr \<Rightarrow> u32"
  blog :: "io_event list"

definition write_register :: "u32 \<Rightarrow> addr \<Rightarrow> 'a bus_scheme \<Rightarrow> 'a bus_scheme" where
  "write_register v a b = b\<lparr>blog := Wr a v # blog b\<rparr>"

definition read_register :: "addr \<Rightarrow> 'a bus_scheme \<Rightarrow> u32 \<times> 'a bus_scheme" where
  "read_register a b =
     (let v = hw b (blog b) a in (v, b\<lparr>blog := Rd a v # blog b\<rparr>))"

fun log_writes :: "io_event list \<Rightarrow> (addr \<times> u32) list" where
  "log_writes [] = []"
| "log_writes (Wr a v # es) = log_writes es @ [(a, v)]"
| "log_writes (Rd a v # es) = log_writes es"

definition writes :: "'a bus_scheme \<Rightarrow> (addr \<times> u32) list" where
  "writes b = log_writes (blog b)"

text \<open>
  The contract of a register bus: a write is appended to the sequence of writes
  the device sees, a read leaves the sequence alone.  The driver's sequences of
  accesses are proved against this contract.
\<close>

locale register_bus =
  fixes wr :: "u32 \<Rightarrow> addr \<Rightarrow> 's \<Rightarrow> 's"
    and rd :: "addr \<Rightarrow> 's \<Rightarrow> u32 \<times> 's"
    and seen :: "'s \<Rightarrow> (addr \<times> u32) list"
  assumes seen_wr: "seen (wr v a s) = seen s @ [(a, v)]"
    and seen_rd: "seen (snd (rd a s)) = seen s"
begin

lemma seen_wr_flush: "seen (snd (rd a' (wr v a s))) = seen s @ [(a, v)]"
  by (simp add: seen_wr seen_rd)

lemma seen_fold:
  "seen (fold (\<lambda>(a, v). wr v a) ps s) = seen s @ ps"
  by (induction ps arbitrary: s) (auto simp: seen_wr)

lemma seen_fold_rd: "seen (fold (\<lambda>a s. snd (rd a s)) as s) = seen s"
  by (induction as arbitrary: s) (auto simp: seen_rd)

end

interpretation iobus: register_bus write_register read_register writes
  by unfold_locales (simp_all add: write_register_def read_register_def writes_def Let_def)

lemmas bus_writes [simp] = iobus.seen_wr iobus.seen_rd

lemma hw_write [simp]: "hw (write_register v a b) = hw b"
  by (simp add: write_register_def)

lemma hw_read [simp]: "hw (snd (read_register a b)) = hw b"
  by (simp add: read_register_def Let_def)

lemma fst_read: "fst (read_register a b) = hw b (blog b) a"
  by (simp add: read_register_def Let_def)

text \<open>
  A set/clear pair of registers, as the enable masks of the device have: a write
  of \<^verbatim>\<open>w1s\<close> sets the bits written, a write of \<^verbatim>\<open>w1c\<close> clears them.  The mask the
  device holds is a function of the sequence of writes.
\<close>

fun w1_mask :: "addr \<Rightarrow> addr \<Rightarrow> u32 \<Rightarrow> (addr \<times> u32) list \<Rightarrow> u32" where
  "w1_mask s c m [] = m"
| "w1_mask s c m ((a, v) # ws) =
     w1_mask s c (if a = s then m OR v else if a = c then m AND NOT v else m) ws"

lemma w1_mask_append: "w1_mask s c m (xs @ ys) = w1_mask s c (w1_mask s c m xs) ys"
  by (induction xs arbitrary: m) auto

end
