(* ===== verification/Types.thy ===== *)
theory Types
  imports Regs
begin

text \<open>
  The data of libxdma.h: enumerations, descriptors, transfers, requests, engines
  and the device, and the operations on the device flags.

  Flags that the code keeps in an \<^verbatim>\<open>int\<close> and only tests are booleans here.  A
  transfer is known by a number, its address; the transfers live in the state, the
  queue of an engine is the list of their numbers, and the cyclic request of an
  engine is known by the number of the transfer it embeds.  The descriptor array of an
  engine and its cyclic result array are lists in the engine, \<^verbatim>\<open>None\<close> when the
  pointer is null.  A spinlock is a boolean; taking it twice or releasing it when
  it is free stops the kernel.
\<close>

unbundle bit_operations_syntax

section \<open>Enumerations\<close>

datatype transfer_state =
  TRANSFER_STATE_NEW | TRANSFER_STATE_SUBMITTED | TRANSFER_STATE_COMPLETED
| TRANSFER_STATE_FAILED | TRANSFER_STATE_ABORTED

fun transfer_state_val :: "transfer_state \<Rightarrow> nat" where
  "transfer_state_val TRANSFER_STATE_NEW = 0"
| "transfer_state_val TRANSFER_STATE_SUBMITTED = 1"
| "transfer_state_val TRANSFER_STATE_COMPLETED = 2"
| "transfer_state_val TRANSFER_STATE_FAILED = 3"
| "transfer_state_val TRANSFER_STATE_ABORTED = 4"

lemma transfer_state_val_inj: "transfer_state_val s = transfer_state_val t \<Longrightarrow> s = t"
  by (cases s; cases t) simp_all

instantiation transfer_state :: linorder
begin

definition less_eq_transfer_state :: "transfer_state \<Rightarrow> transfer_state \<Rightarrow> bool" where
  "less_eq_transfer_state s t \<longleftrightarrow> transfer_state_val s \<le> transfer_state_val t"

definition less_transfer_state :: "transfer_state \<Rightarrow> transfer_state \<Rightarrow> bool" where
  "less_transfer_state s t \<longleftrightarrow> transfer_state_val s < transfer_state_val t"

instance
  by standard
    (auto simp: less_eq_transfer_state_def less_transfer_state_def dest: transfer_state_val_inj)

end

datatype dma_dir = DMA_BIDIRECTIONAL | DMA_TO_DEVICE | DMA_FROM_DEVICE | DMA_NONE

text \<open>The shutdown state is used as a bit mask by the code, so it is a word.\<close>

definition ENGINE_SHUTDOWN_NONE :: u32 where [const_defs]: "ENGINE_SHUTDOWN_NONE = 0"
definition ENGINE_SHUTDOWN_REQUEST :: u32 where [const_defs]: "ENGINE_SHUTDOWN_REQUEST = 1"
definition ENGINE_SHUTDOWN_IDLE :: u32 where [const_defs]: "ENGINE_SHUTDOWN_IDLE = 2"

definition XFER_FLAG_NEED_UNMAP :: u32 where [const_defs]: "XFER_FLAG_NEED_UNMAP = 0x1"
definition XDEV_FLAG_OFFLINE :: u32 where [const_defs]: "XDEV_FLAG_OFFLINE = 0x1"

section \<open>Structures\<close>

record xdma_desc =
  control :: u32
  bytes :: u32
  src_addr_lo :: u32
  src_addr_hi :: u32
  dst_addr_lo :: u32
  dst_addr_hi :: u32
  next_lo :: u32
  next_hi :: u32

definition XDMA_DESC_SIZE :: nat where [const_defs]: "XDMA_DESC_SIZE = 32"

definition zero_desc :: xdma_desc where
  "zero_desc = \<lparr>control = 0, bytes = 0, src_addr_lo = 0, src_addr_hi = 0,
     dst_addr_lo = 0, dst_addr_hi = 0, next_lo = 0, next_hi = 0\<rparr>"

record xdma_result =
  res_status :: u32
  res_length :: u32

record sw_desc =
  sd_addr :: u64
  sd_len :: u32

text \<open>A mapped scatter-gather table: the dma address and length of each entry.\<close>

record sg_table =
  sgl :: "(u64 \<times> u32) list"
  nents :: nat

record xdma_transfer =
  t_desc_bus :: u64
  t_desc_adjacent :: int
  t_desc_num :: int
  t_dir :: dma_dir
  t_state :: transfer_state
  t_flags :: u32
  t_cyclic :: bool
  t_last_in_request :: bool
  t_len :: u32

definition zero_transfer :: xdma_transfer where
  "zero_transfer = \<lparr>t_desc_bus = 0, t_desc_adjacent = 0, t_desc_num = 0,
     t_dir = DMA_BIDIRECTIONAL, t_state = TRANSFER_STATE_NEW, t_flags = 0,
     t_cyclic = False, t_last_in_request = False, t_len = 0\<rparr>"

record xdma_request_cb =
  r_sgt :: sg_table
  r_total_len :: u32
  r_ep_addr :: u64
  r_xfer :: xdma_transfer
  r_sw_desc_idx :: nat
  r_sw_desc_cnt :: nat
  r_sdesc :: "sw_desc list"

record xdma_performance_ioctl =
  p_version :: u32
  p_transfer_size :: u32
  p_stopped :: u32
  p_iterations :: u32
  p_clock_cycle_count :: u64
  p_data_cycle_count :: u64
  p_pending_count :: u64

record xdma_engine =
  e_magic :: u64
  e_name :: string
  e_version :: u32
  e_regs :: addr
  e_sgdma_regs :: addr
  e_bypass_offset :: u32
  e_shutdown :: u32
  e_dir :: dma_dir
  e_device_open :: bool
  e_running :: bool
  e_non_incr_addr :: bool
  e_streaming :: bool
  e_addr_align :: u32
  e_len_granularity :: u32
  e_addr_bits :: u32
  e_channel :: nat
  e_desc_dequeued :: int
  e_status :: u32
  e_interrupt_enable_mask_value :: u32
  e_transfer_list :: "nat list"
  e_cyclic_result :: "xdma_result list option"
  e_cyclic_result_bus :: u64
  e_cyclic_req :: "nat option"
  e_cyclic_sgt :: sg_table
  e_eop_found :: bool
  e_rx_tail :: int
  e_rx_head :: int
  e_rx_overrun :: bool
  e_user_buffer_index :: u32
  e_poll_mode_addr_virt :: "addr option"
  e_poll_mode_bus :: u64
  e_msix_irq_line :: int
  e_irq_bitmask :: u32
  e_desc_bus :: u64
  e_desc :: "xdma_desc list option"
  e_xdma_perf :: "xdma_performance_ioctl option"

record xdma_user_irq =
  u_user_idx :: u8
  u_events_irq :: bool
  u_handler :: "nat option"
  u_dev :: nat

record xdma_dev =
  d_magic :: u64
  d_pdev :: nat
  d_idx :: int
  d_lock :: bool
  d_flags :: u32
  d_bar :: "addr option list"
  d_user_bar_idx :: int
  d_config_bar_idx :: int
  d_bypass_bar_idx :: int
  d_regions_in_use :: bool
  d_got_regions :: bool
  d_user_max :: int
  d_c2h_channel_max :: int
  d_h2c_channel_max :: int
  d_irq_count :: int
  d_irq_line :: int
  d_msi_enabled :: bool
  d_msix_enabled :: bool
  d_user_irq :: "xdma_user_irq list"
  d_mask_irq_user :: u32
  d_engines_num :: nat
  d_mask_irq_h2c :: u32
  d_mask_irq_c2h :: u32
  d_engine_h2c :: "xdma_engine list"
  d_engine_c2h :: "xdma_engine list"

text \<open>The module parameters of libxdma.c.\<close>

record modparams =
  poll_mode :: bool
  interrupt_mode :: nat
  enable_credit_mp :: bool
  desc_blen_max :: u32

definition default_modparams :: modparams where
  "default_modparams = \<lparr>poll_mode = False, interrupt_mode = 0, enable_credit_mp = False,
     desc_blen_max = XDMA_DESC_BLEN_MAX\<rparr>"

section \<open>The state of the kernel side\<close>

text \<open>
  Calls into the kernel that only notify or release are recorded in a trace, the
  newest first.
\<close>

datatype irq_owner = OwnDev | OwnEngine dma_dir nat | OwnUser nat

datatype kevent =
  WakeTransfer nat
| WakeShutdown
| WakePerf
| WakeEvents nat
| ScheduleWork dma_dir nat
| RunHandler nat u8 nat
| UnmapSg dma_dir
| FreeRequest
| FreeWriteback
| FreeDescs
| FreeCyclicResult
| AllocDescs
| AllocWriteback
| AllocCyclicResult
| IrqRequested int irq_owner
| IrqFreed int irq_owner
| MsixEnabled int
| MsixDisabled
| MsiEnabled
| MsiDisabled
| CfgWrite nat u16
| BarMapped nat
| BarUnmapped nat
| DmaMaskSet nat
| ConsistentMaskSet nat
| DeviceEnabled
| DeviceDisabled
| BusMaster
| RelaxedOrdering
| ReadRequestSize nat
| RegionsRequested
| RegionsReleased
| DeviceFreed
| PageAlloc nat
| PageFree nat
| PageMapped nat
| PageUnmapped nat
| CharDevAdded nat nat
| CharDevRemoved nat nat
| SysDevAdded nat nat
| SysDevRemoved nat nat
| ChrdevRegion nat
| ChrdevRegionFreed nat
| UserPagePinned nat
| UserPagePut nat
| UserPageDirty nat
| UserMapped u64 u64
| GpsWake
| GpsPpsWake
| GpsThreadStarted
| GpsThreadStopped
| ZynqBarMapped
| ZynqBarUnmapped
| ZynqDevFreed

record world = bus +
  xfers :: "nat \<Rightarrow> xdma_transfer"
  ktrace :: "kevent list"

definition kcall :: "kevent \<Rightarrow> world \<Rightarrow> world" where
  "kcall e w = w\<lparr>ktrace := e # ktrace w\<rparr>"

definition upd_xfer :: "nat \<Rightarrow> (xdma_transfer \<Rightarrow> xdma_transfer) \<Rightarrow> world \<Rightarrow> world" where
  "upd_xfer i f w = w\<lparr>xfers := (xfers w)(i := f (xfers w i))\<rparr>"

lemma xfers_upd [simp]: "xfers (upd_xfer i f w) = (xfers w)(i := f (xfers w i))"
  by (simp add: upd_xfer_def)

lemma upd_xfer_frame [simp]:
  "ktrace (upd_xfer i f w) = ktrace w" "blog (upd_xfer i f w) = blog w"
  "hw (upd_xfer i f w) = hw w" "writes (upd_xfer i f w) = writes w"
  by (simp_all add: upd_xfer_def writes_def)

lemma kcall_frame [simp]:
  "xfers (kcall e w) = xfers w" "blog (kcall e w) = blog w" "hw (kcall e w) = hw w"
  "writes (kcall e w) = writes w" "ktrace (kcall e w) = e # ktrace w"
  by (simp_all add: kcall_def writes_def)

lemma io_frame [simp]:
  "xfers (write_register v a w) = xfers w" "ktrace (write_register v a w) = ktrace w"
  "xfers (snd (read_register a w)) = xfers w" "ktrace (snd (read_register a w)) = ktrace w"
  by (simp_all add: write_register_def read_register_def Let_def)

section \<open>Device flags\<close>

definition spin_lock :: "xdma_dev \<Rightarrow> xdma_dev option" where
  "spin_lock d = (if d_lock d then None else Some (d\<lparr>d_lock := True\<rparr>))"

definition spin_unlock :: "xdma_dev \<Rightarrow> xdma_dev option" where
  "spin_unlock d = (if d_lock d then Some (d\<lparr>d_lock := False\<rparr>) else None)"

definition xdma_device_flag_check :: "xdma_dev \<Rightarrow> u32 \<Rightarrow> (bool \<times> xdma_dev) option" where
  "xdma_device_flag_check d f = do {
     d \<leftarrow> spin_lock d;
     if d_flags d AND f \<noteq> 0 then do {
       d \<leftarrow> spin_unlock d;
       Some (True, d)
     } else do {
       d \<leftarrow> spin_unlock d;
       Some (False, d)
     }
   }"

definition xdma_device_flag_test_n_set :: "xdma_dev \<Rightarrow> u32 \<Rightarrow> (bool \<times> xdma_dev) option" where
  "xdma_device_flag_test_n_set d f = do {
     d \<leftarrow> spin_lock d;
     (rv, d) \<leftarrow>
       (if d_flags d AND f \<noteq> 0 then do {
          d \<leftarrow> spin_unlock d;
          Some (True, d)
        } else Some (False, d\<lparr>d_flags := d_flags d OR f\<rparr>));
     d \<leftarrow> spin_unlock d;
     Some (rv, d)
   }"

definition xdma_device_flag_set :: "xdma_dev \<Rightarrow> u32 \<Rightarrow> xdma_dev option" where
  "xdma_device_flag_set d f = do {
     d \<leftarrow> spin_lock d;
     let d = d\<lparr>d_flags := d_flags d OR f\<rparr>;
     spin_unlock d
   }"

definition xdma_device_flag_clear :: "xdma_dev \<Rightarrow> u32 \<Rightarrow> xdma_dev option" where
  "xdma_device_flag_clear d f = do {
     d \<leftarrow> spin_lock d;
     let d = d\<lparr>d_flags := d_flags d AND NOT f\<rparr>;
     spin_unlock d
   }"

lemma flag_check_eq:
  "\<not> d_lock d \<Longrightarrow> xdma_device_flag_check d f = Some (d_flags d AND f \<noteq> 0, d)"
  by (simp add: xdma_device_flag_check_def spin_lock_def spin_unlock_def)

lemma flag_set_eq:
  "\<not> d_lock d \<Longrightarrow> xdma_device_flag_set d f = Some (d\<lparr>d_flags := d_flags d OR f\<rparr>)"
  by (simp add: xdma_device_flag_set_def spin_lock_def spin_unlock_def)

lemma flag_clear_eq:
  "\<not> d_lock d \<Longrightarrow> xdma_device_flag_clear d f = Some (d\<lparr>d_flags := d_flags d AND NOT f\<rparr>)"
  by (simp add: xdma_device_flag_clear_def spin_lock_def spin_unlock_def)

lemma flag_test_n_set_clear_bit:
  "\<not> d_lock d \<Longrightarrow> d_flags d AND f = 0 \<Longrightarrow>
   xdma_device_flag_test_n_set d f = Some (False, d\<lparr>d_flags := d_flags d OR f\<rparr>)"
  by (simp add: xdma_device_flag_test_n_set_def spin_lock_def spin_unlock_def)

lemma flag_test_n_set_set_bit:
  "d_flags d AND f \<noteq> 0 \<Longrightarrow> xdma_device_flag_test_n_set d f = None"
  by (simp add: xdma_device_flag_test_n_set_def spin_lock_def spin_unlock_def)

end
