(* ===== verification/Descriptors.thy ===== *)
theory Descriptors
  imports Types
begin

text \<open>
  The descriptor operations of libxdma.c: chaining an array of descriptors,
  linking, the adjacency count, the control field and the addresses.

  An array is a list.  An access outside its bounds has no meaning in C; here it
  is the value \<^verbatim>\<open>None\<close>, as a stop of the kernel.  The conversions
  \<^verbatim>\<open>cpu_to_le32\<close> and \<^verbatim>\<open>le32_to_cpu\<close> concern the bytes in memory, a descriptor field
  here is the value they encode.
\<close>

unbundle bit_operations_syntax

definition arr_mod :: "int \<Rightarrow> ('a \<Rightarrow> 'a) \<Rightarrow> 'a list \<Rightarrow> 'a list option" where
  "arr_mod i f xs =
     (if 0 \<le> i \<and> i < int (length xs) then Some (xs[nat i := f (xs ! nat i)]) else None)"

definition arr_get :: "int \<Rightarrow> 'a list \<Rightarrow> 'a option" where
  "arr_get i xs = (if 0 \<le> i \<and> i < int (length xs) then Some (xs ! nat i) else None)"

lemma arr_mod_int [simp]:
  "i < length xs \<Longrightarrow> arr_mod (int i) f xs = Some (xs[i := f (xs ! i)])"
  by (simp add: arr_mod_def)

lemma arr_mod_length: "arr_mod i f xs = Some ys \<Longrightarrow> length ys = length xs"
  by (auto simp: arr_mod_def split: if_splits)

section \<open>Operations\<close>

function desc_init_loop ::
  "nat \<Rightarrow> nat \<Rightarrow> u64 \<Rightarrow> int \<Rightarrow> xdma_desc list \<Rightarrow> xdma_desc list option" where
  "desc_init_loop i count desc_bus adj ds =
     (if i < count - 1 then do {
        let desc_bus = desc_bus + of_nat XDMA_DESC_SIZE;
        let (extra_adj, adj) =
          (if adj > 0 then
             (let extra_adj = adj - 1 in
              (if extra_adj > MAX_EXTRA_ADJ then MAX_EXTRA_ADJ else extra_adj, adj - 1))
           else (0, adj));
        let temp_control = DESC_MAGIC OR push_bit 8 (word_of_int extra_adj);
        ds \<leftarrow> arr_mod (int i) (\<lambda>d. d\<lparr>
            next_lo := ucast (PCI_DMA_L desc_bus),
            next_hi := ucast (PCI_DMA_H desc_bus),
            bytes := 0,
            control := temp_control\<rparr>) ds;
        desc_init_loop (i + 1) count desc_bus adj ds
      } else
        arr_mod (int i) (\<lambda>d. d\<lparr>next_lo := 0, next_hi := 0, bytes := 0,
            control := DESC_MAGIC\<rparr>) ds)"
  by pat_completeness auto
termination
  by (relation "measure (\<lambda>(i, count, _). count - i)") auto

declare desc_init_loop.simps [simp del]

definition transfer_desc_init ::
  "xdma_transfer \<Rightarrow> nat \<Rightarrow> xdma_desc list \<Rightarrow> xdma_desc list option" where
  "transfer_desc_init transfer count ds = do {
     BUG_ON (count > XDMA_TRANSFER_MAX_DESC);
     desc_init_loop 0 count (t_desc_bus transfer) (int count - 1) ds
   }"

definition xdma_desc_link :: "u64 option \<Rightarrow> xdma_desc \<Rightarrow> xdma_desc" where
  "xdma_desc_link second first =
     (let ctrl = control first AND 0x0000f0ff;
          first = (case second of
              Some second_bus \<Rightarrow> first\<lparr>next_lo := ucast (PCI_DMA_L second_bus),
                                    next_hi := ucast (PCI_DMA_H second_bus)\<rparr>
            | None \<Rightarrow> first\<lparr>next_lo := 0, next_hi := 0\<rparr>)
      in first\<lparr>control := ctrl OR DESC_MAGIC\<rparr>)"

text \<open>
  The comparison of the signed count with \<^verbatim>\<open>max_adj_4k\<close> is unsigned in C: the count
  is converted to \<^verbatim>\<open>u32\<close> and the result of the clamp is converted back.
\<close>

definition xdma_desc_adjacent :: "int \<Rightarrow> xdma_desc \<Rightarrow> xdma_desc" where
  "xdma_desc_adjacent next_adjacent d =
     (let ctrl = control d AND 0x0000f0ff;
          extra_adj =
            (if next_adjacent > 0 then
               (let extra_adj = next_adjacent - 1;
                    extra_adj = (if extra_adj > MAX_EXTRA_ADJ then MAX_EXTRA_ADJ else extra_adj);
                    max_adj_4k = (0x1000 - (next_lo d AND 0xFFF)) div 32 - 1 :: u32;
                    extra_adj =
                      (if (word_of_int extra_adj :: u32) > max_adj_4k then sint max_adj_4k
                       else extra_adj)
                in if extra_adj < 0 then 0 else extra_adj)
             else 0);
          ctrl = ctrl OR (0xAD4B0000 OR push_bit 8 (word_of_int extra_adj))
      in d\<lparr>control := ctrl\<rparr>)"

definition xdma_desc_control_set :: "u32 \<Rightarrow> xdma_desc \<Rightarrow> xdma_desc option" where
  "xdma_desc_control_set control_field first = do {
     let ctrl = control first AND NOT LS_BYTE_MASK;
     BUG_ON (control_field AND NOT LS_BYTE_MASK \<noteq> 0);
     Some (first\<lparr>control := ctrl OR control_field\<rparr>)
   }"

definition xdma_desc_control_clear :: "u32 \<Rightarrow> xdma_desc \<Rightarrow> xdma_desc option" where
  "xdma_desc_control_clear clear_mask first = do {
     let ctrl = control first;
     BUG_ON (clear_mask AND NOT LS_BYTE_MASK \<noteq> 0);
     Some (first\<lparr>control := ctrl AND NOT clear_mask\<rparr>)
   }"

definition xdma_desc_done :: "xdma_desc list \<Rightarrow> xdma_desc list" where
  "xdma_desc_done ds = replicate XDMA_TRANSFER_MAX_DESC zero_desc @ drop XDMA_TRANSFER_MAX_DESC ds"

definition xdma_desc_set :: "u64 \<Rightarrow> u64 \<Rightarrow> u32 \<Rightarrow> dma_dir \<Rightarrow> xdma_desc \<Rightarrow> xdma_desc" where
  "xdma_desc_set rc_bus_addr ep_addr len dir d =
     (let d = d\<lparr>bytes := len\<rparr> in
      if dir = DMA_TO_DEVICE then
        d\<lparr>src_addr_lo := ucast (PCI_DMA_L rc_bus_addr),
          src_addr_hi := ucast (PCI_DMA_H rc_bus_addr),
          dst_addr_lo := ucast (PCI_DMA_L ep_addr),
          dst_addr_hi := ucast (PCI_DMA_H ep_addr)\<rparr>
      else
        d\<lparr>src_addr_lo := ucast (PCI_DMA_L ep_addr),
          src_addr_hi := ucast (PCI_DMA_H ep_addr),
          dst_addr_lo := ucast (PCI_DMA_L rc_bus_addr),
          dst_addr_hi := ucast (PCI_DMA_H rc_bus_addr)\<rparr>)"

section \<open>Reading a descriptor back\<close>

definition desc_src :: "xdma_desc \<Rightarrow> u64" where
  "desc_src d = push_bit 32 (ucast (src_addr_hi d)) OR ucast (src_addr_lo d)"

definition desc_dst :: "xdma_desc \<Rightarrow> u64" where
  "desc_dst d = push_bit 32 (ucast (dst_addr_hi d)) OR ucast (dst_addr_lo d)"

definition desc_next :: "xdma_desc \<Rightarrow> u64" where
  "desc_next d = push_bit 32 (ucast (next_hi d)) OR ucast (next_lo d)"

definition desc_adj :: "xdma_desc \<Rightarrow> u32" where
  "desc_adj d = drop_bit 8 (control d) AND 0xf"

lemma addr_split_join:
  "push_bit 32 (ucast (ucast (PCI_DMA_H a) :: u32)) OR ucast (ucast (PCI_DMA_L a) :: u32) = a"
proof -
  have m: "(0xffffffff :: u64) = mask 32" by (simp add: mask_eq_exp_minus_1)
  show ?thesis unfolding PCI_DMA_H_def PCI_DMA_L_def m
    by (rule bit_word_eqI) (auto simp: bit_simps)
qed

lemma desc_set_addresses:
  "desc_src (xdma_desc_set rc ep len dir d) = (if dir = DMA_TO_DEVICE then rc else ep)"
  "desc_dst (xdma_desc_set rc ep len dir d) = (if dir = DMA_TO_DEVICE then ep else rc)"
  "bytes (xdma_desc_set rc ep len dir d) = len"
  "desc_next (xdma_desc_set rc ep len dir d) = desc_next d"
  "control (xdma_desc_set rc ep len dir d) = control d"
  by (simp_all add: xdma_desc_set_def desc_src_def desc_dst_def desc_next_def Let_def
      addr_split_join)

section \<open>The chain built by the initialisation\<close>

definition init_desc :: "u64 \<Rightarrow> nat \<Rightarrow> nat \<Rightarrow> xdma_desc \<Rightarrow> xdma_desc" where
  "init_desc bus count k d =
     (if k < count - 1 then
        d\<lparr>next_lo := ucast (PCI_DMA_L (bus + of_nat (32 * (k + 1)))),
          next_hi := ucast (PCI_DMA_H (bus + of_nat (32 * (k + 1)))), bytes := 0,
          control := DESC_MAGIC OR push_bit 8 (of_nat (min 15 (count - 2 - k)))\<rparr>
      else d\<lparr>next_lo := 0, next_hi := 0, bytes := 0, control := DESC_MAGIC\<rparr>)"

lemma desc_init_loop_eq:
  assumes "i < count" "count \<le> length ds"
  shows "desc_init_loop i count (bus + of_nat (32 * i)) (int count - 1 - int i) ds =
    Some (map (\<lambda>k. if i \<le> k \<and> k < count then init_desc bus count k (ds ! k) else ds ! k)
           [0..<length ds])"
  using assms
proof (induction "count - i" arbitrary: i ds)
  case (Suc n)
  show ?case
  proof (cases "i < count - 1")
    case False
    then have i: "count = Suc i" using Suc.prems by simp
    show ?thesis
      using Suc.prems
      by (subst desc_init_loop.simps) (auto simp: i init_desc_def intro!: nth_equalityI
          simp: nth_list_update)
  next
    case True
    let ?ds = "ds[i := init_desc bus count i (ds ! i)]"
    have adj: "(if int count - 1 - int i - 1 > MAX_EXTRA_ADJ then MAX_EXTRA_ADJ
        else int count - 1 - int i - 1) = int (min 15 (count - 2 - i))"
      using True by (auto simp: MAX_EXTRA_ADJ_def)
    have bus: "bus + of_nat (32 * i) + of_nat XDMA_DESC_SIZE = bus + of_nat (32 * (i + 1))"
      by (simp add: XDMA_DESC_SIZE_def algebra_simps)
    have "desc_init_loop i count (bus + of_nat (32 * i)) (int count - 1 - int i) ds =
      desc_init_loop (i + 1) count (bus + of_nat (32 * (i + 1)))
        (int count - 1 - int (i + 1)) ?ds"
      unfolding desc_init_loop.simps[of i] Let_def bus adj
      using True Suc.prems by (auto simp: init_desc_def adj algebra_simps)
    also have "\<dots> = Some (map (\<lambda>k. if i + 1 \<le> k \<and> k < count
        then init_desc bus count k (?ds ! k) else ?ds ! k) [0..<length ?ds])"
      by (rule Suc.hyps) (use Suc True in auto)
    also have "\<dots> = Some (map (\<lambda>k. if i \<le> k \<and> k < count
        then init_desc bus count k (ds ! k) else ds ! k) [0..<length ds])"
      using Suc.prems by (auto simp: nth_list_update)
    finally show ?thesis .
  qed
qed simp

lemma transfer_desc_init_eq:
  assumes "0 < count" "count \<le> XDMA_TRANSFER_MAX_DESC" "count \<le> length ds"
  shows "transfer_desc_init t count ds =
    Some (map (\<lambda>k. if k < count then init_desc (t_desc_bus t) count k (ds ! k) else ds ! k)
           [0..<length ds])"
  using desc_init_loop_eq[of 0 count ds "t_desc_bus t"] assms
  by (simp add: transfer_desc_init_def)

lemma transfer_desc_init_too_many:
  "count > XDMA_TRANSFER_MAX_DESC \<Longrightarrow> transfer_desc_init t count ds = None"
  by (simp add: transfer_desc_init_def)

section \<open>The adjacency count\<close>

definition adj_spec :: "int \<Rightarrow> u32 \<Rightarrow> nat" where
  "adj_spec n nlo =
     (if n > 0 then min (min (nat n - 1) 15) ((0x1000 - unat (nlo AND 0xFFF)) div 32 - 1) else 0)"

lemma adj_spec_le: "adj_spec n nlo \<le> 15"
  by (auto simp: adj_spec_def)

lemma max_adj_4k_unat:
  assumes "unat (m :: u32) \<le> 0xFE0"
  shows "unat ((0x1000 - m) div 32 - 1) = (0x1000 - unat m) div 32 - 1"
proof -
  have "m \<le> 0x1000" using assms by (simp add: word_le_nat_alt)
  then have a: "unat (0x1000 - m) = 0x1000 - unat m" by (simp add: unat_sub)
  have "32 \<le> 0x1000 - unat m" using assms by simp
  then have "1 \<le> (0x1000 - unat m) div 32" by (metis div_le_mono div_self zero_neq_numeral)
  then have "(1 :: u32) \<le> (0x1000 - m) div 32" by (simp add: word_le_nat_alt unat_div a)
  then show ?thesis by (simp add: unat_sub unat_div a)
qed

lemma sint_small_u32:
  assumes "unat (x :: u32) < 2 ^ 31"
  shows "sint x = int (unat x)"
proof -
  have u: "int (unat x) = uint x" by simp
  have "int (unat x) < int (2 ^ 31)" using assms by (simp only: of_nat_less_iff)
  then have "0 \<le> uint x" "uint x < 2 ^ 31" using u by simp_all
  then have "signed_take_bit 31 (uint x) = uint x"
    by (intro signed_take_bit_int_eq_self) (auto intro: order_trans[of _ 0])
  then show ?thesis by (simp add: sint_uint u)
qed

lemma xdma_desc_adjacent_eq:
  assumes "unat (next_lo d AND 0xFFF) \<le> 0xFE0"
  shows "xdma_desc_adjacent n d =
    d\<lparr>control := (control d AND 0xf0ff) OR (0xAD4B0000 OR push_bit 8 (of_nat (adj_spec n (next_lo d))))\<rparr>"
proof (cases "n > 0")
  case True
  define x :: u32 where "x = (0x1000 - (next_lo d AND 0xFFF)) div 32 - 1"
  define e where "e = min (nat n - 1) 15"
  have e: "(if n - 1 > MAX_EXTRA_ADJ then MAX_EXTRA_ADJ else n - 1) = int e"
    using True by (auto simp: e_def MAX_EXTRA_ADJ_def)
  have x: "unat x = (0x1000 - unat (next_lo d AND 0xFFF)) div 32 - 1"
    unfolding x_def by (rule max_adj_4k_unat[OF assms])
  have "unat x < 2 ^ 31" unfolding x by simp
  then have sx: "sint x = int (unat x)" by (rule sint_small_u32)
  have "e \<le> 15" by (simp add: e_def)
  then have "unat (word_of_int (int e) :: u32) = e" by (simp add: unat_of_nat)
  then have cmp: "(word_of_int (int e) > x) = (e > unat x)" by (simp add: word_less_nat_alt)
  have m: "(if word_of_int (int e) > x then sint x else int e) = int (min e (unat x))"
    unfolding cmp sx by auto
  have s: "adj_spec n (next_lo d) = min e (unat x)"
    using True unfolding adj_spec_def x e_def by (simp only: if_True)
  show ?thesis
    unfolding xdma_desc_adjacent_def Let_def x_def[symmetric] s e m
    using True by simp
next
  case False
  then show ?thesis by (simp add: xdma_desc_adjacent_def adj_spec_def Let_def)
qed

lemma control_merge_gen:
  fixes ctl k x :: u32
  assumes "take_bit 4 x = x" "take_bit 16 k = k"
  defines "c \<equiv> (ctl AND (push_bit 12 (mask 4) OR mask 8)) OR (push_bit 16 k OR push_bit 8 x)"
  shows "drop_bit 8 c AND mask 4 = x"
    and "drop_bit 16 c = k"
    and "c AND mask 8 = ctl AND mask 8"
proof -
  have x: "bit x n \<Longrightarrow> n < 4" for n using assms(1) by (metis bit_take_bit_iff)
  have k: "bit k n \<Longrightarrow> n < 16" for n using assms(2) by (metis bit_take_bit_iff)
  show "drop_bit 8 c AND mask 4 = x"
    unfolding c_def by (rule bit_word_eqI) (auto simp: bit_simps dest: x)
  show "drop_bit 16 c = k"
    unfolding c_def by (rule bit_word_eqI) (auto simp: bit_simps dest: x k)
  show "c AND mask 8 = ctl AND mask 8"
    unfolding c_def by (rule bit_word_eqI) (auto simp: bit_simps)
qed

lemma control_merge:
  fixes ctl :: u32
  assumes "e \<le> 15"
  defines "c \<equiv> (ctl AND 0xf0ff) OR (0xAD4B0000 OR push_bit 8 (of_nat e))"
  shows "drop_bit 8 c AND 0xf = of_nat e"
    and "drop_bit 16 c = 0xAD4B"
    and "c AND 0xff = ctl AND 0xff"
proof -
  have t: "take_bit 4 (of_nat e :: u32) = of_nat e"
    using assms(1) by (simp add: take_bit_of_nat take_bit_nat_eq_self)
  have m: "(0xf0ff :: u32) = push_bit 12 (mask 4) OR mask 8" "(0xf :: u32) = mask 4"
    "(0xff :: u32) = mask 8" "(0xAD4B0000 :: u32) = push_bit 16 0xAD4B"
    by (simp_all add: mask_eq_exp_minus_1 push_bit_eq_mult)
  have k: "take_bit 16 (0xAD4B :: u32) = 0xAD4B" by simp
  show "drop_bit 8 c AND 0xf = of_nat e" "drop_bit 16 c = 0xAD4B"
    "c AND 0xff = ctl AND 0xff"
    unfolding c_def m by (rule control_merge_gen[OF t k])+
qed

lemma xdma_desc_adjacent_fields:
  assumes "unat (next_lo d AND 0xFFF) \<le> 0xFE0"
  shows "desc_adj (xdma_desc_adjacent n d) = of_nat (adj_spec n (next_lo d))"
    and "drop_bit 16 (control (xdma_desc_adjacent n d)) = 0xAD4B"
    and "control (xdma_desc_adjacent n d) AND 0xff = control d AND 0xff"
  using control_merge[OF adj_spec_le, of "control d" n "next_lo d"]
  by (simp_all add: xdma_desc_adjacent_eq[OF assms] desc_adj_def)

end
