(* ===== verification/Request.thy ===== *)
theory Request
  imports Descriptors
begin

text \<open>
  Requests and transfers: \<^verbatim>\<open>xdma_init_request\<close> cuts a mapped scatter-gather table
  into software descriptors of at most \<^verbatim>\<open>desc_blen_max\<close> bytes, \<^verbatim>\<open>transfer_init\<close>
  turns the next 2048 of them into a chain of hardware descriptors.

  The allocator is a parameter: \<^verbatim>\<open>alloc_ok\<close> says that \<^verbatim>\<open>kzalloc\<close> or \<^verbatim>\<open>vmalloc\<close>
  succeeds.  Walking past the end of the scatter-gather list is a null dereference.
\<close>

unbundle bit_operations_syntax

section \<open>Cutting a scatter-gather table\<close>

definition sg_walk :: "sg_table \<Rightarrow> (u64 \<times> u32) list option" where
  "sg_walk sgt = (if nents sgt \<le> length (sgl sgt) then Some (take (nents sgt) (sgl sgt)) else None)"

fun extra_descs :: "u32 \<Rightarrow> (u64 \<times> u32) list \<Rightarrow> u32 \<Rightarrow> u32 option" where
  "extra_descs bmax [] extra = Some extra"
| "extra_descs bmax ((a, len) # sg) extra =
     (if len > bmax then
        (if bmax = 0 then None
         else extra_descs bmax sg (extra + (len + bmax - 1) div bmax))
      else extra_descs bmax sg extra)"

definition zero_sw_desc :: sw_desc where
  "zero_sw_desc = \<lparr>sd_addr = 0, sd_len = 0\<rparr>"

definition xdma_request_alloc :: "bool \<Rightarrow> nat \<Rightarrow> xdma_request_cb option" where
  "xdma_request_alloc alloc_ok sdesc_nr =
     (if alloc_ok then
        Some \<lparr>r_sgt = \<lparr>sgl = [], nents = 0\<rparr>, r_total_len = 0, r_ep_addr = 0,
          r_xfer = zero_transfer, r_sw_desc_idx = 0, r_sw_desc_cnt = 0,
          r_sdesc = replicate sdesc_nr zero_sw_desc\<rparr>
      else None)"

function split_entry ::
  "u32 \<Rightarrow> u64 \<Rightarrow> u32 \<Rightarrow> nat \<Rightarrow> sw_desc list \<Rightarrow> (nat \<times> sw_desc list) option" where
  "split_entry bmax a tlen j ds =
     (if tlen = 0 then Some (j, ds)
      else if tlen > bmax then do {
        ds \<leftarrow> arr_mod (int j) (\<lambda>s. s\<lparr>sd_addr := a, sd_len := bmax\<rparr>) ds;
        split_entry bmax (a + ucast bmax) (tlen - bmax) (j + 1) ds
      } else do {
        ds \<leftarrow> arr_mod (int j) (\<lambda>s. s\<lparr>sd_addr := a, sd_len := tlen\<rparr>) ds;
        split_entry bmax a 0 (j + 1) ds
      })"
  by pat_completeness auto
termination
  by (relation "measure (\<lambda>(bmax, a, tlen, j, ds). length ds - j)")
    (auto simp: arr_mod_def split: if_splits)

declare split_entry.simps [simp del]

fun fill_entries ::
  "u32 \<Rightarrow> (u64 \<times> u32) list \<Rightarrow> u32 \<Rightarrow> nat \<Rightarrow> sw_desc list \<Rightarrow> (u32 \<times> nat \<times> sw_desc list) option" where
  "fill_entries bmax [] tot j ds = Some (tot, j, ds)"
| "fill_entries bmax ((a, tlen) # sg) tot j ds = do {
     let tot = tot + tlen;
     (j, ds) \<leftarrow> split_entry bmax a tlen j ds;
     fill_entries bmax sg tot j ds
   }"

definition xdma_init_request ::
  "modparams \<Rightarrow> bool \<Rightarrow> sg_table \<Rightarrow> u64 \<Rightarrow> xdma_request_cb option option" where
  "xdma_init_request mp alloc_ok sgt ep_addr = do {
     sg \<leftarrow> sg_walk sgt;
     extra \<leftarrow> extra_descs (desc_blen_max mp) sg 0;
     let max = nents sgt + unat extra;
     case xdma_request_alloc alloc_ok max of
       None \<Rightarrow> Some None
     | Some req \<Rightarrow> do {
         let req = req\<lparr>r_sgt := sgt, r_ep_addr := ep_addr\<rparr>;
         (tot, j, ds) \<leftarrow> fill_entries (desc_blen_max mp) sg (r_total_len req) 0 (r_sdesc req);
         BUG_ON (j > max);
         Some (Some (req\<lparr>r_total_len := tot, r_sw_desc_cnt := j, r_sdesc := ds\<rparr>))
       }
   }"

section \<open>Reference definition of the cut\<close>

lemma unat_diff_u32: "(b :: u32) \<le> l \<Longrightarrow> unat (l - b) = unat l - unat b"
  by (simp add: unat_sub)

text \<open>
  The pieces of one entry: consecutive, of \<^verbatim>\<open>bmax\<close> bytes but the last, which holds
  the rest.
\<close>

function pieces :: "u32 \<Rightarrow> u64 \<Rightarrow> u32 \<Rightarrow> sw_desc list" where
  "pieces bmax a len =
     (if len = 0 \<or> bmax = 0 then []
      else if len > bmax then
        \<lparr>sd_addr = a, sd_len = bmax\<rparr> # pieces bmax (a + ucast bmax) (len - bmax)
      else [\<lparr>sd_addr = a, sd_len = len\<rparr>])"
  by pat_completeness auto
termination
proof (relation "measure (\<lambda>(bmax, a, len). unat len)")
  fix bmax a len
  assume "\<not> (len = 0 \<or> bmax = (0 :: u32))" "bmax < (len :: u32)"
  then have "unat (len - bmax) < unat len"
    by (simp add: unat_diff_u32 less_imp_le unat_gt_0 word_less_nat_alt)
  then show "((bmax, a + ucast bmax, len - bmax), (bmax, a, len)) \<in> measure (\<lambda>(bmax, a, len). unat len)"
    by simp
qed simp

declare pieces.simps [simp del]

definition sd_total :: "sw_desc list \<Rightarrow> nat" where
  "sd_total ds = sum_list (map (\<lambda>s. unat (sd_len s)) ds)"

lemma sd_total_simps [simp]:
  "sd_total [] = 0" "sd_total (s # ds) = unat (sd_len s) + sd_total ds"
  "sd_total (xs @ ys) = sd_total xs + sd_total ys"
  by (simp_all add: sd_total_def)

lemma pieces_total:
  "bmax \<noteq> 0 \<Longrightarrow> sd_total (pieces bmax a len) = unat len"
proof (induction bmax a len rule: pieces.induct)
  case (1 bmax a len)
  show ?case
    using 1 by (subst pieces.simps) (auto simp: unat_diff_u32 word_less_nat_alt word_le_nat_alt)
qed

lemma pieces_len:
  "s \<in> set (pieces bmax a len) \<Longrightarrow> 0 < sd_len s \<and> sd_len s \<le> bmax"
proof (induction bmax a len rule: pieces.induct)
  case (1 bmax a len)
  show ?case
    using 1 by (subst (asm) pieces.simps) (auto simp: word_neq_0_conv split: if_splits)
qed

lemma pieces_addr:
  "k < length (pieces bmax a len) \<Longrightarrow>
   sd_addr (pieces bmax a len ! k) = a + of_nat (sd_total (take k (pieces bmax a len)))"
proof (induction bmax a len arbitrary: k rule: pieces.induct)
  case (1 bmax a len)
  have u: "(of_nat (unat bmax) :: u64) = ucast bmax" by simp
  show ?case
  proof (cases "len = 0 \<or> bmax = 0 \<or> \<not> len > bmax")
    case True
    then show ?thesis using 1(2) by (subst (asm) (1) pieces.simps) (subst pieces.simps, subst pieces.simps, auto split: if_splits)
  next
    case False
    then have p: "pieces bmax a len = \<lparr>sd_addr = a, sd_len = bmax\<rparr> # pieces bmax (a + ucast bmax) (len - bmax)"
      by (subst pieces.simps) simp
    show ?thesis
    proof (cases k)
      case (Suc k')
      then show ?thesis using 1(1)[of k'] 1(2) False by (simp add: p u)
    qed (simp add: p)
  qed
qed

lemma pieces_length:
  assumes "bmax \<noteq> 0"
  shows "length (pieces bmax a len) = (unat len + unat bmax - 1) div unat bmax"
  using assms
proof (induction bmax a len rule: pieces.induct)
  case (1 bmax a len)
  have b: "0 < unat bmax" using 1(2) by (simp add: unat_gt_0)
  consider "len = 0" | "len \<noteq> 0" "\<not> len > bmax" | "len > bmax" by auto
  then show ?case
  proof cases
    case 1
    then show ?thesis using b by (subst pieces.simps) simp
  next
    case 2
    then have "0 < unat len" "unat len \<le> unat bmax"
      by (simp_all add: unat_gt_0 word_less_nat_alt)
    then have "(unat len + unat bmax - 1) div unat bmax = 1"
      by (intro div_nat_eqI) auto
    then show ?thesis using 2 1(2) by (subst pieces.simps) simp
  next
    case 3
    then have l: "unat bmax < unat len" by (simp add: word_less_nat_alt)
    have "unat len + unat bmax - 1 = (unat len - unat bmax + unat bmax - 1) + unat bmax"
      using l b by simp
    then have "(unat len + unat bmax - 1) div unat bmax =
        Suc ((unat len - unat bmax + unat bmax - 1) div unat bmax)"
      using b by (metis Suc_eq_plus1 div_add_self2 gr_implies_not0)
    then show ?thesis
      using 1 3 by (subst pieces.simps) (auto simp: unat_diff_u32 less_imp_le)
  qed
qed

section \<open>The cut against its reference\<close>

definition put_at :: "nat \<Rightarrow> 'a list \<Rightarrow> 'a list \<Rightarrow> 'a list" where
  "put_at j ps ds = take j ds @ ps @ drop (j + length ps) ds"

lemma put_at_Nil [simp]: "put_at j [] ds = ds"
  by (simp add: put_at_def)

lemma put_at_Cons:
  "j < length ds \<Longrightarrow> put_at j (p # ps) ds = put_at (Suc j) ps (ds[j := p])"
  by (simp add: put_at_def take_Suc_conv_app_nth)

lemma put_at_length [simp]: "j + length ps \<le> length ds \<Longrightarrow> length (put_at j ps ds) = length ds"
  by (simp add: put_at_def)

lemma put_at_append:
  "j + length ps + length qs \<le> length ds \<Longrightarrow>
   put_at (j + length ps) qs (put_at j ps ds) = put_at j (ps @ qs) ds"
  by (simp add: put_at_def ac_simps)

lemma sw_desc_set [simp]:
  "s\<lparr>sd_addr := a, sd_len := l\<rparr> = \<lparr>sd_addr = a, sd_len = l\<rparr>" for s :: sw_desc
  by (cases s) simp

lemma arr_mod_out [simp]: "length xs \<le> j \<Longrightarrow> arr_mod (int j) f xs = None"
  by (simp add: arr_mod_def)

lemma split_entry_eq:
  assumes "bmax \<noteq> 0" "j \<le> length ds"
  shows "split_entry bmax a len j ds =
    (let ps = pieces bmax a len in
     if j + length ps \<le> length ds then Some (j + length ps, put_at j ps ds) else None)"
  using assms
proof (induction bmax a len arbitrary: j ds rule: pieces.induct)
  case (1 bmax a len)
  have zero: "split_entry bmax a' 0 j' ds' = Some (j', ds')" for a' j' ds'
    by (subst split_entry.simps) simp
  consider "len = 0" | "len \<noteq> 0" "\<not> len > bmax" | "len > bmax" "len \<noteq> 0" by auto
  then show ?case
  proof cases
    case 1
    then show ?thesis using zero by (subst pieces.simps) (simp add: \<open>j \<le> length ds\<close>)
  next
    case 2
    then show ?thesis using 1(2,3)
      by (cases "j < length ds"; subst pieces.simps; subst split_entry.simps)
        (auto simp: zero put_at_Cons)
  next
    case 3
    then have p: "pieces bmax a len =
        \<lparr>sd_addr = a, sd_len = bmax\<rparr> # pieces bmax (a + ucast bmax) (len - bmax)"
      using 1(2) by (subst pieces.simps) simp
    show ?thesis
    proof (cases "j < length ds")
      case True
      let ?ds = "ds[j := \<lparr>sd_addr = a, sd_len = bmax\<rparr>]"
      have "split_entry bmax a len j ds =
          split_entry bmax (a + ucast bmax) (len - bmax) (Suc j) ?ds"
        using 3 True by (subst split_entry.simps) simp
      then show ?thesis
        using 1(1)[of "Suc j" ?ds] 1(2) 3 True by (simp add: p put_at_Cons Let_def)
    next
      case False
      then show ?thesis using 3 1(3) by (subst split_entry.simps) (simp add: p)
    qed
  qed
qed

definition sg_pieces :: "u32 \<Rightarrow> (u64 \<times> u32) list \<Rightarrow> sw_desc list" where
  "sg_pieces bmax sg = concat (map (\<lambda>(a, l). pieces bmax a l) sg)"

lemma sg_pieces_simps [simp]:
  "sg_pieces bmax [] = []"
  "sg_pieces bmax ((a, l) # sg) = pieces bmax a l @ sg_pieces bmax sg"
  by (simp_all add: sg_pieces_def)

lemma fill_entries_eq:
  assumes "bmax \<noteq> 0" "j \<le> length ds"
  shows "fill_entries bmax sg tot j ds =
    (let ps = sg_pieces bmax sg in
     if j + length ps \<le> length ds
     then Some (tot + sum_list (map snd sg), j + length ps, put_at j ps ds) else None)"
  using assms
proof (induction sg arbitrary: tot j ds)
  case (Cons e sg)
  obtain a l where e: "e = (a, l)" by force
  show ?case
  proof (cases "j + length (pieces bmax a l) \<le> length ds")
    case True
    then show ?thesis
      using Cons by (auto simp: e split_entry_eq Let_def put_at_append add.assoc)
  next
    case False
    then show ?thesis using Cons.prems by (simp add: e split_entry_eq Let_def)
  qed
qed simp

lemma sg_pieces_total: "bmax \<noteq> 0 \<Longrightarrow> sd_total (sg_pieces bmax sg) = sum_list (map (unat \<circ> snd) sg)"
  by (induction sg) (auto simp: pieces_total)

lemma sg_pieces_len: "s \<in> set (sg_pieces bmax sg) \<Longrightarrow> 0 < sd_len s \<and> sd_len s \<le> bmax"
  by (auto simp: sg_pieces_def dest: pieces_len)

section \<open>The room the request allocates\<close>

definition extra_spec :: "u32 \<Rightarrow> (u64 \<times> u32) list \<Rightarrow> nat" where
  "extra_spec bmax sg =
     sum_list (map (\<lambda>(a, l). if l > bmax then (unat l + unat bmax - 1) div unat bmax else 0) sg)"

definition no_wrap :: "u32 \<Rightarrow> (u64 \<times> u32) list \<Rightarrow> bool" where
  "no_wrap bmax sg = list_all (\<lambda>(a, l). unat l + unat bmax \<le> 2 ^ 32) sg"

lemma ceil_word:
  assumes "unat l + unat b \<le> 2 ^ 32" "(b :: u32) \<noteq> 0"
  shows "(l + b - 1) div b = of_nat ((unat l + unat b - 1) div unat b)"
proof -
  have "0 < unat b" using assms by (simp add: unat_gt_0)
  then have "l + b - 1 = of_nat (unat l + unat b - 1)"
    by (simp add: of_nat_diff)
  moreover have "unat (of_nat (unat l + unat b - 1) :: u32) = unat l + unat b - 1"
    by (rule unat_of_nat_u32) (use assms \<open>0 < unat b\<close> in simp)
  ultimately have "unat ((l + b - 1) div b) = (unat l + unat b - 1) div unat b"
    by (simp add: unat_div)
  then have "(of_nat (unat ((l + b - 1) div b)) :: u32) = of_nat ((unat l + unat b - 1) div unat b)"
    by (rule arg_cong)
  then show ?thesis by simp
qed

lemma extra_descs_eq:
  assumes "bmax \<noteq> 0" "no_wrap bmax sg"
  shows "extra_descs bmax sg x = Some (x + of_nat (extra_spec bmax sg))"
  using assms
  by (induction sg arbitrary: x) (auto simp: extra_spec_def no_wrap_def ceil_word)

lemma sg_pieces_room:
  assumes "bmax \<noteq> 0"
  shows "length (sg_pieces bmax sg) \<le> length sg + extra_spec bmax sg"
proof (induction sg)
  case (Cons e sg)
  obtain a l where e: "e = (a, l)" by force
  have "length (pieces bmax a l) \<le> Suc (if l > bmax then (unat l + unat bmax - 1) div unat bmax else 0)"
    using assms by (cases "l > bmax") (simp add: pieces_length, subst pieces.simps, simp)
  then show ?case using Cons by (simp add: e extra_spec_def)
qed (simp add: extra_spec_def)

text \<open>
  The request made from a table: its software descriptors are the pieces of the
  entries in order, whenever the lengths do not wrap in the room computation.
\<close>

lemma xdma_init_request_eq:
  assumes "desc_blen_max mp \<noteq> 0" "nents sgt \<le> length (sgl sgt)"
    and sg_def: "sg = take (nents sgt) (sgl sgt)"
    and "no_wrap (desc_blen_max mp) sg" "extra_spec (desc_blen_max mp) sg < 2 ^ 32"
    and ps_def: "ps = sg_pieces (desc_blen_max mp) sg"
  shows "xdma_init_request mp True sgt ep = Some (Some
    \<lparr>r_sgt = sgt, r_total_len = sum_list (map snd sg), r_ep_addr = ep, r_xfer = zero_transfer,
      r_sw_desc_idx = 0, r_sw_desc_cnt = length ps,
      r_sdesc = ps @ replicate (nents sgt + extra_spec (desc_blen_max mp) sg - length ps) zero_sw_desc\<rparr>)"
proof -
  let ?b = "desc_blen_max mp"
  have u: "unat (of_nat (extra_spec ?b sg) :: u32) = extra_spec ?b sg"
    by (rule unat_of_nat_u32) (use assms in simp)
  have "length sg = nents sgt" using assms by (simp add: sg_def)
  then have r: "length ps \<le> nents sgt + extra_spec ?b sg"
    using sg_pieces_room[of ?b sg] assms by (simp add: ps_def)
  then show ?thesis
    using assms(1,2,4,5)
    by (simp add: xdma_init_request_def sg_walk_def sg_def[symmetric] extra_descs_eq u
        xdma_request_alloc_def fill_entries_eq ps_def[symmetric] Let_def put_at_def)
qed

section \<open>Building a transfer\<close>

fun build_loop ::
  "bool \<Rightarrow> nat \<Rightarrow> nat \<Rightarrow> xdma_request_cb \<Rightarrow> xdma_desc list \<Rightarrow>
   (xdma_request_cb \<times> xdma_desc list) option" where
  "build_loop non_incr j 0 req ds = Some (req, ds)"
| "build_loop non_incr j (Suc n) req ds = do {
     sdesc \<leftarrow> arr_get (int (r_sw_desc_idx req + j)) (r_sdesc req);
     ds \<leftarrow> arr_mod (int j)
       (xdma_desc_set (sd_addr sdesc) (r_ep_addr req) (sd_len sdesc) (t_dir (r_xfer req))) ds;
     let req = req\<lparr>r_xfer := (r_xfer req)\<lparr>t_len := t_len (r_xfer req) + sd_len sdesc\<rparr>\<rparr>;
     let req = (if non_incr then req
                else req\<lparr>r_ep_addr := r_ep_addr req + ucast (sd_len sdesc)\<rparr>);
     build_loop non_incr (j + 1) n req ds
   }"

definition transfer_build ::
  "xdma_engine \<Rightarrow> xdma_request_cb \<Rightarrow> nat \<Rightarrow> xdma_desc list \<Rightarrow>
   (xdma_request_cb \<times> xdma_desc list) option" where
  "transfer_build engine req desc_max ds = do {
     (req, ds) \<leftarrow> build_loop (e_non_incr_addr engine) 0 desc_max req ds;
     Some (req\<lparr>r_sw_desc_idx := r_sw_desc_idx req + desc_max\<rparr>, ds)
   }"

fun adjacent_loop :: "nat \<Rightarrow> nat \<Rightarrow> xdma_desc list \<Rightarrow> xdma_desc list option" where
  "adjacent_loop i 0 ds = Some ds"
| "adjacent_loop i (Suc n) ds = do {
     ds \<leftarrow> arr_mod (int i) (xdma_desc_adjacent (int n)) ds;
     adjacent_loop (i + 1) n ds
   }"

text \<open>
  The number of descriptors left is an unsigned difference in C; an index past the
  count would make it huge, so that the minimum is 2048.
\<close>

definition transfer_init ::
  "xdma_engine \<Rightarrow> xdma_request_cb \<Rightarrow> (xdma_engine \<times> xdma_request_cb) option" where
  "transfer_init engine req = do {
     let desc_max =
       (if r_sw_desc_idx req \<le> r_sw_desc_cnt req
        then min (r_sw_desc_cnt req - r_sw_desc_idx req) XDMA_TRANSFER_MAX_DESC
        else XDMA_TRANSFER_MAX_DESC);
     let xfer = zero_transfer\<lparr>t_dir := e_dir engine, t_desc_bus := e_desc_bus engine\<rparr>;
     ds \<leftarrow> e_desc engine;
     ds \<leftarrow> transfer_desc_init xfer desc_max ds;
     (req, ds) \<leftarrow> transfer_build engine (req\<lparr>r_xfer := xfer\<rparr>) desc_max ds;
     let last = int desc_max - 1;
     ds \<leftarrow> arr_mod last (xdma_desc_link None) ds;
     let ctrl = XDMA_DESC_STOPPED OR XDMA_DESC_EOP OR XDMA_DESC_COMPLETED;
     d \<leftarrow> arr_get last ds;
     d \<leftarrow> xdma_desc_control_set ctrl d;
     ds \<leftarrow> arr_mod last (\<lambda>_. d) ds;
     let xfer = (r_xfer req)\<lparr>t_desc_num := int desc_max, t_desc_adjacent := int desc_max\<rparr>;
     ds \<leftarrow> adjacent_loop 0 desc_max ds;
     Some (engine\<lparr>e_desc := Some ds\<rparr>, req\<lparr>r_xfer := xfer\<rparr>)
   }"

section \<open>The chain of a transfer\<close>

definition ep_step :: "bool \<Rightarrow> sw_desc list \<Rightarrow> u64 \<Rightarrow> u64" where
  "ep_step non_incr ss ep = (if non_incr then ep else ep + sum_list (map (\<lambda>s. ucast (sd_len s)) ss))"

definition map_range :: "nat \<Rightarrow> nat \<Rightarrow> (nat \<Rightarrow> 'a \<Rightarrow> 'a) \<Rightarrow> 'a list \<Rightarrow> 'a list" where
  "map_range i n f xs =
     map (\<lambda>k. if i \<le> k \<and> k < i + n then f k (xs ! k) else xs ! k) [0..<length xs]"

lemma map_range_length [simp]: "length (map_range i n f xs) = length xs"
  by (simp add: map_range_def)

lemma map_range_0 [simp]: "map_range i 0 f xs = xs"
  by (rule nth_equalityI) (auto simp: map_range_def)

lemma map_range_nth:
  "k < length xs \<Longrightarrow>
   map_range i n f xs ! k = (if i \<le> k \<and> k < i + n then f k (xs ! k) else xs ! k)"
  by (simp add: map_range_def)

lemma map_range_Suc:
  "i < length xs \<Longrightarrow> map_range i (Suc n) f xs = map_range (Suc i) n f (xs[i := f i (xs ! i)])"
  by (rule nth_equalityI) (auto simp: map_range_nth nth_list_update)

lemma map_range_cong:
  "(\<And>k x. i \<le> k \<Longrightarrow> k < i + n \<Longrightarrow> f k x = g k x) \<Longrightarrow> map_range i n f xs = map_range i n g xs"
  by (simp add: map_range_def)

lemma arr_get_int [simp]: "i < length xs \<Longrightarrow> arr_get (int i) xs = Some (xs ! i)"
  by (simp add: arr_get_def)

lemma build_loop_eq:
  assumes "j + n \<le> length ds" "r_sw_desc_idx req + j + n \<le> length (r_sdesc req)"
    and "ss = take n (drop (r_sw_desc_idx req + j) (r_sdesc req))"
  shows "build_loop ni j n req ds = Some
    (req\<lparr>r_xfer := (r_xfer req)\<lparr>t_len := t_len (r_xfer req) + sum_list (map sd_len ss)\<rparr>,
         r_ep_addr := ep_step ni ss (r_ep_addr req)\<rparr>,
     map_range j n (\<lambda>k. xdma_desc_set (sd_addr (ss ! (k - j)))
         (ep_step ni (take (k - j) ss) (r_ep_addr req)) (sd_len (ss ! (k - j))) (t_dir (r_xfer req))) ds)"
  using assms
proof (induction n arbitrary: j req ds ss)
  case 0
  then show ?case by (simp add: ep_step_def)
next
  case (Suc n)
  let ?s = "r_sdesc req ! (r_sw_desc_idx req + j)"
  let ?req = "let req = req\<lparr>r_xfer := (r_xfer req)\<lparr>t_len := t_len (r_xfer req) + sd_len ?s\<rparr>\<rparr> in
     if ni then req else req\<lparr>r_ep_addr := r_ep_addr req + ucast (sd_len ?s)\<rparr>"
  let ?d = "xdma_desc_set (sd_addr ?s) (r_ep_addr req) (sd_len ?s) (t_dir (r_xfer req))"
  let ?ds = "ds[j := ?d (ds ! j)]"
  define ss' where "ss' = take n (drop (r_sw_desc_idx req + Suc j) (r_sdesc req))"
  have ss: "ss = ?s # ss'"
    using Suc.prems by (simp add: ss'_def Cons_nth_drop_Suc[symmetric])
  have r: "r_sw_desc_idx ?req = r_sw_desc_idx req" "r_sdesc ?req = r_sdesc req"
    "t_dir (r_xfer ?req) = t_dir (r_xfer req)"
    "t_len (r_xfer ?req) = t_len (r_xfer req) + sd_len ?s"
    "r_ep_addr ?req = ep_step ni [?s] (r_ep_addr req)"
    by (simp_all add: Let_def ep_step_def)
  have g: "arr_get (int (r_sw_desc_idx req) + int j) (r_sdesc req) = Some ?s"
    using Suc.prems arr_get_int[of "r_sw_desc_idx req + j" "r_sdesc req"] by simp
  have "build_loop ni j (Suc n) req ds = build_loop ni (Suc j) n ?req ?ds"
    using Suc.prems by (simp add: Let_def g)
  also have "\<dots> = Some
    (?req\<lparr>r_xfer := (r_xfer ?req)\<lparr>t_len := t_len (r_xfer ?req) + sum_list (map sd_len ss')\<rparr>,
         r_ep_addr := ep_step ni ss' (r_ep_addr ?req)\<rparr>,
     map_range (Suc j) n (\<lambda>k. xdma_desc_set (sd_addr (ss' ! (k - Suc j)))
         (ep_step ni (take (k - Suc j) ss') (r_ep_addr ?req)) (sd_len (ss' ! (k - Suc j)))
         (t_dir (r_xfer ?req))) ?ds)"
    by (rule Suc.IH) (use Suc.prems in \<open>simp_all add: r ss'_def del: Let_def\<close>)
  also have "?req\<lparr>r_xfer := (r_xfer ?req)\<lparr>t_len := t_len (r_xfer ?req) + sum_list (map sd_len ss')\<rparr>,
         r_ep_addr := ep_step ni ss' (r_ep_addr ?req)\<rparr> =
      req\<lparr>r_xfer := (r_xfer req)\<lparr>t_len := t_len (r_xfer req) + sum_list (map sd_len ss)\<rparr>,
         r_ep_addr := ep_step ni ss (r_ep_addr req)\<rparr>"
    by (simp add: ss Let_def ep_step_def add.assoc)
  also have "map_range (Suc j) n (\<lambda>k. xdma_desc_set (sd_addr (ss' ! (k - Suc j)))
         (ep_step ni (take (k - Suc j) ss') (r_ep_addr ?req)) (sd_len (ss' ! (k - Suc j)))
         (t_dir (r_xfer ?req))) ?ds =
      map_range j (Suc n) (\<lambda>k. xdma_desc_set (sd_addr (ss ! (k - j)))
         (ep_step ni (take (k - j) ss) (r_ep_addr req)) (sd_len (ss ! (k - j))) (t_dir (r_xfer req))) ds"
  proof -
    have f: "ep_step ni (take (k - Suc j) ss') (ep_step ni [?s] e) = ep_step ni (take (k - j) ss) e"
      "ss' ! (k - Suc j) = ss ! (k - j)"
      if "Suc j \<le> k" for k e
      using that by (simp_all add: ss ep_step_def add.assoc take_Cons' nth_Cons' diff_Suc split: nat.splits)
    have "map_range j (Suc n) (\<lambda>k. xdma_desc_set (sd_addr (ss ! (k - j)))
         (ep_step ni (take (k - j) ss) (r_ep_addr req)) (sd_len (ss ! (k - j))) (t_dir (r_xfer req))) ds
       = map_range (Suc j) n (\<lambda>k. xdma_desc_set (sd_addr (ss ! (k - j)))
         (ep_step ni (take (k - j) ss) (r_ep_addr req)) (sd_len (ss ! (k - j))) (t_dir (r_xfer req))) ?ds"
      using Suc.prems by (subst map_range_Suc) (simp_all add: ss ep_step_def)
    also have "\<dots> = map_range (Suc j) n (\<lambda>k. xdma_desc_set (sd_addr (ss' ! (k - Suc j)))
         (ep_step ni (take (k - Suc j) ss') (r_ep_addr ?req)) (sd_len (ss' ! (k - Suc j)))
         (t_dir (r_xfer ?req))) ?ds"
      by (rule map_range_cong) (simp only: f r)
    finally show ?thesis by simp
  qed
  finally show ?case .
qed

lemma adjacent_loop_eq:
  "i + n \<le> length ds \<Longrightarrow>
   adjacent_loop i n ds = Some (map_range i n (\<lambda>k. xdma_desc_adjacent (int (i + n - 1 - k))) ds)"
  by (induction n arbitrary: i ds) (simp_all add: map_range_Suc)

definition xfer_desc ::
  "u64 \<Rightarrow> nat \<Rightarrow> bool \<Rightarrow> sw_desc list \<Rightarrow> u64 \<Rightarrow> dma_dir \<Rightarrow> nat \<Rightarrow> xdma_desc \<Rightarrow> xdma_desc" where
  "xfer_desc bus n ni ss ep dir k d =
     (let d = xdma_desc_set (sd_addr (ss ! k)) (ep_step ni (take k ss) ep) (sd_len (ss ! k)) dir
                (init_desc bus n k d);
          d = (if k + 1 = n
               then (let d = xdma_desc_link None d
                     in d\<lparr>control := (control d AND NOT LS_BYTE_MASK) OR 0x13\<rparr>)
               else d)
      in xdma_desc_adjacent (int (n - 1 - k)) d)"

lemma transfer_init_eq:
  assumes "e_desc engine = Some ds" "XDMA_TRANSFER_MAX_DESC \<le> length ds"
    and "r_sw_desc_idx req < r_sw_desc_cnt req" "r_sw_desc_cnt req \<le> length (r_sdesc req)"
    and n: "n = min (r_sw_desc_cnt req - r_sw_desc_idx req) XDMA_TRANSFER_MAX_DESC"
    and ss: "ss = take n (drop (r_sw_desc_idx req) (r_sdesc req))"
  shows "transfer_init engine req = Some
    (engine\<lparr>e_desc := Some (map_range 0 n
        (xfer_desc (e_desc_bus engine) n (e_non_incr_addr engine) ss (r_ep_addr req) (e_dir engine)) ds)\<rparr>,
     req\<lparr>r_xfer := zero_transfer\<lparr>t_dir := e_dir engine, t_desc_bus := e_desc_bus engine,
           t_len := sum_list (map sd_len ss), t_desc_num := int n, t_desc_adjacent := int n\<rparr>,
         r_ep_addr := ep_step (e_non_incr_addr engine) ss (r_ep_addr req),
         r_sw_desc_idx := r_sw_desc_idx req + n\<rparr>)"
proof -
  have n0: "0 < n" "n \<le> XDMA_TRANSFER_MAX_DESC" "n \<le> length ds"
    using assms by (auto simp: XDMA_TRANSFER_MAX_DESC_def)
  obtain m where m: "n = Suc m" using n0 by (cases n) auto
  have len: "r_sw_desc_idx req + n \<le> length (r_sdesc req)" using assms by auto
  let ?x = "zero_transfer\<lparr>t_dir := e_dir engine, t_desc_bus := e_desc_bus engine\<rparr>"
  let ?ds1 = "map_range 0 n (init_desc (e_desc_bus engine) n) ds"
  let ?f = "\<lambda>k. xdma_desc_set (sd_addr (ss ! k))
      (ep_step (e_non_incr_addr engine) (take k ss) (r_ep_addr req)) (sd_len (ss ! k)) (e_dir engine)"
  let ?ds2 = "map_range 0 n ?f ?ds1"
  let ?l = "\<lambda>d. (xdma_desc_link None d)\<lparr>control := (control (xdma_desc_link None d) AND NOT LS_BYTE_MASK) OR 0x13\<rparr>"
  let ?ds3 = "?ds2[m := ?l (?ds2 ! m)]"
  have c: "XDMA_DESC_STOPPED OR XDMA_DESC_EOP OR XDMA_DESC_COMPLETED = 0x13"
    by (simp add: const_defs)
  have i: "transfer_desc_init ?x n ds = Some ?ds1"
    using transfer_desc_init_eq[of n ds ?x] n0 by (simp add: map_range_def zero_transfer_def)
  have b: "transfer_build engine (req\<lparr>r_xfer := ?x\<rparr>) n ?ds1 = Some
     (req\<lparr>r_xfer := ?x\<lparr>t_len := sum_list (map sd_len ss)\<rparr>,
         r_ep_addr := ep_step (e_non_incr_addr engine) ss (r_ep_addr req),
         r_sw_desc_idx := r_sw_desc_idx req + n\<rparr>, ?ds2)"
    using build_loop_eq[of 0 n ?ds1 "req\<lparr>r_xfer := ?x\<rparr>" ss "e_non_incr_addr engine"] n0 len
    by (simp add: transfer_build_def ss zero_transfer_def)
  have s: "xdma_desc_control_set 0x13 d = Some (d\<lparr>control := (control d AND NOT LS_BYTE_MASK) OR 0x13\<rparr>)" for d
    by (simp add: xdma_desc_control_set_def const_defs)
  have mm: "arr_mod (int m) (xdma_desc_link None) ?ds2 = Some (?ds2[m := xdma_desc_link None (?ds2 ! m)])"
    "arr_get (int m) (?ds2[m := xdma_desc_link None (?ds2 ! m)]) = Some (xdma_desc_link None (?ds2 ! m))"
    "arr_mod (int m) (\<lambda>_. d) (?ds2[m := xdma_desc_link None (?ds2 ! m)]) = Some (?ds2[m := d])" for d
    using n0 m by simp_all
  have a: "adjacent_loop 0 n ?ds3 = Some (map_range 0 n
        (xfer_desc (e_desc_bus engine) n (e_non_incr_addr engine) ss (r_ep_addr req) (e_dir engine)) ds)"
  proof -
    have "map_range 0 n (\<lambda>k. xdma_desc_adjacent (int (n - 1 - k))) ?ds3 = map_range 0 n
        (xfer_desc (e_desc_bus engine) n (e_non_incr_addr engine) ss (r_ep_addr req) (e_dir engine)) ds"
      by (rule nth_equalityI) (auto simp: map_range_nth nth_list_update xfer_desc_def Let_def m)
    then show ?thesis using adjacent_loop_eq[of 0 n ?ds3] n0 by simp
  qed
  have d: "(if r_sw_desc_idx req \<le> r_sw_desc_cnt req
        then min (r_sw_desc_cnt req - r_sw_desc_idx req) XDMA_TRANSFER_MAX_DESC
        else XDMA_TRANSFER_MAX_DESC) = n"
    using assms by simp
  have l: "int n - 1 = int m" using m by simp
  show ?thesis
    unfolding transfer_init_def d Let_def c l
    using i b mm a by (simp add: assms(1) s zero_transfer_def)
qed

lemma aligned_page_offset:
  assumes "a AND 0x1f = (0 :: u64)"
  shows "unat ((ucast (PCI_DMA_L a) :: u32) AND 0xFFF) \<le> 0xFE0"
proof -
  have m: "(0xFFF :: u32) = mask 12" "(0x1f :: u64) = mask 5" "(0xffffffff :: u64) = mask 32"
    by (simp_all add: mask_eq_exp_minus_1)
  let ?x = "(ucast (PCI_DMA_L a) :: u32) AND 0xFFF"
  have b: "\<not> bit a i" if "i < 5" for i
  proof -
    have "bit (a AND 0x1f) i = bit a i" using that unfolding m by (simp add: bit_simps)
    then show ?thesis using assms by simp
  qed
  have "take_bit 5 ?x = 0"
    unfolding PCI_DMA_L_def m by (rule bit_word_eqI) (auto simp: bit_simps b)
  then have "take_bit 5 (unat ?x) = 0" by (metis unsigned_take_bit_eq unsigned_0)
  then have d: "32 dvd unat ?x" by (simp only: take_bit_eq_0_iff) simp
  have "?x = take_bit 12 ?x" unfolding m by (rule bit_word_eqI) (auto simp: bit_simps)
  then have "unat ?x = take_bit 12 (unat ?x)" by (metis unsigned_take_bit_eq)
  also have "\<dots> < 2 ^ 12" by (rule take_bit_nat_less_exp)
  finally have "unat ?x < 4096" by simp
  with d show ?thesis by (auto elim!: dvdE)
qed

lemma init_control_low: "control (init_desc bus n k d) AND 0xff = 0"
proof -
  have m: "(0xff :: u32) = mask 8" "DESC_MAGIC = push_bit 16 0xAD4B"
    by (simp_all add: mask_eq_exp_minus_1 DESC_MAGIC_def)
  have "(push_bit 16 y OR push_bit 8 x) AND mask 8 = 0" for x y :: u32
    by (rule bit_word_eqI) (auto simp: bit_simps)
  then have "(DESC_MAGIC OR push_bit 8 x) AND 0xff = 0" for x
    unfolding m by blast
  moreover have "DESC_MAGIC AND 0xff = 0" by (simp add: DESC_MAGIC_def)
  ultimately show ?thesis by (simp add: init_desc_def)
qed

lemma and_31_dvd: "x AND 0x1f = (0 :: u64) \<longleftrightarrow> 32 dvd unat x"
proof -
  have m: "(0x1f :: u64) = mask 5" by (simp add: mask_eq_exp_minus_1)
  have "x AND 0x1f = 0 \<longleftrightarrow> unat (take_bit 5 x) = 0"
    unfolding m take_bit_eq_mask[symmetric] by (simp only: unsigned_eq_0_iff)
  also have "unat (take_bit 5 x) = take_bit 5 (unat x)" by (rule unsigned_take_bit_eq)
  finally show ?thesis by (simp only: take_bit_eq_0_iff) simp
qed

lemma add_aligned:
  assumes "a AND 0x1f = (0 :: u64)"
  shows "(a + of_nat (32 * k)) AND 0x1f = 0"
proof -
  have "(32 :: nat) dvd 2 ^ LENGTH(64)" by simp
  then show ?thesis
    using assms unfolding and_31_dvd by (simp add: unat_word_ariths unat_of_nat dvd_mod_iff mod_add_right_eq del: of_nat_mult)
qed

lemma xfer_desc_fields:
  assumes "k < n" "bus AND 0x1f = 0"
  shows "bytes (xfer_desc bus n ni ss ep dir k d) = sd_len (ss ! k)"
    and "desc_src (xfer_desc bus n ni ss ep dir k d) =
      (if dir = DMA_TO_DEVICE then sd_addr (ss ! k) else ep_step ni (take k ss) ep)"
    and "desc_dst (xfer_desc bus n ni ss ep dir k d) =
      (if dir = DMA_TO_DEVICE then ep_step ni (take k ss) ep else sd_addr (ss ! k))"
    and "desc_next (xfer_desc bus n ni ss ep dir k d) =
      (if k + 1 < n then bus + of_nat (32 * (k + 1)) else 0)"
    and "drop_bit 16 (control (xfer_desc bus n ni ss ep dir k d)) = 0xAD4B"
    and "control (xfer_desc bus n ni ss ep dir k d) AND 0xff = (if k + 1 = n then 0x13 else 0)"
    and "desc_adj (xfer_desc bus n ni ss ep dir k d) =
      of_nat (adj_spec (int (n - 1 - k)) (ucast (PCI_DMA_L (bus + of_nat (32 * (k + 1))))))"
proof -
  let ?d1 = "xdma_desc_set (sd_addr (ss ! k)) (ep_step ni (take k ss) ep) (sd_len (ss ! k)) dir
                (init_desc bus n k d)"
  let ?d2 = "if k + 1 = n
               then (let d = xdma_desc_link None ?d1
                     in d\<lparr>control := (control d AND NOT LS_BYTE_MASK) OR 0x13\<rparr>)
               else ?d1"
  have x: "xfer_desc bus n ni ss ep dir k d = xdma_desc_adjacent (int (n - 1 - k)) ?d2"
    by (simp add: xfer_desc_def Let_def)
  have nl: "next_lo ?d2 = (if k + 1 < n then ucast (PCI_DMA_L (bus + of_nat (32 * (k + 1)))) else 0)"
    using assms(1)
    by (auto simp: Let_def xdma_desc_link_def xdma_desc_set_def init_desc_def)
  have al: "unat (next_lo ?d2 AND 0xFFF) \<le> 0xFE0"
    unfolding nl using aligned_page_offset[OF add_aligned[OF assms(2), of "k + 1"]] by simp
  note eq = xdma_desc_adjacent_eq[OF al, of "int (n - 1 - k)"]
  have fr: "bytes ?d2 = bytes ?d1" "desc_src ?d2 = desc_src ?d1" "desc_dst ?d2 = desc_dst ?d1"
    "desc_next ?d2 = (if k + 1 = n then 0 else desc_next ?d1)"
    by (simp_all add: Let_def xdma_desc_link_def desc_src_def desc_dst_def desc_next_def)
  have ad: "bytes (xdma_desc_adjacent m e) = bytes e" "desc_src (xdma_desc_adjacent m e) = desc_src e"
    "desc_dst (xdma_desc_adjacent m e) = desc_dst e" "desc_next (xdma_desc_adjacent m e) = desc_next e"
    for m e
    by (simp_all add: xdma_desc_adjacent_def Let_def desc_src_def desc_dst_def desc_next_def)
  show "bytes (xfer_desc bus n ni ss ep dir k d) = sd_len (ss ! k)"
    "desc_src (xfer_desc bus n ni ss ep dir k d) =
      (if dir = DMA_TO_DEVICE then sd_addr (ss ! k) else ep_step ni (take k ss) ep)"
    "desc_dst (xfer_desc bus n ni ss ep dir k d) =
      (if dir = DMA_TO_DEVICE then ep_step ni (take k ss) ep else sd_addr (ss ! k))"
    unfolding x ad fr by (simp_all add: desc_set_addresses)
  show "desc_next (xfer_desc bus n ni ss ep dir k d) =
      (if k + 1 < n then bus + of_nat (32 * (k + 1)) else 0)"
    unfolding x ad fr desc_set_addresses using assms(1)
    by (auto simp: init_desc_def desc_next_def addr_split_join)
  show "drop_bit 16 (control (xfer_desc bus n ni ss ep dir k d)) = 0xAD4B"
    unfolding x by (rule xdma_desc_adjacent_fields(2)[OF al])
  have w: "(x AND - 256 OR 0x13) AND 0xff = (0x13 :: u32)" for x
  proof -
    have "(x AND - 256) AND (0xff :: u32) = 0" by (simp add: and.assoc)
    then show ?thesis by (simp add: bit.conj_disj_distrib2)
  qed
  show "control (xfer_desc bus n ni ss ep dir k d) AND 0xff = (if k + 1 = n then 0x13 else 0)"
    unfolding x xdma_desc_adjacent_fields(3)[OF al]
    by (simp add: Let_def LS_BYTE_MASK_def w desc_set_addresses init_control_low)
  have "adj_spec (int (n - 1 - k)) (next_lo ?d2) =
      adj_spec (int (n - 1 - k)) (ucast (PCI_DMA_L (bus + of_nat (32 * (k + 1)))))"
    unfolding nl using assms(1) by (auto simp: adj_spec_def)
  then show "desc_adj (xfer_desc bus n ni ss ep dir k d) =
      of_nat (adj_spec (int (n - 1 - k)) (ucast (PCI_DMA_L (bus + of_nat (32 * (k + 1))))))"
    unfolding x xdma_desc_adjacent_fields(1)[OF al] by simp
qed

lemma adj_in_page:
  assumes "unat (nlo AND 0xFFF) \<le> 0xFE0"
  shows "unat (nlo AND 0xFFF) + 32 * (adj_spec n nlo + 1) \<le> 0x1000"
proof -
  define m where "m = unat (nlo AND 0xFFF)"
  define q where "q = (0x1000 - m) div 32"
  have "32 div 32 \<le> (0x1000 - m) div 32" by (rule div_le_mono) (use assms in \<open>simp add: m_def\<close>)
  then have "1 \<le> q" by (simp add: q_def)
  moreover have "32 * q \<le> 0x1000 - m" unfolding q_def by (rule times_div_less_eq_dividend)
  moreover have "adj_spec n nlo \<le> q - 1" unfolding q_def m_def adj_spec_def by simp
  moreover have "m \<le> 0xFE0" using assms by (simp add: m_def)
  ultimately have "adj_spec n nlo + 1 \<le> q" "32 * q + m \<le> 0x1000" by simp_all
  moreover from this(1) have "32 * (adj_spec n nlo + 1) \<le> 32 * q" by (rule mult_le_mono2)
  ultimately show ?thesis unfolding m_def[symmetric] by simp
qed

lemma unat_adj_spec: "unat (of_nat (adj_spec n nlo) :: u32) = adj_spec n nlo"
  using adj_spec_le[of n nlo] by (intro unat_of_nat_u32) simp

lemma adj_in_chain: "k + 1 < n \<Longrightarrow> k + 1 + adj_spec (int (n - 1 - k)) nlo < n"
  by (auto simp: adj_spec_def)

text \<open>The descriptors a transfer puts in the array of its engine.\<close>

lemma transfer_init_descs:
  assumes "e_desc e = Some ds" "XDMA_TRANSFER_MAX_DESC \<le> length ds"
    and "r_sw_desc_idx req < r_sw_desc_cnt req" "r_sw_desc_cnt req \<le> length (r_sdesc req)"
    and "n = min (r_sw_desc_cnt req - r_sw_desc_idx req) XDMA_TRANSFER_MAX_DESC"
    and "transfer_init e req = Some (e', req')" "k < n"
  shows "\<exists>ds'. e_desc e' = Some ds' \<and> length ds' = length ds \<and>
    ds' ! k = xfer_desc (e_desc_bus e) n (e_non_incr_addr e)
      (take n (drop (r_sw_desc_idx req) (r_sdesc req))) (r_ep_addr req) (e_dir e) k (ds ! k)"
proof -
  have "n \<le> XDMA_TRANSFER_MAX_DESC" unfolding assms(5) by simp
  then have k: "k < length ds" using assms(2,7) by linarith
  show ?thesis
    using transfer_init_eq[OF assms(1-5) refl] assms(6,7) k by (auto simp: map_range_nth)
qed

end
