(* ===== verification/Engine.thy ===== *)
theory Engine
  imports Request
begin

text \<open>
  The SG DMA engine: interrupt masks, status, start and stop, the queue of
  transfers (\<^verbatim>\<open>transfer_queue\<close>, \<^verbatim>\<open>transfer_abort\<close>, \<^verbatim>\<open>engine_cyclic_stop\<close>), the
  performance counters and the alignment register.  The engine lock is held by the
  callers during these functions, so each is one step; engine pointers are never
  null here, since an engine is a value.
\<close>

unbundle bit_operations_syntax

section \<open>Addresses\<close>

definition ereg :: "xdma_engine \<Rightarrow> engine_reg \<Rightarrow> addr" where
  "ereg engine r = reg_addr engine_regs (e_regs engine) r"

definition sreg :: "xdma_engine \<Rightarrow> sgdma_reg \<Rightarrow> addr" where
  "sreg engine r = reg_addr engine_sgdma_regs (e_sgdma_regs engine) r"

definition config_bar :: "xdma_dev \<Rightarrow> addr option" where
  "config_bar d = Option.bind (arr_get (d_config_bar_idx d) (d_bar d)) id"

definition ireg :: "addr \<Rightarrow> interrupt_reg \<Rightarrow> addr" where
  "ireg bar r = reg_addr interrupt_regs (bar + XDMA_OFS_INT_CTRL) r"

section \<open>Interrupt masks\<close>

definition channel_interrupts_enable :: "xdma_dev \<Rightarrow> u32 \<Rightarrow> world \<Rightarrow> world option" where
  "channel_interrupts_enable d m w = do {
     bar \<leftarrow> config_bar d;
     Some (write_register m (ireg bar IR_channel_int_enable_w1s) w)
   }"

definition channel_interrupts_disable :: "xdma_dev \<Rightarrow> u32 \<Rightarrow> world \<Rightarrow> world option" where
  "channel_interrupts_disable d m w = do {
     bar \<leftarrow> config_bar d;
     Some (write_register m (ireg bar IR_channel_int_enable_w1c) w)
   }"

definition user_interrupts_enable :: "xdma_dev \<Rightarrow> u32 \<Rightarrow> world \<Rightarrow> world option" where
  "user_interrupts_enable d m w = do {
     bar \<leftarrow> config_bar d;
     Some (write_register m (ireg bar IR_user_int_enable_w1s) w)
   }"

definition user_interrupts_disable :: "xdma_dev \<Rightarrow> u32 \<Rightarrow> world \<Rightarrow> world option" where
  "user_interrupts_disable d m w = do {
     bar \<leftarrow> config_bar d;
     Some (write_register m (ireg bar IR_user_int_enable_w1c) w)
   }"

definition read_interrupts :: "xdma_dev \<Rightarrow> world \<Rightarrow> (u32 \<times> world) option" where
  "read_interrupts d w = do {
     bar \<leftarrow> config_bar d;
     let (hi, w) = read_register (ireg bar IR_user_int_request) w;
     let (lo, w) = read_register (ireg bar IR_channel_int_request) w;
     Some (build_u32 hi lo, w)
   }"

definition check_nonzero_interrupt_status :: "xdma_dev \<Rightarrow> world \<Rightarrow> world option" where
  "check_nonzero_interrupt_status d w = do {
     bar \<leftarrow> config_bar d;
     Some (fold (\<lambda>r w. snd (read_register (ireg bar r) w))
       [IR_user_int_enable, IR_channel_int_enable, IR_user_int_request,
        IR_channel_int_request, IR_user_int_pending, IR_channel_int_pending] w)
   }"

section \<open>Performance counters\<close>

definition enable_perf :: "xdma_engine \<Rightarrow> world \<Rightarrow> world" where
  "enable_perf engine w =
     (let w = write_register XDMA_PERF_CLEAR (ereg engine ER_perf_ctrl) w;
          w = snd (read_register (ereg engine ER_identifier) w);
          w = write_register (XDMA_PERF_AUTO OR XDMA_PERF_RUN) (ereg engine ER_perf_ctrl) w
      in snd (read_register (ereg engine ER_identifier) w))"

definition get_perf_stats :: "xdma_engine \<Rightarrow> world \<Rightarrow> xdma_engine \<times> world" where
  "get_perf_stats engine w =
     (case e_xdma_perf engine of
        None \<Rightarrow> (engine, w)
      | Some p \<Rightarrow>
          let (lo, w) = read_register (ereg engine ER_completed_desc_count) w;
              p = p\<lparr>p_iterations := ucast (build_u64 0 (ucast lo))\<rparr>;
              (hi, w) = read_register (ereg engine ER_perf_cyc_hi) w;
              (lo, w) = read_register (ereg engine ER_perf_cyc_lo) w;
              p = p\<lparr>p_clock_cycle_count := build_u64 (ucast hi) (ucast lo)\<rparr>;
              (hi, w) = read_register (ereg engine ER_perf_dat_hi) w;
              (lo, w) = read_register (ereg engine ER_perf_dat_lo) w;
              p = p\<lparr>p_data_cycle_count := build_u64 (ucast hi) (ucast lo)\<rparr>;
              (hi, w) = read_register (ereg engine ER_perf_pnd_hi) w;
              (lo, w) = read_register (ereg engine ER_perf_pnd_lo) w;
              p = p\<lparr>p_pending_count := build_u64 (ucast hi) (ucast lo)\<rparr>
          in (engine\<lparr>e_xdma_perf := Some p\<rparr>, w))"

section \<open>Status\<close>

definition engine_reg_dump :: "xdma_engine \<Rightarrow> world \<Rightarrow> world" where
  "engine_reg_dump engine w =
     (let (v, w) = read_register (ereg engine ER_identifier) w in
      if v AND BLOCK_ID_MASK \<noteq> BLOCK_ID_HEAD then w
      else fold (\<lambda>a w. snd (read_register a w))
        [ereg engine ER_status, ereg engine ER_control,
         sreg engine SG_first_desc_lo, sreg engine SG_first_desc_hi,
         sreg engine SG_first_desc_adjacent,
         ereg engine ER_completed_desc_count, ereg engine ER_interrupt_enable_mask] w)"

text \<open>
  \<^verbatim>\<open>engine_status_dump\<close> prints the status into a buffer of 256 bytes.  The model
  returns the text without the final zero byte: \<^verbatim>\<open>append\<close> is the effect of
  \<^verbatim>\<open>sprintf(buf + len, ...)\<close>, which writes the text and one zero byte, and
  \<^verbatim>\<open>set_last\<close> is the assignment to \<^verbatim>\<open>buf[len - 1]\<close>.
\<close>

fun hex_digits :: "nat \<Rightarrow> nat \<Rightarrow> string" where
  "hex_digits 0 v = []"
| "hex_digits (Suc k) v = hex_digits k (v div 16) @ [''0123456789abcdef'' ! (v mod 16)]"

definition set_last :: "char \<Rightarrow> string \<Rightarrow> string" where
  "set_last c s = butlast s @ [c]"

definition append_if :: "u32 \<Rightarrow> u32 \<Rightarrow> string \<Rightarrow> string \<Rightarrow> string" where
  "append_if v m t s = (if v AND m \<noteq> 0 then s @ t else s)"

definition status_prefix :: "xdma_engine \<Rightarrow> string" where
  "status_prefix engine =
     ''SG engine '' @ e_name engine @ '' status: 0x'' @ hex_digits 8 (unat (e_status engine)) @ '': ''"

definition dump_common :: "u32 \<Rightarrow> string \<Rightarrow> string" where
  "dump_common v s =
     (let s = append_if v XDMA_STAT_BUSY ''BUSY,'' s;
          s = append_if v XDMA_STAT_DESC_STOPPED ''DESC_STOPPED,'' s;
          s = append_if v XDMA_STAT_DESC_COMPLETED ''DESC_COMPL,'' s
      in if v AND XDMA_STAT_COMMON_ERR_MASK \<noteq> 0 then
           (let s = append_if v XDMA_STAT_ALIGN_MISMATCH ''ALIGN_MISMATCH '' s;
                s = append_if v XDMA_STAT_MAGIC_STOPPED ''MAGIC_STOPPED '' s;
                s = append_if v XDMA_STAT_INVALID_LEN ''INVLIAD_LEN '' s;
                s = append_if v XDMA_STAT_IDLE_STOPPED ''IDLE_STOPPED '' s
            in set_last CHR '','' s)
         else s)"

definition dump_h2c :: "u32 \<Rightarrow> string \<Rightarrow> string" where
  "dump_h2c v s =
     (let s = (if v AND XDMA_STAT_H2C_R_ERR_MASK \<noteq> 0 then
                 (let s = s @ ''R:'';
                      s = append_if v (push_bit 9 1) ''UNSUPP_REQ '' s;
                      s = append_if v (push_bit 10 1) ''COMPL_ABORT '' s;
                      s = append_if v (push_bit 11 1) ''PARITY '' s;
                      s = append_if v (push_bit 12 1) ''HEADER_EP '' s;
                      s = append_if v (push_bit 13 1) ''UNEXP_COMPL '' s
                  in set_last CHR '','' s)
               else s)
      in if v AND XDMA_STAT_H2C_W_ERR_MASK \<noteq> 0 then
           (let s = s @ ''W:'';
                s = append_if v (push_bit 14 1) ''DECODE_ERR '' s;
                s = append_if v (push_bit 15 1) ''SLAVE_ERR '' s
            in set_last CHR '','' s)
         else s)"

definition dump_c2h :: "u32 \<Rightarrow> string \<Rightarrow> string" where
  "dump_c2h v s =
     (if v AND XDMA_STAT_C2H_R_ERR_MASK \<noteq> 0 then
        (let s = s @ ''R:'';
             s = append_if v (push_bit 9 1) ''DECODE_ERR '' s;
             s = append_if v (push_bit 10 1) ''SLAVE_ERR '' s
         in set_last CHR '','' s)
      else s)"

definition dump_desc_err :: "u32 \<Rightarrow> string \<Rightarrow> string" where
  "dump_desc_err v s =
     (if v AND XDMA_STAT_DESC_ERR_MASK \<noteq> 0 then
        (let s = s @ ''DESC_ERR:'';
             s = append_if v (push_bit 19 1) ''UNSUPP_REQ '' s;
             s = append_if v (push_bit 20 1) ''COMPL_ABORT '' s;
             s = append_if v (push_bit 21 1) ''PARITY '' s;
             s = append_if v (push_bit 22 1) ''HEADER_EP '' s;
             s = append_if v (push_bit 23 1) ''UNEXP_COMPL '' s
         in set_last CHR '','' s)
      else s)"

definition engine_status_text :: "xdma_engine \<Rightarrow> string" where
  "engine_status_text engine =
     (let v = e_status engine;
          s = dump_common v (status_prefix engine);
          s = (if e_dir engine = DMA_TO_DEVICE then dump_h2c v s else dump_c2h v s)
      in dump_desc_err v s)"

text \<open>The bytes written into the buffer: the text and the zero byte of the last \<^verbatim>\<open>sprintf\<close>.\<close>

definition engine_status_dump :: "xdma_engine \<Rightarrow> string option" where
  "engine_status_dump engine =
     (let s = engine_status_text engine
      in if length s + 1 > 256 then None else Some (butlast s))"

definition engine_status_read ::
  "xdma_engine \<Rightarrow> bool \<Rightarrow> bool \<Rightarrow> world \<Rightarrow> (u32 \<times> xdma_engine \<times> world) option" where
  "engine_status_read engine clear dump w = do {
     let w = (if dump then engine_reg_dump engine w else w);
     let (v, w) = (if clear then read_register (ereg engine ER_status_rc) w
                   else read_register (ereg engine ER_status) w);
     let engine = engine\<lparr>e_status := v\<rparr>;
     _ \<leftarrow> (if dump then engine_status_dump engine else Some []);
     Some (v, engine, w)
   }"

section \<open>Start and stop\<close>

definition stop_control :: "modparams \<Rightarrow> xdma_engine \<Rightarrow> u32" where
  "stop_control mp engine =
     (let w = XDMA_CTRL_IE_DESC_ALIGN_MISMATCH OR XDMA_CTRL_IE_MAGIC_STOPPED OR
              XDMA_CTRL_IE_READ_ERROR OR XDMA_CTRL_IE_DESC_ERROR
      in if poll_mode mp then w OR XDMA_CTRL_POLL_MODE_WB
         else (let w = w OR XDMA_CTRL_IE_DESC_STOPPED OR XDMA_CTRL_IE_DESC_COMPLETED
               in if (e_streaming engine \<and> e_dir engine = DMA_FROM_DEVICE) \<or>
                     e_xdma_perf engine \<noteq> None
                  then w OR XDMA_CTRL_IE_IDLE_STOPPED else w))"

definition xdma_engine_stop :: "modparams \<Rightarrow> xdma_engine \<Rightarrow> world \<Rightarrow> world" where
  "xdma_engine_stop mp engine w = write_register (stop_control mp engine) (ereg engine ER_control) w"

definition start_control :: "modparams \<Rightarrow> xdma_engine \<Rightarrow> u32" where
  "start_control mp engine =
     (let w = XDMA_CTRL_RUN_STOP OR XDMA_CTRL_IE_READ_ERROR OR XDMA_CTRL_IE_DESC_ERROR OR
              XDMA_CTRL_IE_DESC_ALIGN_MISMATCH OR XDMA_CTRL_IE_MAGIC_STOPPED
      in if poll_mode mp then w OR XDMA_CTRL_POLL_MODE_WB
         else (let w = w OR XDMA_CTRL_IE_DESC_STOPPED OR XDMA_CTRL_IE_DESC_COMPLETED;
                   w = (if (e_streaming engine \<and> e_dir engine = DMA_FROM_DEVICE) \<or>
                           e_xdma_perf engine \<noteq> None
                        then w OR XDMA_CTRL_IE_IDLE_STOPPED else w)
               in if e_non_incr_addr engine then w OR XDMA_CTRL_NON_INCR_ADDR else w))"

definition perf_interrupts :: u32 where
  "perf_interrupts = XDMA_CTRL_IE_DESC_STOPPED OR XDMA_CTRL_IE_DESC_COMPLETED OR
     XDMA_CTRL_IE_DESC_ALIGN_MISMATCH OR XDMA_CTRL_IE_MAGIC_STOPPED OR
     XDMA_CTRL_IE_IDLE_STOPPED OR XDMA_CTRL_IE_READ_ERROR OR XDMA_CTRL_IE_DESC_ERROR"

definition engine_start_mode_config :: "modparams \<Rightarrow> xdma_engine \<Rightarrow> world \<Rightarrow> world" where
  "engine_start_mode_config mp engine w =
     (let w = (if e_xdma_perf engine \<noteq> None
               then write_register perf_interrupts (ereg engine ER_interrupt_enable_mask) w else w);
          w = write_register (start_control mp engine) (ereg engine ER_control) w
      in snd (read_register (ereg engine ER_status) w))"

text \<open>The first entry of a list: the list head itself is no transfer, so an empty list stops.\<close>

definition list_first :: "'a list \<Rightarrow> 'a option" where
  "list_first xs = (case xs of [] \<Rightarrow> None | x # _ \<Rightarrow> Some x)"

definition list_del_first :: "'a list \<Rightarrow> 'a list option" where
  "list_del_first xs = (case xs of [] \<Rightarrow> None | _ # ys \<Rightarrow> Some ys)"

definition first_extra_adj :: "xdma_transfer \<Rightarrow> int" where
  "first_extra_adj t =
     (if t_desc_adjacent t > 0 then
        (let extra_adj = t_desc_adjacent t - 1
         in if extra_adj > MAX_EXTRA_ADJ then MAX_EXTRA_ADJ else extra_adj)
      else 0)"

definition engine_start ::
  "modparams \<Rightarrow> xdma_engine \<Rightarrow> world \<Rightarrow> (nat \<times> xdma_engine \<times> world) option" where
  "engine_start mp engine w = do {
     BUG_ON (e_running engine);
     BUG_ON (e_transfer_list engine = []);
     transfer \<leftarrow> list_first (e_transfer_list engine);
     let engine = engine\<lparr>e_shutdown := ENGINE_SHUTDOWN_NONE\<rparr>;
     let engine = engine\<lparr>e_desc_dequeued := 0\<rparr>;
     let t = xfers w transfer;
     let w = write_register (ucast (PCI_DMA_L (t_desc_bus t))) (sreg engine SG_first_desc_lo) w;
     let w = write_register (ucast (PCI_DMA_H (t_desc_bus t))) (sreg engine SG_first_desc_hi) w;
     let w = write_register (word_of_int (first_extra_adj t)) (sreg engine SG_first_desc_adjacent) w;
     let w = engine_start_mode_config mp engine w;
     (_, engine, w) \<leftarrow> engine_status_read engine False False w;
     let engine = engine\<lparr>e_running := True\<rparr>;
     Some (transfer, engine, w)
   }"

definition engine_service_shutdown ::
  "modparams \<Rightarrow> xdma_engine \<Rightarrow> world \<Rightarrow> xdma_engine \<times> world" where
  "engine_service_shutdown mp engine w =
     (let w = xdma_engine_stop mp engine w;
          engine = engine\<lparr>e_running := False\<rparr>;
          w = kcall WakeShutdown w
      in (engine, w))"

section \<open>The queue of transfers\<close>

definition transfer_abort ::
  "xdma_engine \<Rightarrow> nat \<Rightarrow> world \<Rightarrow> (xdma_engine \<times> world) option" where
  "transfer_abort engine transfer w = do {
     BUG_ON (t_desc_num (xfers w transfer) = 0);
     let engine =
       (case e_transfer_list engine of
          head # rest \<Rightarrow> (if head = transfer then engine\<lparr>e_transfer_list := rest\<rparr> else engine)
        | [] \<Rightarrow> engine);
     let w = (if t_state (xfers w transfer) = TRANSFER_STATE_SUBMITTED
              then upd_xfer transfer (\<lambda>t. t\<lparr>t_state := TRANSFER_STATE_ABORTED\<rparr>) w else w);
     Some (engine, w)
   }"

definition transfer_queue ::
  "modparams \<Rightarrow> xdma_dev \<Rightarrow> xdma_engine \<Rightarrow> nat \<Rightarrow> world \<Rightarrow> (int \<times> xdma_engine \<times> world) option" where
  "transfer_queue mp xdev engine transfer w = do {
     BUG_ON (t_desc_num (xfers w transfer) = 0);
     (offline, xdev) \<leftarrow> xdma_device_flag_check xdev XDEV_FLAG_OFFLINE;
     if offline then Some (- EBUSY, engine, w)
     else if e_shutdown engine AND ENGINE_SHUTDOWN_REQUEST \<noteq> 0 then Some (- EBUSY, engine, w)
     else do {
       let w = upd_xfer transfer (\<lambda>t. t\<lparr>t_state := TRANSFER_STATE_SUBMITTED\<rparr>) w;
       let engine = engine\<lparr>e_transfer_list := e_transfer_list engine @ [transfer]\<rparr>;
       if \<not> e_running engine then do {
         (_, engine, w) \<leftarrow> engine_start mp engine w;
         Some (0, engine, w)
       } else Some (0, engine, w)
     }
   }"

text \<open>
  Stopping a cyclic transfer sets the control bits of its last descriptor, in the
  array of the engine.  Returns the transfer that was at the head.
\<close>

definition engine_cyclic_stop ::
  "modparams \<Rightarrow> xdma_engine \<Rightarrow> world \<Rightarrow> (nat option \<times> xdma_engine \<times> world) option" where
  "engine_cyclic_stop mp engine w =
     (case e_transfer_list engine of
        [] \<Rightarrow> Some (None, engine, w)
      | transfer # _ \<Rightarrow> do {
          let w = xdma_engine_stop mp engine w;
          if t_cyclic (xfers w transfer) then do {
            let w = upd_xfer transfer (\<lambda>t. t\<lparr>t_cyclic := True\<rparr>) w;
            ds \<leftarrow> e_desc engine;
            let last = t_desc_num (xfers w transfer) - 1;
            d \<leftarrow> arr_get last ds;
            d \<leftarrow> xdma_desc_control_set (XDMA_DESC_COMPLETED OR XDMA_DESC_STOPPED) d;
            ds \<leftarrow> arr_mod last (\<lambda>_. d) ds;
            Some (Some transfer, engine\<lparr>e_desc := Some ds\<rparr>, w)
          } else Some (Some transfer, engine, w)
        })"

section \<open>Alignment\<close>

definition engine_alignments :: "xdma_engine \<Rightarrow> world \<Rightarrow> xdma_engine \<times> world" where
  "engine_alignments engine w =
     (let (v, w) = read_register (ereg engine ER_alignments) w;
          align_bytes = drop_bit 16 (v AND 0x00ff0000);
          granularity_bytes = drop_bit 8 (v AND 0x0000ff00);
          address_bits = v AND 0x000000ff
      in if v \<noteq> 0 then
           (engine\<lparr>e_addr_align := align_bytes, e_len_granularity := granularity_bytes,
                   e_addr_bits := address_bits\<rparr>, w)
         else (engine\<lparr>e_addr_align := 1, e_len_granularity := 1, e_addr_bits := 64\<rparr>, w))"

text \<open>The user's word is a parameter: \<^verbatim>\<open>None\<close> when \<^verbatim>\<open>get_user\<close> fails with \<^verbatim>\<open>-EFAULT\<close>.\<close>

definition engine_addrmode_set ::
  "xdma_engine \<Rightarrow> u64 option \<Rightarrow> world \<Rightarrow> int \<times> xdma_engine \<times> world" where
  "engine_addrmode_set engine user w =
     (let (rv, engine, w) =
        (case user of
           Some dst \<Rightarrow>
             (let engine = engine\<lparr>e_non_incr_addr := (dst \<noteq> 0)\<rparr>;
                  w = (if e_non_incr_addr engine
                       then write_register XDMA_CTRL_NON_INCR_ADDR (ereg engine ER_control_w1s) w
                       else write_register XDMA_CTRL_NON_INCR_ADDR (ereg engine ER_control_w1c) w)
              in (0, engine, w))
         | None \<Rightarrow> (- EFAULT, engine, w));
          (engine, w) = engine_alignments engine w
      in (rv, engine, w))"

section \<open>Lemmas on start and stop\<close>

lemma control_run_bit:
  "stop_control mp engine AND XDMA_CTRL_RUN_STOP = 0"
  "start_control mp engine AND XDMA_CTRL_RUN_STOP = XDMA_CTRL_RUN_STOP"
  by (simp_all add: stop_control_def start_control_def const_defs Let_def)

lemma start_is_stop_plus_run:
  "start_control mp engine =
     stop_control mp engine OR XDMA_CTRL_RUN_STOP OR
     (if \<not> poll_mode mp \<and> e_non_incr_addr engine then XDMA_CTRL_NON_INCR_ADDR else 0)"
  by (simp add: stop_control_def start_control_def const_defs Let_def)

lemma engine_stop_writes [simp]:
  "writes (xdma_engine_stop mp engine w) = writes w @ [(ereg engine ER_control, stop_control mp engine)]"
  "xfers (xdma_engine_stop mp engine w) = xfers w"
  "ktrace (xdma_engine_stop mp engine w) = ktrace w"
  "hw (xdma_engine_stop mp engine w) = hw w"
  by (simp_all add: xdma_engine_stop_def)

definition start_writes :: "modparams \<Rightarrow> xdma_engine \<Rightarrow> xdma_transfer \<Rightarrow> (addr \<times> u32) list" where
  "start_writes mp engine t =
     [(sreg engine SG_first_desc_lo, ucast (PCI_DMA_L (t_desc_bus t))),
      (sreg engine SG_first_desc_hi, ucast (PCI_DMA_H (t_desc_bus t))),
      (sreg engine SG_first_desc_adjacent, word_of_int (first_extra_adj t))] @
     (if e_xdma_perf engine \<noteq> None
      then [(ereg engine ER_interrupt_enable_mask, perf_interrupts)] else []) @
     [(ereg engine ER_control, start_control mp engine)]"

lemma first_extra_adj_range: "0 \<le> first_extra_adj t \<and> first_extra_adj t \<le> 15"
  by (simp add: first_extra_adj_def MAX_EXTRA_ADJ_def Let_def)

lemma regs_frame [simp]:
  "ereg (engine\<lparr>e_shutdown := a\<rparr>) r = ereg engine r" "sreg (engine\<lparr>e_shutdown := a\<rparr>) q = sreg engine q"
  "ereg (engine\<lparr>e_desc_dequeued := b\<rparr>) r = ereg engine r"
  "sreg (engine\<lparr>e_desc_dequeued := b\<rparr>) q = sreg engine q"
  "ereg (engine\<lparr>e_running := c\<rparr>) r = ereg engine r"
  "ereg (engine\<lparr>e_status := d\<rparr>) r = ereg engine r" "sreg (engine\<lparr>e_status := d\<rparr>) q = sreg engine q"
  "ereg (engine\<lparr>e_transfer_list := l\<rparr>) r = ereg engine r"
  "sreg (engine\<lparr>e_transfer_list := l\<rparr>) q = sreg engine q"
  by (simp_all add: ereg_def sreg_def)

lemma control_frame [simp]:
  "start_control mp (engine\<lparr>e_shutdown := a\<rparr>) = start_control mp engine"
  "start_control mp (engine\<lparr>e_desc_dequeued := b\<rparr>) = start_control mp engine"
  "start_control mp (engine\<lparr>e_transfer_list := l\<rparr>) = start_control mp engine"
  "start_control mp (engine\<lparr>e_status := d\<rparr>) = start_control mp engine"
  by (simp_all add: start_control_def Let_def)

lemma engine_status_read_nodump:
  "engine_status_read engine clear False w =
     (let (v, w') = read_register (ereg engine (if clear then ER_status_rc else ER_status)) w
      in Some (v, engine\<lparr>e_status := v\<rparr>, w'))"
  by (simp add: engine_status_read_def Let_def split: prod.splits)

lemma engine_start_eq_Some:
  assumes "engine_start mp engine w = Some (t, engine', w')"
  shows "\<not> e_running engine" "\<exists>ts. e_transfer_list engine = t # ts"
    "\<exists>v. engine' = engine\<lparr>e_shutdown := ENGINE_SHUTDOWN_NONE, e_desc_dequeued := 0,
        e_status := v, e_running := True\<rparr>"
    "writes w' = writes w @ start_writes mp engine (xfers w t)"
    "xfers w' = xfers w" "ktrace w' = ktrace w" "hw w' = hw w"
  using assms
  by (auto simp: engine_start_def engine_status_read_nodump Let_def engine_start_mode_config_def
      start_writes_def list_first_def split: if_splits prod.splits list.splits
      dest!: arg_cong[of "read_register _ _" _ snd])

lemma engine_start_None:
  "engine_start mp engine w = None \<longleftrightarrow> e_running engine \<or> e_transfer_list engine = []"
  by (auto simp: engine_start_def engine_status_read_nodump list_first_def Let_def
      split: prod.splits list.splits)

section \<open>The queue is first in, first out\<close>

text \<open>
  The contract of a queue that is served from its head: what the driver relies on
  when it waits for its own transfer behind the earlier ones.
\<close>

locale fifo_queue =
  fixes items :: "'s \<Rightarrow> 'a list"
    and enq :: "'a \<Rightarrow> 's \<Rightarrow> 's"
    and deq :: "'s \<Rightarrow> 's option"
  assumes items_enq: "items (enq x s) = items s @ [x]"
    and deq_None: "deq s = None \<longleftrightarrow> items s = []"
    and items_deq: "deq s = Some s' \<Longrightarrow> items s' = tl (items s)"
begin

lemma items_fold: "items (fold enq xs s) = items s @ xs"
  by (induction xs arbitrary: s) (simp_all add: items_enq)

lemma deq_enq_comm:
  "items s \<noteq> [] \<Longrightarrow> \<exists>s1 s2. deq s = Some s1 \<and> deq (enq x s) = Some s2 \<and> items (enq x s1) = items s2"
proof -
  assume ne: "items s \<noteq> []"
  then obtain s1 where s1: "deq s = Some s1" using deq_None by fastforce
  have "items (enq x s) \<noteq> []" by (simp add: items_enq)
  then obtain s2 where s2: "deq (enq x s) = Some s2" using deq_None by fastforce
  show ?thesis using s1 s2 items_deq[OF s1] items_deq[OF s2] ne by (simp add: items_enq)
qed

lemma head_stable: "items s \<noteq> [] \<Longrightarrow> hd (items (enq x s)) = hd (items s)"
  by (simp add: items_enq)

end

definition enqueue_transfer :: "nat \<Rightarrow> xdma_engine \<Rightarrow> xdma_engine" where
  "enqueue_transfer x engine = engine\<lparr>e_transfer_list := e_transfer_list engine @ [x]\<rparr>"

definition dequeue_transfer :: "xdma_engine \<Rightarrow> xdma_engine option" where
  "dequeue_transfer engine = do {
     rest \<leftarrow> list_del_first (e_transfer_list engine);
     Some (engine\<lparr>e_transfer_list := rest\<rparr>)
   }"

interpretation eq: fifo_queue e_transfer_list enqueue_transfer dequeue_transfer
  by unfold_locales
    (auto simp: enqueue_transfer_def dequeue_transfer_def list_del_first_def split: list.splits)

lemma transfer_queue_refused:
  assumes "\<not> d_lock xdev" "t_desc_num (xfers w i) \<noteq> 0"
    and "d_flags xdev AND XDEV_FLAG_OFFLINE \<noteq> 0 \<or> e_shutdown engine AND ENGINE_SHUTDOWN_REQUEST \<noteq> 0"
  shows "transfer_queue mp xdev engine i w = Some (- EBUSY, engine, w)"
  using assms by (auto simp: transfer_queue_def flag_check_eq)

lemma transfer_queue_running:
  assumes "\<not> d_lock xdev" "t_desc_num (xfers w i) \<noteq> 0"
    and "d_flags xdev AND XDEV_FLAG_OFFLINE = 0" "e_shutdown engine AND ENGINE_SHUTDOWN_REQUEST = 0"
    and "e_running engine"
  shows "transfer_queue mp xdev engine i w = Some (0, enqueue_transfer i engine,
     upd_xfer i (\<lambda>t. t\<lparr>t_state := TRANSFER_STATE_SUBMITTED\<rparr>) w)"
  using assms by (simp add: transfer_queue_def flag_check_eq enqueue_transfer_def)

lemma transfer_queue_idle:
  assumes "\<not> d_lock xdev" "t_desc_num (xfers w i) \<noteq> 0"
    and "d_flags xdev AND XDEV_FLAG_OFFLINE = 0" "e_shutdown engine AND ENGINE_SHUTDOWN_REQUEST = 0"
    and "\<not> e_running engine"
  shows "\<exists>engine' w'. transfer_queue mp xdev engine i w = Some (0, engine', w') \<and>
     e_running engine' \<and> e_transfer_list engine' = e_transfer_list engine @ [i] \<and>
     e_desc_dequeued engine' = 0 \<and> e_shutdown engine' = ENGINE_SHUTDOWN_NONE \<and>
     xfers w' = (xfers w)(i := (xfers w i)\<lparr>t_state := TRANSFER_STATE_SUBMITTED\<rparr>) \<and>
     writes w' = writes w @ start_writes mp engine
        ((xfers w' (hd (e_transfer_list engine'))))"
proof -
  let ?w = "upd_xfer i (\<lambda>t. t\<lparr>t_state := TRANSFER_STATE_SUBMITTED\<rparr>) w"
  let ?e = "engine\<lparr>e_transfer_list := e_transfer_list engine @ [i]\<rparr>"
  have "engine_start mp ?e ?w \<noteq> None" using assms(5) by (simp add: engine_start_None)
  then obtain t e' w' where s: "engine_start mp ?e ?w = Some (t, e', w')" by auto
  note st = engine_start_eq_Some[OF s]
  obtain v where v: "e' = ?e\<lparr>e_shutdown := ENGINE_SHUTDOWN_NONE, e_desc_dequeued := 0,
        e_status := v, e_running := True\<rparr>" using st(3) by blast
  have "start_writes mp ?e = start_writes mp engine" by (simp add: start_writes_def fun_eq_iff)
  then show ?thesis
    using assms s st(2,4,5) by (auto simp: transfer_queue_def flag_check_eq v)
qed

section \<open>The status buffer\<close>

lemma hex_digits_length [simp]: "length (hex_digits k v) = k"
  by (induction k arbitrary: v) simp_all

lemma set_last_length [simp]: "s \<noteq> [] \<Longrightarrow> length (set_last c s) = length s"
  by (simp add: set_last_def)

lemma set_last_ne [simp]: "set_last c s \<noteq> []"
  by (simp add: set_last_def)

lemma append_if_ne [simp]: "s \<noteq> [] \<Longrightarrow> append_if v m t s \<noteq> []"
  by (simp add: append_if_def)

lemma append_if_le: "length (append_if v m t s) \<le> length s + length t"
  by (simp add: append_if_def)

lemma append_if_le_trans: "length s + length t \<le> n \<Longrightarrow> length (append_if v m t s) \<le> n"
  using append_if_le by (rule order_trans)

lemma append_if_all [simp]: "m \<noteq> 0 \<Longrightarrow> append_if (- 1) m t s = s @ t"
  by (simp add: append_if_def)

lemma status_prefix_ne [simp]: "status_prefix engine \<noteq> []"
  by (simp add: status_prefix_def)

lemma status_prefix_length: "length (status_prefix engine) = 31 + length (e_name engine)"
  by (simp add: status_prefix_def)

lemma dump_common_le:
  assumes "s \<noteq> []"
  shows "length (dump_common v s) \<le> length s + 83" "dump_common v s \<noteq> []"
  unfolding dump_common_def Let_def using assms
  by (simp_all add: append_if_def)

lemma dump_c2h_le:
  assumes "s \<noteq> []"
  shows "length (dump_c2h v s) \<le> length s + 23" "dump_c2h v s \<noteq> []"
  unfolding dump_c2h_def Let_def using assms
  by (simp_all add: append_if_def)

lemma dump_h2c_le:
  assumes "s \<noteq> []"
  shows "length (dump_h2c v s) \<le> length s + 77" "dump_h2c v s \<noteq> []"
  unfolding dump_h2c_def Let_def using assms
  by (simp_all add: append_if_def)

lemma dump_desc_err_le:
  assumes "s \<noteq> []"
  shows "length (dump_desc_err v s) \<le> length s + 61"
  unfolding dump_desc_err_def Let_def using assms
  by (simp_all add: append_if_def)

lemma status_text_c2h_le:
  assumes "e_dir engine \<noteq> DMA_TO_DEVICE"
  shows "length (engine_status_text engine) \<le> 198 + length (e_name engine)"
proof -
  let ?p = "status_prefix engine" and ?v = "e_status engine"
  have "length (dump_desc_err ?v (dump_c2h ?v (dump_common ?v ?p))) \<le> length ?p + 83 + 23 + 61"
    using dump_common_le[of ?p ?v] dump_c2h_le[of "dump_common ?v ?p" ?v]
      dump_desc_err_le[of "dump_c2h ?v (dump_common ?v ?p)" ?v] by simp
  then show ?thesis
    using assms by (simp add: engine_status_text_def status_prefix_length Let_def)
qed

lemma status_text_h2c_all_ones:
  assumes "e_dir engine = DMA_TO_DEVICE" "e_status engine = - 1"
  shows "length (engine_status_text engine) = 252 + length (e_name engine)"
proof -
  have c: "s \<noteq> [] \<Longrightarrow> length (dump_common (- 1) s) = length s + 83 \<and> dump_common (- 1) s \<noteq> []" for s
    by (simp add: dump_common_def Let_def const_defs)
  have h: "s \<noteq> [] \<Longrightarrow> length (dump_h2c (- 1) s) = length s + 77 \<and> dump_h2c (- 1) s \<noteq> []" for s
    by (simp add: dump_h2c_def Let_def const_defs)
  have d: "s \<noteq> [] \<Longrightarrow> length (dump_desc_err (- 1) s) = length s + 61" for s
    by (simp add: dump_desc_err_def Let_def const_defs)
  show ?thesis
    using assms by (simp add: engine_status_text_def Let_def c h d status_prefix_length)
qed

lemma status_dump_c2h_ok:
  "e_dir engine \<noteq> DMA_TO_DEVICE \<Longrightarrow> length (e_name engine) \<le> 57 \<Longrightarrow>
   engine_status_dump engine = Some (butlast (engine_status_text engine))"
  using status_text_c2h_le[of engine] by (simp add: engine_status_dump_def Let_def)

lemma status_dump_h2c_overflow:
  "e_dir engine = DMA_TO_DEVICE \<Longrightarrow> e_status engine = - 1 \<Longrightarrow> 4 \<le> length (e_name engine) \<Longrightarrow>
   engine_status_dump engine = None"
  by (simp add: engine_status_dump_def Let_def status_text_h2c_all_ones)

end
