(* ===== verification/DevList.thy ===== *)
theory DevList
  imports Engine
begin

text \<open>
  The list of probed devices and the check of a device handle (libxdma.c, device
  management).  A device is known by its address; the table holds the devices, the
  list and its RCU copy.
\<close>

record devtab =
  dt_devs :: "nat \<Rightarrow> xdma_dev"
  dt_list :: "nat list"
  dt_rcu :: "nat list"

definition upd_dev :: "nat \<Rightarrow> (xdma_dev \<Rightarrow> xdma_dev) \<Rightarrow> devtab \<Rightarrow> devtab" where
  "upd_dev h f tab = tab\<lparr>dt_devs := (dt_devs tab)(h := f (dt_devs tab h))\<rparr>"

definition xdev_list_add :: "nat \<Rightarrow> devtab \<Rightarrow> devtab" where
  "xdev_list_add h tab =
     (let idx = (if dt_list tab = [] then 0 else d_idx (dt_devs tab (last (dt_list tab))) + 1);
          tab = upd_dev h (\<lambda>d. d\<lparr>d_idx := idx\<rparr>) tab;
          tab = tab\<lparr>dt_list := dt_list tab @ [h]\<rparr>
      in tab\<lparr>dt_rcu := dt_rcu tab @ [h]\<rparr>)"

definition xdev_list_remove :: "nat \<Rightarrow> devtab \<Rightarrow> devtab" where
  "xdev_list_remove h tab =
     (let tab = tab\<lparr>dt_list := remove1 h (dt_list tab)\<rparr>
      in tab\<lparr>dt_rcu := remove1 h (dt_rcu tab)\<rparr>)"

definition xdev_find_by_pdev :: "nat \<Rightarrow> devtab \<Rightarrow> nat option" where
  "xdev_find_by_pdev pdev tab = List.find (\<lambda>h. d_pdev (dt_devs tab h) = pdev) (dt_list tab)"

definition debug_check_dev_hndl :: "nat option \<Rightarrow> nat \<Rightarrow> devtab \<Rightarrow> int" where
  "debug_check_dev_hndl pdev hndl tab =
     (case pdev of
        None \<Rightarrow> - EINVAL
      | Some p \<Rightarrow>
          (case xdev_find_by_pdev p tab of
             None \<Rightarrow> - EINVAL
           | Some h \<Rightarrow> if h \<noteq> hndl then - EINVAL else 0))"

section \<open>The list is well formed\<close>

text \<open>Indices grow along the list, PCI devices differ, and both lists agree.\<close>

definition devtab_wf :: "devtab \<Rightarrow> bool" where
  "devtab_wf tab \<longleftrightarrow>
     distinct (dt_list tab) \<and> dt_rcu tab = dt_list tab \<and>
     sorted_wrt (<) (map (\<lambda>h. d_idx (dt_devs tab h)) (dt_list tab)) \<and>
     distinct (map (\<lambda>h. d_pdev (dt_devs tab h)) (dt_list tab)) \<and>
     (\<forall>h \<in> set (dt_list tab). 0 \<le> d_idx (dt_devs tab h))"

lemma upd_dev_other [simp]: "g \<noteq> h \<Longrightarrow> dt_devs (upd_dev h f tab) g = dt_devs tab g"
  by (simp add: upd_dev_def)

lemma upd_dev_same [simp]: "dt_devs (upd_dev h f tab) h = f (dt_devs tab h)"
  by (simp add: upd_dev_def)

lemma upd_dev_lists [simp]:
  "dt_list (upd_dev h f tab) = dt_list tab" "dt_rcu (upd_dev h f tab) = dt_rcu tab"
  by (simp_all add: upd_dev_def)

lemma list_add_fields:
  "dt_list (xdev_list_add h tab) = dt_list tab @ [h]"
  "dt_rcu (xdev_list_add h tab) = dt_rcu tab @ [h]"
  "g \<noteq> h \<Longrightarrow> dt_devs (xdev_list_add h tab) g = dt_devs tab g"
  "d_pdev (dt_devs (xdev_list_add h tab) h) = d_pdev (dt_devs tab h)"
  "d_idx (dt_devs (xdev_list_add h tab) h) =
     (if dt_list tab = [] then 0 else d_idx (dt_devs tab (last (dt_list tab))) + 1)"
  by (simp_all add: xdev_list_add_def Let_def)

lemma sorted_last_max:
  "sorted_wrt (<) xs \<Longrightarrow> x \<in> set xs \<Longrightarrow> (x :: int) \<le> last xs"
  by (induction xs rule: rev_induct) (auto simp: sorted_wrt_append)

lemma devtab_wf_add:
  assumes "devtab_wf tab" "h \<notin> set (dt_list tab)"
    and "\<forall>g \<in> set (dt_list tab). d_pdev (dt_devs tab g) \<noteq> d_pdev (dt_devs tab h)"
  shows "devtab_wf (xdev_list_add h tab)"
proof -
  let ?t = "xdev_list_add h tab" and ?l = "dt_list tab"
  have idx: "map (\<lambda>g. d_idx (dt_devs ?t g)) ?l = map (\<lambda>g. d_idx (dt_devs tab g)) ?l"
    and pd: "map (\<lambda>g. d_pdev (dt_devs ?t g)) ?l = map (\<lambda>g. d_pdev (dt_devs tab g)) ?l"
    using assms(2) by (auto intro!: list_add_fields(3)[THEN arg_cong])
  have less: "x < d_idx (dt_devs ?t h)" if "x \<in> set (map (\<lambda>g. d_idx (dt_devs tab g)) ?l)" for x
  proof -
    have ne: "?l \<noteq> []" using that by auto
    have "x \<le> last (map (\<lambda>g. d_idx (dt_devs tab g)) ?l)"
      using sorted_last_max[OF _ that] assms(1) by (simp add: devtab_wf_def)
    then show ?thesis using ne by (simp add: list_add_fields last_map)
  qed
  have "0 \<le> d_idx (dt_devs ?t h)"
    using assms(1) by (auto simp: devtab_wf_def list_add_fields)
  moreover have "d_idx (dt_devs ?t g) = d_idx (dt_devs tab g)" if "g \<in> set ?l" for g
    using that assms(2) by (metis list_add_fields(3))
  ultimately show ?thesis
    using assms less
    unfolding devtab_wf_def list_add_fields(1,2) map_append idx pd sorted_wrt_append
    by (auto simp: list_add_fields(4))
qed

lemma sorted_wrt_remove1: "sorted_wrt P (map f xs) \<Longrightarrow> sorted_wrt P (map f (remove1 h xs))"
  by (induction xs) (auto dest: set_remove1_subset[THEN subsetD])

lemma devtab_wf_remove:
  assumes "devtab_wf tab"
  shows "devtab_wf (xdev_list_remove h tab)"
proof -
  have d: "dt_devs (xdev_list_remove h tab) = dt_devs tab"
    "dt_list (xdev_list_remove h tab) = remove1 h (dt_list tab)"
    "dt_rcu (xdev_list_remove h tab) = remove1 h (dt_rcu tab)"
    by (simp_all add: xdev_list_remove_def Let_def)
  have "distinct (map f (remove1 h xs))" if "distinct (map f xs)" for f and xs :: "nat list"
    using that by (induction xs) (auto dest: set_remove1_subset[THEN subsetD])
  then show ?thesis
    using assms unfolding devtab_wf_def d
    by (auto intro: sorted_wrt_remove1 dest: set_remove1_subset[THEN subsetD])
qed

lemma find_unique:
  assumes "devtab_wf tab" "h \<in> set (dt_list tab)"
  shows "xdev_find_by_pdev (d_pdev (dt_devs tab h)) tab = Some h"
proof -
  have f: "List.find (\<lambda>g. f g = f h) xs = Some h" if "distinct (map f xs)" "h \<in> set xs"
    for f :: "nat \<Rightarrow> nat" and xs
    using that by (induction xs) auto
  show ?thesis
    using assms f[of "\<lambda>g. d_pdev (dt_devs tab g)" "dt_list tab"]
    by (simp add: xdev_find_by_pdev_def devtab_wf_def)
qed

lemma find_removed:
  assumes "devtab_wf tab"
  shows "xdev_find_by_pdev (d_pdev (dt_devs tab h)) (xdev_list_remove h tab) \<noteq> Some h"
  using assms
  by (auto simp: xdev_find_by_pdev_def xdev_list_remove_def Let_def find_Some_iff devtab_wf_def
      dest!: nth_mem)

lemma check_handle_iff:
  assumes "devtab_wf tab"
  shows "debug_check_dev_hndl (Some p) h tab = 0 \<longleftrightarrow>
    h \<in> set (dt_list tab) \<and> d_pdev (dt_devs tab h) = p"
proof -
  have "xdev_find_by_pdev p tab = Some h \<longleftrightarrow> h \<in> set (dt_list tab) \<and> d_pdev (dt_devs tab h) = p"
    using find_unique[OF assms, of h]
    by (auto simp: xdev_find_by_pdev_def find_Some_iff dest: nth_mem)
  then show ?thesis by (auto simp: debug_check_dev_hndl_def split: option.splits)
qed

end
