(* ===== verification/Service.thy ===== *)
theory Service
  imports Engine
begin

text \<open>
  Servicing an engine: completing the transfers the hardware has finished, the
  final transfer, restarting the engine, and the two ways servicing is entered
  (deferred work after an interrupt, polling of the writeback word).  The cyclic
  receive ring of a C2H stream engine is processed here too.
\<close>

unbundle bit_operations_syntax

section \<open>Completing transfers\<close>

definition engine_transfer_completion :: "nat option \<Rightarrow> world \<Rightarrow> nat option \<times> world" where
  "engine_transfer_completion transfer w =
     (case transfer of
        None \<Rightarrow> (None, w)
      | Some t \<Rightarrow> (Some t, kcall (WakeTransfer t) w))"

text \<open>
  The loop over all but the last transfer.  The number of descriptors left is
  unsigned, and so is its comparison with the count of the transfer.
\<close>

function service_list_loop ::
  "xdma_engine \<Rightarrow> nat option \<Rightarrow> u32 \<Rightarrow> world \<Rightarrow> (nat option \<times> u32 \<times> xdma_engine \<times> world) option" where
  "service_list_loop engine transfer pdesc w =
     (case transfer of
        None \<Rightarrow> Some (None, pdesc, engine, w)
      | Some t \<Rightarrow>
          if \<not> t_cyclic (xfers w t) \<and> pdesc > word_of_int (t_desc_num (xfers w t)) then do {
            let n = t_desc_num (xfers w t);
            let pdesc = pdesc - word_of_int n;
            rest \<leftarrow> list_del_first (e_transfer_list engine);
            let engine = engine\<lparr>e_transfer_list := rest, e_desc_dequeued := e_desc_dequeued engine + n\<rparr>;
            let w = upd_xfer t (\<lambda>x. x\<lparr>t_state := TRANSFER_STATE_COMPLETED\<rparr>) w;
            let (_, w) = engine_transfer_completion (Some t) w;
            service_list_loop engine (list_first rest) pdesc w
          } else Some (Some t, pdesc, engine, w))"
  by pat_completeness auto
termination
  by (relation "measure (\<lambda>(engine, _). length (e_transfer_list engine))")
    (auto simp: list_del_first_def split: list.splits)

declare service_list_loop.simps [simp del]

definition engine_service_transfer_list ::
  "xdma_engine \<Rightarrow> nat option \<Rightarrow> u32 \<Rightarrow> world \<Rightarrow> (nat option \<times> u32 \<times> xdma_engine \<times> world) option" where
  "engine_service_transfer_list engine transfer pdesc w = service_list_loop engine transfer pdesc w"

definition engine_err_handle ::
  "modparams \<Rightarrow> xdma_engine \<Rightarrow> nat \<Rightarrow> world \<Rightarrow> world" where
  "engine_err_handle mp engine transfer w =
     (let w = (if e_status engine AND XDMA_STAT_BUSY \<noteq> 0
               then snd (read_register (ereg engine ER_status) w) else w);
          w = upd_xfer transfer (\<lambda>t. t\<lparr>t_state := TRANSFER_STATE_FAILED\<rparr>) w
      in xdma_engine_stop mp engine w)"

definition status_has_error :: "xdma_engine \<Rightarrow> bool" where
  "status_has_error engine \<longleftrightarrow>
     (e_dir engine = DMA_FROM_DEVICE \<and> e_status engine AND XDMA_STAT_C2H_ERR_MASK \<noteq> 0) \<or>
     (e_dir engine = DMA_TO_DEVICE \<and> e_status engine AND XDMA_STAT_H2C_ERR_MASK \<noteq> 0)"

definition engine_service_final_transfer ::
  "modparams \<Rightarrow> xdma_engine \<Rightarrow> nat option \<Rightarrow> u32 \<Rightarrow> world \<Rightarrow> (nat option \<times> xdma_engine \<times> world) option" where
  "engine_service_final_transfer mp engine transfer pdesc w =
     (case transfer of
        None \<Rightarrow> Some (None, engine, w)
      | Some t \<Rightarrow> do {
          w \<leftarrow> (if status_has_error engine then do {
                  _ \<leftarrow> engine_status_dump engine;
                  Some (engine_err_handle mp engine t w)
                } else if pdesc < word_of_int (t_desc_num (xfers w t)) then
                  Some (upd_xfer t (\<lambda>x. x\<lparr>t_state := TRANSFER_STATE_FAILED\<rparr>) w)
                else Some (upd_xfer t (\<lambda>x. x\<lparr>t_state := TRANSFER_STATE_COMPLETED\<rparr>) w));
          rest \<leftarrow> list_del_first (e_transfer_list engine);
          let engine = engine\<lparr>e_transfer_list := rest,
                e_desc_dequeued := e_desc_dequeued engine + t_desc_num (xfers w t)\<rparr>;
          let (transfer, w) = engine_transfer_completion (Some t) w;
          Some (transfer, engine, w)
        })"

definition engine_service_perf ::
  "xdma_engine \<Rightarrow> u32 \<Rightarrow> world \<Rightarrow> xdma_engine \<times> world" where
  "engine_service_perf engine desc_completed w =
     (case e_xdma_perf engine of
        None \<Rightarrow> (engine, w)
      | Some p \<Rightarrow>
          let p = (if e_status engine AND XDMA_STAT_DESC_COMPLETED \<noteq> 0
                   then p\<lparr>p_iterations := desc_completed\<rparr> else p);
              (p, w) = (if e_status engine AND XDMA_STAT_DESC_STOPPED \<noteq> 0
                        then (p\<lparr>p_stopped := 1\<rparr>, kcall WakePerf w) else (p, w))
          in (engine\<lparr>e_xdma_perf := Some p\<rparr>, w))"

definition engine_service_resume ::
  "modparams \<Rightarrow> xdma_engine \<Rightarrow> world \<Rightarrow> (xdma_engine \<times> world) option" where
  "engine_service_resume mp engine w =
     (if \<not> e_running engine then
        (if e_transfer_list engine \<noteq> [] then do {
           (_, engine, w) \<leftarrow> engine_start mp engine w;
           Some (engine, w)
         } else if e_shutdown engine AND ENGINE_SHUTDOWN_REQUEST \<noteq> 0 then
           Some (engine\<lparr>e_shutdown := e_shutdown engine OR ENGINE_SHUTDOWN_IDLE\<rparr>, kcall WakeShutdown w)
         else Some (engine, w))
      else Some (engine, w))"

text \<open>
  The writeback word is device memory that the CPU clears before the engine is
  started again; in poll mode it must be mapped.
\<close>

definition clear_writeback :: "modparams \<Rightarrow> xdma_engine \<Rightarrow> world \<Rightarrow> world option" where
  "clear_writeback mp engine w =
     (if poll_mode mp then do {
        wb \<leftarrow> e_poll_mode_addr_virt engine;
        Some (write_register 0 wb w)
      } else Some w)"

text \<open>
  The first half of \<^verbatim>\<open>engine_service\<close> for a running engine: read and clear the status
  unless polling has already seen the completion, de-assert RUN when the engine is
  idle, fetch the number of completed descriptors, look at the head of the queue.
\<close>

definition service_enter ::
  "modparams \<Rightarrow> xdma_engine \<Rightarrow> u32 \<Rightarrow> world \<Rightarrow> (u32 \<times> nat option \<times> xdma_engine \<times> world) option" where
  "service_enter mp engine desc_writeback w = do {
     let desc_count = desc_writeback AND WB_COUNT_MASK;
     let err_flag = desc_writeback AND WB_ERR_MASK;
     (engine, w) \<leftarrow>
       (if desc_count = 0 \<or> err_flag \<noteq> 0 then do {
          (_, engine, w) \<leftarrow> engine_status_read engine True False w;
          Some (engine, w)
        } else Some (engine, w));
     let (engine, w) =
       (if (e_running engine \<and> e_status engine AND XDMA_STAT_BUSY = 0) \<or> desc_count \<noteq> 0
        then engine_service_shutdown mp engine w else (engine, w));
     let (desc_count, w) =
       (if desc_count = 0 then read_register (ereg engine ER_completed_desc_count) w
        else (desc_count, w));
     let (transfer, engine, w) =
       (case e_transfer_list engine of
          [] \<Rightarrow> (None, engine, w)
        | t # _ \<Rightarrow> (let (engine, w) = engine_service_perf engine desc_count w
                   in (Some t, engine, w)));
     Some (desc_count, transfer, engine, w)
   }"

text \<open>
  The code computes \<^verbatim>\<open>rv = -1\<close> from the error bit of the writeback word and then
  returns 0 on every path, so the result here is 0.
\<close>

definition engine_service ::
  "modparams \<Rightarrow> xdma_engine \<Rightarrow> u32 \<Rightarrow> world \<Rightarrow> (int \<times> xdma_engine \<times> world) option" where
  "engine_service mp engine desc_writeback w =
     (if \<not> e_running engine then do {
        (_, engine, w) \<leftarrow> engine_status_read engine True False w;
        Some (0, engine, w)
      } else do {
        (desc_count, transfer, engine, w) \<leftarrow> service_enter mp engine desc_writeback w;
        let desc_count = desc_count - word_of_int (e_desc_dequeued engine);
        (transfer, desc_count, engine, w) \<leftarrow> engine_service_transfer_list engine transfer desc_count w;
        (transfer, engine, w) \<leftarrow> engine_service_final_transfer mp engine transfer desc_count w;
        w \<leftarrow> clear_writeback mp engine w;
        (engine, w) \<leftarrow> engine_service_resume mp engine w;
        Some (0, engine, w)
      })"

section \<open>The cyclic receive ring\<close>

text \<open>
  The compared pointer is the address of the transfer embedded in the cyclic
  request; without a request the address is not that of any queued transfer.
\<close>

definition engine_transfer_dequeue :: "xdma_engine \<Rightarrow> xdma_engine" where
  "engine_transfer_dequeue engine =
     (case e_transfer_list engine of
        [] \<Rightarrow> engine
      | transfer # rest \<Rightarrow>
          if e_cyclic_req engine \<noteq> Some transfer then engine
          else engine\<lparr>e_transfer_list := rest\<rparr>)"

text \<open>
  The scan for newly received results.  It has no bound of its own in the code: it
  stops at the first result without status or when the tail meets the head.
\<close>

partial_function (option) ring_loop ::
  "xdma_result list \<Rightarrow> int \<Rightarrow> int \<Rightarrow> bool \<Rightarrow> int \<Rightarrow> (int \<times> bool \<times> int) option" where
  "ring_loop result rx_head rx_tail rx_overrun eop_count =
     Option.bind (arr_get rx_tail result) (\<lambda>r.
       if res_status r \<noteq> 0 \<and> \<not> rx_overrun then
         ring_loop result rx_head ((rx_tail + 1) mod CYCLIC_RX_PAGES_MAX)
           ((rx_tail + 1) mod CYCLIC_RX_PAGES_MAX = rx_head)
           (if res_status r AND RX_STATUS_EOP \<noteq> 0 then eop_count + 1 else eop_count)
       else Some (rx_tail, rx_overrun, eop_count))"

definition engine_ring_process :: "xdma_engine \<Rightarrow> (int \<times> xdma_engine) option" where
  "engine_ring_process engine = do {
     result \<leftarrow> e_cyclic_result engine;
     (tail, overrun, eop_count) \<leftarrow>
       ring_loop result (e_rx_head engine) (e_rx_tail engine) (e_rx_overrun engine) 0;
     Some (eop_count, engine\<lparr>e_rx_tail := tail, e_rx_overrun := overrun\<rparr>)
   }"

definition cyclic_engine_stopped :: "modparams \<Rightarrow> xdma_engine \<Rightarrow> world \<Rightarrow> xdma_engine \<times> world" where
  "cyclic_engine_stopped mp engine w =
     (if e_running engine \<and> e_status engine AND XDMA_STAT_BUSY = 0 then
        (let engine = (if e_transfer_list engine \<noteq> [] then engine_transfer_dequeue engine else engine)
         in engine_service_shutdown mp engine w)
      else (engine, w))"

definition engine_service_cyclic_interrupt ::
  "modparams \<Rightarrow> xdma_engine \<Rightarrow> world \<Rightarrow> (int \<times> xdma_engine \<times> world) option" where
  "engine_service_cyclic_interrupt mp engine w = do {
     BUG_ON (e_magic engine \<noteq> MAGIC_ENGINE);
     (_, engine, w) \<leftarrow> engine_status_read engine True False w;
     (eop_count, engine) \<leftarrow> engine_ring_process engine;
     xfer \<leftarrow> e_cyclic_req engine;
     let (engine, w) =
       (if enable_credit_mp mp then (engine, kcall (WakeTransfer xfer) w)
        else if eop_count > 0 then
          (engine\<lparr>e_eop_found := True\<rparr>, kcall (WakeTransfer xfer) w)
        else (engine, w));
     let (engine, w) = cyclic_engine_stopped mp engine w;
     Some (0, engine, w)
   }"

text \<open>
  The polling variant loops until a packet ends or the writeback word has the error
  bit.  The device fills the results while the loop runs: \<^verbatim>\<open>dma n\<close> is what it does to
  the result array before the ring is scanned for the \<^verbatim>\<open>n\<close>-th time.  The loop has no
  bound in the code, so it runs on fuel here; the result is \<^verbatim>\<open>None\<close> without fuel.
\<close>

fun cyclic_poll_loop ::
  "nat \<Rightarrow> (nat \<Rightarrow> xdma_result list \<Rightarrow> xdma_result list) \<Rightarrow> nat \<Rightarrow> int \<Rightarrow> xdma_engine \<Rightarrow> world \<Rightarrow>
   (int \<times> int \<times> xdma_engine \<times> world) option" where
  "cyclic_poll_loop 0 dma n eop_count engine w = None"
| "cyclic_poll_loop (Suc fuel) dma n eop_count engine w =
     (if eop_count = 0 then do {
        wb \<leftarrow> e_poll_mode_addr_virt engine;
        let (v, w) = read_register wb w;
        if v AND WB_ERR_MASK \<noteq> 0 then Some (- 1, eop_count, engine, w)
        else do {
          let engine = engine\<lparr>e_cyclic_result := map_option (dma n) (e_cyclic_result engine)\<rparr>;
          (eop_count, engine) \<leftarrow> engine_ring_process engine;
          cyclic_poll_loop fuel dma (n + 1) eop_count engine w
        }
      } else Some (0, eop_count, engine, w))"

definition engine_service_cyclic_polled ::
  "nat \<Rightarrow> (nat \<Rightarrow> xdma_result list \<Rightarrow> xdma_result list) \<Rightarrow> modparams \<Rightarrow> xdma_engine \<Rightarrow> world \<Rightarrow>
   (int \<times> xdma_engine \<times> world) option" where
  "engine_service_cyclic_polled fuel dma mp engine w = do {
     BUG_ON (e_magic engine \<noteq> MAGIC_ENGINE);
     (rc, eop_count, engine, w) \<leftarrow> cyclic_poll_loop fuel dma 0 0 engine w;
     if eop_count = 0 then do {
       (_, engine, w) \<leftarrow> engine_status_read engine True False w;
       let (engine, w) = cyclic_engine_stopped mp engine w;
       Some (rc, engine, w)
     } else Some (rc, engine, w)
   }"

definition engine_service_cyclic ::
  "nat \<Rightarrow> (nat \<Rightarrow> xdma_result list \<Rightarrow> xdma_result list) \<Rightarrow> modparams \<Rightarrow> xdma_engine \<Rightarrow> world \<Rightarrow>
   (int \<times> xdma_engine \<times> world) option" where
  "engine_service_cyclic fuel dma mp engine w = do {
     BUG_ON (e_magic engine \<noteq> MAGIC_ENGINE);
     if poll_mode mp then engine_service_cyclic_polled fuel dma mp engine w
     else engine_service_cyclic_interrupt mp engine w
   }"

section \<open>The entries of servicing\<close>

definition engine_service_work ::
  "nat \<Rightarrow> (nat \<Rightarrow> xdma_result list \<Rightarrow> xdma_result list) \<Rightarrow> modparams \<Rightarrow> xdma_dev \<Rightarrow> xdma_engine \<Rightarrow>
   world \<Rightarrow> (xdma_engine \<times> world) option" where
  "engine_service_work fuel dma mp xdev engine w = do {
     BUG_ON (e_magic engine \<noteq> MAGIC_ENGINE);
     (_, engine, w) \<leftarrow>
       (if e_cyclic_req engine \<noteq> None then engine_service_cyclic fuel dma mp engine w
        else engine_service mp engine 0 w);
     w \<leftarrow>
       (if d_msix_enabled xdev then
          Some (write_register (e_interrupt_enable_mask_value engine)
            (ereg engine ER_interrupt_enable_mask_w1s) w)
        else channel_interrupts_enable xdev (e_irq_bitmask engine) w);
     Some (engine, w)
   }"

text \<open>
  Polling the writeback word.  \<^verbatim>\<open>late n\<close> says that the deadline has passed at the
  \<^verbatim>\<open>n\<close>-th look at the clock.  Again fuel bounds the loop.
\<close>

fun wb_monitor_loop ::
  "nat \<Rightarrow> (nat \<Rightarrow> bool) \<Rightarrow> nat \<Rightarrow> addr \<Rightarrow> u32 \<Rightarrow> world \<Rightarrow> (u32 \<times> world) option" where
  "wb_monitor_loop 0 late n wb expected_wb w = None"
| "wb_monitor_loop (Suc fuel) late n wb expected_wb w =
     (let (desc_wb, w) = read_register wb w in
      if desc_wb AND WB_ERR_MASK \<noteq> 0 then Some (desc_wb, w)
      else if desc_wb = expected_wb then Some (desc_wb, w)
      else if late n then
        Some (if desc_wb AND WB_COUNT_MASK > expected_wb then expected_wb OR WB_ERR_MASK else desc_wb, w)
      else wb_monitor_loop fuel late (n + 1) wb expected_wb w)"

definition engine_service_wb_monitor ::
  "nat \<Rightarrow> (nat \<Rightarrow> bool) \<Rightarrow> xdma_engine \<Rightarrow> u32 \<Rightarrow> world \<Rightarrow> (u32 \<times> world) option" where
  "engine_service_wb_monitor fuel late engine expected_wb w =
     (if expected_wb \<noteq> 0 then do {
        wb \<leftarrow> e_poll_mode_addr_virt engine;
        wb_monitor_loop fuel late 0 wb expected_wb w
      } else Some (0, w))"

definition engine_service_poll ::
  "nat \<Rightarrow> (nat \<Rightarrow> bool) \<Rightarrow> (nat \<Rightarrow> xdma_result list \<Rightarrow> xdma_result list) \<Rightarrow> modparams \<Rightarrow>
   xdma_engine \<Rightarrow> u32 \<Rightarrow> world \<Rightarrow> (int \<times> xdma_engine \<times> world) option" where
  "engine_service_poll fuel late dma mp engine expected_desc_count w = do {
     BUG_ON (e_magic engine \<noteq> MAGIC_ENGINE);
     if expected_desc_count AND WB_COUNT_MASK \<noteq> expected_desc_count then Some (- 1, engine, w)
     else do {
       (desc_wb, w) \<leftarrow> engine_service_wb_monitor fuel late engine expected_desc_count w;
       if e_cyclic_req engine \<noteq> None then engine_service_cyclic fuel dma mp engine w
       else engine_service mp engine desc_wb w
     }
   }"

section \<open>Completion of the finished transfers\<close>

definition desc_sum :: "(nat \<Rightarrow> xdma_transfer) \<Rightarrow> nat list \<Rightarrow> int" where
  "desc_sum xs ts = sum_list (map (\<lambda>t. t_desc_num (xs t)) ts)"

lemma desc_sum_simps [simp]:
  "desc_sum xs [] = 0" "desc_sum xs (t # ts) = t_desc_num (xs t) + desc_sum xs ts"
  by (simp_all add: desc_sum_def)

definition mark_completed :: "nat set \<Rightarrow> (nat \<Rightarrow> xdma_transfer) \<Rightarrow> nat \<Rightarrow> xdma_transfer" where
  "mark_completed S xs = (\<lambda>i. if i \<in> S then (xs i)\<lparr>t_state := TRANSFER_STATE_COMPLETED\<rparr> else xs i)"

lemma mark_completed_frame [simp]:
  "t_desc_num (mark_completed S xs i) = t_desc_num (xs i)"
  "t_cyclic (mark_completed S xs i) = t_cyclic (xs i)"
  "desc_sum (mark_completed S xs) ts = desc_sum xs ts"
  by (auto simp: mark_completed_def desc_sum_def intro!: arg_cong[where f = sum_list] map_cong)

lemma mark_completed_compose:
  "mark_completed S (xs(t := (xs t)\<lparr>t_state := TRANSFER_STATE_COMPLETED\<rparr>)) = mark_completed (insert t S) xs"
  by (auto simp: mark_completed_def)

lemma service_list_loop_spec:
  assumes "transfer = list_first (e_transfer_list engine)"
  shows "\<exists>k engine' w'. k \<le> length (e_transfer_list engine) \<and>
    service_list_loop engine transfer pdesc w =
      Some (list_first (drop k (e_transfer_list engine)),
            pdesc - word_of_int (desc_sum (xfers w) (take k (e_transfer_list engine))), engine', w') \<and>
    engine' = engine\<lparr>e_transfer_list := drop k (e_transfer_list engine),
      e_desc_dequeued := e_desc_dequeued engine + desc_sum (xfers w) (take k (e_transfer_list engine))\<rparr> \<and>
    xfers w' = mark_completed (set (take k (e_transfer_list engine))) (xfers w) \<and>
    ktrace w' = rev (map WakeTransfer (take k (e_transfer_list engine))) @ ktrace w \<and>
    writes w' = writes w \<and> hw w' = hw w \<and> blog w' = blog w \<and>
    (\<forall>j < k. \<not> t_cyclic (xfers w (e_transfer_list engine ! j)) \<and>
       word_of_int (t_desc_num (xfers w (e_transfer_list engine ! j))) <
       pdesc - word_of_int (desc_sum (xfers w) (take j (e_transfer_list engine)))) \<and>
    (k < length (e_transfer_list engine) \<longrightarrow>
       t_cyclic (xfers w (e_transfer_list engine ! k)) \<or>
       pdesc - word_of_int (desc_sum (xfers w) (take k (e_transfer_list engine))) \<le>
       word_of_int (t_desc_num (xfers w (e_transfer_list engine ! k))))"
  using assms
proof (induction "e_transfer_list engine" arbitrary: engine transfer pdesc w)
  case Nil
  then show ?case
    by (intro exI[of _ 0]) (auto simp: service_list_loop.simps list_first_def mark_completed_def)
next
  case (Cons t ts)
  have l: "e_transfer_list engine = t # ts" using Cons by simp
  have tr: "transfer = Some t" using Cons l by (simp add: list_first_def)
  let ?n = "t_desc_num (xfers w t)"
  show ?case
  proof (cases "\<not> t_cyclic (xfers w t) \<and> pdesc > word_of_int ?n")
    case False
    then show ?thesis
      by (intro exI[of _ 0]) (auto simp: service_list_loop.simps tr l list_first_def mark_completed_def)
  next
    case True
    let ?e = "engine\<lparr>e_transfer_list := ts, e_desc_dequeued := e_desc_dequeued engine + ?n\<rparr>"
    let ?w = "kcall (WakeTransfer t) (upd_xfer t (\<lambda>x. x\<lparr>t_state := TRANSFER_STATE_COMPLETED\<rparr>) w)"
    have ds: "desc_sum (xfers ?w) us = desc_sum (xfers w) us" for us
      by (auto simp: desc_sum_def intro!: arg_cong[where f = sum_list] map_cong)
    have step: "service_list_loop engine transfer pdesc w =
        service_list_loop ?e (list_first ts) (pdesc - word_of_int ?n) ?w"
      using True by (subst service_list_loop.simps)
        (simp add: tr l list_del_first_def engine_transfer_completion_def Let_def)
    have cyc: "t_cyclic (xfers ?w i) = t_cyclic (xfers w i)" "t_desc_num (xfers ?w i) = t_desc_num (xfers w i)" for i
      by simp_all
    obtain k engine' w' where IH: "k \<le> length ts"
      "service_list_loop ?e (list_first ts) (pdesc - word_of_int ?n) ?w =
        Some (list_first (drop k ts), pdesc - word_of_int ?n - word_of_int (desc_sum (xfers w) (take k ts)), engine', w')"
      "engine' = ?e\<lparr>e_transfer_list := drop k ts,
         e_desc_dequeued := e_desc_dequeued ?e + desc_sum (xfers w) (take k ts)\<rparr>"
      "xfers w' = mark_completed (set (take k ts)) (xfers ?w)"
      "ktrace w' = rev (map WakeTransfer (take k ts)) @ ktrace ?w"
      "writes w' = writes ?w" "hw w' = hw ?w" "blog w' = blog ?w"
      "\<forall>j<k. \<not> t_cyclic (xfers w (ts ! j)) \<and> word_of_int (t_desc_num (xfers w (ts ! j))) <
         pdesc - word_of_int ?n - word_of_int (desc_sum (xfers w) (take j ts))"
      "k < length ts \<longrightarrow> t_cyclic (xfers w (ts ! k)) \<or>
         pdesc - word_of_int ?n - word_of_int (desc_sum (xfers w) (take k ts)) \<le>
         word_of_int (t_desc_num (xfers w (ts ! k)))"
      using Cons(1)[of ?e "list_first ts" "pdesc - word_of_int ?n" ?w] unfolding ds cyc by auto
    have all: "\<forall>j<Suc k. \<not> t_cyclic (xfers w ((t # ts) ! j)) \<and>
        word_of_int (t_desc_num (xfers w ((t # ts) ! j))) < pdesc - word_of_int (desc_sum (xfers w) (take j (t # ts)))"
      using True IH(9) by (auto simp: less_Suc_eq_0_disj diff_diff_eq)
    show ?thesis
      unfolding step IH(2) l
      by (intro exI[of _ "Suc k"] exI[of _ engine'] exI[of _ w'] conjI all)
        (use IH in \<open>simp_all add: mark_completed_compose diff_diff_eq\<close>)
  qed
qed

section \<open>The final transfer and the restart\<close>

definition final_state :: "xdma_engine \<Rightarrow> xdma_transfer \<Rightarrow> u32 \<Rightarrow> transfer_state" where
  "final_state engine t pdesc =
     (if status_has_error engine \<or> pdesc < word_of_int (t_desc_num t)
      then TRANSFER_STATE_FAILED else TRANSFER_STATE_COMPLETED)"

lemma err_handle_frame [simp]:
  "xfers (engine_err_handle mp engine t w) =
     (xfers w)(t := (xfers w t)\<lparr>t_state := TRANSFER_STATE_FAILED\<rparr>)"
  "ktrace (engine_err_handle mp engine t w) = ktrace w"
  by (simp_all add: engine_err_handle_def Let_def)

lemma final_transfer_None:
  "engine_service_final_transfer mp engine None pdesc w = Some (None, engine, w)"
  by (simp add: engine_service_final_transfer_def)

lemma final_transfer_spec:
  assumes "e_transfer_list engine = t # ts"
    and "engine_service_final_transfer mp engine (Some t) pdesc w = Some (r, engine', w')"
  shows "engine' = engine\<lparr>e_transfer_list := ts,
      e_desc_dequeued := e_desc_dequeued engine + t_desc_num (xfers w t)\<rparr>"
    and "xfers w' = (xfers w)(t := (xfers w t)\<lparr>t_state := final_state engine (xfers w t) pdesc\<rparr>)"
    and "ktrace w' = WakeTransfer t # ktrace w"
  using assms
  by (auto simp: engine_service_final_transfer_def final_state_def list_del_first_def
      engine_transfer_completion_def Let_def split: if_splits bind_splits)

lemma final_transfer_defined:
  assumes "e_transfer_list engine = t # ts"
    and "status_has_error engine \<Longrightarrow> engine_status_dump engine \<noteq> None"
  shows "engine_service_final_transfer mp engine (Some t) pdesc w \<noteq> None"
  using assms
  by (auto simp: engine_service_final_transfer_def list_del_first_def
      engine_transfer_completion_def Let_def)

lemma engine_start_result:
  assumes "engine_start mp engine w = Some (t, engine', w')"
  shows "\<exists>v. engine' = engine\<lparr>e_shutdown := ENGINE_SHUTDOWN_NONE, e_desc_dequeued := 0,
        e_status := v, e_running := True\<rparr> \<and> xfers w' = xfers w \<and> ktrace w' = ktrace w"
  using engine_start_eq_Some[OF assms] by blast

lemma resume_spec:
  assumes "engine_service_resume mp engine w = Some (engine', w')"
  shows "e_transfer_list engine' = e_transfer_list engine" "xfers w' = xfers w"
    "e_running engine' \<or> e_transfer_list engine' = []"
    "e_running engine \<Longrightarrow> engine' = engine \<and> w' = w"
    "\<exists>evs. ktrace w' = evs @ ktrace w \<and> set evs \<subseteq> {WakeShutdown}"
    "e_dir engine' = e_dir engine" "e_name engine' = e_name engine"
    "e_poll_mode_addr_virt engine' = e_poll_mode_addr_virt engine"
    "e_magic engine' = e_magic engine"
  using assms
  by (auto simp: engine_service_resume_def split: if_splits bind_splits
      dest!: engine_start_result)

lemma resume_defined: "engine_service_resume mp engine w \<noteq> None"
proof -
  have "engine_start mp engine w \<noteq> None" if "\<not> e_running engine" "e_transfer_list engine \<noteq> []"
    using that by (simp add: engine_start_None)
  then show ?thesis by (auto simp: engine_service_resume_def)
qed

lemma service_shutdown_frame [simp]:
  assumes "engine_service_shutdown mp engine w = (engine', w')"
  shows "engine' = engine\<lparr>e_running := False\<rparr>" "xfers w' = xfers w"
    "ktrace w' = WakeShutdown # ktrace w"
    "writes w' = writes w @ [(ereg engine ER_control, stop_control mp engine)]"
  using assms by (auto simp: engine_service_shutdown_def Let_def)

lemma service_perf_frame:
  assumes "engine_service_perf engine n w = (engine', w')"
  shows "\<exists>p. engine' = engine\<lparr>e_xdma_perf := p\<rparr>" "xfers w' = xfers w"
    "\<exists>evs. ktrace w' = evs @ ktrace w \<and> set evs \<subseteq> {WakePerf}" "writes w' = writes w"
proof -
  have e: "\<exists>p. engine = engine\<lparr>e_xdma_perf := p\<rparr>"
    by (rule exI[of _ "e_xdma_perf engine"]) simp
  show "\<exists>p. engine' = engine\<lparr>e_xdma_perf := p\<rparr>" "xfers w' = xfers w"
    "\<exists>evs. ktrace w' = evs @ ktrace w \<and> set evs \<subseteq> {WakePerf}" "writes w' = writes w"
    using assms e by (auto simp: engine_service_perf_def Let_def split: option.splits if_splits)
qed

section \<open>Servicing as a whole\<close>

text \<open>
  What one call of \<^verbatim>\<open>engine_service\<close> does to a running engine: the first \<^verbatim>\<open>k\<close> queued
  transfers leave the queue, all of them woken, all but the last completed, the last
  completed or failed; the others are untouched, and what is left is running.
\<close>

definition served :: "nat list \<Rightarrow> nat \<Rightarrow> world \<Rightarrow> xdma_engine \<Rightarrow> world \<Rightarrow> bool" where
  "served ts k w engine' w' \<longleftrightarrow>
     k \<le> length ts \<and> (k = 0 \<longleftrightarrow> ts = []) \<and>
     e_transfer_list engine' = drop k ts \<and>
     (\<forall>i. xfers w' i = (xfers w i)\<lparr>t_state := t_state (xfers w' i)\<rparr>) \<and>
     (\<forall>i. i \<notin> set (take k ts) \<longrightarrow> xfers w' i = xfers w i) \<and>
     (\<forall>i \<in> set (take k ts).
        t_state (xfers w' i) \<in> {TRANSFER_STATE_COMPLETED, TRANSFER_STATE_FAILED} \<and>
        WakeTransfer i \<in> set (ktrace w')) \<and>
     (\<forall>i \<in> set (take (k - 1) ts). i \<noteq> ts ! (k - 1) \<longrightarrow>
        t_state (xfers w' i) = TRANSFER_STATE_COMPLETED) \<and>
     (e_running engine' \<or> e_transfer_list engine' = [])"

lemma complete_spec:
  assumes l: "engine_service_transfer_list engine (list_first ts) pdesc w = Some (tr, pdesc', engine1, w1)"
    and f: "engine_service_final_transfer mp engine1 tr pdesc' w1 = Some (tr', engine2, w2)"
    and ts: "e_transfer_list engine = ts"
  shows "\<exists>k q. served ts k w (engine2\<lparr>e_running := True\<rparr>) w2 \<and>
     engine2 = engine\<lparr>e_transfer_list := drop k ts, e_desc_dequeued := q\<rparr> \<and>
     (\<exists>evs. ktrace w2 = evs @ ktrace w)"
proof -
  obtain k e' w' where k: "k \<le> length ts"
    "service_list_loop engine (list_first ts) pdesc w =
      Some (list_first (drop k ts), pdesc - word_of_int (desc_sum (xfers w) (take k ts)), e', w')"
    "e' = engine\<lparr>e_transfer_list := drop k ts,
      e_desc_dequeued := e_desc_dequeued engine + desc_sum (xfers w) (take k ts)\<rparr>"
    "xfers w' = mark_completed (set (take k ts)) (xfers w)"
    "ktrace w' = rev (map WakeTransfer (take k ts)) @ ktrace w"
    using service_list_loop_spec[of "list_first ts" engine pdesc w] ts by auto
  have eqs: "tr = list_first (drop k ts)" "engine1 = e'" "w1 = w'"
    using l k(2) by (auto simp: engine_service_transfer_list_def)
  show ?thesis
  proof (cases "k < length ts")
    case False
    then have kl: "k = length ts" using k(1) by simp
    then have "tr = None" using eqs by (simp add: list_first_def)
    then have e2: "engine2 = e'" "w2 = w'" using f eqs by (simp_all add: final_transfer_None)
    show ?thesis
      using k(3-5) kl
      by (intro exI[of _ k] exI[of _ "e_desc_dequeued e'"])
        (auto simp: served_def e2 mark_completed_def dest: in_set_takeD)
  next
    case True
    then have d: "drop k ts = ts ! k # drop (Suc k) ts" by (simp add: Cons_nth_drop_Suc)
    then have tr: "tr = Some (ts ! k)" using eqs by (simp add: list_first_def)
    have el: "e_transfer_list engine1 = ts ! k # drop (Suc k) ts" using eqs k(3) d by simp
    note fs = final_transfer_spec[OF el f[unfolded tr]]
    have fin: "final_state engine1 t p \<in> {TRANSFER_STATE_COMPLETED, TRANSFER_STATE_FAILED}" for t p
      by (simp add: final_state_def)
    show ?thesis
      using fs fin True k(3-5) unfolding eqs
      by (intro exI[of _ "Suc k"] exI[of _ "e_desc_dequeued engine2"])
        (auto simp: served_def mark_completed_def take_Suc_conv_app_nth eqs)
  qed
qed

lemma clear_writeback_frame:
  "clear_writeback mp engine w = Some w' \<Longrightarrow> xfers w' = xfers w \<and> ktrace w' = ktrace w"
  by (auto simp: clear_writeback_def split: if_splits bind_splits)

lemma service_perf_fields:
  assumes "engine_service_perf engine n w = (engine', w')"
  shows "e_transfer_list engine' = e_transfer_list engine \<and> e_dir engine' = e_dir engine \<and>
    e_name engine' = e_name engine \<and>
    e_poll_mode_addr_virt engine' = e_poll_mode_addr_virt engine \<and>
    e_desc_dequeued engine' = e_desc_dequeued engine \<and> xfers w' = xfers w"
  using service_perf_frame[OF assms] by auto

lemma service_enter_frame:
  assumes "service_enter mp engine wb w = Some (n, tr, engine1, w1)"
  shows "tr = list_first (e_transfer_list engine)" "xfers w1 = xfers w"
    "e_transfer_list engine1 = e_transfer_list engine"
    "e_dir engine1 = e_dir engine" "e_name engine1 = e_name engine"
    "e_poll_mode_addr_virt engine1 = e_poll_mode_addr_virt engine"
    "e_desc_dequeued engine1 = e_desc_dequeued engine"
  using assms
  by (auto simp: service_enter_def Let_def engine_status_read_nodump engine_service_shutdown_def
      case_prod_beta list_first_def dest!: service_perf_fields
      split: if_splits list.splits)

lemma service_enter_defined: "service_enter mp engine wb w \<noteq> None"
  by (cases "e_transfer_list engine")
    (auto simp: service_enter_def Let_def engine_status_read_nodump engine_service_shutdown_def
      case_prod_beta)

section \<open>The correctness of a service call\<close>

lemma engine_service_idle:
  "\<not> e_running engine \<Longrightarrow>
   \<exists>v w'. engine_service mp engine wb w = Some (0, engine\<lparr>e_status := v\<rparr>, w') \<and>
     xfers w' = xfers w \<and> ktrace w' = ktrace w \<and> writes w' = writes w"
  by (auto simp: engine_service_def engine_status_read_nodump Let_def case_prod_beta)

lemma engine_service_running:
  assumes "e_running engine" "engine_service mp engine wb w = Some (r, engine', w')"
  shows "r = 0 \<and> (\<exists>k. served (e_transfer_list engine) k w engine' w')"
proof -
  let ?ts = "e_transfer_list engine"
  obtain n tr e1 w1 where en: "service_enter mp engine wb w = Some (n, tr, e1, w1)"
    using service_enter_defined[of mp engine wb w] by (auto simp: prod_cases3)
  obtain tr2 p e2 w2 tr3 e3 w3 w4 where
    l: "engine_service_transfer_list e1 tr (n - word_of_int (e_desc_dequeued e1)) w1 = Some (tr2, p, e2, w2)"
    and f: "engine_service_final_transfer mp e2 tr2 p w2 = Some (tr3, e3, w3)"
    and c: "clear_writeback mp e3 w3 = Some w4"
    and rs: "engine_service_resume mp e3 w4 = Some (engine', w')" and r: "r = 0"
    using assms en by (auto simp: engine_service_def Let_def split: bind_splits)
  note ef = service_enter_frame[OF en]
  obtain k q where k: "served ?ts k w1 (e3\<lparr>e_running := True\<rparr>) w3"
    "e3 = e1\<lparr>e_transfer_list := drop k ?ts, e_desc_dequeued := q\<rparr>"
    using complete_spec[OF l[unfolded ef(1)] f ef(3)] by blast
  note rf = resume_spec[OF rs]
  note cf = clear_writeback_frame[OF c]
  obtain evs where evs: "ktrace w' = evs @ ktrace w4" using rf(5) by blast
  have "served ?ts k w engine' w'"
    using k(1) rf(1-3) cf ef(2) evs k(2) by (simp add: served_def)
  then show ?thesis using r by blast
qed

lemma status_dump_cong:
  "e_name e = e_name e' \<Longrightarrow> e_dir e = e_dir e' \<Longrightarrow> e_status e = e_status e' \<Longrightarrow>
   engine_status_dump e = engine_status_dump e'"
  by (simp add: engine_status_dump_def engine_status_text_def status_prefix_def)

lemma service_list_defined:
  assumes "e_transfer_list engine = ts"
  shows "\<exists>k p engine' w' q. engine_service_transfer_list engine (list_first ts) pdesc w =
      Some (list_first (drop k ts), p, engine', w') \<and>
    engine' = engine\<lparr>e_transfer_list := drop k ts, e_desc_dequeued := q\<rparr>"
  using service_list_loop_spec[OF refl, of engine pdesc w]
  unfolding assms engine_service_transfer_list_def by blast

end
