(* ===== verification/RingPoll.thy ===== *)
theory RingPoll
  imports Service
begin

text \<open>
  The loops of servicing that have no bound in the code: the scan of the receive
  ring, the polling of the writeback word and the polling cyclic service.  The scan
  is shown to end after at most 256 results, with the exact set of results passed;
  the two polling loops end when the device or the clock lets them.
\<close>

unbundle bit_operations_syntax

section \<open>The scan of the ring\<close>

definition ring_idx :: "int \<Rightarrow> nat \<Rightarrow> nat" where
  "ring_idx tail i = nat ((tail + int i) mod 256)"

definition ring_dist :: "int \<Rightarrow> int \<Rightarrow> nat" where
  "ring_dist rx_head rx_tail = nat ((rx_head - rx_tail - 1) mod 256) + 1"

definition eops :: "xdma_result list \<Rightarrow> int \<Rightarrow> nat \<Rightarrow> nat" where
  "eops result tail n =
     length (filter (\<lambda>i. res_status (result ! ring_idx tail i) AND RX_STATUS_EOP \<noteq> 0) [0..<n])"

lemma ring_idx_lt [simp]: "ring_idx tail i < 256"
  by (simp add: ring_idx_def nat_less_iff)

lemma ring_idx_Suc: "ring_idx ((tail + 1) mod 256) i = ring_idx tail (Suc i)"
proof -
  have "((tail + 1) mod 256 + int i) mod 256 = (tail + int (Suc i)) mod 256"
    unfolding of_nat_Suc by presburger
  then show ?thesis by (simp only: ring_idx_def)
qed

lemma ring_dist_bounds: "0 < ring_dist h t" "ring_dist h t \<le> 256"
proof -
  have "nat ((h - t - 1) mod 256) < 256" by (simp add: nat_less_iff)
  then show "0 < ring_dist h t" "ring_dist h t \<le> 256" by (simp_all add: ring_dist_def)
qed

lemma mod_256_range:
  "0 \<le> x \<Longrightarrow> x < 256 \<Longrightarrow> x mod 256 = (x :: int)"
  "- 256 \<le> x \<Longrightarrow> x < 0 \<Longrightarrow> x mod 256 = (x :: int) + 256"
  using mod_pos_pos_trivial[of x 256] mod_pos_pos_trivial[of "x + 256" 256] by simp_all

lemma ring_dist_mod: "(h - t - 1) mod 256 = (h - (t + 1) mod 256) mod (256 :: int)"
  by (metis diff_diff_eq mod_diff_right_eq)

lemma ring_dist_step:
  assumes "0 \<le> h" "h < 256" "(t + 1) mod 256 \<noteq> h"
  shows "ring_dist h t = Suc (ring_dist h ((t + 1) mod 256))"
proof -
  define u where "u = (t + 1) mod 256"
  have u: "0 \<le> u" "u < 256" "u \<noteq> h" using assms(3) by (simp_all add: u_def)
  have "(h - u - 1) mod 256 = (h - u) mod 256 - 1 \<and> 0 < (h - u) mod 256"
  proof (cases "u < h")
    case True
    then show ?thesis using assms u mod_256_range(1)[of "h - u"] mod_256_range(1)[of "h - u - 1"] by simp
  next
    case False
    then show ?thesis using assms u mod_256_range(2)[of "h - u"] mod_256_range(2)[of "h - u - 1"] by simp
  qed
  then show ?thesis unfolding ring_dist_def ring_dist_mod u_def[symmetric] by linarith
qed

lemma ring_dist_meet:
  assumes "(t + 1) mod 256 = h"
  shows "ring_dist h t = 1"
  unfolding ring_dist_def ring_dist_mod assms by simp

lemma eops_Suc:
  "eops result t (Suc n) =
     (if res_status (result ! ring_idx t 0) AND RX_STATUS_EOP \<noteq> 0 then 1 else 0) +
     eops result ((t + 1) mod 256) n"
proof -
  have "[0..<Suc n] = 0 # map Suc [0..<n]" by (simp only: upt_conv_Cons map_Suc_upt)
  then have "eops result t (Suc n) =
    length (filter (\<lambda>i. res_status (result ! ring_idx t i) AND RX_STATUS_EOP \<noteq> 0) (0 # map Suc [0..<n]))"
    by (simp only: eops_def)
  also have "\<dots> = (if res_status (result ! ring_idx t 0) AND RX_STATUS_EOP \<noteq> 0 then 1 else 0) +
     length (filter (\<lambda>i. res_status (result ! ring_idx t (Suc i)) AND RX_STATUS_EOP \<noteq> 0) [0..<n])"
    by (simp add: filter_map comp_def)
  also have "length (filter (\<lambda>i. res_status (result ! ring_idx t (Suc i)) AND RX_STATUS_EOP \<noteq> 0) [0..<n])
      = eops result ((t + 1) mod 256) n"
    by (simp add: eops_def ring_idx_Suc)
  finally show ?thesis .
qed

lemma ring_loop_overrun:
  "length result = 256 \<Longrightarrow> 0 \<le> t \<Longrightarrow> t < 256 \<Longrightarrow> ring_loop result h t True c = Some (t, True, c)"
  by (subst ring_loop.simps) (simp add: arr_get_def)

lemma ring_loop_spec:
  assumes "length result = 256" "0 \<le> h" "h < 256" "0 \<le> t" "t < 256"
  shows "\<exists>n \<le> ring_dist h t.
     ring_loop result h t False c =
       Some ((t + int n) mod 256, n = ring_dist h t, c + int (eops result t n)) \<and>
     (\<forall>i < n. res_status (result ! ring_idx t i) \<noteq> 0) \<and>
     (n < ring_dist h t \<longrightarrow> res_status (result ! ring_idx t n) = 0)"
  using assms(4-5)
proof (induction "ring_dist h t" arbitrary: t c rule: less_induct)
  case less
  have g: "arr_get t result = Some (result ! nat t)"
    using less.prems assms(1) by (simp add: arr_get_def)
  have i0: "ring_idx t 0 = nat t" using less.prems by (simp add: ring_idx_def)
  let ?r = "result ! nat t" and ?t = "(t + 1) mod 256"
  show ?case
  proof (cases "res_status ?r = 0")
    case True
    then show ?thesis
      using less.prems g i0 ring_dist_bounds(1)[of h t]
      by (intro exI[of _ 0]) (simp add: ring_loop.simps eops_def)
  next
    case nz: False
    let ?c = "if res_status ?r AND RX_STATUS_EOP \<noteq> 0 then c + 1 else c"
    have step: "ring_loop result h t False c = ring_loop result h ?t (?t = h) ?c"
      using nz g by (subst ring_loop.simps) (simp add: CYCLIC_RX_PAGES_MAX_def)
    have bt: "0 \<le> ?t" "?t < 256" by simp_all
    show ?thesis
    proof (cases "?t = h")
      case True
      have d: "ring_dist h t = 1" by (rule ring_dist_meet[OF True])
      have e: "int (eops result t 1) = (if res_status ?r AND RX_STATUS_EOP \<noteq> 0 then 1 else 0)"
        using i0 by (simp add: eops_Suc[of _ _ 0, simplified] eops_def)
      show ?thesis
        using nz i0 assms(1) bt e
        unfolding step True d by (intro exI[of _ 1]) (simp add: ring_loop_overrun True)
    next
      case False
      have d: "ring_dist h t = Suc (ring_dist h ?t)" by (rule ring_dist_step[OF assms(2,3) False])
      obtain n where n: "n \<le> ring_dist h ?t"
        "ring_loop result h ?t False ?c =
           Some ((?t + int n) mod 256, n = ring_dist h ?t, ?c + int (eops result ?t n))"
        "\<forall>i < n. res_status (result ! ring_idx ?t i) \<noteq> 0"
        "n < ring_dist h ?t \<longrightarrow> res_status (result ! ring_idx ?t n) = 0"
        using less.hyps[of ?t ?c] d bt by auto
      have m: "(?t + int n) mod 256 = (t + int (Suc n)) mod 256"
        unfolding of_nat_Suc by presburger
      have all: "\<forall>i < Suc n. res_status (result ! ring_idx t i) \<noteq> 0"
        using n(3) nz i0 by (auto simp: ring_idx_Suc less_Suc_eq_0_disj)
      show ?thesis
        using n d False i0 all unfolding step
        by (intro exI[of _ "Suc n"]) (simp add: m eops_Suc ring_idx_Suc)
    qed
  qed
qed

text \<open>The scan of an engine with a well-formed ring.\<close>

definition ring_wf :: "xdma_engine \<Rightarrow> bool" where
  "ring_wf engine \<longleftrightarrow>
     (\<exists>r. e_cyclic_result engine = Some r \<and> length r = 256) \<and>
     0 \<le> e_rx_head engine \<and> e_rx_head engine < 256 \<and>
     0 \<le> e_rx_tail engine \<and> e_rx_tail engine < 256"

lemma engine_ring_process_spec:
  assumes "ring_wf engine"
  shows "\<exists>eop tail overrun. engine_ring_process engine =
      Some (eop, engine\<lparr>e_rx_tail := tail, e_rx_overrun := overrun\<rparr>) \<and>
      0 \<le> eop \<and> eop \<le> 256 \<and> 0 \<le> tail \<and> tail < 256 \<and>
      (\<not> e_rx_overrun engine \<longrightarrow> overrun \<longrightarrow> tail = e_rx_head engine)"
proof -
  obtain r where r: "e_cyclic_result engine = Some r" "length r = 256"
    "0 \<le> e_rx_head engine" "e_rx_head engine < 256"
    "0 \<le> e_rx_tail engine" "e_rx_tail engine < 256"
    using assms by (auto simp: ring_wf_def)
  show ?thesis
  proof (cases "e_rx_overrun engine")
    case True
    then show ?thesis using r
      by (intro exI[of _ 0] exI[of _ "e_rx_tail engine"] exI[of _ True])
        (simp add: engine_ring_process_def ring_loop_overrun)
  next
    case False
    let ?h = "e_rx_head engine" and ?t = "e_rx_tail engine"
    obtain n where n: "n \<le> ring_dist ?h ?t"
      "ring_loop r ?h ?t False 0 = Some ((?t + int n) mod 256, n = ring_dist ?h ?t, 0 + int (eops r ?t n))"
      using ring_loop_spec[OF r(2-6), of 0] by blast
    have e: "eops r ?t n \<le> n" unfolding eops_def by (rule order_trans[OF length_filter_le]) simp
    have m: "n = ring_dist ?h ?t \<Longrightarrow> (?t + int n) mod 256 = ?h"
    proof -
      assume "n = ring_dist ?h ?t"
      then have "(?t + int n) mod 256 = (?t + 1 + (?h - ?t - 1) mod 256) mod 256"
        by (simp add: ring_dist_def algebra_simps)
      also have "\<dots> = (?t + 1 + (?h - ?t - 1)) mod 256" by (rule mod_add_right_eq)
      also have "\<dots> = ?h mod 256" by simp
      finally show ?thesis using r by simp
    qed
    show ?thesis
      using n False r e m ring_dist_bounds(2)[of ?h ?t]
      by (intro exI[of _ "int (eops r ?t n)"] exI[of _ "(?t + int n) mod 256"]
          exI[of _ "n = ring_dist ?h ?t"]) (auto simp: engine_ring_process_def)
  qed
qed

section \<open>Polling the writeback word\<close>

lemma read_frameD:
  "read_register a w = (v, w') \<Longrightarrow>
   xfers w' = xfers w \<and> ktrace w' = ktrace w \<and> writes w' = writes w \<and> hw w' = hw w"
  by (metis snd_conv io_frame(3,4) bus_writes(2) hw_read)

lemma wb_monitor_loop_result:
  assumes "wb_monitor_loop fuel late n wb expected w = Some (v, w')"
  shows "(v AND WB_ERR_MASK \<noteq> 0 \<or> v = expected \<or> (\<exists>m. late m \<and> v AND WB_COUNT_MASK \<le> expected)) \<and>
    xfers w' = xfers w \<and> ktrace w' = ktrace w \<and> writes w' = writes w"
  using assms
proof (induction fuel arbitrary: n w)
  case (Suc fuel)
  have e: "(expected OR WB_ERR_MASK) AND WB_ERR_MASK \<noteq> 0"
    by (simp add: WB_ERR_MASK_def bit.conj_disj_distrib2)
  show ?case
    using Suc.prems Suc.IH[of "n + 1"] e
    by (auto simp: Let_def case_prod_beta not_less dest!: read_frameD split: if_splits)
qed simp

text \<open>The world after \<^verbatim>\<open>n\<close> reads of an address, and the value of the read that follows.\<close>

primrec after_reads :: "addr \<Rightarrow> nat \<Rightarrow> world \<Rightarrow> world" where
  "after_reads a 0 w = w"
| "after_reads a (Suc n) w = after_reads a n (snd (read_register a w))"

definition read_at :: "addr \<Rightarrow> nat \<Rightarrow> world \<Rightarrow> u32" where
  "read_at a n w = fst (read_register a (after_reads a n w))"

lemma read_at_Suc: "read_at a (Suc n) w = read_at a n (snd (read_register a w))"
  by (simp add: read_at_def)

lemma after_reads_frame: "xfers (after_reads a n w) = xfers w \<and> writes (after_reads a n w) = writes w \<and> hw (after_reads a n w) = hw w"
  by (induction n arbitrary: w) simp_all

lemma wb_monitor_loop_exact:
  assumes "late m" "n \<le> m" "m - n < fuel"
  shows "\<exists>k \<le> m - n. wb_monitor_loop fuel late n wb expected w =
      Some (if read_at wb k w AND WB_ERR_MASK \<noteq> 0 \<or> read_at wb k w = expected then read_at wb k w
            else if read_at wb k w AND WB_COUNT_MASK > expected then expected OR WB_ERR_MASK
            else read_at wb k w, after_reads wb (Suc k) w) \<and>
    (\<forall>j < k. \<not> late (n + j) \<and> read_at wb j w AND WB_ERR_MASK = 0 \<and> read_at wb j w \<noteq> expected) \<and>
    (read_at wb k w AND WB_ERR_MASK = 0 \<and> read_at wb k w \<noteq> expected \<longrightarrow> late (n + k))"
  using assms
proof (induction fuel arbitrary: n w)
  case (Suc fuel)
  obtain v w1 where r: "read_register wb w = (v, w1)" by fastforce
  have v: "read_at wb 0 w = v" by (simp add: read_at_def r)
  show ?case
  proof (cases "v AND WB_ERR_MASK \<noteq> 0 \<or> v = expected \<or> late n")
    case True
    then show ?thesis using v r by (intro exI[of _ 0]) auto
  next
    case False
    then have "n \<noteq> m" using Suc.prems(1) by blast
    then have b: "n + 1 \<le> m" "m - (n + 1) < fuel" "m - n = Suc (m - (n + 1))" using Suc.prems(2,3) by linarith+
    have step: "wb_monitor_loop (Suc fuel) late n wb expected w = wb_monitor_loop fuel late (n + 1) wb expected w1"
      using False r by simp
    have S: "read_at wb (Suc j) w = read_at wb j w1" "after_reads wb (Suc j) w = after_reads wb j w1" for j
      by (simp_all add: read_at_Suc r)
    obtain k where k: "k \<le> m - (n + 1)" "wb_monitor_loop fuel late (n + 1) wb expected w1 =
      Some (if read_at wb k w1 AND WB_ERR_MASK \<noteq> 0 \<or> read_at wb k w1 = expected then read_at wb k w1
            else if read_at wb k w1 AND WB_COUNT_MASK > expected then expected OR WB_ERR_MASK
            else read_at wb k w1, after_reads wb (Suc k) w1)"
      "\<forall>j < k. \<not> late (n + 1 + j) \<and> read_at wb j w1 AND WB_ERR_MASK = 0 \<and> read_at wb j w1 \<noteq> expected"
      "read_at wb k w1 AND WB_ERR_MASK = 0 \<and> read_at wb k w1 \<noteq> expected \<longrightarrow> late (n + 1 + k)"
      using Suc.IH[OF Suc.prems(1) b(1,2), of w1] by blast
    have all: "\<forall>j < Suc k. \<not> late (n + j) \<and> read_at wb j w AND WB_ERR_MASK = 0 \<and> read_at wb j w \<noteq> expected"
    proof (intro allI impI)
      fix j assume "j < Suc k"
      then show "\<not> late (n + j) \<and> read_at wb j w AND WB_ERR_MASK = 0 \<and> read_at wb j w \<noteq> expected"
        using False v k(3) by (cases j) (auto simp: S(1))
    qed
    show ?thesis
      unfolding step k(2) S using k(1,4) b(3) all
      by (intro exI[of _ "Suc k"]) (simp add: S)
  qed
qed simp

lemma wb_monitor_exact:
  assumes "hw w (blog w) wb = expected" "expected AND WB_ERR_MASK = 0"
  shows "\<exists>w'. wb_monitor_loop (Suc fuel) late n wb expected w = Some (expected, w')"
  using assms by (simp add: read_register_def Let_def)

section \<open>The polling cyclic service\<close>

lemma cyclic_poll_loop_error:
  assumes "e_poll_mode_addr_virt engine = Some wb" "hw w (blog w) wb AND WB_ERR_MASK \<noteq> 0"
  shows "\<exists>w'. cyclic_poll_loop (Suc fuel) dma n 0 engine w = Some (- 1, 0, engine, w')"
  using assms by (simp add: read_register_def Let_def)

end
