(* ===== verification/Frames.thy ===== *)
theory Frames
  imports RingPoll
begin

text \<open>
  What the operations on an engine leave alone.  \<^verbatim>\<open>quiet\<close>: only states of transfers
  change, no table is unmapped and no page of a user is pinned or released; \<^verbatim>\<open>calm\<close>: in addition the descriptors and the
  configuration of the engine stay.  Both are preorders, and every operation of
  queueing and servicing keeps them.
\<close>

unbundle bit_operations_syntax

definition is_unmap :: "kevent \<Rightarrow> bool" where
  "is_unmap e \<longleftrightarrow> (\<exists>d. e = UnmapSg d)"

definition unmaps :: "world \<Rightarrow> nat" where
  "unmaps w = length (filter is_unmap (ktrace w))"

text \<open>The pages of user space that are pinned and released.\<close>

fun is_page_ev :: "kevent \<Rightarrow> bool" where
  "is_page_ev (UserPagePinned p) = True"
| "is_page_ev (UserPagePut p) = True"
| "is_page_ev _ = False"

definition user_pages :: "world \<Rightarrow> kevent list" where
  "user_pages w = filter is_page_ev (ktrace w)"

definition quiet :: "world \<Rightarrow> world \<Rightarrow> bool" where
  "quiet w w' \<longleftrightarrow> unmaps w' = unmaps w \<and> user_pages w' = user_pages w \<and>
     (\<forall>i. xfers w' i = (xfers w i)\<lparr>t_state := t_state (xfers w' i)\<rparr>)"

definition calm :: "xdma_engine \<Rightarrow> world \<Rightarrow> xdma_engine \<Rightarrow> world \<Rightarrow> bool" where
  "calm e w e' w' \<longleftrightarrow> quiet w w' \<and> e_desc e' = e_desc e \<and> e_desc_bus e' = e_desc_bus e \<and>
     e_dir e' = e_dir e \<and> e_non_incr_addr e' = e_non_incr_addr e \<and>
     e_regs e' = e_regs e \<and> e_sgdma_regs e' = e_sgdma_regs e \<and> e_magic e' = e_magic e \<and>
     e_interrupt_enable_mask_value e' = e_interrupt_enable_mask_value e \<and>
     e_irq_bitmask e' = e_irq_bitmask e"

lemma is_unmap_simps [simp]:
  "\<not> is_unmap (WakeTransfer i)" "\<not> is_unmap WakeShutdown" "\<not> is_unmap WakePerf"
  "is_unmap (UnmapSg d)" "\<not> is_unmap FreeRequest"
  by (simp_all add: is_unmap_def)

lemma quiet_refl [simp]: "quiet w w"
  by (simp add: quiet_def)

lemma xfer_state_eq:
  "xfers w'' i = (xfers w' i)\<lparr>t_state := t_state (xfers w'' i)\<rparr> \<Longrightarrow>
   xfers w' i = (xfers w i)\<lparr>t_state := t_state (xfers w' i)\<rparr> \<Longrightarrow>
   xfers w'' i = (xfers w i)\<lparr>t_state := t_state (xfers w'' i)\<rparr>"
  by (metis xdma_transfer.select_convs(5) xdma_transfer.surjective xdma_transfer.update_convs(5))

lemma quiet_trans [trans]: "quiet w w' \<Longrightarrow> quiet w' w'' \<Longrightarrow> quiet w w''"
  unfolding quiet_def using xfer_state_eq by metis

lemma calm_refl [simp]: "calm e w e w"
  by (simp add: calm_def)

lemma calm_trans [trans]: "calm e w e' w' \<Longrightarrow> calm e' w' e'' w'' \<Longrightarrow> calm e w e'' w''"
  unfolding calm_def using quiet_trans by auto

lemma quiet_same: "xfers w' = xfers w \<Longrightarrow> ktrace w' = ktrace w \<Longrightarrow> quiet w w'"
  by (simp add: quiet_def unmaps_def user_pages_def)

lemma quiet_read [simp]: "quiet w (snd (read_register a w))"
  by (rule quiet_same) simp_all

lemma quiet_kcall: "\<not> is_unmap e \<Longrightarrow> \<not> is_page_ev e \<Longrightarrow> quiet w (kcall e w)"
  by (simp add: quiet_def unmaps_def user_pages_def)

lemma quiet_state: "quiet w (upd_xfer i (\<lambda>t. t\<lparr>t_state := s\<rparr>) w)"
  by (simp add: quiet_def unmaps_def user_pages_def)

lemma quiet_fields:
  assumes "quiet w w'"
  shows "t_len (xfers w' i) = t_len (xfers w i)" "t_flags (xfers w' i) = t_flags (xfers w i)"
    "t_last_in_request (xfers w' i) = t_last_in_request (xfers w i)"
    "t_desc_num (xfers w' i) = t_desc_num (xfers w i)" "unmaps w' = unmaps w"
    "user_pages w' = user_pages w"
proof -
  have e: "xfers w' i = (xfers w i)\<lparr>t_state := t_state (xfers w' i)\<rparr>"
    using assms by (simp add: quiet_def)
  show "t_len (xfers w' i) = t_len (xfers w i)" "t_flags (xfers w' i) = t_flags (xfers w i)"
    "t_last_in_request (xfers w' i) = t_last_in_request (xfers w i)"
    "t_desc_num (xfers w' i) = t_desc_num (xfers w i)"
    by (subst e, simp)+
  show "unmaps w' = unmaps w" "user_pages w' = user_pages w" using assms by (simp_all add: quiet_def)
qed

section \<open>Queueing and servicing are calm\<close>

lemma calm_status_read:
  "engine_status_read e c d w = Some (v, e', w') \<Longrightarrow> calm e w e' w'"
proof -
  have dump: "quiet w (engine_reg_dump e w)" for w
    by (rule quiet_same) (simp_all add: engine_reg_dump_def Let_def case_prod_beta)
  have rd: "quiet w (snd (read_register a w))" for a w by (rule quiet_same) simp_all
  assume "engine_status_read e c d w = Some (v, e', w')"
  then have "e' = e\<lparr>e_status := v\<rparr>" "quiet w w'"
    using rd quiet_trans[OF dump rd]
    by (auto simp: engine_status_read_def Let_def case_prod_beta split: bind_splits if_splits)
  then show ?thesis by (simp add: calm_def)
qed

lemma calm_start: "engine_start mp e w = Some (t, e', w') \<Longrightarrow> calm e w e' w'"
  using engine_start_result[of mp e w t e' w'] by (auto simp: calm_def quiet_same)

lemma calm_queue:
  assumes "transfer_queue mp xdev e i w = Some (rv, e', w')"
  shows "calm e w e' w'"
proof -
  have q: "calm e w (e\<lparr>e_transfer_list := l\<rparr>) (upd_xfer i (\<lambda>t. t\<lparr>t_state := s\<rparr>) w)" for l s
    using quiet_state by (simp add: calm_def)
  show ?thesis
    using assms by (auto simp: transfer_queue_def Let_def q
        dest!: calm_start intro: calm_trans[OF q] split: if_splits bind_splits)
qed

lemma calm_shutdown: "engine_service_shutdown mp e w = (e', w') \<Longrightarrow> calm e w e' w'"
  by (auto simp: engine_service_shutdown_def Let_def calm_def quiet_def unmaps_def user_pages_def)

lemma calm_abort: "transfer_abort e i w = Some (e', w') \<Longrightarrow> calm e w e' w'"
  by (auto simp: transfer_abort_def Let_def calm_def quiet_state split: if_splits list.splits)

lemma quiet_stop: "quiet w (xdma_engine_stop mp e w)"
  by (rule quiet_same) simp_all

lemma calm_list:
  assumes "engine_service_transfer_list e (list_first (e_transfer_list e)) p w = Some (tr, p', e', w')"
  shows "calm e w e' w'"
proof -
  have u: "filter is_unmap (rev (map WakeTransfer ts)) = []"
    "filter is_page_ev (rev (map WakeTransfer ts)) = []" for ts
    by (simp_all add: filter_empty_conv)
  show ?thesis
    using assms service_list_loop_spec[OF refl, of e p w]
    by (auto simp: engine_service_transfer_list_def calm_def quiet_def unmaps_def user_pages_def u mark_completed_def)
qed

lemma calm_final:
  assumes "engine_service_final_transfer mp e (list_first (e_transfer_list e)) p w = Some (tr, e', w')"
  shows "calm e w e' w'"
proof (cases "e_transfer_list e")
  case Nil
  then show ?thesis using assms by (simp add: list_first_def final_transfer_None)
next
  case (Cons t ts)
  then show ?thesis
    using final_transfer_spec[OF Cons, of mp p w tr e' w'] assms
    by (auto simp: list_first_def calm_def quiet_def unmaps_def user_pages_def)
qed

lemma calm_perf: "engine_service_perf e n w = (e', w') \<Longrightarrow> calm e w e' w'"
  by (auto simp: engine_service_perf_def Let_def calm_def quiet_def unmaps_def user_pages_def
      split: option.splits if_splits)

lemma calm_resume: "engine_service_resume mp e w = Some (e', w') \<Longrightarrow> calm e w e' w'"
  by (auto simp: engine_service_resume_def split: if_splits bind_splits dest!: calm_start)
    (simp add: calm_def quiet_kcall)

lemma quiet_clear_writeback: "clear_writeback mp e w = Some w' \<Longrightarrow> quiet w w'"
  by (auto dest!: clear_writeback_frame intro: quiet_same)

lemma calm_enter:
  assumes "service_enter mp e wb w = Some (n, tr, e', w')"
  shows "calm e w e' w'"
proof -
  let ?clr = "wb AND WB_COUNT_MASK = 0 \<or> wb AND WB_ERR_MASK \<noteq> 0"
  obtain e1 w1 where s1: "(if ?clr then do {
          (_, engine, w) \<leftarrow> engine_status_read e True False w;
          Some (engine, w)
        } else Some (e, w)) = Some (e1, w1)"
    and c1: "calm e w e1 w1"
    by (cases ?clr) (auto simp: engine_status_read_nodump Let_def case_prod_beta calm_def
        intro: quiet_same)
  obtain e2 w2 where s2: "(if (e_running e1 \<and> e_status e1 AND XDMA_STAT_BUSY = 0) \<or> wb AND WB_COUNT_MASK \<noteq> 0
        then engine_service_shutdown mp e1 w1 else (e1, w1)) = (e2, w2)"
    by fastforce
  then have c2: "calm e1 w1 e2 w2" by (auto dest: calm_shutdown split: if_splits)
  obtain m w3 where s3: "(if wb AND WB_COUNT_MASK = 0 then read_register (ereg e2 ER_completed_desc_count) w2
          else (wb AND WB_COUNT_MASK, w2)) = (m, w3)"
    by fastforce
  then have c3: "calm e2 w2 e2 w3"
    by (auto simp: calm_def intro: quiet_same dest!: read_frameD split: if_splits)
  have "calm e2 w3 e' w'"
    using assms unfolding service_enter_def Let_def s1 bind.bind_lunit case_prod_conv s2 s3
    by (auto simp: case_prod_beta dest!: calm_perf split: list.splits)
  then show ?thesis using c1 c2 c3 calm_trans by blast
qed

lemma calm_service:
  assumes "engine_service mp e wb w = Some (rv, e', w')"
  shows "calm e w e' w'"
proof (cases "e_running e")
  case False
  then show ?thesis
    using assms by (auto simp: engine_service_def dest!: calm_status_read split: bind_splits)
next
  case True
  obtain n tr e1 w1 tr2 p e2 w2 tr3 e3 w3 w4 where
    en: "service_enter mp e wb w = Some (n, tr, e1, w1)"
    and l: "engine_service_transfer_list e1 tr (n - word_of_int (e_desc_dequeued e1)) w1 = Some (tr2, p, e2, w2)"
    and f: "engine_service_final_transfer mp e2 tr2 p w2 = Some (tr3, e3, w3)"
    and c: "clear_writeback mp e3 w3 = Some w4"
    and rs: "engine_service_resume mp e3 w4 = Some (e', w')"
    using True assms by (auto simp: engine_service_def Let_def split: bind_splits)
  have tr: "tr = list_first (e_transfer_list e1)" using service_enter_frame(1,3)[OF en] by simp
  have tr2: "tr2 = list_first (e_transfer_list e2)"
    using service_list_loop_spec[OF refl, of e1 "n - word_of_int (e_desc_dequeued e1)" w1] l
    by (auto simp: engine_service_transfer_list_def tr)
  have "calm e3 w3 e3 w4" using quiet_clear_writeback[OF c] by (simp add: calm_def)
  then show ?thesis
    using calm_enter[OF en] calm_list[OF l[unfolded tr]] calm_final[OF f[unfolded tr2]] calm_resume[OF rs]
      calm_trans by blast
qed

section \<open>The cyclic service and the polls\<close>

lemma ring_process_fields:
  "engine_ring_process e = Some (n, e') \<Longrightarrow> \<exists>t o1. e' = e\<lparr>e_rx_tail := t, e_rx_overrun := o1\<rparr>"
  by (auto simp: engine_ring_process_def split: bind_splits)

lemma calm_upd [simp]:
  "calm e w (e\<lparr>e_rx_tail := t, e_rx_overrun := ov\<rparr>) w"
  "calm e w (e\<lparr>e_cyclic_result := r\<rparr>) w"
  "calm e w (e\<lparr>e_eop_found := b\<rparr>) w"
  "calm e w (engine_transfer_dequeue e) w"
  by (simp_all add: calm_def engine_transfer_dequeue_def split: list.splits)

lemma calm_stopped: "cyclic_engine_stopped mp e w = (e', w') \<Longrightarrow> calm e w e' w'"
  by (auto simp: cyclic_engine_stopped_def Let_def intro: calm_trans[OF calm_upd(4)]
      dest!: calm_shutdown split: if_splits)

lemma calm_wake: "calm e w e' w' \<Longrightarrow> \<not> is_unmap k \<Longrightarrow> \<not> is_page_ev k \<Longrightarrow> calm e w e' (kcall k w')"
  using quiet_kcall quiet_trans unfolding calm_def by blast

lemma calm_cyclic_interrupt:
  assumes "engine_service_cyclic_interrupt mp e w = Some (rv, e', w')"
  shows "calm e w e' w'"
proof -
  obtain v e1 w1 n e2 x where s: "engine_status_read e True False w = Some (v, e1, w1)"
    and r: "engine_ring_process e1 = Some (n, e2)"
    and rest: "cyclic_engine_stopped mp
        (if enable_credit_mp mp then e2 else if n > 0 then e2\<lparr>e_eop_found := True\<rparr> else e2)
        (if enable_credit_mp mp \<or> n > 0 then kcall (WakeTransfer x) w1 else w1) = (e', w')"
    using assms
    by (auto simp: engine_service_cyclic_interrupt_def Let_def case_prod_beta prod_eq_iff
        split: bind_splits if_splits)
  have "calm e1 w1 e2 w1" using ring_process_fields[OF r] by auto
  then have "calm e w e2 w1" using calm_status_read[OF s] calm_trans by blast
  moreover have "calm e2 w1
      (if enable_credit_mp mp then e2 else if n > 0 then e2\<lparr>e_eop_found := True\<rparr> else e2)
      (if enable_credit_mp mp \<or> n > 0 then kcall (WakeTransfer x) w1 else w1)"
    by (auto intro: calm_wake)
  ultimately show ?thesis using calm_stopped[OF rest] calm_trans by blast
qed

lemma calm_poll_loop:
  "cyclic_poll_loop fuel dma n c e w = Some (rc, c', e', w') \<Longrightarrow> calm e w e' w'"
proof (induction fuel arbitrary: n c e w)
  case (Suc fuel)
  show ?case
  proof (cases "c = 0")
    case False
    then show ?thesis using Suc.prems by simp
  next
    case True
    obtain wb v w1 where wb: "e_poll_mode_addr_virt e = Some wb" and r: "read_register wb w = (v, w1)"
      using Suc.prems True by (auto simp: Let_def case_prod_beta split: bind_splits) (metis surj_pair)
    have q: "calm e w e w1" using read_frameD[OF r] by (simp add: calm_def quiet_same)
    show ?thesis
    proof (cases "v AND WB_ERR_MASK \<noteq> 0")
      case True
      then show ?thesis using Suc.prems \<open>c = 0\<close> wb r q by simp
    next
      case False
      let ?e = "e\<lparr>e_cyclic_result := map_option (dma n) (e_cyclic_result e)\<rparr>"
      obtain c1 e1 where p: "engine_ring_process ?e = Some (c1, e1)"
        and rec: "cyclic_poll_loop fuel dma (n + 1) c1 e1 w1 = Some (rc, c', e', w')"
        using Suc.prems \<open>c = 0\<close> wb r False by (auto simp: Let_def split: bind_splits)
      have "calm ?e w1 e1 w1" using ring_process_fields[OF p] by auto
      then show ?thesis using q Suc.IH[OF rec] calm_upd(2) calm_trans by blast
    qed
  qed
qed simp

lemma calm_cyclic:
  assumes "engine_service_cyclic fuel dma mp e w = Some (rv, e', w')"
  shows "calm e w e' w'"
proof (cases "poll_mode mp")
  case False
  then show ?thesis using assms calm_cyclic_interrupt by (simp add: engine_service_cyclic_def split: if_splits)
next
  case True
  then obtain rc c e1 w1 where l: "cyclic_poll_loop fuel dma 0 0 e w = Some (rc, c, e1, w1)"
    and rest: "(if c = 0 then do {
         (_, engine, w) \<leftarrow> engine_status_read e1 True False w1;
         let (engine, w) = cyclic_engine_stopped mp engine w;
         Some (rc, engine, w)
       } else Some (rc, e1, w1)) = Some (rv, e', w')"
    using assms by (auto simp: engine_service_cyclic_def engine_service_cyclic_polled_def split: if_splits bind_splits)
  have "calm e1 w1 e' w'"
    using rest by (auto simp: Let_def case_prod_beta dest!: calm_status_read calm_stopped
        intro: calm_trans split: if_splits bind_splits)
  then show ?thesis using calm_poll_loop[OF l] calm_trans by blast
qed

lemma calm_poll:
  assumes "engine_service_poll fuel late dma mp e n w = Some (rv, e', w')"
  shows "calm e w e' w'"
proof -
  have m: "calm e w e w1" if "engine_service_wb_monitor fuel late e n w = Some (v, w1)" for v w1
    using that by (auto simp: engine_service_wb_monitor_def calm_def intro: quiet_same
        dest!: wb_monitor_loop_result split: if_splits bind_splits)
  show ?thesis
    using assms
    by (auto simp: engine_service_poll_def dest!: m calm_cyclic calm_service intro: calm_trans
        split: if_splits bind_splits)
qed

end
