(* ===== verification/Submit.thy ===== *)
theory Submit
  imports DevList Frames
begin

text \<open>
  The blocking submission of a scatter-gather table, \<^verbatim>\<open>xdma_xfer_submit\<close>, and the
  performance run \<^verbatim>\<open>xdma_performance_submit\<close>.

  What is outside the driver is collected in \<^verbatim>\<open>submit_env\<close>: the mapping of the table,
  the allocator, the wait.  \<^verbatim>\<open>wait_xfer\<close> is what happens while the caller sleeps in
  \<^verbatim>\<open>wait_event_interruptible_timeout\<close>: it returns the value of the wait, and the
  engine and the state as interrupt service and other callers have left them.
\<close>

unbundle bit_operations_syntax

record submit_env =
  map_sg :: "sg_table \<Rightarrow> sg_table"
  alloc_req :: bool
  wait_xfer :: "nat \<Rightarrow> xdma_engine \<Rightarrow> world \<Rightarrow> (int \<times> xdma_engine \<times> world) option"
  poll_fuel :: nat
  poll_late :: "nat \<Rightarrow> bool"
  poll_dma :: "nat \<Rightarrow> xdma_result list \<Rightarrow> xdma_result list"

section \<open>Progress of the transfer construction\<close>

lemma build_loop_frame:
  "build_loop ni j n req ds = Some (req', ds') \<Longrightarrow>
   r_sdesc req' = r_sdesc req \<and> r_sw_desc_idx req' = r_sw_desc_idx req \<and>
   r_sw_desc_cnt req' = r_sw_desc_cnt req \<and> r_total_len req' = r_total_len req \<and>
   (n = 0 \<or> r_sw_desc_idx req + j + n \<le> length (r_sdesc req))"
proof (induction n arbitrary: j req ds)
  case (Suc n)
  obtain s ds1 where s: "arr_get (int (r_sw_desc_idx req + j)) (r_sdesc req) = Some s"
    and rec: "build_loop ni (j + 1) n
      (let req = req\<lparr>r_xfer := (r_xfer req)\<lparr>t_len := t_len (r_xfer req) + sd_len s\<rparr>\<rparr>
       in if ni then req else req\<lparr>r_ep_addr := r_ep_addr req + ucast (sd_len s)\<rparr>) ds1 = Some (req', ds')"
    using Suc.prems by (auto simp: Let_def split: bind_splits)
  have "r_sw_desc_idx req + j < length (r_sdesc req)"
    using s by (simp add: arr_get_def split: if_splits)
  then show ?case using Suc.IH[OF rec] by (auto simp: Let_def split: if_splits)
qed simp

lemma transfer_init_progress:
  assumes "transfer_init engine req = Some (engine', req')"
  shows "r_sdesc req' = r_sdesc req \<and> r_sw_desc_idx req < r_sw_desc_idx req' \<and>
    r_sw_desc_idx req' \<le> length (r_sdesc req) \<and> r_sw_desc_cnt req' = r_sw_desc_cnt req \<and>
    int (r_sw_desc_idx req') = int (r_sw_desc_idx req) + t_desc_num (r_xfer req') \<and>
    0 < t_desc_num (r_xfer req')"
proof -
  define n where "n = (if r_sw_desc_idx req \<le> r_sw_desc_cnt req
        then min (r_sw_desc_cnt req - r_sw_desc_idx req) XDMA_TRANSFER_MAX_DESC
        else XDMA_TRANSFER_MAX_DESC)"
  let ?x = "zero_transfer\<lparr>t_dir := e_dir engine, t_desc_bus := e_desc_bus engine\<rparr>"
  obtain ds1 req1 ds2 ds3 where
    b: "build_loop (e_non_incr_addr engine) 0 n (req\<lparr>r_xfer := ?x\<rparr>) ds1 = Some (req1, ds2)"
    and l: "arr_mod (int n - 1) (xdma_desc_link None) ds2 = Some ds3"
    and r: "req' = req1\<lparr>r_sw_desc_idx := r_sw_desc_idx req1 + n,
      r_xfer := (r_xfer req1)\<lparr>t_desc_num := int n, t_desc_adjacent := int n\<rparr>\<rparr>"
    using assms
    by (auto simp: transfer_init_def transfer_build_def Let_def n_def[symmetric] split: bind_splits)
  have "0 < n" using l by (auto simp: arr_mod_def split: if_splits)
  then show ?thesis using build_loop_frame[OF b] by (auto simp: r)
qed

section \<open>Submission\<close>

text \<open>
  \<^verbatim>\<open>transfer_destroy\<close> clears the descriptors, which are those of the engine, and
  unmaps the table when the transfer is the last of its request.
\<close>

definition transfer_destroy ::
  "xdma_engine \<Rightarrow> nat \<Rightarrow> sg_table \<Rightarrow> world \<Rightarrow> (xdma_engine \<times> sg_table \<times> world) option" where
  "transfer_destroy engine xfer sgt w = do {
     ds \<leftarrow> e_desc engine;
     let engine = engine\<lparr>e_desc := Some (xdma_desc_done ds)\<rparr>;
     let t = xfers w xfer;
     if t_last_in_request t \<and> t_flags t AND XFER_FLAG_NEED_UNMAP \<noteq> 0 then
       (if nents sgt \<noteq> 0 then Some (engine, sgt\<lparr>nents := 0\<rparr>, kcall (UnmapSg (t_dir t)) w)
        else Some (engine, sgt, w))
     else Some (engine, sgt, w)
   }"

text \<open>The \<^verbatim>\<open>switch\<close> on the state the transfer has after the wait.\<close>

definition submit_settle ::
  "modparams \<Rightarrow> xdma_engine \<Rightarrow> nat \<Rightarrow> nat \<Rightarrow> world \<Rightarrow> (int \<times> nat \<times> xdma_engine \<times> world) option" where
  "submit_settle mp engine xfer done w =
     (case t_state (xfers w xfer) of
        TRANSFER_STATE_COMPLETED \<Rightarrow> Some (0, done + unat (t_len (xfers w xfer)), engine, w)
      | TRANSFER_STATE_FAILED \<Rightarrow> Some (- EIO, done, engine, w)
      | _ \<Rightarrow> do {
          (_, engine, w) \<leftarrow> engine_status_read engine False True w;
          (engine, w) \<leftarrow> transfer_abort engine xfer w;
          let w = xdma_engine_stop mp engine w;
          Some (- ERESTARTSYS, done, engine, w)
        })"

text \<open>
  One round of the loop: the construction of the next transfer, its queueing, the
  wait or the poll, the switch, the destruction.  The value is the return code of the
  round, the descriptors left and the state; a negative code leaves the loop.
\<close>

definition submit_round ::
  "submit_env \<Rightarrow> modparams \<Rightarrow> xdma_dev \<Rightarrow> bool \<Rightarrow> nat \<Rightarrow> int \<Rightarrow> xdma_request_cb \<Rightarrow> sg_table \<Rightarrow>
   xdma_engine \<Rightarrow> nat \<Rightarrow> world \<Rightarrow>
   (int \<times> int \<times> xdma_request_cb \<times> sg_table \<times> xdma_engine \<times> nat \<times> world) option" where
  "submit_round env mp xdev dma_mapped xfer nleft req sgt engine done w = do {
     (engine, req) \<leftarrow> transfer_init engine req;
     let t = r_xfer req;
     let t = (if \<not> dma_mapped then t\<lparr>t_flags := XFER_FLAG_NEED_UNMAP\<rparr> else t);
     let nleft = nleft - t_desc_num t;
     let t = (if nleft = 0 then t\<lparr>t_last_in_request := True\<rparr> else t);
     let w = upd_xfer xfer (\<lambda>_. t) w;
     (rv, engine, w) \<leftarrow> transfer_queue mp xdev engine xfer w;
     if rv < 0 then Some (rv, nleft, req, sgt, engine, done, w)
     else do {
       (_, engine, w) \<leftarrow>
         (if poll_mode mp
          then engine_service_poll (poll_fuel env) (poll_late env) (poll_dma env) mp engine
                 (word_of_int (t_desc_num (xfers w xfer))) w
          else wait_xfer env xfer engine w);
       (rv, done, engine, w) \<leftarrow> submit_settle mp engine xfer done w;
       (engine, sgt, w) \<leftarrow> transfer_destroy engine xfer sgt w;
       Some (rv, nleft, req, sgt, engine, done, w)
     }
   }"

lemma submit_round_progress:
  assumes "submit_round env mp xdev m x n req sgt engine done w =
     Some (rv, n', req', sgt', engine', done', w')"
  shows "r_sdesc req' = r_sdesc req \<and> r_sw_desc_cnt req' = r_sw_desc_cnt req \<and>
    r_sw_desc_idx req < r_sw_desc_idx req' \<and> r_sw_desc_idx req' \<le> length (r_sdesc req) \<and>
    n' + int (r_sw_desc_idx req') = n + int (r_sw_desc_idx req)"
proof -
  obtain e1 where i: "transfer_init engine req = Some (e1, req')" and "n' = n - t_desc_num (r_xfer req')"
    using assms by (auto simp: submit_round_def Let_def split: bind_splits if_splits)
  then show ?thesis using transfer_init_progress[OF i] by auto
qed

function submit_loop ::
  "submit_env \<Rightarrow> modparams \<Rightarrow> xdma_dev \<Rightarrow> bool \<Rightarrow> nat \<Rightarrow> int \<Rightarrow> xdma_request_cb \<Rightarrow> sg_table \<Rightarrow>
   xdma_engine \<Rightarrow> nat \<Rightarrow> world \<Rightarrow> (int \<times> sg_table \<times> xdma_engine \<times> nat \<times> world) option" where
  "submit_loop env mp xdev dma_mapped xfer nleft req sgt engine done w =
     (if nleft = 0 then Some (0, sgt, engine, done, w)
      else (case submit_round env mp xdev dma_mapped xfer nleft req sgt engine done w of
          None \<Rightarrow> None
        | Some (rv, nleft, req, sgt, engine, done, w) \<Rightarrow>
            if rv < 0 then Some (rv, sgt, engine, done, w)
            else submit_loop env mp xdev dma_mapped xfer nleft req sgt engine done w))"
  by pat_completeness auto
termination
  by (relation "measure (\<lambda>(env, mp, xdev, m, x, n, req, _). length (r_sdesc req) - r_sw_desc_idx req)")
    (auto dest!: submit_round_progress)

declare submit_loop.simps [simp del]

text \<open>
  \<^verbatim>\<open>submit_on_engine\<close> is the part of \<^verbatim>\<open>xdma_xfer_submit\<close> after the checks: mapping,
  request, loop, and the exit that unmaps what is still mapped and frees the request.
\<close>

definition submit_on_engine ::
  "submit_env \<Rightarrow> modparams \<Rightarrow> xdma_dev \<Rightarrow> bool \<Rightarrow> nat \<Rightarrow> dma_dir \<Rightarrow> u64 \<Rightarrow> sg_table \<Rightarrow> xdma_engine \<Rightarrow>
   world \<Rightarrow> (int \<times> sg_table \<times> xdma_engine \<times> world) option" where
  "submit_on_engine env mp xdev dma_mapped xfer dir ep_addr sgt engine w = do {
     BUG_ON (dma_mapped \<and> nents sgt = 0);
     if \<not> dma_mapped \<and> nents (map_sg env sgt) = 0 then Some (- EIO, sgt, engine, w)
     else do {
       let sgt = (if \<not> dma_mapped then map_sg env sgt else sgt);
       req \<leftarrow> xdma_init_request mp (alloc_req env) sgt ep_addr;
       (rv, sgt, engine, done, w) \<leftarrow>
         (case req of
            None \<Rightarrow> Some (- ENOMEM, sgt, engine, 0, w)
          | Some req \<Rightarrow>
              submit_loop env mp xdev dma_mapped xfer (int (r_sw_desc_cnt req)) req sgt engine 0 w);
       let (sgt, w) =
         (if \<not> dma_mapped \<and> nents sgt \<noteq> 0 then (sgt\<lparr>nents := 0\<rparr>, kcall (UnmapSg dir) w)
          else (sgt, w));
       let w = (if req \<noteq> None then kcall FreeRequest w else w);
       Some (if rv < 0 then rv else int done, sgt, engine, w)
     }
   }"

definition xdma_xfer_submit ::
  "submit_env \<Rightarrow> modparams \<Rightarrow> nat option \<Rightarrow> int \<Rightarrow> bool \<Rightarrow> u64 \<Rightarrow> sg_table \<Rightarrow> bool \<Rightarrow> nat \<Rightarrow>
   devtab \<Rightarrow> world \<Rightarrow> (int \<times> sg_table \<times> devtab \<times> world) option" where
  "xdma_xfer_submit env mp dev_hndl channel wr ep_addr sgt dma_mapped xfer tab w =
     (case dev_hndl of
        None \<Rightarrow> Some (- EINVAL, sgt, tab, w)
      | Some h \<Rightarrow>
          let xdev = dt_devs tab h;
              dir = (if wr then DMA_TO_DEVICE else DMA_FROM_DEVICE)
          in
          if debug_check_dev_hndl (Some (d_pdev xdev)) h tab < 0 then Some (- EINVAL, sgt, tab, w)
          else if channel \<ge> (if wr then d_h2c_channel_max xdev else d_c2h_channel_max xdev)
          then Some (- EINVAL, sgt, tab, w)
          else do {
            engine \<leftarrow> arr_get channel (if wr then d_engine_h2c xdev else d_engine_c2h xdev);
            BUG_ON (e_magic engine \<noteq> MAGIC_ENGINE);
            (offline, xdev) \<leftarrow> xdma_device_flag_check xdev XDEV_FLAG_OFFLINE;
            if offline then Some (- EBUSY, sgt, tab, w)
            else if e_dir engine \<noteq> dir then Some (- EINVAL, sgt, tab, w)
            else do {
              (rv, sgt, engine, w) \<leftarrow>
                submit_on_engine env mp xdev dma_mapped xfer dir ep_addr sgt engine w;
              let put = (\<lambda>es. es[nat channel := engine]);
              let tab = upd_dev h (\<lambda>d. if wr then d\<lparr>d_engine_h2c := put (d_engine_h2c d)\<rparr>
                                       else d\<lparr>d_engine_c2h := put (d_engine_c2h d)\<rparr>) tab;
              Some (rv, sgt, tab, w)
            }
          })"

section \<open>A round of the loop\<close>

text \<open>
  While the caller sleeps only queueing and service run on the engine, which are calm.
\<close>

definition env_calm :: "submit_env \<Rightarrow> bool" where
  "env_calm env \<longleftrightarrow>
     (\<forall>x e w rv e' w'. wait_xfer env x e w = Some (rv, e', w') \<longrightarrow> calm e w e' w')"

lemma calm_settle:
  assumes "submit_settle mp e x done w = Some (rv, done', e', w')"
  shows "calm e w e' w'"
proof -
  have st: "calm e w e1 w1 \<Longrightarrow> calm e w e1 (xdma_engine_stop mp e1 w1)" for e1 w1
    using quiet_stop quiet_trans unfolding calm_def by blast
  show ?thesis
    using assms
    by (auto simp: submit_settle_def Let_def dest!: calm_status_read calm_abort
        intro!: st intro: calm_trans split: transfer_state.splits bind_splits)
qed

lemma settle_result:
  assumes "submit_settle mp e x done w = Some (rv, done', e', w')"
  shows "0 \<le> rv \<longleftrightarrow> t_state (xfers w x) = TRANSFER_STATE_COMPLETED"
    and "0 \<le> rv \<Longrightarrow> rv = 0 \<and> done' = done + unat (t_len (xfers w x)) \<and> e' = e \<and> w' = w"
    and "rv < 0 \<Longrightarrow> done' = done"
  using assms by (auto simp: submit_settle_def Let_def split: transfer_state.splits bind_splits)

lemma destroy_cases:
  assumes "transfer_destroy e x sgt w = Some (e', sgt', w')"
  shows "\<exists>ds. e_desc e = Some ds \<and> e' = e\<lparr>e_desc := Some (xdma_desc_done ds)\<rparr>"
    and "xfers w' = xfers w"
    and "if t_last_in_request (xfers w x) \<and> t_flags (xfers w x) AND XFER_FLAG_NEED_UNMAP \<noteq> 0 \<and> nents sgt \<noteq> 0
         then sgt' = sgt\<lparr>nents := 0\<rparr> \<and> unmaps w' = Suc (unmaps w)
         else sgt' = sgt \<and> w' = w"
  using assms by (auto simp: transfer_destroy_def Let_def unmaps_def split: bind_splits if_splits)

lemma submit_roundE:
  assumes "submit_round env mp xdev m x n req sgt e done w = Some (rv, n', req', sgt', e', done', w')"
    and "env_calm env"
  obtains (refused) e1 w1 t where
      "transfer_init e req = Some (e1, req')" "n' = n - t_desc_num (r_xfer req')"
      "w1 = upd_xfer x (\<lambda>_. t) w" "calm e1 w1 e' w'" "rv < 0" "sgt' = sgt" "done' = done"
  | (run) e1 e2 e3 w1 w2 w3 t where
      "transfer_init e req = Some (e1, req')" "n' = n - t_desc_num (r_xfer req')"
      "w1 = upd_xfer x (\<lambda>_. t) w"
      "t = (r_xfer req')\<lparr>t_flags := (if m then t_flags (r_xfer req') else XFER_FLAG_NEED_UNMAP),
             t_last_in_request := (n' = 0 \<or> t_last_in_request (r_xfer req'))\<rparr>"
      "calm e1 w1 e2 w2" "submit_settle mp e2 x done w2 = Some (rv, done', e3, w3)"
      "transfer_destroy e3 x sgt w3 = Some (e', sgt', w')"
proof -
  obtain e1 where i: "transfer_init e req = Some (e1, req')" and n': "n' = n - t_desc_num (r_xfer req')"
    using assms(1) by (auto simp: submit_round_def Let_def split: bind_splits if_splits)
  define t where "t = (r_xfer req')\<lparr>t_flags := (if m then t_flags (r_xfer req') else XFER_FLAG_NEED_UNMAP),
             t_last_in_request := (n' = 0 \<or> t_last_in_request (r_xfer req'))\<rparr>"
  define w1 where "w1 = upd_xfer x (\<lambda>_. t) w"
  have teq: "(let t = (if \<not> m then (r_xfer req')\<lparr>t_flags := XFER_FLAG_NEED_UNMAP\<rparr> else r_xfer req')
      in if n' = 0 then t\<lparr>t_last_in_request := True\<rparr> else t) = t"
    by (simp add: t_def Let_def)
  have dn: "t_desc_num (if \<not> m then (r_xfer req')\<lparr>t_flags := XFER_FLAG_NEED_UNMAP\<rparr> else r_xfer req') =
      t_desc_num (r_xfer req')" by simp
  obtain rv1 e2 w2 where q: "transfer_queue mp xdev e1 x w1 = Some (rv1, e2, w2)"
    and rest: "(if rv1 < 0 then Some (rv1, n', req', sgt, e2, done, w2)
     else do {
       (_, engine, w) \<leftarrow>
         (if poll_mode mp
          then engine_service_poll (poll_fuel env) (poll_late env) (poll_dma env) mp e2
                 (word_of_int (t_desc_num (xfers w2 x))) w2
          else wait_xfer env x e2 w2);
       (rv, done, engine, w) \<leftarrow> submit_settle mp engine x done w;
       (engine, sgt, w) \<leftarrow> transfer_destroy engine x sgt w;
       Some (rv, n', req', sgt, engine, done, w)
     }) = Some (rv, n', req', sgt', e', done', w')"
    using assms(1) unfolding submit_round_def i bind.bind_lunit case_prod_conv Let_def dn n'[symmetric]
      teq[unfolded Let_def] w1_def[symmetric]
    by (auto split: bind_splits)
  note cq = calm_queue[OF q]
  show thesis
  proof (cases "rv1 < 0")
    case True
    then show thesis using refused[OF i n' w1_def] cq rest by auto
  next
    case False
    then obtain v e3 w3 e4 w4 where wt: "(if poll_mode mp
          then engine_service_poll (poll_fuel env) (poll_late env) (poll_dma env) mp e2
                 (word_of_int (t_desc_num (xfers w2 x))) w2
          else wait_xfer env x e2 w2) = Some (v, e3, w3)"
      and st: "submit_settle mp e3 x done w3 = Some (rv, done', e4, w4)"
      and ds: "transfer_destroy e4 x sgt w4 = Some (e', sgt', w')"
      using rest by (auto split: bind_splits)
    have "calm e2 w2 e3 w3"
      using wt assms(2) calm_poll by (auto simp: env_calm_def split: if_splits)
    then have "calm e1 w1 e3 w3" using cq calm_trans by blast
    then show thesis using run[OF i n' w1_def t_def _ st ds] by blast
  qed
qed

section \<open>The table is unmapped exactly once\<close>

definition unmapped_step :: "bool \<Rightarrow> int \<Rightarrow> sg_table \<Rightarrow> world \<Rightarrow> sg_table \<Rightarrow> world \<Rightarrow> bool" where
  "unmapped_step m n sgt w sgt' w' \<longleftrightarrow>
     (sgt' = sgt \<and> unmaps w' = unmaps w) \<or>
     (\<not> m \<and> n = 0 \<and> nents sgt \<noteq> 0 \<and> sgt' = sgt\<lparr>nents := 0\<rparr> \<and> unmaps w' = Suc (unmaps w))"

lemma unmaps_upd [simp]: "unmaps (upd_xfer i f w) = unmaps w"
  by (simp add: unmaps_def)

lemma transfer_init_flags:
  assumes "transfer_init e req = Some (e1, req1)"
  shows "t_flags (r_xfer req1) = 0 \<and> \<not> t_last_in_request (r_xfer req1)"
proof -
  have b: "build_loop ni j n req ds = Some (req', ds') \<Longrightarrow>
    t_flags (r_xfer req') = t_flags (r_xfer req) \<and>
    t_last_in_request (r_xfer req') = t_last_in_request (r_xfer req)" for ni j n req ds req' ds'
    by (induction n arbitrary: j req ds) (fastforce simp: Let_def split: bind_splits if_splits)+
  show ?thesis
    using assms
    by (auto simp: transfer_init_def transfer_build_def Let_def zero_transfer_def
        split: bind_splits dest!: b)
qed

lemma submit_round_unmaps:
  assumes "submit_round env mp xdev m x n req sgt e done w = Some (rv, n', req', sgt', e', done', w')"
    and "env_calm env"
  shows "unmapped_step m n' sgt w sgt' w'"
  using assms
proof (cases rule: submit_roundE)
  case (refused e1 w1 t)
  then show ?thesis using quiet_fields(5)[of w1 w'] by (simp add: unmapped_step_def calm_def)
next
  case (run e1 e2 e3 w1 w2 w3 t)
  note i = transfer_init_flags[OF run(1)]
  have q: "quiet w1 w3" using run(5) calm_settle[OF run(6)] quiet_trans unfolding calm_def by blast
  have "t_flags (xfers w3 x) = (if m then 0 else XFER_FLAG_NEED_UNMAP)"
    "t_last_in_request (xfers w3 x) \<longleftrightarrow> n' = 0"
    using quiet_fields(2,3)[OF q, of x] i run(3,4) by auto
  then show ?thesis
    using destroy_cases(3)[OF run(7)] quiet_fields(5)[OF q] run(3)
    by (auto simp: unmapped_step_def XFER_FLAG_NEED_UNMAP_def split: if_splits)
qed

lemma submit_loop_0: "submit_loop env mp xdev m x 0 req sgt e done w = Some (0, sgt, e, done, w)"
  by (subst submit_loop.simps) simp

lemma submit_loop_unmaps:
  "env_calm env \<Longrightarrow> submit_loop env mp xdev m x n req sgt e done w = Some (rv, sgt', e', done', w') \<Longrightarrow>
    \<exists>k. unmapped_step m k sgt w sgt' w'"
proof (induction env mp xdev m x n req sgt e "done" w rule: submit_loop.induct)
  case (1 env mp xdev m x n req sgt e dn w)
  show ?case
  proof (cases "n = 0")
    case True
    then show ?thesis using 1(3) by (simp add: submit_loop_0 unmapped_step_def)
  next
    case False
    then obtain rv1 n1 req1 sgt1 e1 done1 w1 where
      r: "submit_round env mp xdev m x n req sgt e dn w = Some (rv1, n1, req1, sgt1, e1, done1, w1)"
      using 1(3) by (subst (asm) submit_loop.simps) (auto split: option.splits)
    have u: "unmapped_step m n1 sgt w sgt1 w1" by (rule submit_round_unmaps[OF r 1(2)])
    have l: "(if rv1 < 0 then Some (rv1, sgt1, e1, done1, w1)
        else submit_loop env mp xdev m x n1 req1 sgt1 e1 done1 w1) = Some (rv, sgt', e', done', w')"
      using 1(3) False r by (subst (asm) submit_loop.simps) simp
    show ?thesis
    proof (cases "rv1 < 0 \<or> n1 = 0")
      case True
      then show ?thesis using l u by (auto simp: submit_loop_0 split: if_splits)
    next
      case f: False
      then have "sgt1 = sgt \<and> unmaps w1 = unmaps w" using u by (simp add: unmapped_step_def)
      then show ?thesis
        using 1(1)[OF False r] f l 1(2) by (auto simp: unmapped_step_def)
    qed
  qed
qed

lemma submit_unmaps_once:
  assumes "env_calm env" "nents (map_sg env sgt) \<noteq> 0"
    and "submit_on_engine env mp xdev False x dir ep sgt e w = Some (rv, sgt', e', w')"
  shows "unmaps w' = Suc (unmaps w) \<and> nents sgt' = 0"
proof -
  let ?sgt = "map_sg env sgt"
  obtain req rv1 sgt1 e1 dn w1 where
    l: "(case req of None \<Rightarrow> Some (- ENOMEM, ?sgt, e, 0, w)
          | Some req \<Rightarrow>
              submit_loop env mp xdev False x (int (r_sw_desc_cnt req)) req ?sgt e 0 w) =
        Some (rv1, sgt1, e1, dn, w1)"
    and r: "sgt' = (if nents sgt1 \<noteq> 0 then sgt1\<lparr>nents := 0\<rparr> else sgt1)"
    "w' = (let w2 = if nents sgt1 \<noteq> 0 then kcall (UnmapSg dir) w1 else w1
           in if req \<noteq> None then kcall FreeRequest w2 else w2)"
    using assms(2,3)
    by (auto simp: submit_on_engine_def Let_def case_prod_beta split: bind_splits)
  have "\<exists>k. unmapped_step False k ?sgt w sgt1 w1"
  proof (cases req)
    case None
    then show ?thesis using l by (simp add: unmapped_step_def)
  next
    case (Some r)
    then have "submit_loop env mp xdev False x (int (r_sw_desc_cnt r)) r ?sgt e 0 w =
        Some (rv1, sgt1, e1, dn, w1)" using l by simp
    then show ?thesis by (rule submit_loop_unmaps[OF assms(1)])
  qed
  then show ?thesis
    using assms(2) unfolding r by (auto simp: unmapped_step_def unmaps_def Let_def)
qed

section \<open>No page of a user is touched\<close>

lemma user_pages_upd [simp]: "user_pages (upd_xfer i f w) = user_pages w"
  by (simp add: user_pages_def)

lemma submit_round_pages:
  assumes "submit_round env mp xdev m x n req sgt e done w = Some (rv, n', req', sgt', e', done', w')"
    and "env_calm env"
  shows "user_pages w' = user_pages w"
  using assms
proof (cases rule: submit_roundE)
  case (refused e1 w1 t)
  then show ?thesis using quiet_fields(6)[of w1 w'] by (simp add: calm_def)
next
  case (run e1 e2 e3 w1 w2 w3 t)
  have "quiet w1 w3" using run(5) calm_settle[OF run(6)] quiet_trans unfolding calm_def by blast
  moreover have "user_pages w' = user_pages w3"
    using run(7) by (auto simp: transfer_destroy_def Let_def user_pages_def split: bind_splits if_splits)
  ultimately show ?thesis using quiet_fields(6)[of w1 w3] run(3) by simp
qed

lemma submit_loop_pages:
  "env_calm env \<Longrightarrow> submit_loop env mp xdev m x n req sgt e done w = Some (rv, sgt', e', done', w') \<Longrightarrow>
    user_pages w' = user_pages w"
proof (induction env mp xdev m x n req sgt e "done" w rule: submit_loop.induct)
  case (1 env mp xdev m x n req sgt e dn w)
  show ?case
  proof (cases "n = 0")
    case True
    then show ?thesis using 1(3) by (simp add: submit_loop_0)
  next
    case False
    then obtain rv1 n1 req1 sgt1 e1 done1 w1 where
      r: "submit_round env mp xdev m x n req sgt e dn w = Some (rv1, n1, req1, sgt1, e1, done1, w1)"
      using 1(3) by (subst (asm) submit_loop.simps) (auto split: option.splits)
    have l: "(if rv1 < 0 then Some (rv1, sgt1, e1, done1, w1)
        else submit_loop env mp xdev m x n1 req1 sgt1 e1 done1 w1) = Some (rv, sgt', e', done', w')"
      using 1(3) False r by (subst (asm) submit_loop.simps) simp
    then show ?thesis
      using submit_round_pages[OF r 1(2)] 1(1)[OF False r] 1(2) by (auto split: if_splits)
  qed
qed

lemma submit_pages:
  assumes "env_calm env"
    and "submit_on_engine env mp xdev m x dir ep sgt e w = Some (rv, sgt', e', w')"
  shows "user_pages w' = user_pages w"
  using assms(2)
  by (auto simp: submit_on_engine_def Let_def user_pages_def[of "kcall e' w'" for e' w']
      dest!: submit_loop_pages[OF assms(1)] split: bind_splits if_splits option.splits)
    (simp_all add: user_pages_def)

lemma xfer_submit_pages:
  assumes "env_calm env" "xdma_xfer_submit env mp h c wr ep sgt m x tab w = Some (rv, sgt', tab', w')"
  shows "user_pages w' = user_pages w"
  using assms(2)
  by (auto simp: xdma_xfer_submit_def Let_def dest!: submit_pages[OF assms(1)]
      split: bind_splits if_splits option.splits)

section \<open>The number of bytes returned\<close>

text \<open>The engine has its descriptor array, as \<^verbatim>\<open>engine_alloc_resource\<close> gives it.\<close>

definition has_descs :: "xdma_engine \<Rightarrow> bool" where
  "has_descs e \<longleftrightarrow> (\<exists>ds. e_desc e = Some ds \<and> XDMA_TRANSFER_MAX_DESC \<le> length ds)"

lemma has_descs_calm: "calm e w e' w' \<Longrightarrow> has_descs e' = has_descs e"
  by (simp add: calm_def has_descs_def)

lemma unat_sum_u32:
  assumes "sd_total ss < 2 ^ 32"
  shows "unat (sum_list (map sd_len ss)) = sd_total ss"
  using assms
proof (induction ss)
  case (Cons s ss)
  have IH: "unat (sum_list (map sd_len ss)) = sd_total ss" using Cons by simp
  have "unat (sd_len s + sum_list (map sd_len ss)) = unat (sd_len s) + sd_total ss"
    using Cons.prems IH by (subst unat_add_lem[THEN iffD1]) simp_all
  then show ?case by simp
qed simp

lemma sd_total_take_drop: "sd_total (take n xs) + sd_total (drop n xs) = sd_total xs"
  unfolding sd_total_def by (rule sum_list_map_take_drop)

lemma submit_round_done:
  assumes r: "submit_round env mp xdev m x n req sgt e dn w = Some (rv, n', req', sgt', e', dn', w')"
    and "env_calm env" "0 \<le> rv" "has_descs e"
    and cnt: "r_sw_desc_idx req < r_sw_desc_cnt req" "r_sw_desc_cnt req \<le> length (r_sdesc req)"
    and tot: "sd_total (r_sdesc req) < 2 ^ 32"
    and k: "k = min (r_sw_desc_cnt req - r_sw_desc_idx req) XDMA_TRANSFER_MAX_DESC"
  shows "rv = 0 \<and> has_descs e' \<and> r_sdesc req' = r_sdesc req \<and> r_sw_desc_cnt req' = r_sw_desc_cnt req \<and>
    r_sw_desc_idx req' = r_sw_desc_idx req + k \<and> n' = n - int k \<and>
    dn' = dn + sd_total (take k (drop (r_sw_desc_idx req) (r_sdesc req)))"
  using r assms(2)
proof (cases rule: submit_roundE)
  case (refused e1 w1 t)
  from refused(5) assms(3) show ?thesis by simp
next
  case (run e1 e2 e3 w1 w2 w3 t)
  let ?ss = "take k (drop (r_sw_desc_idx req) (r_sdesc req))"
  obtain ds where ds: "e_desc e = Some ds" "XDMA_TRANSFER_MAX_DESC \<le> length ds"
    using assms(4) by (auto simp: has_descs_def)
  note ti = transfer_init_eq[OF ds cnt k refl]
  have e1: "e1 = fst (the (transfer_init e req))" "req' = snd (the (transfer_init e req))"
    using run(1) by simp_all
  have req': "r_sdesc req' = r_sdesc req" "r_sw_desc_cnt req' = r_sw_desc_cnt req"
    "r_sw_desc_idx req' = r_sw_desc_idx req + k" "t_desc_num (r_xfer req') = int k"
    "t_len (r_xfer req') = sum_list (map sd_len ?ss)"
    unfolding e1(2) ti by simp_all
  have he1: "has_descs e1" unfolding e1(1) ti using ds by (simp add: has_descs_def)
  have "sd_total ?ss \<le> sd_total (r_sdesc req)"
    using sd_total_take_drop[of k "drop (r_sw_desc_idx req) (r_sdesc req)"]
      sd_total_take_drop[of "r_sw_desc_idx req" "r_sdesc req"] by linarith
  then have u: "unat (sum_list (map sd_len ?ss)) = sd_total ?ss"
    using tot by (intro unat_sum_u32) simp
  have q: "quiet w1 w2" using run(5) by (simp add: calm_def)
  have "t_len (xfers w1 x) = sum_list (map sd_len ?ss)" unfolding run(3,4) by (simp add: req'(5))
  then have tl: "unat (t_len (xfers w2 x)) = sd_total ?ss" using quiet_fields(1)[OF q, of x] u by simp
  note sr = settle_result(2)[OF run(6) assms(3)]
  have "has_descs e3" using has_descs_calm[OF run(5)] he1 sr by simp
  then have he: "has_descs e'"
    using destroy_cases(1)[OF run(7)] by (auto simp: has_descs_def xdma_desc_done_def)
  show ?thesis using req'(1-4) run(2) he sr unfolding tl by simp
qed

lemma submit_loop_done:
  "submit_loop env mp xdev m x n req sgt e dn w = Some (rv, sgt', e', dn', w') \<Longrightarrow>
   env_calm env \<Longrightarrow> 0 \<le> rv \<Longrightarrow> has_descs e \<Longrightarrow> r_sw_desc_idx req \<le> r_sw_desc_cnt req \<Longrightarrow>
   r_sw_desc_cnt req \<le> length (r_sdesc req) \<Longrightarrow> sd_total (r_sdesc req) < 2 ^ 32 \<Longrightarrow>
   n = int (r_sw_desc_cnt req - r_sw_desc_idx req) \<Longrightarrow>
   rv = 0 \<and> dn' = dn + sd_total (take (r_sw_desc_cnt req - r_sw_desc_idx req)
                               (drop (r_sw_desc_idx req) (r_sdesc req)))"
proof (induction env mp xdev m x n req sgt e dn w rule: submit_loop.induct)
  case (1 env mp xdev m x n req sgt e dn w)
  show ?case
  proof (cases "n = 0")
    case True
    then show ?thesis using 1(2,9) by (simp add: submit_loop_0)
  next
    case False
    then obtain rv1 n1 req1 sgt1 e1 dn1 w1 where
      r: "submit_round env mp xdev m x n req sgt e dn w = Some (rv1, n1, req1, sgt1, e1, dn1, w1)"
      using 1(2) by (subst (asm) submit_loop.simps) (auto split: option.splits)
    have l: "(if rv1 < 0 then Some (rv1, sgt1, e1, dn1, w1)
        else submit_loop env mp xdev m x n1 req1 sgt1 e1 dn1 w1) = Some (rv, sgt', e', dn', w')"
      using 1(2) False r by (subst (asm) submit_loop.simps) simp
    then have rv1: "0 \<le> rv1" using 1(4) by (auto split: if_splits)
    let ?k = "min (r_sw_desc_cnt req - r_sw_desc_idx req) XDMA_TRANSFER_MAX_DESC"
    have idx: "r_sw_desc_idx req < r_sw_desc_cnt req" using False 1(9) by simp
    note d = submit_round_done[OF r 1(3) rv1 1(5) idx 1(7,8) refl]
    have l': "submit_loop env mp xdev m x n1 req1 sgt1 e1 dn1 w1 = Some (rv, sgt', e', dn', w')"
      using l rv1 by simp
    have n1: "n1 = int (r_sw_desc_cnt req1 - r_sw_desc_idx req1)" using d 1(9) by simp
    have "\<not> rv1 < 0" using rv1 by simp
    then have IH: "rv = 0 \<and> dn' = dn1 + sd_total (take (r_sw_desc_cnt req1 - r_sw_desc_idx req1)
        (drop (r_sw_desc_idx req1) (r_sdesc req1)))"
      using 1(1)[OF False r refl refl refl refl refl refl _ l'] 1(3,4,6-9) d n1 by simp
    have t: "take (r_sw_desc_cnt req - r_sw_desc_idx req) (drop (r_sw_desc_idx req) (r_sdesc req)) =
        take ?k (drop (r_sw_desc_idx req) (r_sdesc req)) @
        take (r_sw_desc_cnt req - (r_sw_desc_idx req + ?k)) (drop (r_sw_desc_idx req + ?k) (r_sdesc req))"
    proof -
      have "r_sw_desc_cnt req - r_sw_desc_idx req = ?k + (r_sw_desc_cnt req - (r_sw_desc_idx req + ?k))"
        by simp
      then show ?thesis by (metis take_add drop_drop add.commute)
    qed
    show ?thesis using IH d unfolding t by simp
  qed
qed

lemma init_request_no_memory:
  assumes "desc_blen_max mp \<noteq> 0" "nents sgt \<le> length (sgl sgt)"
    and "no_wrap (desc_blen_max mp) (take (nents sgt) (sgl sgt))"
  shows "xdma_init_request mp False sgt ep = Some None"
  using assms by (simp add: xdma_init_request_def sg_walk_def extra_descs_eq xdma_request_alloc_def)

lemma sd_total_zero [simp]: "sd_total (replicate n zero_sw_desc) = 0"
  by (induction n) (simp_all add: zero_sw_desc_def)

lemma submit_bytes:
  assumes s: "submit_on_engine env mp xdev m x dir ep sgt e w = Some (rv, sgt', e', w')"
    and "env_calm env" "has_descs e" "0 \<le> rv"
    and tab: "tab = (if m then sgt else map_sg env sgt)" "nents tab \<le> length (sgl tab)"
    and sg: "sg = take (nents tab) (sgl tab)"
    and b: "desc_blen_max mp \<noteq> 0" "no_wrap (desc_blen_max mp) sg" "extra_spec (desc_blen_max mp) sg < 2 ^ 32"
    and tot: "sum_list (map (unat \<circ> snd) sg) < 2 ^ 32"
  shows "rv = int (sum_list (map (unat \<circ> snd) sg))"
proof -
  let ?ps = "sg_pieces (desc_blen_max mp) sg"
  have tab': "(if \<not> m then map_sg env sgt else sgt) = tab" using tab(1) by simp
  have al: "alloc_req env"
  proof (rule ccontr)
    assume "\<not> alloc_req env"
    then have "xdma_init_request mp (alloc_req env) tab ep = Some None"
      using init_request_no_memory[of mp tab ep] b tab(2) sg by simp
    then have "rv < 0"
      using s assms(4) unfolding submit_on_engine_def tab' Let_def
      by (simp add: case_prod_beta split: if_splits)
    then show False using assms(4) by simp
  qed
  define req where "req = \<lparr>r_sgt = tab, r_total_len = sum_list (map snd sg), r_ep_addr = ep,
      r_xfer = zero_transfer, r_sw_desc_idx = 0, r_sw_desc_cnt = length ?ps,
      r_sdesc = ?ps @ replicate (nents tab + extra_spec (desc_blen_max mp) sg - length ?ps) zero_sw_desc\<rparr>"
  have rq: "xdma_init_request mp (alloc_req env) tab ep = Some (Some req)"
    using xdma_init_request_eq[OF b(1) tab(2) sg b(2,3) refl, of ep] al by (simp add: req_def)
  obtain rv1 sgt1 e1 dn w1 where
    l: "submit_loop env mp xdev m x (int (r_sw_desc_cnt req)) req tab e 0 w = Some (rv1, sgt1, e1, dn, w1)"
    and r: "rv = (if rv1 < 0 then rv1 else int dn)"
    using s assms(4) unfolding submit_on_engine_def tab' Let_def rq
    by (auto simp: case_prod_beta rq tab(1) split: if_splits bind_splits)
  have rv1: "0 \<le> rv1" using r assms(4) by (auto split: if_splits)
  have st: "sd_total ?ps = sum_list (map (unat \<circ> snd) sg)" by (rule sg_pieces_total[OF b(1)])
  have "dn = 0 + sd_total (take (r_sw_desc_cnt req - r_sw_desc_idx req)
      (drop (r_sw_desc_idx req) (r_sdesc req)))"
    using submit_loop_done[OF l assms(2) rv1 assms(3)] tot by (simp add: req_def st)
  then show ?thesis using r rv1 by (simp add: req_def st)
qed

section \<open>After a time-out\<close>

text \<open>
  When the wait ends with the transfer still submitted, the transfer is taken off
  the queue and RUN is cleared, but the engine stays marked as running.  A transfer
  that comes next is queued without starting the engine.
\<close>

lemma stuck_engine_not_started:
  assumes "\<not> d_lock xdev" "d_flags xdev AND XDEV_FLAG_OFFLINE = 0"
    and "e_shutdown e AND ENGINE_SHUTDOWN_REQUEST = 0" "e_running e"
    and "t_desc_num (xfers w y) \<noteq> 0"
  shows "\<exists>e' w'. transfer_queue mp xdev e y w = Some (0, e', w') \<and>
    e_transfer_list e' = e_transfer_list e @ [y] \<and> writes w' = writes w"
  using transfer_queue_running[OF assms(1,5,2,3,4)] by (simp add: enqueue_transfer_def)

section \<open>The performance run\<close>

text \<open>
  A loop of descriptors over one buffer.  Parameters: the bus address of the buffer
  (the code does not check that the allocation succeeds), whether the transfer is
  allocated, and the bus address of a new descriptor array, \<^verbatim>\<open>None\<close> when the
  allocation fails.  A new array has as many entries as the loop.
\<close>

definition perf_max_size :: int where "perf_max_size = 128 * 32 * 1024"

fun perf_fill :: "nat \<Rightarrow> nat \<Rightarrow> u64 \<Rightarrow> int \<Rightarrow> dma_dir \<Rightarrow> xdma_desc list \<Rightarrow> xdma_desc list option" where
  "perf_fill i 0 buffer_bus size_in_desc dir ds = Some ds"
| "perf_fill i (Suc n) buffer_bus size_in_desc dir ds = do {
     ds \<leftarrow> arr_mod (int i)
       (xdma_desc_set (buffer_bus + word_of_int (size_in_desc * int i)) 0 (word_of_int size_in_desc) dir) ds;
     perf_fill (i + 1) n buffer_bus size_in_desc dir ds
   }"

definition xdma_performance_submit ::
  "u64 \<Rightarrow> bool \<Rightarrow> u64 option \<Rightarrow> modparams \<Rightarrow> xdma_dev \<Rightarrow> xdma_engine \<Rightarrow> nat \<Rightarrow> world \<Rightarrow>
   (int \<times> xdma_engine \<times> world) option" where
  "xdma_performance_submit buffer_bus xfer_ok desc_mem mp xdev engine transfer w = do {
     p \<leftarrow> e_xdma_perf engine;
     let size_in_desc = sint (p_transfer_size p);
     let size = size_in_desc * 128;
     BUG_ON (p_transfer_size p > word_of_int perf_max_size);
     let num = (if size > perf_max_size then perf_max_size div size_in_desc else 128);
     BUG_ON (\<not> xfer_ok);
     let t = zero_transfer\<lparr>t_dir := e_dir engine, t_desc_num := num\<rparr>;
     engine \<leftarrow>
       (case e_desc engine of
          Some _ \<Rightarrow> Some engine
        | None \<Rightarrow> do {
            bus \<leftarrow> desc_mem;
            Some (engine\<lparr>e_desc := Some (replicate (nat num) zero_desc), e_desc_bus := bus\<rparr>)
          });
     let t = t\<lparr>t_desc_bus := e_desc_bus engine\<rparr>;
     ds \<leftarrow> e_desc engine;
     ds \<leftarrow> transfer_desc_init t (nat num) ds;
     ds \<leftarrow> perf_fill 0 (nat num) buffer_bus size_in_desc (e_dir engine) ds;
     d \<leftarrow> arr_get 0 ds;
     d \<leftarrow> xdma_desc_control_set 0 d;
     ds \<leftarrow> arr_mod 0 (\<lambda>_. d) ds;
     ds \<leftarrow> arr_mod (num - 1) (xdma_desc_link (Some (t_desc_bus t))) ds;
     let engine = engine\<lparr>e_desc := Some ds\<rparr>;
     let w = upd_xfer transfer (\<lambda>_. t\<lparr>t_cyclic := True\<rparr>) w;
     (_, engine, w) \<leftarrow> transfer_queue mp xdev engine transfer w;
     Some (0, engine, w)
   }"

lemma perf_fill_eq:
  "i + n \<le> length ds \<Longrightarrow>
   perf_fill i n b sz dir ds =
     Some (map_range i n (\<lambda>k. xdma_desc_set (b + word_of_int (sz * int k)) 0 (word_of_int sz) dir) ds)"
  by (induction n arbitrary: i ds) (simp_all add: map_range_Suc)

end
