(* ===== verification/Cyclic.thy ===== *)
theory Cyclic
  imports Submit
begin

text \<open>
  Cyclic transfers of a streaming C2H engine (libxdma.c): the ring of pages the device
  writes to, its set up and tear down, and \<^verbatim>\<open>xdma_engine_read_cyclic\<close>, which copies the
  packets received to the reader.

  The pages and their bus addresses come from the allocator and the DMA mapping, which
  are in \<^verbatim>\<open>cyclic_env\<close> with the wait for the interrupt, the bytes the device has written
  and the outcome of \<^verbatim>\<open>copy_to_user\<close>.  The original number of entries of a page table is the
  length of its list.  The buffer of the reader is a function from offsets to bytes.
\<close>

unbundle bit_operations_syntax

definition PAGE_SIZE :: nat where [const_defs]: "PAGE_SIZE = 4096"

record cyclic_env =
  sg_alloc_ok :: bool
  page_ok :: "nat \<Rightarrow> bool"
  page_bus :: "nat \<Rightarrow> u64 option"
  req_ok :: bool
  cyc_wait :: "nat \<Rightarrow> xdma_engine \<Rightarrow> world \<Rightarrow> xdma_engine \<times> world"
  cyc_fuel :: nat
  cyc_late :: "nat \<Rightarrow> bool"
  cyc_dma :: "nat \<Rightarrow> xdma_result list \<Rightarrow> xdma_result list"
  page_mem :: "nat \<Rightarrow> nat \<Rightarrow> nat \<Rightarrow> u8"
  user_ok :: "u32 \<Rightarrow> u32 \<Rightarrow> bool"

definition zero_result :: xdma_result where
  "zero_result = \<lparr>res_status = 0, res_length = 0\<rparr>"

section \<open>The pages\<close>

primrec free_pages_loop :: "nat \<Rightarrow> nat \<Rightarrow> world \<Rightarrow> world" where
  "free_pages_loop 0 i w = w"
| "free_pages_loop (Suc n) i w = free_pages_loop n (Suc i) (kcall (PageFree i) (kcall (PageUnmapped i) w))"

definition sgt_free_with_pages :: "sg_table \<Rightarrow> world \<Rightarrow> sg_table \<times> world" where
  "sgt_free_with_pages sgt w = (\<lparr>sgl = [], nents = 0\<rparr>, free_pages_loop (length (sgl sgt)) 0 w)"

text \<open>The entries that already have a page, in order; the flag says whether all got one.\<close>

primrec alloc_pages_loop ::
  "cyclic_env \<Rightarrow> nat \<Rightarrow> nat \<Rightarrow> (u64 \<times> u32) list \<Rightarrow> world \<Rightarrow> bool \<times> (u64 \<times> u32) list \<times> world" where
  "alloc_pages_loop env 0 i sg w = (True, sg, w)"
| "alloc_pages_loop env (Suc n) i sg w =
     (if \<not> page_ok env i then (False, sg, w)
      else
        (let w = kcall (PageAlloc i) w in
         case page_bus env i of
           None \<Rightarrow> (False, sg, kcall (PageFree i) w)
         | Some b \<Rightarrow> alloc_pages_loop env n (Suc i) (sg @ [(b, of_nat PAGE_SIZE)]) (kcall (PageMapped i) w)))"

definition sgt_alloc_with_pages :: "cyclic_env \<Rightarrow> nat \<Rightarrow> world \<Rightarrow> int \<times> sg_table \<times> world" where
  "sgt_alloc_with_pages env npages w =
     (if \<not> sg_alloc_ok env then (- ENOMEM, \<lparr>sgl = [], nents = 0\<rparr>, w)
      else
        (let (ok, sg, w) = alloc_pages_loop env npages 0 [] w in
         if ok then (0, \<lparr>sgl = sg, nents = npages\<rparr>, w)
         else
           (let (sgt, w) = sgt_free_with_pages \<lparr>sgl = sg, nents = 0\<rparr> w in (- ENOMEM, sgt, w))))"

section \<open>Set up\<close>

text \<open>
  The source of a descriptor becomes the address where the device writes the result.  A
  result is 32 bytes in memory: the status, the length and six words of padding.
\<close>

definition sizeof_xdma_result :: u64 where [const_defs]: "sizeof_xdma_result = 32"

primrec result_addr_loop :: "nat \<Rightarrow> nat \<Rightarrow> u64 \<Rightarrow> xdma_desc list \<Rightarrow> xdma_desc list option" where
  "result_addr_loop 0 i bus ds = Some ds"
| "result_addr_loop (Suc n) i bus ds = do {
     ds \<leftarrow> arr_mod (int i) (\<lambda>d. d\<lparr>src_addr_lo := ucast (PCI_DMA_L bus), src_addr_hi := ucast (PCI_DMA_H bus)\<rparr>) ds;
     result_addr_loop n (Suc i) (bus + sizeof_xdma_result) ds
   }"

primrec ring_control_loop :: "nat \<Rightarrow> nat \<Rightarrow> xdma_desc list \<Rightarrow> xdma_desc list option" where
  "ring_control_loop 0 i ds = Some ds"
| "ring_control_loop (Suc n) i ds = do {
     d \<leftarrow> arr_get (int i) ds;
     d \<leftarrow> xdma_desc_control_clear LS_BYTE_MASK d;
     d \<leftarrow> xdma_desc_control_set (XDMA_DESC_EOP OR XDMA_DESC_COMPLETED) d;
     ds \<leftarrow> arr_mod (int i) (\<lambda>_. d) ds;
     ring_control_loop n (Suc i) ds
   }"

definition xdma_transfer_cyclic ::
  "xdma_transfer \<Rightarrow> xdma_desc list \<Rightarrow> (xdma_transfer \<times> xdma_desc list) option" where
  "xdma_transfer_cyclic transfer ds = do {
     ds \<leftarrow> arr_mod (t_desc_num transfer - 1) (xdma_desc_link (Some (t_desc_bus transfer))) ds;
     Some (transfer\<lparr>t_cyclic := True\<rparr>, ds)
   }"

definition release_cyclic :: "xdma_engine \<Rightarrow> world \<Rightarrow> xdma_engine \<times> world" where
  "release_cyclic engine w =
     (let (engine, w) = (if e_cyclic_req engine \<noteq> None
            then (engine\<lparr>e_cyclic_req := None\<rparr>, kcall FreeRequest w) else (engine, w))
      in if sgl (e_cyclic_sgt engine) \<noteq> []
         then (let (sgt, w) = sgt_free_with_pages (e_cyclic_sgt engine) w
               in (engine\<lparr>e_cyclic_sgt := sgt\<rparr>, w))
         else (engine, w))"

text \<open>The descriptors of the ring, from those of the transfer just built.\<close>

definition ring_descs ::
  "u64 \<Rightarrow> xdma_transfer \<Rightarrow> xdma_desc list \<Rightarrow> (xdma_transfer \<times> xdma_desc list) option" where
  "ring_descs result_bus xfer ds = do {
     ds \<leftarrow> result_addr_loop (nat (t_desc_num xfer)) 0 result_bus ds;
     ds \<leftarrow> ring_control_loop (nat (t_desc_num xfer)) 0 ds;
     xdma_transfer_cyclic xfer ds
   }"

text \<open>The request is the argument \<^verbatim>\<open>x\<close>: the address of the transfer in it.\<close>

definition xdma_cyclic_transfer_setup ::
  "cyclic_env \<Rightarrow> modparams \<Rightarrow> xdma_dev \<Rightarrow> nat \<Rightarrow> xdma_engine \<Rightarrow> world \<Rightarrow> (int \<times> xdma_engine \<times> world) option" where
  "xdma_cyclic_transfer_setup env mp xdev x engine w =
     (if e_cyclic_req engine \<noteq> None then Some (- EBUSY, engine, w)
      else do {
        let engine = engine\<lparr>e_rx_tail := 0, e_rx_head := 0, e_rx_overrun := False, e_eop_found := False\<rparr>;
        let (rc, sgt, w) = sgt_alloc_with_pages env (nat CYCLIC_RX_PAGES_MAX) w;
        let engine = engine\<lparr>e_cyclic_sgt := sgt\<rparr>;
        if rc < 0 then (let (engine, w) = release_cyclic engine w in Some (rc, engine, w))
        else do {
          r \<leftarrow> xdma_init_request mp (req_ok env) sgt 0;
          case r of
            None \<Rightarrow> (let (engine, w) = release_cyclic engine w in Some (- ENOMEM, engine, w))
          | Some req \<Rightarrow> do {
              (engine, req) \<leftarrow> transfer_init engine req;
              result \<leftarrow> e_cyclic_result engine;
              let result = replicate (nat CYCLIC_RX_PAGES_MAX) zero_result @ drop (nat CYCLIC_RX_PAGES_MAX) result;
              ds \<leftarrow> e_desc engine;
              (xfer, ds) \<leftarrow> ring_descs (e_cyclic_result_bus engine) (r_xfer req) ds;
              let engine = engine\<lparr>e_cyclic_req := Some x, e_cyclic_result := Some result, e_desc := Some ds\<rparr>;
              let w = upd_xfer x (\<lambda>_. xfer) w;
              let w = (if enable_credit_mp mp then write_register 128 (sreg engine SG_credits) w else w);
              (_, engine, w) \<leftarrow> transfer_queue mp xdev engine x w;
              Some (0, engine, w)
            }
        }
      })"

section \<open>Tear down\<close>

text \<open>Polling until the engine is idle has no bound in the code.\<close>

partial_function (option) idle_loop :: "xdma_engine \<Rightarrow> world \<Rightarrow> (xdma_engine \<times> world) option" where
  "idle_loop engine w = Option.bind (engine_status_read engine True False w) (\<lambda>(_, engine, w).
     if e_status engine AND XDMA_STAT_BUSY \<noteq> 0 then idle_loop engine w else Some (engine, w))"

definition cyclic_shutdown_polled :: "modparams \<Rightarrow> xdma_engine \<Rightarrow> world \<Rightarrow> (int \<times> xdma_engine \<times> world) option" where
  "cyclic_shutdown_polled mp engine w = do {
     (engine, w) \<leftarrow> idle_loop engine w;
     let (engine, w) = cyclic_engine_stopped mp engine w;
     Some (0, engine, w)
   }"

text \<open>The wait of ten seconds is \<^verbatim>\<open>cyc_wait\<close>; its own result is not used by the caller.\<close>

definition cyclic_shutdown_interrupt :: "cyclic_env \<Rightarrow> xdma_engine \<Rightarrow> world \<Rightarrow> int \<times> xdma_engine \<times> world" where
  "cyclic_shutdown_interrupt env engine w =
     (let (engine, w) = cyc_wait env 0 engine w
      in if e_running engine then (- EINVAL, engine, w) else (0, engine, w))"

definition xdma_cyclic_transfer_teardown ::
  "cyclic_env \<Rightarrow> modparams \<Rightarrow> xdma_engine \<Rightarrow> world \<Rightarrow> (int \<times> xdma_engine \<times> world) option" where
  "xdma_cyclic_transfer_teardown env mp engine w = do {
     (transfer, engine, w) \<leftarrow> engine_cyclic_stop mp engine w;
     (rc, engine, w) \<leftarrow>
       (if poll_mode mp then cyclic_shutdown_polled mp engine w
        else Some (cyclic_shutdown_interrupt env engine w));
     let (engine, w) = release_cyclic engine w;
     Some (0, engine, w)
   }"

section \<open>Reading packets\<close>

text \<open>
  Taking the new results off the ring.  Every step clears the entry it looks at, and an
  empty entry ends the loop as a fault, so the loop ends after at most one round.
\<close>

definition full_results :: "xdma_result list \<Rightarrow> nat" where
  "full_results rs = length (filter (\<lambda>r. res_length r \<noteq> 0) rs)"

lemma full_results_clear:
  assumes "arr_get i rs = Some r" "res_length r \<noteq> 0"
  shows "full_results (rs[nat i := zero_result]) < full_results rs"
proof -
  have i: "nat i < length rs" "r = rs ! nat i" using assms(1) by (auto simp: arr_get_def split: if_splits)
  have "length (filter P (xs[k := y])) < length (filter P xs)"
    if "k < length xs" "P (xs ! k)" "\<not> P y" for P k and xs :: "xdma_result list" and y
    using that
  proof (induction xs arbitrary: k)
    case (Cons x xs)
    show ?case
    proof (cases k)
      case 0
      then show ?thesis using Cons.prems by simp
    next
      case (Suc j)
      then have "length (filter P (xs[j := y])) < length (filter P xs)" using Cons.prems by (intro Cons.IH) simp_all
      then show ?thesis using Suc by simp
    qed
  qed simp
  from this[OF i(1), of "\<lambda>r. res_length r \<noteq> 0" zero_result] show ?thesis
    using assms(2) i(2) by (simp add: full_results_def zero_result_def)
qed

text \<open>The value: fault, end of packet, length, credits, the results and the head.\<close>

function complete_loop ::
  "int \<Rightarrow> bool \<Rightarrow> nat \<Rightarrow> nat \<Rightarrow> xdma_result list \<Rightarrow> int \<Rightarrow>
   (bool \<times> bool \<times> nat \<times> nat \<times> xdma_result list \<times> int) option" where
  "complete_loop tail overrun pkt_length num_credit result head =
     (if head \<noteq> tail \<or> overrun then
        (case arr_get head result of
           None \<Rightarrow> None
         | Some r \<Rightarrow>
             if drop_bit 16 (res_status r) \<noteq> C2H_WB \<or> unat (res_length r) > PAGE_SIZE \<or> res_length r = 0 then
               Some (True, False, pkt_length, num_credit, result[nat head := zero_result],
                     (head + 1) mod CYCLIC_RX_PAGES_MAX)
             else if res_status r AND RX_STATUS_EOP \<noteq> 0 then
               Some (False, True, pkt_length + unat (res_length r), num_credit + 1,
                     result[nat head := zero_result], (head + 1) mod CYCLIC_RX_PAGES_MAX)
             else complete_loop tail overrun (pkt_length + unat (res_length r)) (num_credit + 1)
                    (result[nat head := zero_result]) ((head + 1) mod CYCLIC_RX_PAGES_MAX))
      else Some (False, False, pkt_length, num_credit, result, head))"
  by pat_completeness auto
termination
  by (relation "measure (\<lambda>(_, _, _, _, result, _). full_results result)") (auto intro: full_results_clear)

declare complete_loop.simps [simp del]

definition put_user :: "nat \<Rightarrow> nat \<Rightarrow> (nat \<Rightarrow> u8) \<Rightarrow> (nat \<Rightarrow> u8) \<Rightarrow> nat \<Rightarrow> u8" where
  "put_user off n page ubuf = (\<lambda>a. if off \<le> a \<and> a < off + n then page (a - off) else ubuf a)"

definition sglist_index :: "sg_table \<Rightarrow> int \<Rightarrow> nat option" where
  "sglist_index sgt idx =
     (if unat (word_of_int idx :: u32) \<ge> length (sgl sgt) then None else Some (unat (word_of_int idx :: u32)))"

definition sg_next :: "nat \<Rightarrow> nat \<Rightarrow> nat option" where
  "sg_next n p = (if Suc p < n then Some (Suc p) else None)"

text \<open>
  The copying loop.  \<^verbatim>\<open>blen\<close> is the room left, computed in 32 bits.  The loop need not end
  when the room is a multiple of 4 GB, so it is a partial function; the flag says
  whether every \<^verbatim>\<open>copy_to_user\<close> succeeded.
\<close>

partial_function (option) copy_loop ::
  "(nat \<Rightarrow> nat \<Rightarrow> u8) \<Rightarrow> (u32 \<Rightarrow> u32 \<Rightarrow> bool) \<Rightarrow> nat \<Rightarrow> nat \<Rightarrow> u32 \<Rightarrow> int \<Rightarrow> nat option \<Rightarrow> u32 \<Rightarrow>
   (nat \<Rightarrow> u8) \<Rightarrow> (bool \<times> u32 \<times> (nat \<Rightarrow> u8)) option" where
  "copy_loop pages ok npages count remain head sg idx ubuf =
     (if remain = 0 then Some (True, idx, ubuf)
      else Option.bind sg (\<lambda>p.
        let copy = min (min remain (of_nat PAGE_SIZE)) (of_nat count - idx) in
        if \<not> ok idx copy then Some (False, idx, ubuf)
        else if unat (idx + copy) = count
        then Some (True, idx + copy, put_user (unat idx) (unat copy) (pages p) ubuf)
        else if head + 1 \<ge> CYCLIC_RX_PAGES_MAX
        then copy_loop pages ok npages count (remain - copy) 0 (Some 0) (idx + copy)
               (put_user (unat idx) (unat copy) (pages p) ubuf)
        else copy_loop pages ok npages count (remain - copy) (head + 1) (sg_next npages p) (idx + copy)
               (put_user (unat idx) (unat copy) (pages p) ubuf)))"

definition copy_cyclic_to_user ::
  "(nat \<Rightarrow> nat \<Rightarrow> u8) \<Rightarrow> (u32 \<Rightarrow> u32 \<Rightarrow> bool) \<Rightarrow> xdma_engine \<Rightarrow> nat \<Rightarrow> int \<Rightarrow> nat \<Rightarrow> (nat \<Rightarrow> u8) \<Rightarrow>
   (int \<times> xdma_engine \<times> (nat \<Rightarrow> u8)) option" where
  "copy_cyclic_to_user pages ok engine pkt_length head count ubuf =
     (case sglist_index (e_cyclic_sgt engine) head of
        None \<Rightarrow> Some (- EIO, engine, ubuf)
      | Some p \<Rightarrow> do {
          (done_ok, idx, ubuf) \<leftarrow> copy_loop pages ok (length (sgl (e_cyclic_sgt engine))) count
            (of_nat pkt_length) head (Some p) (e_user_buffer_index engine) ubuf;
          let engine = engine\<lparr>e_user_buffer_index := idx\<rparr>;
          if done_ok then Some (int pkt_length, engine, ubuf) else Some (- EIO, engine, ubuf)
        })"

definition complete_cyclic ::
  "(nat \<Rightarrow> nat \<Rightarrow> u8) \<Rightarrow> (u32 \<Rightarrow> u32 \<Rightarrow> bool) \<Rightarrow> xdma_engine \<Rightarrow> nat \<Rightarrow> (nat \<Rightarrow> u8) \<Rightarrow> world \<Rightarrow>
   (int \<times> xdma_engine \<times> (nat \<Rightarrow> u8) \<times> world) option" where
  "complete_cyclic pages ok engine count ubuf w = do {
     result \<leftarrow> e_cyclic_result engine;
     let head = e_rx_head engine;
     (fault, eop, pkt_length, num_credit, result, rx_head) \<leftarrow>
       complete_loop (e_rx_tail engine) (e_rx_overrun engine) 0 0 result head;
     let engine = engine\<lparr>e_cyclic_result := Some result, e_rx_head := rx_head\<rparr>;
     let engine = (if eop then engine\<lparr>e_eop_found := True\<rparr> else engine);
     if fault then Some (- EIO, engine, ubuf, w)
     else do {
       (rc, engine, ubuf) \<leftarrow> copy_cyclic_to_user pages ok engine pkt_length head count ubuf;
       let engine = engine\<lparr>e_rx_overrun := False\<rparr>;
       let w = (if rc > 0 then write_register (of_nat num_credit) (sreg engine SG_credits) w else w);
       Some (rc, engine, ubuf, w)
     }
   }"

text \<open>Up to five polls, until the result at the head has a status.\<close>

primrec monitor_polls ::
  "cyclic_env \<Rightarrow> modparams \<Rightarrow> nat \<Rightarrow> xdma_engine \<Rightarrow> world \<Rightarrow> (xdma_engine \<times> world) option" where
  "monitor_polls env mp 0 engine w = Some (engine, w)"
| "monitor_polls env mp (Suc n) engine w = do {
     (rc, engine, w) \<leftarrow> engine_service_poll (cyc_fuel env) (cyc_late env) (cyc_dma env) mp engine 0 w;
     result \<leftarrow> e_cyclic_result engine;
     r \<leftarrow> arr_get (e_rx_head engine) result;
     if res_status r \<noteq> 0 then Some (engine, w) else monitor_polls env mp n engine w
   }"

text \<open>
  What a reader waits for.  The pointer to the transfer, on whose wait queue he sleeps, is
  computed from the request of the engine before the first round.  Without a request it is a
  small number, which is no fault until the reader goes to sleep: if what he waits for is
  there already, he does not touch the queue.
\<close>

definition read_ready :: "modparams \<Rightarrow> xdma_engine \<Rightarrow> bool" where
  "read_ready mp engine \<longleftrightarrow>
     (if enable_credit_mp mp then e_rx_head engine \<noteq> e_rx_tail engine \<or> e_rx_overrun engine
      else e_eop_found engine)"

definition transfer_monitor_cyclic ::
  "cyclic_env \<Rightarrow> modparams \<Rightarrow> nat option \<Rightarrow> nat \<Rightarrow> xdma_engine \<Rightarrow> world \<Rightarrow>
   (int \<times> xdma_engine \<times> world) option" where
  "transfer_monitor_cyclic env mp transfer n engine w = do {
     BUG_ON (e_cyclic_result engine = None);
     if poll_mode mp then do {
       (engine, w) \<leftarrow> monitor_polls env mp 5 engine w;
       Some (0, engine, w)
     }
     else if transfer = None \<and> \<not> read_ready mp engine then None
     else (let (engine, w) = cyc_wait env n engine w in Some (0, engine, w))
   }"

text \<open>At most eleven rounds, \<^verbatim>\<open>n\<close> of them left, until the end of a packet.\<close>

primrec read_rounds ::
  "cyclic_env \<Rightarrow> modparams \<Rightarrow> nat option \<Rightarrow> nat \<Rightarrow> nat \<Rightarrow> int \<Rightarrow> xdma_engine \<Rightarrow> nat \<Rightarrow> (nat \<Rightarrow> u8) \<Rightarrow> world \<Rightarrow>
   (int \<times> xdma_engine \<times> (nat \<Rightarrow> u8) \<times> world) option" where
  "read_rounds env mp transfer 0 i rc_len engine count ubuf w = Some (rc_len, engine, ubuf, w)"
| "read_rounds env mp transfer (Suc n) i rc_len engine count ubuf w = do {
     (rc, engine, w) \<leftarrow> transfer_monitor_cyclic env mp transfer i engine w;
     if rc < 0 then Some (rc, engine, ubuf, w)
     else do {
       (rc, engine, ubuf, w) \<leftarrow> complete_cyclic (page_mem env i) (user_ok env) engine count ubuf w;
       if rc < 0 then Some (rc, engine, ubuf, w)
       else if e_eop_found engine then Some (rc_len + rc, engine, ubuf, w)
       else read_rounds env mp transfer n (Suc i) (rc_len + rc) engine count ubuf w
     }
   }"

definition xdma_engine_read_cyclic ::
  "cyclic_env \<Rightarrow> modparams \<Rightarrow> xdma_engine \<Rightarrow> nat \<Rightarrow> (nat \<Rightarrow> u8) \<Rightarrow> world \<Rightarrow>
   (int \<times> xdma_engine \<times> (nat \<Rightarrow> u8) \<times> world) option" where
  "xdma_engine_read_cyclic env mp engine count ubuf w = do {
     BUG_ON (e_magic engine \<noteq> MAGIC_ENGINE);
     let transfer = e_cyclic_req engine;
     let engine = engine\<lparr>e_user_buffer_index := 0\<rparr>;
     (rc, engine, ubuf, w) \<leftarrow> read_rounds env mp transfer 11 0 0 engine count ubuf w;
     if rc < 0 then Some (rc, engine, ubuf, w)
     else Some (rc, if enable_credit_mp mp then engine\<lparr>e_eop_found := False\<rparr> else engine, ubuf, w)
   }"

end
