(* ===== verification/Pci.thy ===== *)
theory Pci
  imports Engine
begin

text \<open>
  The PCI side of libxdma.c: configuration space, MSI and MSI-X, mapping of the BARs
  and their identification.

  What the PCI core answers is not under src/: it is the record \<^verbatim>\<open>pci_env\<close>.  An
  answer that may depend on what the driver did before is a function of the trace of its
  calls.  Capability and register numbers are those of the PCI specification.
\<close>

unbundle bit_operations_syntax

record pci_env =
  no_msi :: bool
  bus_no_msi :: "bool list"
  has_cap :: "nat \<Rightarrow> bool"
  alloc_vectors :: "kevent list \<Rightarrow> int \<Rightarrow> int"
  enable_msi :: "kevent list \<Rightarrow> int"
  irq_vector :: "int \<Rightarrow> int"
  request_irq :: "kevent list \<Rightarrow> int \<Rightarrow> irq_owner \<Rightarrow> int"
  pci_irq :: int
  cfg_word :: "kevent list \<Rightarrow> nat \<Rightarrow> u16"
  cfg_byte :: "kevent list \<Rightarrow> nat \<Rightarrow> u8"
  cap_word :: "kevent list \<Rightarrow> nat \<Rightarrow> u16"
  bar_len :: "nat \<Rightarrow> u64"
  iomap :: "kevent list \<Rightarrow> nat \<Rightarrow> addr option"
  enable_device :: "kevent list \<Rightarrow> int"
  request_regions_rv :: "kevent list \<Rightarrow> int"
  dma_mask_rv :: "nat \<Rightarrow> int"
  alloc_dev_ok :: bool
  coh_descs :: "kevent list \<Rightarrow> (xdma_desc list \<times> u64) option"
  coh_writeback :: "kevent list \<Rightarrow> (addr \<times> u64) option"
  coh_results :: "kevent list \<Rightarrow> (xdma_result list \<times> u64) option"

definition PCI_COMMAND :: nat where [const_defs]: "PCI_COMMAND = 4"
definition PCI_COMMAND_INTX_DISABLE :: u16 where [const_defs]: "PCI_COMMAND_INTX_DISABLE = 0x400"
definition PCI_STATUS :: nat where [const_defs]: "PCI_STATUS = 6"
definition PCI_STATUS_INTERRUPT :: u16 where [const_defs]: "PCI_STATUS_INTERRUPT = 8"
definition PCI_INTERRUPT_PIN :: nat where [const_defs]: "PCI_INTERRUPT_PIN = 0x3d"
definition PCI_CAP_ID_MSI :: nat where [const_defs]: "PCI_CAP_ID_MSI = 5"
definition PCI_CAP_ID_MSIX :: nat where [const_defs]: "PCI_CAP_ID_MSIX = 0x11"
definition PCI_EXP_DEVCTL :: nat where [const_defs]: "PCI_EXP_DEVCTL = 8"
definition PCI_EXP_DEVCTL_EXT_TAG :: u16 where [const_defs]: "PCI_EXP_DEVCTL_EXT_TAG = 0x100"

section \<open>MSI and configuration space\<close>

text \<open>\<^verbatim>\<open>arch_msi_check_device\<close> is the driver's own function, which returns 0.\<close>

definition arch_msi_check_device :: int where "arch_msi_check_device = 0"

definition msi_msix_capable :: "pci_env \<Rightarrow> nat \<Rightarrow> bool" where
  "msi_msix_capable env type =
     (if no_msi env then False
      else if list_ex (\<lambda>b. b) (bus_no_msi env) then False
      else if arch_msi_check_device \<noteq> 0 then False
      else has_cap env type)"

definition disable_msi_msix :: "xdma_dev \<Rightarrow> world \<Rightarrow> xdma_dev \<times> world" where
  "disable_msi_msix d w =
     (if d_msix_enabled d then (d\<lparr>d_msix_enabled := False\<rparr>, kcall MsixDisabled w)
      else if d_msi_enabled d then (d\<lparr>d_msi_enabled := False\<rparr>, kcall MsiDisabled w)
      else (d, w))"

definition enable_msi_msix :: "pci_env \<Rightarrow> modparams \<Rightarrow> xdma_dev \<Rightarrow> world \<Rightarrow> int \<times> xdma_dev \<times> world" where
  "enable_msi_msix env mp d w =
     (if interrupt_mode mp = 0 \<and> msi_msix_capable env PCI_CAP_ID_MSIX then
        (let req_nvec = d_c2h_channel_max d + d_h2c_channel_max d + d_user_max d;
             rv = alloc_vectors env (ktrace w) req_nvec;
             w = (if rv < 0 then w else kcall (MsixEnabled req_nvec) w)
         in (rv, d\<lparr>d_msix_enabled := True\<rparr>, w))
      else if interrupt_mode mp = 1 \<and> msi_msix_capable env PCI_CAP_ID_MSI then
        (let rv = enable_msi env (ktrace w);
             w = (if rv < 0 then w else kcall MsiEnabled w)
         in (rv, d\<lparr>d_msi_enabled := True\<rparr>, w))
      else (0, d, w))"

definition pci_check_intr_pend :: "pci_env \<Rightarrow> world \<Rightarrow> world" where
  "pci_check_intr_pend env w =
     (let v = cfg_word env (ktrace w) PCI_STATUS
      in if v AND PCI_STATUS_INTERRUPT \<noteq> 0 then kcall (CfgWrite PCI_STATUS PCI_STATUS_INTERRUPT) w else w)"

definition pci_keep_intx_enabled :: "pci_env \<Rightarrow> world \<Rightarrow> world" where
  "pci_keep_intx_enabled env w =
     (let pcmd = cfg_word env (ktrace w) PCI_COMMAND;
          pcmd_new = pcmd AND NOT PCI_COMMAND_INTX_DISABLE
      in if pcmd_new \<noteq> pcmd then kcall (CfgWrite PCI_COMMAND pcmd_new) w else w)"

definition pci_check_extended_tag :: "pci_env \<Rightarrow> xdma_dev \<Rightarrow> world \<Rightarrow> world option" where
  "pci_check_extended_tag env d w =
     (let cap = cap_word env (ktrace w) PCI_EXP_DEVCTL
      in if cap AND PCI_EXP_DEVCTL_EXT_TAG \<noteq> 0 then Some w
         else if d_config_bar_idx d < 0 then Some w
         else do {
           bar \<leftarrow> config_bar d;
           let reg = bar + XDMA_OFS_CONFIG + 0x4C;
           let (v, w) = read_register reg w;
           let v = (v AND 0xFF) OR push_bit 8 32;
           Some (write_register v reg w)
         })"

section \<open>BARs\<close>

definition INT_MAX :: u64 where [const_defs]: "INT_MAX = 0x7fffffff"

primrec unmap_bars_loop :: "nat \<Rightarrow> nat \<Rightarrow> xdma_dev \<Rightarrow> world \<Rightarrow> (xdma_dev \<times> world) option" where
  "unmap_bars_loop 0 i d w = Some (d, w)"
| "unmap_bars_loop (Suc n) i d w = do {
     b \<leftarrow> arr_get (int i) (d_bar d);
     if b \<noteq> None then unmap_bars_loop n (Suc i) (d\<lparr>d_bar := (d_bar d)[i := None]\<rparr>) (kcall (BarUnmapped i) w)
     else unmap_bars_loop n (Suc i) d w
   }"

definition unmap_bars :: "xdma_dev \<Rightarrow> world \<Rightarrow> (xdma_dev \<times> world) option" where
  "unmap_bars d w = unmap_bars_loop XDMA_BAR_NUM 0 d w"

definition map_single_bar :: "pci_env \<Rightarrow> nat \<Rightarrow> xdma_dev \<Rightarrow> world \<Rightarrow> (int \<times> xdma_dev \<times> world) option" where
  "map_single_bar env idx d w = do {
     bars \<leftarrow> arr_mod (int idx) (\<lambda>_. None) (d_bar d);
     let d = d\<lparr>d_bar := bars\<rparr>;
     let map_len = bar_len env idx;
     if bar_len env idx = 0 then Some (0, d, w)
     else do {
       let map_len = (if bar_len env idx > INT_MAX then INT_MAX else map_len);
       case iomap env (ktrace w) idx of
         None \<Rightarrow> Some (- 1, d, w)
       | Some a \<Rightarrow>
           Some (int (unat map_len), d\<lparr>d_bar := (d_bar d)[idx := Some a]\<rparr>, kcall (BarMapped idx) w)
     }
   }"

definition is_config_bar :: "nat \<Rightarrow> xdma_dev \<Rightarrow> world \<Rightarrow> (bool \<times> world) option" where
  "is_config_bar idx d w = do {
     b \<leftarrow> arr_get (int idx) (d_bar d);
     bar \<leftarrow> b;
     let mask = 0xffff0000;
     let (irq_id, w) = read_register (ireg bar IR_identifier) w;
     let (cfg_id, w) = read_register (reg_addr config_regs (bar + XDMA_OFS_CONFIG) CR_identifier) w;
     Some (irq_id AND mask = IRQ_BLOCK_ID \<and> cfg_id AND mask = CONFIG_BLOCK_ID, w)
   }"

definition identify_bars :: "nat list \<Rightarrow> nat \<Rightarrow> nat \<Rightarrow> xdma_dev \<Rightarrow> xdma_dev" where
  "identify_bars bar_id_list num_bars config_bar_pos d =
     (if num_bars = 1 then d
      else if num_bars = 2 then
        (if config_bar_pos = 0 then d\<lparr>d_bypass_bar_idx := int (bar_id_list ! 1)\<rparr>
         else if config_bar_pos = 1 then d\<lparr>d_user_bar_idx := int (bar_id_list ! 0)\<rparr>
         else d)
      else if num_bars = 3 \<or> num_bars = 4 then
        (if config_bar_pos = 1 \<or> config_bar_pos = 2 then
           d\<lparr>d_user_bar_idx := int (bar_id_list ! 0),
             d_bypass_bar_idx := int (bar_id_list ! (num_bars - 1))\<rparr>
         else d)
      else d)"

text \<open>
  The loop over the BARs carries the list of mapped BARs, in order, whose length is
  \<^verbatim>\<open>bar_id_idx\<close>; a negative first component is the jump to the failure label.
\<close>

primrec map_bars_loop ::
  "pci_env \<Rightarrow> nat \<Rightarrow> nat \<Rightarrow> nat list \<Rightarrow> nat \<Rightarrow> xdma_dev \<Rightarrow> world \<Rightarrow>
   (int \<times> nat list \<times> nat \<times> xdma_dev \<times> world) option" where
  "map_bars_loop env 0 i ids pos d w = Some (0, ids, pos, d, w)"
| "map_bars_loop env (Suc n) i ids pos d w = do {
     (bar_len, d, w) \<leftarrow> map_single_bar env i d w;
     if bar_len = 0 then map_bars_loop env n (Suc i) ids pos d w
     else if bar_len < 0 then Some (- EINVAL, ids, pos, d, w)
     else if bar_len \<ge> int XDMA_BAR_SIZE \<and> d_config_bar_idx d < 0 then do {
       (flag, w) \<leftarrow> is_config_bar i d w;
       if flag then map_bars_loop env n (Suc i) (ids @ [i]) (length ids) (d\<lparr>d_config_bar_idx := int i\<rparr>) w
       else map_bars_loop env n (Suc i) (ids @ [i]) pos d w
     }
     else map_bars_loop env n (Suc i) (ids @ [i]) pos d w
   }"

definition map_bars :: "pci_env \<Rightarrow> xdma_dev \<Rightarrow> world \<Rightarrow> (int \<times> xdma_dev \<times> world) option" where
  "map_bars env d w = do {
     (rv, ids, pos, d, w) \<leftarrow> map_bars_loop env XDMA_BAR_NUM 0 [] 0 d w;
     if rv < 0 then do {
       (d, w) \<leftarrow> unmap_bars d w;
       Some (rv, d, w)
     }
     else if d_config_bar_idx d < 0 then do {
       (d, w) \<leftarrow> unmap_bars d w;
       Some (- EINVAL, d, w)
     }
     else Some (0, identify_bars ids (length ids) pos d, w)
   }"

section \<open>Lemmas\<close>

text \<open>How many more times a BAR has been mapped than unmapped.\<close>

fun bar_balance :: "nat \<Rightarrow> kevent list \<Rightarrow> int" where
  "bar_balance i [] = 0"
| "bar_balance i (e # es) =
     (if e = BarMapped i then 1 else if e = BarUnmapped i then - 1 else 0) + bar_balance i es"

text \<open>The pointers the device keeps agree with the mappings made through the PCI core.\<close>

definition bars_ok :: "(nat \<Rightarrow> int) \<Rightarrow> xdma_dev \<Rightarrow> world \<Rightarrow> bool" where
  "bars_ok base d w \<longleftrightarrow> length (d_bar d) = 6 \<and>
     (\<forall>i < 6. bar_balance i (ktrace w) = base i + (if d_bar d ! i \<noteq> None then 1 else 0))"

lemma unmap_loop_ok:
  "bars_ok base d w \<Longrightarrow> i + n \<le> 6 \<Longrightarrow>
   \<exists>d' w'. unmap_bars_loop n i d w = Some (d', w') \<and> bars_ok base d' w' \<and>
     (\<forall>j < 6. d_bar d' ! j = (if i \<le> j \<and> j < i + n then None else d_bar d ! j)) \<and>
     d' = d\<lparr>d_bar := d_bar d'\<rparr> \<and> xfers w' = xfers w \<and> hw w' = hw w \<and> writes w' = writes w"
proof (induction n arbitrary: i d w)
  case (Suc n)
  have l: "length (d_bar d) = 6" "i < 6" using Suc.prems by (auto simp: bars_ok_def)
  show ?case
  proof (cases "d_bar d ! i = None")
    case True
    have "unmap_bars_loop (Suc n) i d w = unmap_bars_loop n (Suc i) d w"
      using l True by (simp add: arr_get_def)
    then show ?thesis
      using Suc.IH[of d w "Suc i"] Suc.prems True by (fastforce simp: less_Suc_eq_le dest: le_neq_implies_less)
  next
    case False
    let ?d = "d\<lparr>d_bar := (d_bar d)[i := None]\<rparr>" and ?w = "kcall (BarUnmapped i) w"
    have e: "unmap_bars_loop (Suc n) i d w = unmap_bars_loop n (Suc i) ?d ?w"
      using l False by (simp add: arr_get_def)
    have "bars_ok base ?d ?w"
      using Suc.prems(1) l False by (auto simp: bars_ok_def nth_list_update)
    from Suc.IH[OF this, of "Suc i"] Suc.prems(2)
    obtain d' w' where r: "unmap_bars_loop n (Suc i) ?d ?w = Some (d', w')" "bars_ok base d' w'"
      "\<forall>j < 6. d_bar d' ! j = (if Suc i \<le> j \<and> j < Suc i + n then None else d_bar ?d ! j)"
      "d' = ?d\<lparr>d_bar := d_bar d'\<rparr>" "xfers w' = xfers ?w" "hw w' = hw ?w" "writes w' = writes ?w" by auto
    show ?thesis
      unfolding e r(1) using r l
      by (intro exI[of _ d'] exI[of _ w'] conjI refl) (auto simp: nth_list_update)
  qed
qed auto

lemma unmap_bars_ok:
  assumes "bars_ok base d w"
  shows "\<exists>d' w'. unmap_bars d w = Some (d', w') \<and> bars_ok base d' w' \<and>
    (\<forall>j < 6. d_bar d' ! j = None) \<and> d' = d\<lparr>d_bar := d_bar d'\<rparr> \<and>
    xfers w' = xfers w \<and> hw w' = hw w \<and> writes w' = writes w"
  using unmap_loop_ok[OF assms, of 0 6] by (auto simp: unmap_bars_def XDMA_BAR_NUM_def)

lemma is_config_bar_frame:
  assumes "is_config_bar i d w = Some (f, w')"
  shows "ktrace w' = ktrace w" "xfers w' = xfers w" "hw w' = hw w" "writes w' = writes w"
  using assms by (auto simp: is_config_bar_def case_prod_beta Let_def split: bind_splits)

lemma bars_ok_read:
  "ktrace w' = ktrace w \<Longrightarrow> bars_ok base d w' = bars_ok base d w"
  "bars_ok base (d\<lparr>d_config_bar_idx := c\<rparr>) w = bars_ok base d w"
  by (simp_all add: bars_ok_def)

lemma map_single_ok:
  assumes "bars_ok base d w" "i < 6" "d_bar d ! i = None"
  shows "\<exists>rv d' w'. map_single_bar env i d w = Some (rv, d', w') \<and> bars_ok base d' w' \<and>
    (0 < rv \<longleftrightarrow> d_bar d' ! i \<noteq> None) \<and> (\<forall>j. j \<noteq> i \<longrightarrow> d_bar d' ! j = d_bar d ! j) \<and>
    d' = d\<lparr>d_bar := d_bar d'\<rparr> \<and> xfers w' = xfers w \<and> hw w' = hw w \<and> writes w' = writes w"
proof -
  have l: "length (d_bar d) = 6" using assms(1) by (simp add: bars_ok_def)
  have n: "(d_bar d)[i := None] = d_bar d" using assms(3) by (metis list_update_id)
  have s: "d\<lparr>d_bar := d_bar d\<rparr> = d" by simp
  show ?thesis
  proof (cases "bar_len env i = 0")
    case True
    then show ?thesis using assms l by (simp add: map_single_bar_def n)
  next
    case False
    then have pos: "0 < unat (if bar_len env i > INT_MAX then INT_MAX else bar_len env i)"
      by (auto simp: INT_MAX_def unat_gt_0)
    then have "0 < uint (if bar_len env i > INT_MAX then INT_MAX else bar_len env i)"
      by (simp only: unat_eq_nat_uint zero_less_nat_eq)
    then show ?thesis
      using assms l False
      by (cases "iomap env (ktrace w) i")
        (auto simp: map_single_bar_def n Let_def bars_ok_def nth_list_update)
  qed
qed

definition bar_frame :: "xdma_dev \<Rightarrow> world \<Rightarrow> xdma_dev \<Rightarrow> world \<Rightarrow> bool" where
  "bar_frame d w d' w' \<longleftrightarrow>
     (\<exists>b c. d' = d\<lparr>d_bar := b, d_config_bar_idx := c\<rparr>) \<and>
     xfers w' = xfers w \<and> hw w' = hw w \<and> writes w' = writes w"

lemma bar_frame_trans:
  assumes "bar_frame d w d1 w1" "bar_frame d1 w1 d2 w2"
  shows "bar_frame d w d2 w2"
proof -
  obtain b c b' c' where "d1 = d\<lparr>d_bar := b, d_config_bar_idx := c\<rparr>"
    "d2 = d1\<lparr>d_bar := b', d_config_bar_idx := c'\<rparr>"
    using assms unfolding bar_frame_def by blast
  then have "d2 = d\<lparr>d_bar := b', d_config_bar_idx := c'\<rparr>" by simp
  then show ?thesis using assms unfolding bar_frame_def by metis
qed

lemma bar_frame_config:
  "xfers w' = xfers w \<Longrightarrow> hw w' = hw w \<Longrightarrow> writes w' = writes w \<Longrightarrow>
   bar_frame d w (d\<lparr>d_config_bar_idx := c\<rparr>) w'"
  unfolding bar_frame_def by (intro conjI exI[of _ "d_bar d"] exI[of _ c]) simp_all

lemma bar_frame_bars:
  "d' = d\<lparr>d_bar := d_bar d'\<rparr> \<Longrightarrow> xfers w' = xfers w \<Longrightarrow> hw w' = hw w \<Longrightarrow> writes w' = writes w \<Longrightarrow>
   bar_frame d w d' w'"
  unfolding bar_frame_def
  by (intro conjI exI[of _ "d_bar d'"] exI[of _ "d_config_bar_idx d"]) (erule trans, simp, assumption+)

text \<open>A BAR index that is set denotes a mapped BAR.\<close>

definition config_mapped :: "xdma_dev \<Rightarrow> bool" where
  "config_mapped d \<longleftrightarrow> (0 \<le> d_config_bar_idx d \<longrightarrow>
     d_config_bar_idx d < 6 \<and> d_bar d ! nat (d_config_bar_idx d) \<noteq> None)"

definition bars_result ::
  "(nat \<Rightarrow> int) \<Rightarrow> xdma_dev \<Rightarrow> world \<Rightarrow> (int \<times> nat list \<times> nat \<times> xdma_dev \<times> world) option \<Rightarrow> bool" where
  "bars_result base d w r \<longleftrightarrow>
     (\<exists>rv ids pos d' w'. r = Some (rv, ids, pos, d', w') \<and> bars_ok base d' w' \<and>
        (rv = 0 \<or> rv = - EINVAL) \<and> config_mapped d' \<and> bar_frame d w d' w')"

lemma bars_resultI:
  "bars_ok base d' w' \<Longrightarrow> rv = 0 \<or> rv = - EINVAL \<Longrightarrow> config_mapped d' \<Longrightarrow> bar_frame d w d' w' \<Longrightarrow>
   bars_result base d w (Some (rv, ids, pos, d', w'))"
  unfolding bars_result_def by blast

lemma bars_result_trans:
  "bar_frame d w d1 w1 \<Longrightarrow> bars_result base d1 w1 r \<Longrightarrow> bars_result base d w r"
  unfolding bars_result_def using bar_frame_trans by blast

lemma map_bars_loop_ok:
  "bars_ok base d w \<Longrightarrow> i + n \<le> 6 \<Longrightarrow> \<forall>j. i \<le> j \<longrightarrow> j < 6 \<longrightarrow> d_bar d ! j = None \<Longrightarrow>
   config_mapped d \<Longrightarrow> bars_result base d w (map_bars_loop env n i ids pos d w)"
proof (induction n arbitrary: i ids pos d w)
  case 0
  then show ?case using bar_frame_bars[of d d w w] by (auto intro!: bars_resultI)
next
  case (Suc n)
  have i: "i < 6" and sn: "Suc i + n \<le> 6" using Suc.prems(2) by simp_all
  have "d_bar d ! i = None" using Suc.prems(3) i by simp
  then obtain rv d1 w1 where m: "map_single_bar env i d w = Some (rv, d1, w1)" "bars_ok base d1 w1"
    "0 < rv \<longleftrightarrow> d_bar d1 ! i \<noteq> None" "\<forall>j. j \<noteq> i \<longrightarrow> d_bar d1 ! j = d_bar d ! j"
    "d1 = d\<lparr>d_bar := d_bar d1\<rparr>" "xfers w1 = xfers w" "hw w1 = hw w" "writes w1 = writes w"
    using map_single_ok[OF Suc.prems(1) i, of env] by blast
  have c1: "d_config_bar_idx d1 = d_config_bar_idx d" by (subst m(5)) simp
  have fr: "bar_frame d w d1 w1" by (rule bar_frame_bars[OF m(5-8)])
  have free: "\<forall>j. Suc i \<le> j \<longrightarrow> j < 6 \<longrightarrow> d_bar d1 ! j = None"
    using Suc.prems(3) m(4) by simp
  have "nat (d_config_bar_idx d) \<noteq> i" if "0 \<le> d_config_bar_idx d"
    using Suc.prems(3,4) i that unfolding config_mapped_def by auto
  then have cfg: "config_mapped d1"
    using Suc.prems(4) m(4) unfolding config_mapped_def c1 by simp
  note step = bars_result_trans[OF fr]
  consider (zero) "rv = 0" | (fail) "rv < 0"
    | (plain) "0 < rv" "\<not> (int XDMA_BAR_SIZE \<le> rv \<and> d_config_bar_idx d1 < 0)"
    | (probe) "0 < rv" "int XDMA_BAR_SIZE \<le> rv \<and> d_config_bar_idx d1 < 0" by linarith
  then show ?case
  proof cases
    case zero
    then show ?thesis using step[OF Suc.IH[OF m(2) sn free cfg]] m(1) by simp
  next
    case fail
    then show ?thesis using bars_resultI[OF m(2) _ cfg fr] m(1) by simp
  next
    case plain
    then have "map_bars_loop env (Suc n) i ids pos d w = map_bars_loop env n (Suc i) (ids @ [i]) pos d1 w1"
      using m(1) by auto
    then show ?thesis using step[OF Suc.IH[OF m(2) sn free cfg]] by simp
  next
    case probe
    obtain a where a: "d_bar d1 ! i = Some a" using probe(1) m(3) by auto
    have "length (d_bar d1) = 6" using m(2) by (simp add: bars_ok_def)
    then obtain f w2 where f: "is_config_bar i d1 w1 = Some (f, w2)"
      using a i by (auto simp: is_config_bar_def arr_get_def case_prod_beta Let_def)
    note fr2 = is_config_bar_frame[OF f]
    have b2: "bars_ok base d1 w2" "bars_ok base (d1\<lparr>d_config_bar_idx := int i\<rparr>) w2"
      using m(2) bars_ok_read fr2(1) by metis+
    have g: "bar_frame d1 w1 d1 w2" "bar_frame d1 w1 (d1\<lparr>d_config_bar_idx := int i\<rparr>) w2"
      using bar_frame_bars[OF _ fr2(2-4), of d1 d1] bar_frame_config[OF fr2(2-4)] by simp_all
    have free': "\<forall>j. Suc i \<le> j \<longrightarrow> j < 6 \<longrightarrow> d_bar (d1\<lparr>d_config_bar_idx := int i\<rparr>) ! j = None"
      using free by simp
    have cfg': "config_mapped (d1\<lparr>d_config_bar_idx := int i\<rparr>)"
      using a i by (simp add: config_mapped_def)
    have e: "map_bars_loop env (Suc n) i ids pos d w =
        (if f then map_bars_loop env n (Suc i) (ids @ [i]) (length ids) (d1\<lparr>d_config_bar_idx := int i\<rparr>) w2
         else map_bars_loop env n (Suc i) (ids @ [i]) pos d1 w2)"
      using m(1) f probe by simp
    show ?thesis
      unfolding e
      using step[OF bars_result_trans[OF g(1) Suc.IH[OF b2(1) sn free cfg]]]
        step[OF bars_result_trans[OF g(2) Suc.IH[OF b2(2) sn free' cfg']]]
      by (cases f) simp_all
  qed
qed

text \<open>\<^verbatim>\<open>map_bars\<close> succeeds with the configuration BAR mapped, or fails with nothing mapped.\<close>

lemma map_bars_ok:
  assumes "bars_ok base d w" "\<forall>j < 6. d_bar d ! j = None" "d_config_bar_idx d < 0"
  shows "\<exists>rv d' w'. map_bars env d w = Some (rv, d', w') \<and> bars_ok base d' w' \<and>
    xfers w' = xfers w \<and> hw w' = hw w \<and> writes w' = writes w \<and>
    (rv = 0 \<and> 0 \<le> d_config_bar_idx d' \<and> config_mapped d' \<or>
     rv = - EINVAL \<and> (\<forall>j < 6. d_bar d' ! j = None))"
proof -
  have "bars_result base d w (map_bars_loop env 6 0 [] 0 d w)"
    by (rule map_bars_loop_ok[OF assms(1)]) (use assms in \<open>simp_all add: config_mapped_def\<close>)
  then obtain rv ids pos d1 w1 where l: "map_bars_loop env XDMA_BAR_NUM 0 [] 0 d w = Some (rv, ids, pos, d1, w1)"
    "bars_ok base d1 w1" "rv = 0 \<or> rv = - EINVAL" "config_mapped d1" "bar_frame d w d1 w1"
    unfolding bars_result_def XDMA_BAR_NUM_def by blast
  obtain d2 w2 where u: "unmap_bars d1 w1 = Some (d2, w2)" "bars_ok base d2 w2"
    "\<forall>j < 6. d_bar d2 ! j = None" "xfers w2 = xfers w1" "hw w2 = hw w1" "writes w2 = writes w1"
    using unmap_bars_ok[OF l(2)] by blast
  have f: "xfers w1 = xfers w" "hw w1 = hw w" "writes w1 = writes w"
    using l(5) by (simp_all add: bar_frame_def)
  let ?d = "identify_bars ids (length ids) pos d1"
  have id: "d_bar ?d = d_bar d1" "d_config_bar_idx ?d = d_config_bar_idx d1"
    by (simp_all add: identify_bars_def)
  have ok: "bars_ok base ?d w1" "config_mapped ?d"
    using l(2,4) unfolding bars_ok_def config_mapped_def id by blast+
  show ?thesis
  proof (cases "rv < 0 \<or> d_config_bar_idx d1 < 0")
    case True
    then have "map_bars env d w = Some (- EINVAL, d2, w2)"
      using l(1,3) u(1) by (auto simp: map_bars_def)
    then show ?thesis using u f by simp
  next
    case False
    then have "map_bars env d w = Some (0, ?d, w1)"
      using l(1,3) by (auto simp: map_bars_def)
    then show ?thesis
      using ok f False id(2) by (intro exI[of _ 0] exI[of _ ?d] exI[of _ w1]) simp
  qed
qed

end
