(* ===== verification/Irq.thy ===== *)
theory Irq
  imports Pci Service
begin

text \<open>
  Interrupts of libxdma.c: the handlers (\<^verbatim>\<open>xdma_isr\<close> for MSI and legacy interrupts,
  \<^verbatim>\<open>xdma_user_irq\<close> and \<^verbatim>\<open>xdma_channel_irq\<close> for MSI-X), the programming of the vector
  registers, and the request and release of the interrupt lines.

  What a registered user handler returns is a parameter \<^verbatim>\<open>hret\<close>; that it ran is an
  event of the trace.  The channel counts are small non-negative numbers, so the
  counters of the programming loops are naturals.
\<close>

unbundle bit_operations_syntax

definition IRQ_NONE :: int where [const_defs]: "IRQ_NONE = 0"
definition IRQ_HANDLED :: int where [const_defs]: "IRQ_HANDLED = 1"

type_synonym handlers = "nat \<Rightarrow> u8 \<Rightarrow> nat \<Rightarrow> int"

section \<open>Handlers\<close>

definition user_irq_service :: "handlers \<Rightarrow> nat \<Rightarrow> xdma_dev \<Rightarrow> world \<Rightarrow> (int \<times> xdma_dev \<times> world) option" where
  "user_irq_service hret i d w = do {
     u \<leftarrow> arr_get (int i) (d_user_irq d);
     case u_handler u of
       Some h \<Rightarrow> Some (hret h (u_user_idx u) (u_dev u), d, kcall (RunHandler h (u_user_idx u) (u_dev u)) w)
     | None \<Rightarrow>
         (if \<not> u_events_irq u then
            Some (IRQ_HANDLED, d\<lparr>d_user_irq := (d_user_irq d)[i := u\<lparr>u_events_irq := True\<rparr>]\<rparr>,
                  kcall (WakeEvents i) w)
          else Some (IRQ_HANDLED, d, w))
   }"

text \<open>The loop over the user interrupts of \<^verbatim>\<open>xdma_isr\<close>, with \<^verbatim>\<open>max - user\<close> iterations left.\<close>

primrec isr_user_loop ::
  "handlers \<Rightarrow> nat \<Rightarrow> nat \<Rightarrow> u32 \<Rightarrow> u32 \<Rightarrow> xdma_dev \<Rightarrow> world \<Rightarrow> (xdma_dev \<times> world) option" where
  "isr_user_loop hret 0 user msk user_irq d w = Some (d, w)"
| "isr_user_loop hret (Suc n) user msk user_irq d w =
     (if user_irq = 0 then Some (d, w)
      else if user_irq AND msk \<noteq> 0 then do {
        let user_irq = user_irq AND NOT msk;
        (_, d, w) \<leftarrow> user_irq_service hret user d w;
        isr_user_loop hret n (Suc user) (push_bit 1 msk) user_irq d w
      }
      else isr_user_loop hret n (Suc user) (push_bit 1 msk) user_irq d w)"

primrec isr_engine_loop ::
  "xdma_engine list \<Rightarrow> dma_dir \<Rightarrow> nat \<Rightarrow> nat \<Rightarrow> u32 \<Rightarrow> world \<Rightarrow> world option" where
  "isr_engine_loop es dir 0 channel msk w = Some w"
| "isr_engine_loop es dir (Suc n) channel msk w =
     (if msk = 0 then Some w
      else do {
        engine \<leftarrow> arr_get (int channel) es;
        if e_irq_bitmask engine AND msk \<noteq> 0 \<and> e_magic engine = MAGIC_ENGINE then
          isr_engine_loop es dir n (Suc channel) (msk AND NOT (e_irq_bitmask engine))
            (kcall (ScheduleWork dir channel) w)
        else isr_engine_loop es dir n (Suc channel) msk w
      })"

definition xdma_isr :: "handlers \<Rightarrow> xdma_dev \<Rightarrow> world \<Rightarrow> (int \<times> xdma_dev \<times> world) option" where
  "xdma_isr hret d w = do {
     bar \<leftarrow> config_bar d;
     let (ch_irq, w) = read_register (ireg bar IR_channel_int_request) w;
     w \<leftarrow> (if ch_irq \<noteq> 0 then channel_interrupts_disable d ch_irq w else Some w);
     let (user_irq, w) = read_register (ireg bar IR_user_int_request) w;
     (d, w) \<leftarrow>
       (if user_irq \<noteq> 0 then isr_user_loop hret (nat (d_h2c_channel_max d)) 0 1 user_irq d w
        else Some (d, w));
     let mask = ch_irq AND d_mask_irq_h2c d;
     w \<leftarrow>
       (if mask \<noteq> 0 then
          isr_engine_loop (d_engine_h2c d) DMA_TO_DEVICE (nat (d_h2c_channel_max d)) 0 mask w
        else Some w);
     let mask = ch_irq AND d_mask_irq_c2h d;
     w \<leftarrow>
       (if mask \<noteq> 0 then
          isr_engine_loop (d_engine_c2h d) DMA_FROM_DEVICE (nat (d_c2h_channel_max d)) 0 mask w
        else Some w);
     Some (IRQ_HANDLED, d\<lparr>d_irq_count := d_irq_count d + 1\<rparr>, w)
   }"

definition xdma_user_irq :: "handlers \<Rightarrow> nat \<Rightarrow> xdma_dev \<Rightarrow> world \<Rightarrow> (int \<times> xdma_dev \<times> world) option" where
  "xdma_user_irq hret i d w = user_irq_service hret i d w"

definition engines_of :: "xdma_dev \<Rightarrow> dma_dir \<Rightarrow> xdma_engine list" where
  "engines_of d dir = (if dir = DMA_TO_DEVICE then d_engine_h2c d else d_engine_c2h d)"

definition xdma_channel_irq ::
  "dma_dir \<Rightarrow> nat \<Rightarrow> xdma_dev \<Rightarrow> world \<Rightarrow> (int \<times> xdma_dev \<times> world) option" where
  "xdma_channel_irq dir i d w = do {
     engine \<leftarrow> arr_get (int i) (engines_of d dir);
     bar \<leftarrow> config_bar d;
     let w = write_register (e_interrupt_enable_mask_value engine)
               (ereg engine ER_interrupt_enable_mask_w1c) w;
     let w = snd (read_register (ireg bar IR_channel_int_pending) w);
     let w = kcall (ScheduleWork dir i) w;
     Some (IRQ_HANDLED, d\<lparr>d_irq_count := d_irq_count d + 1\<rparr>, w)
   }"

section \<open>Vector registers\<close>

text \<open>The inner loop packs up to four vectors, one per byte.\<close>

primrec pack_vectors :: "nat \<Rightarrow> nat \<Rightarrow> nat \<Rightarrow> nat \<Rightarrow> u32 \<Rightarrow> u32 \<times> nat" where
  "pack_vectors 0 i mx shift val = (val, i)"
| "pack_vectors (Suc k) i mx shift val =
     (if i < mx then pack_vectors k (Suc i) mx (shift + 8) (val OR push_bit shift (of_nat i AND 0x1f))
      else (val, i))"

lemma pack_vectors_mono: "i \<le> snd (pack_vectors k i mx shift val)"
  by (induction k arbitrary: i shift val) (auto intro: Suc_leD)

function prog_vectors :: "bool \<Rightarrow> addr \<Rightarrow> nat \<Rightarrow> nat \<Rightarrow> nat \<Rightarrow> world \<Rightarrow> world" where
  "prog_vectors clear reg i mx j w =
     (if i < mx then
        (let (val, i') = (if clear then (0, i + 4) else pack_vectors 4 i mx 0 0);
             w = write_register val (reg + of_nat (4 * j)) w
         in prog_vectors clear reg i' mx (j + 1) w)
      else w)"
  by pat_completeness auto
termination
proof (relation "measure (\<lambda>(clear, reg, i, mx, j, w). mx - i)")
  fix clear reg i mx j w p val i' w'
  assume a: "i < (mx :: nat)" "p = (if clear then (0, i + 4) else pack_vectors 4 i mx 0 0)" "(val, i') = p"
  have "i < snd (pack_vectors 4 i mx 0 0)"
    using a(1) pack_vectors_mono[of "Suc i" 3 mx] by (simp add: numeral_eq_Suc Suc_le_eq)
  moreover have "i' = snd p" using a(3) by (metis snd_conv)
  ultimately have "i < i'" using a(2) by (cases clear) simp_all
  then show "((clear, reg, i', mx, j + 1, w'), clear, reg, i, mx, j, w) \<in>
      measure (\<lambda>(clear, reg, i, mx, j, w). mx - i)"
    using a(1) by auto
qed simp

declare prog_vectors.simps [simp del]

definition prog_irq_msix_user :: "xdma_dev \<Rightarrow> bool \<Rightarrow> world \<Rightarrow> world option" where
  "prog_irq_msix_user d clear w = do {
     bar \<leftarrow> config_bar d;
     let i = nat (d_c2h_channel_max d + d_h2c_channel_max d);
     let max = nat (d_c2h_channel_max d + d_h2c_channel_max d + d_user_max d);
     Some (prog_vectors clear (ireg bar IR_user_msi_vector) i max 0 w)
   }"

definition prog_irq_msix_channel :: "xdma_dev \<Rightarrow> bool \<Rightarrow> world \<Rightarrow> world option" where
  "prog_irq_msix_channel d clear w = do {
     bar \<leftarrow> config_bar d;
     let max = nat (d_c2h_channel_max d + d_h2c_channel_max d);
     Some (prog_vectors clear (ireg bar IR_channel_msi_vector) 0 max 0 w)
   }"

section \<open>Lines of the channels\<close>

text \<open>Releasing stops at the first engine without a line.\<close>

primrec free_channels :: "xdma_engine list \<Rightarrow> dma_dir \<Rightarrow> nat \<Rightarrow> nat \<Rightarrow> world \<Rightarrow> world option" where
  "free_channels es dir 0 i w = Some w"
| "free_channels es dir (Suc n) i w = do {
     engine \<leftarrow> arr_get (int i) es;
     if e_msix_irq_line engine = 0 then Some w
     else free_channels es dir n (Suc i) (kcall (IrqFreed (e_msix_irq_line engine) (OwnEngine dir i)) w)
   }"

definition irq_msix_channel_teardown :: "xdma_dev \<Rightarrow> world \<Rightarrow> world option" where
  "irq_msix_channel_teardown d w =
     (if \<not> d_msix_enabled d then Some w
      else do {
        w \<leftarrow> prog_irq_msix_channel d True w;
        w \<leftarrow> free_channels (d_engine_h2c d) DMA_TO_DEVICE (nat (d_h2c_channel_max d)) 0 w;
        free_channels (d_engine_c2h d) DMA_FROM_DEVICE (nat (d_c2h_channel_max d)) 0 w
      })"

primrec request_channels ::
  "pci_env \<Rightarrow> dma_dir \<Rightarrow> nat \<Rightarrow> nat \<Rightarrow> int \<Rightarrow> xdma_engine list \<Rightarrow> world \<Rightarrow>
   (int \<times> xdma_engine list \<times> world) option" where
  "request_channels env dir 0 i j es w = Some (0, es, w)"
| "request_channels env dir (Suc n) i j es w = do {
     engine \<leftarrow> arr_get (int i) es;
     let vector = irq_vector env j;
     let rv = request_irq env (ktrace w) vector (OwnEngine dir i);
     if rv \<noteq> 0 then Some (rv, es, w)
     else request_channels env dir n (Suc i) (j + 1) (es[i := engine\<lparr>e_msix_irq_line := vector\<rparr>])
            (kcall (IrqRequested vector (OwnEngine dir i)) w)
   }"

definition irq_msix_channel_setup :: "pci_env \<Rightarrow> xdma_dev \<Rightarrow> world \<Rightarrow> (int \<times> xdma_dev \<times> world) option" where
  "irq_msix_channel_setup env d w =
     (if \<not> d_msix_enabled d then Some (0, d, w)
      else do {
        (rv, es, w) \<leftarrow> request_channels env DMA_TO_DEVICE (nat (d_h2c_channel_max d)) 0 0 (d_engine_h2c d) w;
        let d = d\<lparr>d_engine_h2c := es\<rparr>;
        if rv \<noteq> 0 then Some (rv, d, w)
        else do {
          (rv, es, w) \<leftarrow> request_channels env DMA_FROM_DEVICE (nat (d_c2h_channel_max d)) 0
                           (d_h2c_channel_max d) (d_engine_c2h d) w;
          let d = d\<lparr>d_engine_c2h := es\<rparr>;
          if rv \<noteq> 0 then Some (rv, d, w) else Some (0, d, w)
        }
      })"

section \<open>Lines of the user interrupts\<close>

primrec free_users :: "pci_env \<Rightarrow> nat \<Rightarrow> nat \<Rightarrow> int \<Rightarrow> world \<Rightarrow> world" where
  "free_users env 0 i j w = w"
| "free_users env (Suc n) i j w =
     free_users env n (Suc i) (j + 1) (kcall (IrqFreed (irq_vector env j) (OwnUser i)) w)"

definition irq_msix_user_teardown :: "pci_env \<Rightarrow> xdma_dev \<Rightarrow> world \<Rightarrow> world option" where
  "irq_msix_user_teardown env d w =
     (if \<not> d_msix_enabled d then Some w
      else do {
        w \<leftarrow> prog_irq_msix_user d True w;
        Some (free_users env (nat (d_user_max d)) 0 (d_h2c_channel_max d + d_c2h_channel_max d) w)
      })"

text \<open>Requesting returns where it stopped; the lines before that are given back in reverse.\<close>

primrec request_users ::
  "pci_env \<Rightarrow> nat \<Rightarrow> nat \<Rightarrow> int \<Rightarrow> world \<Rightarrow> int \<times> nat \<times> int \<times> world" where
  "request_users env 0 i j w = (0, i, j, w)"
| "request_users env (Suc n) i j w =
     (let vector = irq_vector env j;
          rv = request_irq env (ktrace w) vector (OwnUser i)
      in if rv \<noteq> 0 then (rv, i, j, w)
         else request_users env n (Suc i) (j + 1) (kcall (IrqRequested vector (OwnUser i)) w))"

primrec free_users_back :: "pci_env \<Rightarrow> nat \<Rightarrow> int \<Rightarrow> world \<Rightarrow> world" where
  "free_users_back env 0 j w = w"
| "free_users_back env (Suc i) j w =
     free_users_back env i (j - 1) (kcall (IrqFreed (irq_vector env j) (OwnUser i)) w)"

definition irq_msix_user_setup :: "pci_env \<Rightarrow> xdma_dev \<Rightarrow> world \<Rightarrow> int \<times> world" where
  "irq_msix_user_setup env d w =
     (let (rv, i, j, w) = request_users env (nat (d_user_max d)) 0
                            (d_h2c_channel_max d + d_c2h_channel_max d) w;
          w = (if rv \<noteq> 0 then free_users_back env i (j - 1) w else w)
      in (rv, w))"

section \<open>One line for the device\<close>

definition irq_msi_setup :: "pci_env \<Rightarrow> xdma_dev \<Rightarrow> world \<Rightarrow> int \<times> xdma_dev \<times> world" where
  "irq_msi_setup env d w =
     (let d = d\<lparr>d_irq_line := pci_irq env\<rparr>;
          rv = request_irq env (ktrace w) (pci_irq env) OwnDev;
          w = (if rv = 0 then kcall (IrqRequested (pci_irq env) OwnDev) w else w)
      in (rv, d, w))"

definition irq_legacy_setup :: "pci_env \<Rightarrow> xdma_dev \<Rightarrow> world \<Rightarrow> (int \<times> xdma_dev \<times> world) option" where
  "irq_legacy_setup env d w = do {
     let val = cfg_byte env (ktrace w) PCI_INTERRUPT_PIN;
     w \<leftarrow>
       (if val > 1 then do {
          let v = (ucast (val - 1) :: u32);
          let word = push_bit 24 v OR push_bit 16 v OR push_bit 8 v OR v;
          bar \<leftarrow> config_bar d;
          Some (fold (\<lambda>off w. write_register word (bar + off) w)
            [0x2080, 0x2084, 0x2088, 0x208C, 0x20A0, 0x20A4] w)
        } else Some w);
     let d = d\<lparr>d_irq_line := pci_irq env\<rparr>;
     let rv = request_irq env (ktrace w) (pci_irq env) OwnDev;
     let w = (if rv = 0 then kcall (IrqRequested (pci_irq env) OwnDev) w else w);
     Some (rv, d, w)
   }"

definition irq_teardown :: "pci_env \<Rightarrow> xdma_dev \<Rightarrow> world \<Rightarrow> world option" where
  "irq_teardown env d w =
     (if d_msix_enabled d then do {
        w \<leftarrow> irq_msix_channel_teardown d w;
        irq_msix_user_teardown env d w
      }
      else if d_irq_line d \<noteq> - 1 then Some (kcall (IrqFreed (d_irq_line d) OwnDev) w)
      else Some w)"

definition irq_setup :: "pci_env \<Rightarrow> xdma_dev \<Rightarrow> world \<Rightarrow> (int \<times> xdma_dev \<times> world) option" where
  "irq_setup env d w = do {
     let w = pci_keep_intx_enabled env w;
     if d_msix_enabled d then do {
       (rv, d, w) \<leftarrow> irq_msix_channel_setup env d w;
       if rv \<noteq> 0 then Some (rv, d, w)
       else do {
         let (rv, w) = irq_msix_user_setup env d w;
         if rv \<noteq> 0 then Some (rv, d, w)
         else do {
           w \<leftarrow> prog_irq_msix_channel d False w;
           w \<leftarrow> prog_irq_msix_user d False w;
           Some (0, d, w)
         }
       }
     }
     else if d_msi_enabled d then Some (irq_msi_setup env d w)
     else irq_legacy_setup env d w
   }"

end
