(* ===== verification/Device.thy ===== *)
theory Device
  imports Irq DevList
begin

text \<open>
  The life of an engine and of a device (libxdma.c): setting up and removing the engines,
  \<^verbatim>\<open>xdma_device_open\<close>, \<^verbatim>\<open>close\<close>, \<^verbatim>\<open>offline\<close>, \<^verbatim>\<open>online\<close> and \<^verbatim>\<open>restart\<close>, and the user
  interrupt calls.

  The engines live in the two arrays of their device.  An engine that has been removed is
  all zero.  The name is the text that \<^verbatim>\<open>sprintf\<close> writes; the array for it is shorter.
\<close>

unbundle bit_operations_syntax

definition zero_engine :: xdma_engine where
  "zero_engine = \<lparr>e_magic = 0, e_name = [], e_version = 0, e_regs = 0, e_sgdma_regs = 0,
     e_bypass_offset = 0, e_shutdown = 0, e_dir = DMA_BIDIRECTIONAL, e_device_open = False,
     e_running = False, e_non_incr_addr = False, e_streaming = False, e_addr_align = 0,
     e_len_granularity = 0, e_addr_bits = 0, e_channel = 0, e_desc_dequeued = 0, e_status = 0,
     e_interrupt_enable_mask_value = 0, e_transfer_list = [], e_cyclic_result = None,
     e_cyclic_result_bus = 0, e_cyclic_req = None, e_cyclic_sgt = \<lparr>sgl = [], nents = 0\<rparr>,
     e_eop_found = False, e_rx_tail = 0, e_rx_head = 0, e_rx_overrun = False,
     e_user_buffer_index = 0, e_poll_mode_addr_virt = None, e_poll_mode_bus = 0,
     e_msix_irq_line = 0, e_irq_bitmask = 0, e_desc_bus = 0, e_desc = None, e_xdma_perf = None\<rparr>"

definition set_engines :: "dma_dir \<Rightarrow> xdma_engine list \<Rightarrow> xdma_dev \<Rightarrow> xdma_dev" where
  "set_engines dir es d =
     (if dir = DMA_TO_DEVICE then d\<lparr>d_engine_h2c := es\<rparr> else d\<lparr>d_engine_c2h := es\<rparr>)"

section \<open>Resources of an engine\<close>

definition engine_free_resource :: "xdma_engine \<Rightarrow> world \<Rightarrow> xdma_engine \<times> world" where
  "engine_free_resource engine w =
     (let (engine, w) = (if e_poll_mode_addr_virt engine \<noteq> None
            then (engine\<lparr>e_poll_mode_addr_virt := None\<rparr>, kcall FreeWriteback w) else (engine, w));
          (engine, w) = (if e_desc engine \<noteq> None
            then (engine\<lparr>e_desc := None\<rparr>, kcall FreeDescs w) else (engine, w));
          (engine, w) = (if e_cyclic_result engine \<noteq> None
            then (engine\<lparr>e_cyclic_result := None\<rparr>, kcall FreeCyclicResult w) else (engine, w))
      in (engine, w))"

definition engine_alloc_resource ::
  "pci_env \<Rightarrow> modparams \<Rightarrow> xdma_engine \<Rightarrow> world \<Rightarrow> int \<times> xdma_engine \<times> world" where
  "engine_alloc_resource env mp engine w =
     (let err_out = (\<lambda>engine w. let (engine, w) = engine_free_resource engine w in (- ENOMEM, engine, w)) in
      case coh_descs env (ktrace w) of
        None \<Rightarrow> err_out (engine\<lparr>e_desc := None\<rparr>) w
      | Some (ds, bus) \<Rightarrow>
          let engine = engine\<lparr>e_desc := Some ds, e_desc_bus := bus\<rparr>;
              w = kcall AllocDescs w;
              (ok, engine, w) =
                (if poll_mode mp then
                   (case coh_writeback env (ktrace w) of
                      None \<Rightarrow> (False, engine\<lparr>e_poll_mode_addr_virt := None\<rparr>, w)
                    | Some (a, b) \<Rightarrow>
                        (True, engine\<lparr>e_poll_mode_addr_virt := Some a, e_poll_mode_bus := b\<rparr>,
                         kcall AllocWriteback w))
                 else (True, engine, w))
          in if \<not> ok then err_out engine w
             else if e_streaming engine \<and> e_dir engine = DMA_FROM_DEVICE then
               (case coh_results env (ktrace w) of
                  None \<Rightarrow> err_out (engine\<lparr>e_cyclic_result := None\<rparr>) w
                | Some (r, b) \<Rightarrow>
                    (0, engine\<lparr>e_cyclic_result := Some r, e_cyclic_result_bus := b\<rparr>,
                     kcall AllocCyclicResult w))
             else (0, engine, w))"

section \<open>Registers of an engine\<close>

definition engine_writeback_setup :: "xdma_engine \<Rightarrow> world \<Rightarrow> (int \<times> world) option" where
  "engine_writeback_setup engine w = do {
     wb \<leftarrow> e_poll_mode_addr_virt engine;
     let w = write_register 0 wb w;
     let w = write_register (ucast (PCI_DMA_L (e_poll_mode_bus engine))) (ereg engine ER_poll_mode_wb_lo) w;
     let w = write_register (ucast (PCI_DMA_H (e_poll_mode_bus engine))) (ereg engine ER_poll_mode_wb_hi) w;
     Some (0, w)
   }"

text \<open>The write to the credit mode registers, for a streaming C2H engine only.\<close>

definition credit_mode ::
  "modparams \<Rightarrow> xdma_dev \<Rightarrow> xdma_engine \<Rightarrow> sgdma_common_reg \<Rightarrow> world \<Rightarrow> world option" where
  "credit_mode mp d engine r w =
     (if enable_credit_mp mp \<and> e_streaming engine \<and> e_dir engine = DMA_FROM_DEVICE then do {
        let reg_value = push_bit 16 (push_bit (e_channel engine) 1);
        bar \<leftarrow> config_bar d;
        let reg = reg_addr sgdma_common_regs (bar + of_nat (0x6 * TARGET_SPACING)) r;
        Some (write_register reg_value reg w)
      } else Some w)"

text \<open>The interrupt mask of an engine, and the write-back address in polled mode.\<close>

definition init_interrupts :: "modparams \<Rightarrow> xdma_engine \<Rightarrow> world \<Rightarrow> (int \<times> u32 \<times> world) option" where
  "init_interrupts mp engine w = do {
     let reg_value = XDMA_CTRL_IE_DESC_ALIGN_MISMATCH;
     let reg_value = reg_value OR XDMA_CTRL_IE_MAGIC_STOPPED;
     let reg_value = reg_value OR XDMA_CTRL_IE_MAGIC_STOPPED;
     let reg_value = reg_value OR XDMA_CTRL_IE_READ_ERROR;
     let reg_value = reg_value OR XDMA_CTRL_IE_DESC_ERROR;
     if poll_mode mp then do {
       (rv, w) \<leftarrow> engine_writeback_setup engine w;
       Some (rv, reg_value, w)
     } else do {
       let reg_value = reg_value OR XDMA_CTRL_IE_DESC_STOPPED;
       let reg_value = reg_value OR XDMA_CTRL_IE_DESC_COMPLETED;
       let reg_value = (if e_streaming engine \<and> e_dir engine = DMA_FROM_DEVICE
                        then reg_value OR XDMA_CTRL_IE_IDLE_STOPPED else reg_value);
       Some (0, reg_value, w)
     }
   }"

definition engine_init_regs ::
  "modparams \<Rightarrow> xdma_dev \<Rightarrow> xdma_engine \<Rightarrow> world \<Rightarrow> (int \<times> xdma_engine \<times> world) option" where
  "engine_init_regs mp d engine w = do {
     let w = write_register XDMA_CTRL_NON_INCR_ADDR (ereg engine ER_control_w1c) w;
     let (engine, w) = engine_alignments engine w;
     (rv, reg_value, w) \<leftarrow> init_interrupts mp engine w;
     if rv \<noteq> 0 then Some (rv, engine, w)
     else do {
       let w = write_register reg_value (ereg engine ER_interrupt_enable_mask) w;
       let engine = engine\<lparr>e_interrupt_enable_mask_value := reg_value\<rparr>;
       w \<leftarrow> credit_mode mp d engine SC_credit_mode_enable_w1s w;
       Some (0, engine, w)
     }
   }"

section \<open>Setting up and removing an engine\<close>

fun dec :: "nat \<Rightarrow> string" where
  "dec n = (if n < 10 then [''0123456789'' ! n] else dec (n div 10) @ [''0123456789'' ! (n mod 10)])"

declare dec.simps [simp del]

definition engine_name :: "xdma_dev \<Rightarrow> dma_dir \<Rightarrow> nat \<Rightarrow> bool \<Rightarrow> string" where
  "engine_name d dir channel streaming =
     dec (nat (d_idx d)) @ ''-'' @ (if dir = DMA_TO_DEVICE then ''H2C'' else ''C2H'') @
     dec channel @ ''-'' @ (if streaming then ''ST'' else ''MM'')"

text \<open>The fields \<^verbatim>\<open>engine_init\<close> fills in before it allocates.\<close>

definition engine_identity ::
  "nat \<Rightarrow> dma_dir \<Rightarrow> nat \<Rightarrow> xdma_dev \<Rightarrow> world \<Rightarrow> (xdma_engine \<times> world) option" where
  "engine_identity offset dir channel d w = do {
     engine \<leftarrow> arr_get (int channel) (engines_of d dir);
     let engine = engine\<lparr>e_magic := MAGIC_ENGINE\<rparr>;
     let engine = engine\<lparr>e_channel := channel\<rparr>;
     let engine = engine\<lparr>e_irq_bitmask := push_bit XDMA_ENG_IRQ_NUM 1 - 1\<rparr>;
     let engine = engine\<lparr>e_irq_bitmask := push_bit (d_engines_num d * XDMA_ENG_IRQ_NUM) (e_irq_bitmask engine)\<rparr>;
     let engine = engine\<lparr>e_bypass_offset := of_nat (d_engines_num d * BYPASS_MODE_SPACING)\<rparr>;
     bar \<leftarrow> config_bar d;
     let engine = engine\<lparr>e_regs := bar + of_nat offset\<rparr>;
     let engine = engine\<lparr>e_sgdma_regs := bar + of_nat offset + of_nat SGDMA_OFFSET_FROM_CHANNEL\<rparr>;
     let (val, w) = read_register (ereg engine ER_identifier) w;
     let engine = (if val AND 0x8000 \<noteq> 0 then engine\<lparr>e_streaming := True\<rparr> else engine);
     let engine = engine\<lparr>e_dir := dir\<rparr>;
     let engine = engine\<lparr>e_name := engine_name d dir channel (e_streaming engine)\<rparr>;
     Some (engine, w)
   }"

definition engine_init ::
  "pci_env \<Rightarrow> modparams \<Rightarrow> nat \<Rightarrow> dma_dir \<Rightarrow> nat \<Rightarrow> xdma_dev \<Rightarrow> world \<Rightarrow> (int \<times> xdma_dev \<times> world) option" where
  "engine_init env mp offset dir channel d w = do {
     (engine, w) \<leftarrow> engine_identity offset dir channel d w;
     let d = (if dir = DMA_TO_DEVICE then d\<lparr>d_mask_irq_h2c := d_mask_irq_h2c d OR e_irq_bitmask engine\<rparr>
              else d\<lparr>d_mask_irq_c2h := d_mask_irq_c2h d OR e_irq_bitmask engine\<rparr>);
     let d = d\<lparr>d_engines_num := d_engines_num d + 1\<rparr>;
     let put = (\<lambda>engine. set_engines dir ((engines_of d dir)[channel := engine]) d);
     let (rv, engine, w) = engine_alloc_resource env mp engine w;
     if rv \<noteq> 0 then Some (rv, put engine, w)
     else do {
       (rv, engine, w) \<leftarrow> engine_init_regs mp d engine w;
       if rv \<noteq> 0 then Some (rv, put engine, w) else Some (0, put engine, w)
     }
   }"

definition engine_destroy ::
  "modparams \<Rightarrow> dma_dir \<Rightarrow> nat \<Rightarrow> xdma_dev \<Rightarrow> world \<Rightarrow> (xdma_dev \<times> world) option" where
  "engine_destroy mp dir i d w = do {
     engine \<leftarrow> arr_get (int i) (engines_of d dir);
     let w = write_register 0x0 (ereg engine ER_interrupt_enable_mask) w;
     w \<leftarrow> credit_mode mp d engine SC_credit_mode_enable_w1c w;
     let (engine, w) = engine_free_resource engine w;
     let d = set_engines dir ((engines_of d dir)[i := zero_engine]) d;
     Some (d\<lparr>d_engines_num := d_engines_num d - 1\<rparr>, w)
   }"

primrec remove_loop ::
  "modparams \<Rightarrow> dma_dir \<Rightarrow> nat \<Rightarrow> nat \<Rightarrow> xdma_dev \<Rightarrow> world \<Rightarrow> (xdma_dev \<times> world) option" where
  "remove_loop mp dir 0 i d w = Some (d, w)"
| "remove_loop mp dir (Suc n) i d w = do {
     engine \<leftarrow> arr_get (int i) (engines_of d dir);
     (d, w) \<leftarrow> (if e_magic engine = MAGIC_ENGINE then engine_destroy mp dir i d w else Some (d, w));
     remove_loop mp dir n (Suc i) d w
   }"

definition remove_engines :: "modparams \<Rightarrow> xdma_dev \<Rightarrow> world \<Rightarrow> (xdma_dev \<times> world) option" where
  "remove_engines mp d w = do {
     (d, w) \<leftarrow> remove_loop mp DMA_TO_DEVICE (nat (d_h2c_channel_max d)) 0 d w;
     remove_loop mp DMA_FROM_DEVICE (nat (d_c2h_channel_max d)) 0 d w
   }"

section \<open>Finding the engines\<close>

definition get_engine_channel_id :: "addr \<Rightarrow> world \<Rightarrow> u32 \<times> world" where
  "get_engine_channel_id regs w =
     (let (value, w) = read_register (reg_addr engine_regs regs ER_identifier) w
      in (drop_bit 8 (value AND 0x00000f00), w))"

definition get_engine_id :: "addr \<Rightarrow> world \<Rightarrow> u32 \<times> world" where
  "get_engine_id regs w =
     (let (value, w) = read_register (reg_addr engine_regs regs ER_identifier) w
      in (drop_bit 16 (value AND 0xffff0000), w))"

definition probe_for_engine ::
  "pci_env \<Rightarrow> modparams \<Rightarrow> dma_dir \<Rightarrow> nat \<Rightarrow> xdma_dev \<Rightarrow> world \<Rightarrow> (int \<times> xdma_dev \<times> world) option" where
  "probe_for_engine env mp dir channel d w = do {
     let offset = channel * CHANNEL_SPACING;
     let (offset, engine_id_expected) =
       (if dir = DMA_TO_DEVICE then (offset, XDMA_ID_H2C) else (offset + H2C_CHANNEL_OFFSET, XDMA_ID_C2H));
     bar \<leftarrow> config_bar d;
     let regs = bar + of_nat offset;
     let (engine_id, w) = get_engine_id regs w;
     let (channel_id, w) = get_engine_channel_id regs w;
     if engine_id \<noteq> engine_id_expected \<or> channel_id \<noteq> of_nat channel then Some (- EINVAL, d, w)
     else do {
       (rv, d, w) \<leftarrow> engine_init env mp offset dir channel d w;
       if rv \<noteq> 0 then Some (rv, d, w) else Some (0, d, w)
     }
   }"

text \<open>The value is where the loop stopped.\<close>

primrec probe_loop ::
  "pci_env \<Rightarrow> modparams \<Rightarrow> dma_dir \<Rightarrow> nat \<Rightarrow> nat \<Rightarrow> xdma_dev \<Rightarrow> world \<Rightarrow> (nat \<times> xdma_dev \<times> world) option" where
  "probe_loop env mp dir 0 i d w = Some (i, d, w)"
| "probe_loop env mp dir (Suc n) i d w = do {
     (rv, d, w) \<leftarrow> probe_for_engine env mp dir i d w;
     if rv \<noteq> 0 then Some (i, d, w) else probe_loop env mp dir n (Suc i) d w
   }"

definition probe_engines :: "pci_env \<Rightarrow> modparams \<Rightarrow> xdma_dev \<Rightarrow> world \<Rightarrow> (int \<times> xdma_dev \<times> world) option" where
  "probe_engines env mp d w = do {
     (i, d, w) \<leftarrow> probe_loop env mp DMA_TO_DEVICE (nat (d_h2c_channel_max d)) 0 d w;
     let d = d\<lparr>d_h2c_channel_max := int i\<rparr>;
     (i, d, w) \<leftarrow> probe_loop env mp DMA_FROM_DEVICE (nat (d_c2h_channel_max d)) 0 d w;
     let d = d\<lparr>d_c2h_channel_max := int i\<rparr>;
     Some (0, d, w)
   }"

section \<open>The device\<close>

definition new_user_irq :: "nat \<Rightarrow> xdma_user_irq" where
  "new_user_irq i = \<lparr>u_user_idx = of_nat i, u_events_irq = False, u_handler = None, u_dev = 0\<rparr>"

definition alloc_dev_instance :: "pci_env \<Rightarrow> nat \<Rightarrow> xdma_dev option" where
  "alloc_dev_instance env pdev =
     (if \<not> alloc_dev_ok env then None
      else Some \<lparr>d_magic = MAGIC_DEVICE, d_pdev = pdev, d_idx = 0, d_lock = False, d_flags = 0,
        d_bar = replicate XDMA_BAR_NUM None, d_user_bar_idx = - 1, d_config_bar_idx = - 1,
        d_bypass_bar_idx = - 1, d_regions_in_use = False, d_got_regions = False, d_user_max = 0,
        d_c2h_channel_max = 0, d_h2c_channel_max = 0, d_irq_count = 0, d_irq_line = - 1,
        d_msi_enabled = False, d_msix_enabled = False, d_user_irq = map new_user_irq [0..<16],
        d_mask_irq_user = 0, d_engines_num = 0, d_mask_irq_h2c = 0, d_mask_irq_c2h = 0,
        d_engine_h2c = replicate XDMA_CHANNEL_NUM_MAX zero_engine,
        d_engine_c2h = replicate XDMA_CHANNEL_NUM_MAX zero_engine\<rparr>)"

definition request_regions :: "pci_env \<Rightarrow> xdma_dev \<Rightarrow> world \<Rightarrow> int \<times> xdma_dev \<times> world" where
  "request_regions env d w =
     (let rv = request_regions_rv env (ktrace w)
      in if rv \<noteq> 0 then (rv, d\<lparr>d_regions_in_use := True\<rparr>, w)
         else (rv, d\<lparr>d_got_regions := True\<rparr>, kcall RegionsRequested w))"

definition set_dma_mask :: "pci_env \<Rightarrow> world \<Rightarrow> int \<times> world" where
  "set_dma_mask env w =
     (if dma_mask_rv env 64 = 0 then (0, kcall (ConsistentMaskSet 32) (kcall (DmaMaskSet 64) w))
      else if dma_mask_rv env 32 = 0 then (0, kcall (ConsistentMaskSet 32) (kcall (DmaMaskSet 32) w))
      else (- EINVAL, w))"

text \<open>The limits on the channel counts the caller asks for.\<close>

definition clamp_max :: "int \<Rightarrow> nat \<Rightarrow> int" where
  "clamp_max n limit = (if n = 0 \<or> n > int limit then int limit else n)"

text \<open>
  The error labels of \<^verbatim>\<open>xdma_device_open\<close>, each falling into the next: the argument
  says at which label to enter.
\<close>

datatype open_label = err_interrupts | err_enable_msix | err_engines | err_mask | err_map | err_regions | err_enable

definition at_or_after :: "open_label \<Rightarrow> open_label \<Rightarrow> bool" where
  "at_or_after l m \<longleftrightarrow>
     (let rank = (\<lambda>x. case x of err_interrupts \<Rightarrow> 0 :: nat | err_enable_msix \<Rightarrow> 1 | err_engines \<Rightarrow> 2
                    | err_mask \<Rightarrow> 3 | err_map \<Rightarrow> 4 | err_regions \<Rightarrow> 5 | err_enable \<Rightarrow> 6)
      in rank l \<le> rank m)"

definition open_unwind ::
  "pci_env \<Rightarrow> modparams \<Rightarrow> open_label \<Rightarrow> nat \<Rightarrow> xdma_dev \<Rightarrow> devtab \<Rightarrow> world \<Rightarrow> (devtab \<times> world) option" where
  "open_unwind env mp l h d tab w = do {
     w \<leftarrow> (if at_or_after l err_interrupts then irq_teardown env d w else Some w);
     let (d, w) = (if at_or_after l err_enable_msix then disable_msi_msix d w else (d, w));
     (d, w) \<leftarrow> (if at_or_after l err_engines then remove_engines mp d w else Some (d, w));
     (d, w) \<leftarrow> (if at_or_after l err_mask then unmap_bars d w else Some (d, w));
     let w = (if at_or_after l err_map \<and> d_got_regions d then kcall RegionsReleased w else w);
     let w = (if at_or_after l err_regions \<and> \<not> d_regions_in_use d then kcall DeviceDisabled w else w);
     let tab = xdev_list_remove h (upd_dev h (\<lambda>_. d) tab);
     Some (tab, kcall DeviceFreed w)
   }"

text \<open>
  The body of \<^verbatim>\<open>xdma_device_open\<close> up to the success or to the label it jumps to, in
  two parts: attaching to the PCI function and mapping it, then starting the engines and
  the interrupts.
\<close>

definition open_attach ::
  "pci_env \<Rightarrow> xdma_dev \<Rightarrow> world \<Rightarrow> (open_label option \<times> xdma_dev \<times> world) option" where
  "open_attach env d w = do {
     let rv = enable_device env (ktrace w);
     if rv \<noteq> 0 then Some (Some err_enable, d, w)
     else do {
       let w = kcall DeviceEnabled w;
       let w = pci_check_intr_pend env w;
       let w = kcall RelaxedOrdering w;
       w \<leftarrow> pci_check_extended_tag env d w;
       let w = kcall (ReadRequestSize 512) w;
       let w = kcall BusMaster w;
       let (rv, d, w) = request_regions env d w;
       if rv \<noteq> 0 then Some (Some err_regions, d, w)
       else do {
         (rv, d, w) \<leftarrow> map_bars env d w;
         if rv \<noteq> 0 then Some (Some err_map, d, w)
         else do {
           let (rv, w) = set_dma_mask env w;
           if rv \<noteq> 0 then Some (Some err_mask, d, w) else Some (None, d, w)
         }
       }
     }
   }"

definition open_start ::
  "pci_env \<Rightarrow> modparams \<Rightarrow> xdma_dev \<Rightarrow> world \<Rightarrow> (open_label option \<times> xdma_dev \<times> world) option" where
  "open_start env mp d w = do {
     w \<leftarrow> check_nonzero_interrupt_status d w;
     w \<leftarrow> channel_interrupts_disable d (NOT 0) w;
     w \<leftarrow> user_interrupts_disable d (NOT 0) w;
     (_, w) \<leftarrow> read_interrupts d w;
     (rv, d, w) \<leftarrow> probe_engines env mp d w;
     if rv \<noteq> 0 then Some (Some err_engines, d, w)
     else do {
       let (rv, d, w) = enable_msi_msix env mp d w;
       if rv < 0 then Some (Some err_enable_msix, d, w)
       else do {
         (rv, d, w) \<leftarrow> irq_setup env d w;
         if rv < 0 then Some (Some err_interrupts, d, w)
         else do {
           w \<leftarrow> (if \<not> poll_mode mp then channel_interrupts_enable d (NOT 0) w else Some w);
           (_, w) \<leftarrow> read_interrupts d w;
           Some (None, d, w)
         }
       }
     }
   }"

definition open_device ::
  "pci_env \<Rightarrow> modparams \<Rightarrow> xdma_dev \<Rightarrow> world \<Rightarrow> (open_label option \<times> xdma_dev \<times> world) option" where
  "open_device env mp d w = do {
     (l, d, w) \<leftarrow> open_attach env d w;
     if l \<noteq> None then Some (l, d, w) else open_start env mp d w
   }"

definition xdma_device_open ::
  "pci_env \<Rightarrow> modparams \<Rightarrow> nat \<Rightarrow> nat \<Rightarrow> int \<times> int \<times> int \<Rightarrow> devtab \<Rightarrow> world \<Rightarrow>
   (nat option \<times> (int \<times> int \<times> int) \<times> devtab \<times> world) option" where
  "xdma_device_open env mp pdev h maxs tab w =
     (case alloc_dev_instance env pdev of
        None \<Rightarrow> Some (None, maxs, tab, w)
      | Some d \<Rightarrow> do {
          let (user_max, h2c_channel_max, c2h_channel_max) = maxs;
          let d = d\<lparr>d_user_max := user_max, d_h2c_channel_max := h2c_channel_max,
                   d_c2h_channel_max := c2h_channel_max\<rparr>;
          d \<leftarrow> xdma_device_flag_set d XDEV_FLAG_OFFLINE;
          let tab = xdev_list_add h (upd_dev h (\<lambda>_. d) tab);
          let d = dt_devs tab h;
          let d = d\<lparr>d_user_max := clamp_max (d_user_max d) MAX_USER_IRQ,
                   d_h2c_channel_max := clamp_max (d_h2c_channel_max d) XDMA_CHANNEL_NUM_MAX,
                   d_c2h_channel_max := clamp_max (d_c2h_channel_max d) XDMA_CHANNEL_NUM_MAX\<rparr>;
          (l, d, w) \<leftarrow> open_device env mp d w;
          case l of
            Some l \<Rightarrow> do {
              (tab, w) \<leftarrow> open_unwind env mp l h d tab w;
              Some (None, maxs, tab, w)
            }
          | None \<Rightarrow> do {
              d \<leftarrow> xdma_device_flag_clear d XDEV_FLAG_OFFLINE;
              Some (Some h, (d_user_max d, d_h2c_channel_max d, d_c2h_channel_max d),
                    upd_dev h (\<lambda>_. d) tab, w)
            }
        })"

definition xdma_device_close ::
  "pci_env \<Rightarrow> modparams \<Rightarrow> nat option \<Rightarrow> nat option \<Rightarrow> devtab \<Rightarrow> world \<Rightarrow> (devtab \<times> world) option" where
  "xdma_device_close env mp pdev dev_hndl tab w =
     (case dev_hndl of
        None \<Rightarrow> Some (tab, w)
      | Some h \<Rightarrow>
          if debug_check_dev_hndl pdev h tab < 0 then Some (tab, w)
          else do {
            let d = dt_devs tab h;
            w \<leftarrow> channel_interrupts_disable d (NOT 0) w;
            w \<leftarrow> user_interrupts_disable d (NOT 0) w;
            (_, w) \<leftarrow> read_interrupts d w;
            w \<leftarrow> irq_teardown env d w;
            let (d, w) = disable_msi_msix d w;
            (d, w) \<leftarrow> remove_engines mp d w;
            (d, w) \<leftarrow> unmap_bars d w;
            let w = (if d_got_regions d then kcall RegionsReleased w else w);
            let w = (if \<not> d_regions_in_use d then kcall DeviceDisabled w else w);
            let tab = xdev_list_remove h (upd_dev h (\<lambda>_. d) tab);
            Some (tab, kcall DeviceFreed w)
          })"

section \<open>Off line and on line\<close>

primrec offline_loop ::
  "modparams \<Rightarrow> nat \<Rightarrow> nat \<Rightarrow> xdma_engine list \<Rightarrow> world \<Rightarrow> (xdma_engine list \<times> world) option" where
  "offline_loop mp 0 i es w = Some (es, w)"
| "offline_loop mp (Suc n) i es w = do {
     engine \<leftarrow> arr_get (int i) es;
     if e_magic engine = MAGIC_ENGINE then do {
       let engine = engine\<lparr>e_shutdown := e_shutdown engine OR ENGINE_SHUTDOWN_REQUEST\<rparr>;
       let w = xdma_engine_stop mp engine w;
       let engine = engine\<lparr>e_running := False\<rparr>;
       offline_loop mp n (Suc i) (es[i := engine]) w
     }
     else offline_loop mp n (Suc i) es w
   }"

definition device_offline :: "pci_env \<Rightarrow> modparams \<Rightarrow> xdma_dev \<Rightarrow> world \<Rightarrow> (xdma_dev \<times> world) option" where
  "device_offline env mp d w = do {
     d \<leftarrow> xdma_device_flag_set d XDEV_FLAG_OFFLINE;
     (es, w) \<leftarrow> offline_loop mp (nat (d_h2c_channel_max d)) 0 (d_engine_h2c d) w;
     let d = d\<lparr>d_engine_h2c := es\<rparr>;
     (es, w) \<leftarrow> offline_loop mp (nat (d_c2h_channel_max d)) 0 (d_engine_c2h d) w;
     let d = d\<lparr>d_engine_c2h := es\<rparr>;
     w \<leftarrow> channel_interrupts_disable d (NOT 0) w;
     w \<leftarrow> user_interrupts_disable d (NOT 0) w;
     (_, w) \<leftarrow> read_interrupts d w;
     w \<leftarrow> irq_teardown env d w;
     Some (d, w)
   }"

definition xdma_device_offline ::
  "pci_env \<Rightarrow> modparams \<Rightarrow> nat option \<Rightarrow> nat option \<Rightarrow> devtab \<Rightarrow> world \<Rightarrow> (devtab \<times> world) option" where
  "xdma_device_offline env mp pdev dev_hndl tab w =
     (case dev_hndl of
        None \<Rightarrow> Some (tab, w)
      | Some h \<Rightarrow>
          if debug_check_dev_hndl pdev h tab < 0 then Some (tab, w)
          else do {
            (d, w) \<leftarrow> device_offline env mp (dt_devs tab h) w;
            Some (upd_dev h (\<lambda>_. d) tab, w)
          })"

primrec online_loop ::
  "modparams \<Rightarrow> xdma_dev \<Rightarrow> nat \<Rightarrow> nat \<Rightarrow> xdma_engine list \<Rightarrow> world \<Rightarrow>
   (xdma_engine list \<times> world) option" where
  "online_loop mp d 0 i es w = Some (es, w)"
| "online_loop mp d (Suc n) i es w = do {
     engine \<leftarrow> arr_get (int i) es;
     if e_magic engine = MAGIC_ENGINE then do {
       (_, engine, w) \<leftarrow> engine_init_regs mp d engine w;
       let engine = engine\<lparr>e_shutdown := e_shutdown engine AND NOT ENGINE_SHUTDOWN_REQUEST\<rparr>;
       online_loop mp d n (Suc i) (es[i := engine]) w
     }
     else online_loop mp d n (Suc i) es w
   }"

definition device_online :: "pci_env \<Rightarrow> modparams \<Rightarrow> xdma_dev \<Rightarrow> world \<Rightarrow> (xdma_dev \<times> world) option" where
  "device_online env mp d w = do {
     (es, w) \<leftarrow> online_loop mp d (nat (d_h2c_channel_max d)) 0 (d_engine_h2c d) w;
     let d = d\<lparr>d_engine_h2c := es\<rparr>;
     (es, w) \<leftarrow> online_loop mp d (nat (d_c2h_channel_max d)) 0 (d_engine_c2h d) w;
     let d = d\<lparr>d_engine_c2h := es\<rparr>;
     (d, w) \<leftarrow>
       (if \<not> poll_mode mp then do {
          (_, d, w) \<leftarrow> irq_setup env d w;
          w \<leftarrow> channel_interrupts_enable d (NOT 0) w;
          w \<leftarrow> user_interrupts_enable d (d_mask_irq_user d) w;
          (_, w) \<leftarrow> read_interrupts d w;
          Some (d, w)
        } else Some (d, w));
     d \<leftarrow> xdma_device_flag_clear d XDEV_FLAG_OFFLINE;
     Some (d, w)
   }"

definition xdma_device_online ::
  "pci_env \<Rightarrow> modparams \<Rightarrow> nat option \<Rightarrow> nat option \<Rightarrow> devtab \<Rightarrow> world \<Rightarrow> (devtab \<times> world) option" where
  "xdma_device_online env mp pdev dev_hndl tab w =
     (case dev_hndl of
        None \<Rightarrow> Some (tab, w)
      | Some h \<Rightarrow>
          if debug_check_dev_hndl pdev h tab < 0 then Some (tab, w)
          else do {
            (d, w) \<leftarrow> device_online env mp (dt_devs tab h) w;
            Some (upd_dev h (\<lambda>_. d) tab, w)
          })"

definition xdma_device_restart :: "nat option \<Rightarrow> nat option \<Rightarrow> devtab \<Rightarrow> int" where
  "xdma_device_restart pdev dev_hndl tab =
     (case dev_hndl of
        None \<Rightarrow> - EINVAL
      | Some h \<Rightarrow> if debug_check_dev_hndl pdev h tab < 0 then - EINVAL else - EINVAL)"

section \<open>User interrupts\<close>

primrec isr_register_loop ::
  "nat option \<Rightarrow> nat \<Rightarrow> nat \<Rightarrow> nat \<Rightarrow> u32 \<Rightarrow> xdma_user_irq list \<Rightarrow> xdma_user_irq list option" where
  "isr_register_loop handler dev 0 i msk us = Some us"
| "isr_register_loop handler dev (Suc n) i msk us =
     (if msk = 0 then Some us
      else
        (let b = push_bit i 1 in
         if b AND msk = 0 then isr_register_loop handler dev n (Suc i) msk us
         else do {
           us \<leftarrow> arr_mod (int i) (\<lambda>u. u\<lparr>u_handler := handler, u_dev := dev\<rparr>) us;
           isr_register_loop handler dev n (Suc i) (msk AND NOT b) us
         }))"

definition xdma_user_isr_register ::
  "nat option \<Rightarrow> u32 \<Rightarrow> nat option \<Rightarrow> nat \<Rightarrow> devtab \<Rightarrow> (int \<times> devtab) option" where
  "xdma_user_isr_register dev_hndl msk handler dev tab =
     (case dev_hndl of
        None \<Rightarrow> Some (- EINVAL, tab)
      | Some h \<Rightarrow>
          let d = dt_devs tab h in
          if debug_check_dev_hndl (Some (d_pdev d)) h tab < 0 then Some (- EINVAL, tab)
          else do {
            us \<leftarrow> isr_register_loop handler dev (nat (d_user_max d)) 0 msk (d_user_irq d);
            Some (0, upd_dev h (\<lambda>d. d\<lparr>d_user_irq := us\<rparr>) tab)
          })"

definition xdma_user_isr_enable :: "nat option \<Rightarrow> u32 \<Rightarrow> devtab \<Rightarrow> world \<Rightarrow> (int \<times> devtab \<times> world) option" where
  "xdma_user_isr_enable dev_hndl msk tab w =
     (case dev_hndl of
        None \<Rightarrow> Some (- EINVAL, tab, w)
      | Some h \<Rightarrow>
          let d = dt_devs tab h in
          if debug_check_dev_hndl (Some (d_pdev d)) h tab < 0 then Some (- EINVAL, tab, w)
          else do {
            let d = d\<lparr>d_mask_irq_user := d_mask_irq_user d OR msk\<rparr>;
            w \<leftarrow> user_interrupts_enable d msk w;
            (_, w) \<leftarrow> read_interrupts d w;
            Some (0, upd_dev h (\<lambda>_. d) tab, w)
          })"

definition xdma_user_isr_disable :: "nat option \<Rightarrow> u32 \<Rightarrow> devtab \<Rightarrow> world \<Rightarrow> (int \<times> devtab \<times> world) option" where
  "xdma_user_isr_disable dev_hndl msk tab w =
     (case dev_hndl of
        None \<Rightarrow> Some (- EINVAL, tab, w)
      | Some h \<Rightarrow>
          let d = dt_devs tab h in
          if debug_check_dev_hndl (Some (d_pdev d)) h tab < 0 then Some (- EINVAL, tab, w)
          else do {
            let d = d\<lparr>d_mask_irq_user := d_mask_irq_user d AND NOT msk\<rparr>;
            w \<leftarrow> user_interrupts_disable d msk w;
            (_, w) \<leftarrow> read_interrupts d w;
            Some (0, upd_dev h (\<lambda>_. d) tab, w)
          })"

end
