(* ===== verification/EngineSM.thy ===== *)
theory EngineSM
  imports Cyclic Device
begin

text \<open>
  The engine as a state machine.  The steps are the calls that are made on an engine:
  queueing a transfer that has been built, the two entries of servicing (each of which serves a
  cyclic request in a way of its own), giving up after a wait, stopping and draining a cyclic
  transfer, going off line and on line, and anything else that leaves the queue, the running
  flag and the transfers alone.

  The state carries a ghost: the history of the transfers queued, whether the engine has been
  stopped by going off line or by the end of a cyclic transfer since it last took one,
  and the transfers that have been its cyclic request when it was serviced or drained.  The invariant: the queue is a
  suffix of the history (first in, first out), what is queued is submitted or has been given up
  where it was, it does not wait on an engine that is not running unless that one has been
  stopped, and what has left has a final state unless it was the cyclic request.
\<close>

unbundle bit_operations_syntax

record ghost =
  g_history :: "nat list"
  g_stopped :: bool
  g_cyclic :: "nat set"

definition ghost_start :: ghost where
  "ghost_start = \<lparr>g_history = [], g_stopped = False, g_cyclic = {}\<rparr>"

text \<open>The end of a cyclic transfer is seen by the service and by the drain.\<close>

definition ghost_cyclic :: "xdma_engine \<Rightarrow> xdma_engine \<Rightarrow> ghost \<Rightarrow> ghost" where
  "ghost_cyclic e e' g = g\<lparr>g_stopped := (g_stopped g \<or> e_running e \<and> \<not> e_running e'),
     g_cyclic := g_cyclic g \<union> set_option (e_cyclic_req e)\<rparr>"

definition ghost_service :: "xdma_engine \<Rightarrow> xdma_engine \<Rightarrow> ghost \<Rightarrow> ghost" where
  "ghost_service e e' g = (if e_cyclic_req e = None then g else ghost_cyclic e e' g)"

type_synonym estate = "ghost \<times> xdma_engine \<times> world"

text \<open>
  A transfer that is built, or built again, is not in the queue; what the history says of its
  former life is forgotten.
\<close>

inductive estep :: "modparams \<Rightarrow> estate \<Rightarrow> estate \<Rightarrow> bool" for mp where
  build: "i \<notin> set (e_transfer_list e) \<Longrightarrow>
    estep mp (g, e, w) (g\<lparr>g_history := removeAll i (g_history g)\<rparr>, e\<lparr>e_desc := ds\<rparr>, upd_xfer i (\<lambda>_. t) w)"
| queue: "transfer_queue mp xdev e i w = Some (0, e', w') \<Longrightarrow> i \<notin> set (e_transfer_list e) \<Longrightarrow>
    estep mp (g, e, w) (g\<lparr>g_history := g_history g @ [i], g_stopped := False\<rparr>, e', w')"
| refuse: "transfer_queue mp xdev e i w = Some (rv, e', w') \<Longrightarrow> rv < 0 \<Longrightarrow>
    estep mp (g, e, w) (g, e', w')"
| work: "engine_service_work fuel dma mp xdev e w = Some (e', w') \<Longrightarrow>
    estep mp (g, e, w) (ghost_service e e' g, e', w')"
| poll: "engine_service_poll fuel late dma mp e n w = Some (rv, e', w') \<Longrightarrow>
    estep mp (g, e, w) (ghost_service e e' g, e', w')"
| settle: "submit_settle mp e x dn w = Some (rv, dn', e', w') \<Longrightarrow>
    estep mp (g, e, w) (g, e', w')"
| cyclic_stop: "engine_cyclic_stop mp e w = Some (x, e', w') \<Longrightarrow>
    estep mp (g, e, w) (g, e', w')"
| cyclic_drain: "cyclic_shutdown_polled mp e w = Some (rv, e', w') \<Longrightarrow>
    estep mp (g, e, w) (ghost_cyclic e e' g, e', w')"
| offline: "offline_loop mp 1 0 [e] w = Some ([e'], w') \<Longrightarrow>
    estep mp (g, e, w) (g\<lparr>g_stopped := True\<rparr>, e', w')"
| online: "online_loop mp xdev 1 0 [e] w = Some ([e'], w') \<Longrightarrow>
    estep mp (g, e, w) (g, e', w')"
| other: "e_transfer_list e' = e_transfer_list e \<Longrightarrow> e_running e' = e_running e \<Longrightarrow>
    xfers w' = xfers w \<Longrightarrow> estep mp (g, e, w) (g, e', w')"

inductive_cases estepE: "estep mp (g, e, w) s"

definition final_states :: "transfer_state set" where
  "final_states = {TRANSFER_STATE_COMPLETED, TRANSFER_STATE_FAILED, TRANSFER_STATE_ABORTED}"

definition left_well :: "ghost \<Rightarrow> xdma_engine \<Rightarrow> world \<Rightarrow> nat \<Rightarrow> bool" where
  "left_well g e w i \<longleftrightarrow> i \<in> set (e_transfer_list e) \<or> i \<in> g_cyclic g \<or> t_state (xfers w i) \<in> final_states"

definition engine_inv :: "estate \<Rightarrow> bool" where
  "engine_inv s = (case s of (g, e, w) \<Rightarrow>
     distinct (e_transfer_list e) \<and>
     (g_stopped g \<or> e_running e \<or> e_transfer_list e = []) \<and>
     (\<forall>i \<in> set (e_transfer_list e).
        t_state (xfers w i) \<in> {TRANSFER_STATE_SUBMITTED, TRANSFER_STATE_ABORTED}) \<and>
     (\<exists>d. g_history g = d @ e_transfer_list e \<and> (\<forall>i \<in> set d. left_well g e w i)))"

lemma engine_inv_start: "e_transfer_list e = [] \<Longrightarrow> engine_inv (ghost_start, e, w)"
  by (simp add: engine_inv_def ghost_start_def)

section \<open>Building and queueing\<close>

lemma inv_build:
  assumes "engine_inv (g, e, w)" "i \<notin> set (e_transfer_list e)"
  shows "engine_inv (g\<lparr>g_history := removeAll i (g_history g)\<rparr>, e\<lparr>e_desc := ds\<rparr>, upd_xfer i (\<lambda>_. t) w)"
proof -
  obtain d where d: "g_history g = d @ e_transfer_list e" "\<forall>j \<in> set d. left_well g e w j"
    using assms(1) by (auto simp: engine_inv_def)
  have "removeAll i (g_history g) = removeAll i d @ e_transfer_list e"
    using d(1) assms(2) by (simp add: removeAll_id)
  moreover have "\<forall>j \<in> set (removeAll i d). t_state (xfers (upd_xfer i (\<lambda>_. t) w) j) = t_state (xfers w j)"
    by simp
  ultimately show ?thesis
    using assms d(2) by (auto simp: engine_inv_def left_well_def)
qed

lemma queue_result:
  assumes "transfer_queue mp xdev e i w = Some (rv, e', w')"
  shows "(rv = - EBUSY \<and> e' = e \<and> w' = w) \<or>
    (rv = 0 \<and> e_running e' \<and> e_transfer_list e' = e_transfer_list e @ [i] \<and>
     xfers w' = (xfers w)(i := (xfers w i)\<lparr>t_state := TRANSFER_STATE_SUBMITTED\<rparr>))"
  using assms
  by (auto simp: transfer_queue_def Let_def split: bind_splits if_splits
      dest!: engine_start_result)

lemma inv_queue:
  assumes "engine_inv (g, e, w)" "transfer_queue mp xdev e i w = Some (0, e', w')"
    and "i \<notin> set (e_transfer_list e)"
  shows "engine_inv (g\<lparr>g_history := g_history g @ [i], g_stopped := False\<rparr>, e', w')"
proof -
  have q: "e_running e'" "e_transfer_list e' = e_transfer_list e @ [i]"
    "xfers w' = (xfers w)(i := (xfers w i)\<lparr>t_state := TRANSFER_STATE_SUBMITTED\<rparr>)"
    using queue_result[OF assms(2)] by auto
  obtain d where "g_history g = d @ e_transfer_list e" "\<forall>j \<in> set d. left_well g e w j"
    using assms(1) by (auto simp: engine_inv_def)
  then show ?thesis
    using assms(1,3) q unfolding engine_inv_def by (auto simp: left_well_def)
qed

section \<open>Steps that keep the queue\<close>

text \<open>
  Every other step takes a prefix off the queue, leaves the states of the rest as they were
  or aborted, and may only stop an engine whose ghost says so.
\<close>

definition dequeues :: "ghost \<Rightarrow> xdma_engine \<Rightarrow> world \<Rightarrow> ghost \<Rightarrow> xdma_engine \<Rightarrow> world \<Rightarrow> bool" where
  "dequeues g e w g' e' w' \<longleftrightarrow> (\<exists>k \<le> length (e_transfer_list e).
     e_transfer_list e' = drop k (e_transfer_list e) \<and>
     g_history g' = g_history g \<and> g_cyclic g \<subseteq> g_cyclic g' \<and>
     (g_stopped g' \<or> \<not> g_stopped g \<and> (e_running e' = e_running e \<or> e_running e' \<or> e_transfer_list e' = [])) \<and>
     (\<forall>i. i \<notin> set (take k (e_transfer_list e)) \<longrightarrow> t_state (xfers w' i) = t_state (xfers w i) \<or>
        t_state (xfers w i) = TRANSFER_STATE_SUBMITTED \<and> t_state (xfers w' i) = TRANSFER_STATE_ABORTED) \<and>
     (\<forall>i \<in> set (take k (e_transfer_list e)).
        t_state (xfers w i) \<in> {TRANSFER_STATE_SUBMITTED, TRANSFER_STATE_ABORTED} \<longrightarrow>
        t_state (xfers w' i) \<in> final_states \<or> i \<in> g_cyclic g'))"

lemma inv_dequeues:
  assumes "engine_inv (g, e, w)" "dequeues g e w g' e' w'"
  shows "engine_inv (g', e', w')"
proof -
  let ?ts = "e_transfer_list e"
  obtain k where k: "e_transfer_list e' = drop k ?ts" "g_history g' = g_history g" "g_cyclic g \<subseteq> g_cyclic g'"
    "g_stopped g' \<or> \<not> g_stopped g \<and> (e_running e' = e_running e \<or> e_running e' \<or> e_transfer_list e' = [])"
    and un: "\<And>i. i \<notin> set (take k ?ts) \<Longrightarrow> t_state (xfers w' i) = t_state (xfers w i) \<or>
        t_state (xfers w i) = TRANSFER_STATE_SUBMITTED \<and> t_state (xfers w' i) = TRANSFER_STATE_ABORTED"
    and fi: "\<And>i. i \<in> set (take k ?ts) \<Longrightarrow> t_state (xfers w i) \<in> {TRANSFER_STATE_SUBMITTED, TRANSFER_STATE_ABORTED} \<Longrightarrow>
        t_state (xfers w' i) \<in> final_states \<or> i \<in> g_cyclic g'"
    using assms(2) unfolding dequeues_def by blast
  have di: "distinct ?ts" and ru: "g_stopped g \<or> e_running e \<or> ?ts = []"
    and su: "\<forall>i \<in> set ?ts. t_state (xfers w i) \<in> {TRANSFER_STATE_SUBMITTED, TRANSFER_STATE_ABORTED}"
    using assms(1) by (simp_all add: engine_inv_def)
  obtain d where d: "g_history g = d @ ?ts" "\<forall>i \<in> set d. left_well g e w i"
    using assms(1) by (auto simp: engine_inv_def)
  have dis: "set (take k ?ts) \<inter> set (drop k ?ts) = {}"
    using di by (metis append_take_drop_id distinct_append)
  have parts: "set ?ts = set (take k ?ts) \<union> set (drop k ?ts)"
    by (metis append_take_drop_id set_append)
  have st: "t_state (xfers w' i) \<in> {TRANSFER_STATE_SUBMITTED, TRANSFER_STATE_ABORTED}" if "i \<in> set (drop k ?ts)" for i
    using that su un[of i] dis parts by fastforce
  have left: "left_well g' e' w' i" if i: "i \<in> set (d @ take k ?ts)" for i
  proof (cases "i \<in> set (take k ?ts)")
    case True
    then show ?thesis using fi[OF True] su parts by (auto simp: left_well_def)
  next
    case False
    then have "i \<in> set d" using i by simp
    then consider "i \<in> set (drop k ?ts)" | "i \<in> g_cyclic g" | "t_state (xfers w i) \<in> final_states"
      using d(2) False parts unfolding left_well_def by blast
    then show ?thesis
    proof cases
      case 3
      then have "t_state (xfers w' i) \<in> final_states" using un[OF False] by (elim disjE) (simp_all add: final_states_def)
      then show ?thesis unfolding left_well_def by blast
    qed (use k(1,3) in \<open>simp_all only: left_well_def simp_thms subset_iff\<close>)
  qed
  have "g_history g' = (d @ take k ?ts) @ e_transfer_list e'" using d(1) k(1,2) by simp
  moreover have "g_stopped g' \<or> e_running e' \<or> e_transfer_list e' = []" using k(1,4) ru by auto
  moreover have "distinct (e_transfer_list e')" unfolding k(1) using di by (rule distinct_drop)
  moreover have "\<forall>i \<in> set (e_transfer_list e'). t_state (xfers w' i) \<in> {TRANSFER_STATE_SUBMITTED, TRANSFER_STATE_ABORTED}"
    unfolding k(1) using st by blast
  ultimately show ?thesis
    using left unfolding engine_inv_def prod.case by blast
qed

lemma dequeues_none:
  assumes "e_transfer_list e' = e_transfer_list e" "e_running e' = e_running e" "\<And>i. t_state (xfers w' i) = t_state (xfers w i)"
  shows "dequeues g e w g e' w'"
  using assms unfolding dequeues_def by (intro exI[of _ 0]) auto

section \<open>The service\<close>

lemma service_dequeues:
  assumes "engine_service mp e wb w = Some (rv, e', w')"
  shows "dequeues g e w g e' w'"
proof (cases "e_running e")
  case False
  then show ?thesis
    using engine_service_idle[OF False, of mp wb w] assms by (auto intro!: dequeues_none)
next
  case True
  let ?ts = "e_transfer_list e"
  obtain k where k: "served ?ts k w e' w'" using engine_service_running[OF True assms] by auto
  have "k \<le> length ?ts" "e_transfer_list e' = drop k ?ts" "e_running e' \<or> e_transfer_list e' = []"
    "\<forall>i. i \<notin> set (take k ?ts) \<longrightarrow> xfers w' i = xfers w i"
    "\<forall>i \<in> set (take k ?ts). t_state (xfers w' i) \<in> {TRANSFER_STATE_COMPLETED, TRANSFER_STATE_FAILED}"
    using k unfolding served_def by blast+
  then show ?thesis
    unfolding dequeues_def final_states_def by (intro exI[of _ k]) auto
qed

text \<open>A step that keeps the queue, the running flag, the cyclic request and the transfers.\<close>

definition same_queue :: "xdma_engine \<Rightarrow> world \<Rightarrow> xdma_engine \<Rightarrow> world \<Rightarrow> bool" where
  "same_queue e w e' w' \<longleftrightarrow> e_transfer_list e' = e_transfer_list e \<and> e_running e' = e_running e \<and>
     e_cyclic_req e' = e_cyclic_req e \<and> xfers w' = xfers w"

lemma same_queue_refl [simp]: "same_queue e w e w"
  by (simp add: same_queue_def)

lemma same_queue_trans [trans]: "same_queue e w e1 w1 \<Longrightarrow> same_queue e1 w1 e' w' \<Longrightarrow> same_queue e w e' w'"
  by (simp add: same_queue_def)

lemma same_queue_dequeues: "same_queue e w e' w' \<Longrightarrow> dequeues g e w g e' w'"
  by (rule dequeues_none) (simp_all add: same_queue_def)

lemma same_queue_status: "engine_status_read e c d w = Some (v, e', w') \<Longrightarrow> same_queue e w e' w'"
  by (auto simp: engine_status_read_def engine_reg_dump_def Let_def case_prod_beta same_queue_def
      split: bind_splits)

lemma same_queue_ring: "engine_ring_process e = Some (n, e') \<Longrightarrow> same_queue e w e' w"
  using ring_process_fields[of e n e'] by (auto simp: same_queue_def)

lemma same_queue_poll_loop:
  "cyclic_poll_loop fuel dma n c e w = Some (rc, c', e', w') \<Longrightarrow> same_queue e w e' w'"
proof (induction fuel arbitrary: n c e w)
  case (Suc fuel)
  show ?case
  proof (cases "c = 0")
    case False
    then show ?thesis using Suc.prems by simp
  next
    case True
    obtain wb v w1 where wb: "e_poll_mode_addr_virt e = Some wb" and r: "read_register wb w = (v, w1)"
      using Suc.prems True by (auto simp: Let_def case_prod_beta split: bind_splits) (metis surj_pair)
    have x: "xfers w1 = xfers w" using read_frameD[OF r] by simp
    show ?thesis
    proof (cases "v AND WB_ERR_MASK \<noteq> 0")
      case True
      then show ?thesis using Suc.prems \<open>c = 0\<close> wb r x by (simp add: same_queue_def)
    next
      case False
      let ?e = "e\<lparr>e_cyclic_result := map_option (dma n) (e_cyclic_result e)\<rparr>"
      obtain c1 e1 where p: "engine_ring_process ?e = Some (c1, e1)"
        and rec: "cyclic_poll_loop fuel dma (n + 1) c1 e1 w1 = Some (rc, c', e', w')"
        using Suc.prems \<open>c = 0\<close> wb r False by (auto simp: Let_def split: bind_splits)
      have "same_queue e w ?e w1" using x by (simp add: same_queue_def)
      then show ?thesis using same_queue_ring[OF p] Suc.IH[OF rec] same_queue_trans by blast
    qed
  qed
qed simp

text \<open>The cyclic service, and the drain, may end the transfer: the engine is stopped, and the
  head of the queue leaves it if it is the cyclic request.\<close>

definition cyclic_end :: "xdma_engine \<Rightarrow> world \<Rightarrow> xdma_engine \<Rightarrow> world \<Rightarrow> bool" where
  "cyclic_end e w e' w' \<longleftrightarrow> same_queue e w e' w' \<or>
     (e_running e \<and> \<not> e_running e' \<and> xfers w' = xfers w \<and>
      (e_transfer_list e' = e_transfer_list e \<or>
       (\<exists>x. e_transfer_list e = x # e_transfer_list e' \<and> e_cyclic_req e = Some x)))"

lemma cyclic_end_after: "same_queue e w e1 w1 \<Longrightarrow> cyclic_end e1 w1 e' w' \<Longrightarrow> cyclic_end e w e' w'"
  by (auto simp: cyclic_end_def same_queue_def)

lemma cyclic_end_stopped: "cyclic_engine_stopped mp e w = (e', w') \<Longrightarrow> cyclic_end e w e' w'"
  by (auto simp: cyclic_engine_stopped_def Let_def engine_service_shutdown_def engine_transfer_dequeue_def
      cyclic_end_def split: if_splits list.splits)

lemma cyclic_end_dequeues:
  assumes "cyclic_end e w e' w'"
  shows "dequeues g e w (ghost_cyclic e e' g) e' w'"
proof (cases "same_queue e w e' w'")
  case True
  then show ?thesis
    unfolding dequeues_def ghost_cyclic_def same_queue_def by (intro exI[of _ 0]) auto
next
  case False
  then consider "e_running e" "\<not> e_running e'" "xfers w' = xfers w" "e_transfer_list e' = e_transfer_list e"
    | x where "e_running e" "\<not> e_running e'" "xfers w' = xfers w" "e_transfer_list e = x # e_transfer_list e'"
      "e_cyclic_req e = Some x"
    using assms by (auto simp: cyclic_end_def)
  then show ?thesis
  proof cases
    case 1
    then show ?thesis unfolding dequeues_def ghost_cyclic_def by (intro exI[of _ 0]) auto
  next
    case 2
    then show ?thesis unfolding dequeues_def ghost_cyclic_def by (intro exI[of _ 1]) auto
  qed
qed

lemma cyclic_end_interrupt:
  assumes "engine_service_cyclic_interrupt mp e w = Some (rv, e', w')"
  shows "cyclic_end e w e' w'"
proof -
  obtain v e1 w1 n e2 x where s: "engine_status_read e True False w = Some (v, e1, w1)"
    and r: "engine_ring_process e1 = Some (n, e2)"
    and rest: "cyclic_engine_stopped mp
        (if enable_credit_mp mp then e2 else if n > 0 then e2\<lparr>e_eop_found := True\<rparr> else e2)
        (if enable_credit_mp mp \<or> n > 0 then kcall (WakeTransfer x) w1 else w1) = (e', w')"
    using assms
    by (auto simp: engine_service_cyclic_interrupt_def Let_def case_prod_beta prod_eq_iff
        split: bind_splits if_splits)
  have "same_queue e w e2 w1"
    using same_queue_status[OF s] same_queue_ring[OF r] same_queue_trans by blast
  then have "same_queue e w (if enable_credit_mp mp then e2 else if n > 0 then e2\<lparr>e_eop_found := True\<rparr> else e2)
        (if enable_credit_mp mp \<or> n > 0 then kcall (WakeTransfer x) w1 else w1)"
    by (simp add: same_queue_def)
  then show ?thesis using cyclic_end_stopped[OF rest] cyclic_end_after by blast
qed

lemma cyclic_end_service:
  assumes "engine_service_cyclic fuel dma mp e w = Some (rv, e', w')"
  shows "cyclic_end e w e' w'"
proof (cases "poll_mode mp")
  case False
  then show ?thesis using assms cyclic_end_interrupt by (simp add: engine_service_cyclic_def split: if_splits)
next
  case True
  then obtain rc c e1 w1 where l: "cyclic_poll_loop fuel dma 0 0 e w = Some (rc, c, e1, w1)"
    and rest: "(if c = 0 then do {
         (_, engine, w) \<leftarrow> engine_status_read e1 True False w1;
         let (engine, w) = cyclic_engine_stopped mp engine w;
         Some (rc, engine, w)
       } else Some (rc, e1, w1)) = Some (rv, e', w')"
    using assms by (auto simp: engine_service_cyclic_def engine_service_cyclic_polled_def split: if_splits bind_splits)
  have "cyclic_end e1 w1 e' w'"
  proof (cases "c = 0")
    case True
    then obtain v e2 w2 where s: "engine_status_read e1 True False w1 = Some (v, e2, w2)"
      and t: "cyclic_engine_stopped mp e2 w2 = (e', w')"
      using rest by (auto simp: Let_def case_prod_beta prod_eq_iff split: bind_splits)
    show ?thesis by (rule cyclic_end_after[OF same_queue_status[OF s] cyclic_end_stopped[OF t]])
  next
    case False
    then show ?thesis using rest by (simp add: cyclic_end_def)
  qed
  then show ?thesis using same_queue_poll_loop[OF l] cyclic_end_after by blast
qed

text \<open>The entries.\<close>

lemma work_dequeues:
  assumes "engine_service_work fuel dma mp xdev e w = Some (e', w')"
  shows "dequeues g e w (ghost_service e e' g) e' w'"
proof -
  have irq: "channel_interrupts_enable xdev m w1 = Some w2 \<Longrightarrow> xfers w2 = xfers w1" for m w1 w2
    by (auto simp: channel_interrupts_enable_def split: bind_splits)
  have m: "e_magic e = MAGIC_ENGINE" using assms by (auto simp: engine_service_work_def split: if_splits)
  obtain rv w1 where s: "(if e_cyclic_req e \<noteq> None then engine_service_cyclic fuel dma mp e w
        else engine_service mp e 0 w) = Some (rv, e', w1)"
    and en: "(if d_msix_enabled xdev then Some (write_register (e_interrupt_enable_mask_value e')
            (ereg e' ER_interrupt_enable_mask_w1s) w1)
        else channel_interrupts_enable xdev (e_irq_bitmask e') w1) = Some w'"
    using assms m unfolding engine_service_work_def by (auto split: bind_splits)
  have x: "xfers w' = xfers w1" using en irq by (auto split: if_splits)
  have x': "dequeues g e w g' e' w1 \<Longrightarrow> dequeues g e w g' e' w'" for g'
    unfolding dequeues_def x by simp
  show ?thesis
  proof (cases "e_cyclic_req e = None")
    case True
    then show ?thesis using s service_dequeues x' by (simp add: ghost_service_def)
  next
    case False
    then obtain y where y: "e_cyclic_req e = Some y" by blast
    then have gs: "ghost_service e e' g = ghost_cyclic e e' g" by (simp add: ghost_service_def)
    show ?thesis
      unfolding gs using s y cyclic_end_dequeues[OF cyclic_end_service] x' by simp
  qed
qed

lemma poll_dequeues:
  assumes "engine_service_poll fuel late dma mp e n w = Some (rv, e', w')"
  shows "dequeues g e w (ghost_service e e' g) e' w'"
proof (cases "n AND WB_COUNT_MASK = n")
  case False
  then have "same_queue e w e' w'" using assms by (auto simp: engine_service_poll_def split: if_splits bind_splits)
  then have "cyclic_end e w e' w'" by (simp add: cyclic_end_def)
  then show ?thesis
    using \<open>same_queue e w e' w'\<close> cyclic_end_dequeues same_queue_dequeues by (simp add: ghost_service_def)
next
  case True
  obtain wb w1 where m: "engine_service_wb_monitor fuel late e n w = Some (wb, w1)"
    and s: "(if e_cyclic_req e \<noteq> None then engine_service_cyclic fuel dma mp e w1
       else engine_service mp e wb w1) = Some (rv, e', w')"
    using assms True by (auto simp: engine_service_poll_def split: if_splits bind_splits)
  have x: "xfers w1 = xfers w"
    using m by (auto simp: engine_service_wb_monitor_def dest!: wb_monitor_loop_result split: if_splits bind_splits)
  have x': "dequeues g e w1 g' e' w' \<Longrightarrow> dequeues g e w g' e' w'" for g'
    unfolding dequeues_def x by simp
  show ?thesis
  proof (cases "e_cyclic_req e = None")
    case True
    then show ?thesis using s service_dequeues x' by (simp add: ghost_service_def)
  next
    case False
    then obtain y where y: "e_cyclic_req e = Some y" by blast
    then have gs: "ghost_service e e' g = ghost_cyclic e e' g" by (simp add: ghost_service_def)
    show ?thesis
      unfolding gs using s y cyclic_end_dequeues[OF cyclic_end_service] x' by simp
  qed
qed

section \<open>Giving up, stopping, off line and on line\<close>

text \<open>
  Settling a transfer after its wait: when it has neither been completed nor failed it is
  taken off the queue if it is the head, and marked aborted if it was submitted.
\<close>

lemma settle_stop:
  assumes "submit_settle mp e x dn w = Some (rv, dn', e', w')"
    and "t_state (xfers w x) \<notin> {TRANSFER_STATE_COMPLETED, TRANSFER_STATE_FAILED}"
  shows "e_transfer_list e' = (if list_first (e_transfer_list e) = Some x then tl (e_transfer_list e) else e_transfer_list e)"
    and "e_running e' = e_running e"
    and "xfers w' = (if t_state (xfers w x) = TRANSFER_STATE_SUBMITTED
           then (xfers w)(x := (xfers w x)\<lparr>t_state := TRANSFER_STATE_ABORTED\<rparr>) else xfers w)"
proof -
  have run: "do {
          (_, engine, w) \<leftarrow> engine_status_read e False True w;
          (engine, w) \<leftarrow> transfer_abort engine x w;
          let w = xdma_engine_stop mp engine w;
          Some (- ERESTARTSYS, dn, engine, w)
        } = Some (rv, dn', e', w')"
    using assms by (cases "t_state (xfers w x)") (simp_all add: submit_settle_def)
  obtain v e1 w1 w2 where s: "engine_status_read e False True w = Some (v, e1, w1)"
    and a: "transfer_abort e1 x w1 = Some (e', w2)" and w': "w' = xdma_engine_stop mp e' w2"
    using run by (auto simp: Let_def split: bind_splits)
  have e1: "e1 = e\<lparr>e_status := v\<rparr>" "xfers w1 = xfers w"
    using s by (auto simp: engine_status_read_def engine_reg_dump_def Let_def case_prod_beta
        split: bind_splits)
  have ab: "e' = (case e_transfer_list e1 of
        h # rest \<Rightarrow> (if h = x then e1\<lparr>e_transfer_list := rest\<rparr> else e1) | [] \<Rightarrow> e1)"
    "xfers w2 = (if t_state (xfers w1 x) = TRANSFER_STATE_SUBMITTED
       then (xfers w1)(x := (xfers w1 x)\<lparr>t_state := TRANSFER_STATE_ABORTED\<rparr>) else xfers w1)"
    using a unfolding transfer_abort_def Let_def by (clarsimp split: if_splits)+
  show "xfers w' = (if t_state (xfers w x) = TRANSFER_STATE_SUBMITTED
           then (xfers w)(x := (xfers w x)\<lparr>t_state := TRANSFER_STATE_ABORTED\<rparr>) else xfers w)"
    unfolding w' using ab(2) e1(2) by simp
  show "e_transfer_list e' = (if list_first (e_transfer_list e) = Some x then tl (e_transfer_list e) else e_transfer_list e)"
    "e_running e' = e_running e"
    unfolding ab(1) e1(1) by (cases "e_transfer_list e"; simp add: list_first_def)+
qed

lemma settle_fields:
  assumes "submit_settle mp e x dn w = Some (rv, dn', e', w')"
    and "e_transfer_list e = x # ts" "t_state (xfers w x) = TRANSFER_STATE_SUBMITTED"
  shows "e_transfer_list e' = ts" "e_running e' = e_running e"
    "xfers w' = (xfers w)(x := (xfers w x)\<lparr>t_state := TRANSFER_STATE_ABORTED\<rparr>)"
  using settle_stop[OF assms(1)] assms(2,3) by (simp_all add: list_first_def)

lemma settle_dequeues:
  assumes "submit_settle mp e x dn w = Some (rv, dn', e', w')"
  shows "dequeues g e w g e' w'"
proof (cases "t_state (xfers w x) \<in> {TRANSFER_STATE_COMPLETED, TRANSFER_STATE_FAILED}")
  case True
  then have "e' = e \<and> w' = w" using assms by (auto simp: submit_settle_def)
  then show ?thesis by (simp add: dequeues_none)
next
  case False
  note l = settle_stop(1,2)[OF assms False]
  note x = settle_stop(3)[OF assms False]
  have st: "t_state (xfers w' i) = t_state (xfers w i) \<or>
      t_state (xfers w i) = TRANSFER_STATE_SUBMITTED \<and> t_state (xfers w' i) = TRANSFER_STATE_ABORTED" for i
    unfolding x by simp
  show ?thesis
  proof (cases "\<exists>ts. e_transfer_list e = x # ts")
    case True
    then obtain ts where ts: "e_transfer_list e = x # ts" by blast
    have "t_state (xfers w x) \<in> {TRANSFER_STATE_SUBMITTED, TRANSFER_STATE_ABORTED} \<Longrightarrow>
        t_state (xfers w' x) = TRANSFER_STATE_ABORTED"
      unfolding x by auto
    then show ?thesis
      unfolding dequeues_def using st l by (intro exI[of _ 1]) (auto simp: ts list_first_def final_states_def)
  next
    case False
    then have "e_transfer_list e' = e_transfer_list e" using l(1) by (cases "e_transfer_list e") (auto simp: list_first_def)
    then show ?thesis
      unfolding dequeues_def using st l(2) by (intro exI[of _ 0]) auto
  qed
qed

lemma cyclic_stop_same:
  assumes "engine_cyclic_stop mp e w = Some (x, e', w')"
  shows "e_transfer_list e' = e_transfer_list e" "e_running e' = e_running e"
    "t_state (xfers w' i) = t_state (xfers w i)"
  using assms by (auto simp: engine_cyclic_stop_def Let_def split: list.splits bind_splits if_splits)

lemma idle_loop_same: "idle_loop e w = Some (e', w') \<Longrightarrow> same_queue e w e' w'"
proof -
  assume l: "idle_loop e w = Some (e', w')"
  have "same_queue e w (fst (e', w')) (snd (e', w'))"
  proof (rule idle_loop.raw_induct[of "\<lambda>e w y. same_queue e w (fst y) (snd y)", OF _ l])
    fix f e w y
    assume IH: "\<And>e w y. f e w = Some y \<Longrightarrow> same_queue e w (fst y) (snd y)"
      and "Option.bind (engine_status_read e True False w) (\<lambda>(_, engine, w).
        if e_status engine AND XDMA_STAT_BUSY \<noteq> 0 then f engine w else Some (engine, w)) = Some y"
    then obtain v e1 w1 where s: "engine_status_read e True False w = Some (v, e1, w1)"
      and r: "(if e_status e1 AND XDMA_STAT_BUSY \<noteq> 0 then f e1 w1 else Some (e1, w1)) = Some y"
      by (auto split: bind_splits)
    have "same_queue e1 w1 (fst y) (snd y)" using r IH[of e1 w1 y] by (auto split: if_splits)
    then show "same_queue e w (fst y) (snd y)" using same_queue_status[OF s] same_queue_trans by blast
  qed
  then show ?thesis by simp
qed

lemma drain_dequeues:
  assumes "cyclic_shutdown_polled mp e w = Some (rv, e', w')"
  shows "dequeues g e w (ghost_cyclic e e' g) e' w'"
proof -
  obtain e1 w1 where i: "idle_loop e w = Some (e1, w1)" and c: "cyclic_engine_stopped mp e1 w1 = (e', w')"
    using assms by (auto simp: cyclic_shutdown_polled_def Let_def case_prod_beta prod_eq_iff split: bind_splits)
  show ?thesis
    by (rule cyclic_end_dequeues[OF cyclic_end_after[OF idle_loop_same[OF i] cyclic_end_stopped[OF c]]])
qed

lemma offline_same:
  assumes "offline_loop mp 1 0 [e] w = Some ([e'], w')"
  shows "e_transfer_list e' = e_transfer_list e" "xfers w' = xfers w"
  using assms by (auto simp: arr_get_def Let_def split: if_splits)

lemma online_same:
  assumes "online_loop mp xdev 1 0 [e] w = Some ([e'], w')"
  shows "e_transfer_list e' = e_transfer_list e" "e_running e' = e_running e" "xfers w' = xfers w"
proof -
  have cm: "credit_mode mp d e r w = Some w1 \<Longrightarrow> xfers w1 = xfers w" for d e r w w1
    by (auto simp: credit_mode_def Let_def split: if_splits bind_splits)
  have ii: "init_interrupts mp e w = Some (rv, v, w1) \<Longrightarrow> xfers w1 = xfers w" for e w rv v w1
    by (auto simp: init_interrupts_def engine_writeback_setup_def Let_def split: if_splits bind_splits)
  have al: "engine_alignments e w = (e1, w1) \<Longrightarrow> xfers w1 = xfers w \<and> e_transfer_list e1 = e_transfer_list e \<and>
      e_running e1 = e_running e" for e w e1 w1
    by (auto simp: engine_alignments_def Let_def case_prod_beta split: if_splits)
  have "e_transfer_list e1 = e_transfer_list e \<and> e_running e1 = e_running e \<and> xfers w1 = xfers w"
    if "engine_init_regs mp xdev e w = Some (rv, e1, w1)" for rv e1 w1
    using that unfolding engine_init_regs_def
    by (auto simp: Let_def split: if_splits bind_splits prod.splits dest!: cm ii al)
  then show "e_transfer_list e' = e_transfer_list e" "e_running e' = e_running e" "xfers w' = xfers w"
    using assms by (auto simp: arr_get_def Let_def split: if_splits bind_splits)
qed

section \<open>The invariant is kept\<close>

lemma engine_inv_step: "estep mp s s' \<Longrightarrow> engine_inv s \<Longrightarrow> engine_inv s'"
proof (induction rule: estep.induct)
  case (refuse xdev e i w rv e' w' g)
  then show ?case using queue_result[OF refuse(1)] by auto
next
  case (cyclic_stop e w x e' w' g)
  then show ?case using inv_dequeues dequeues_none[OF cyclic_stop_same[OF cyclic_stop(1)]] by blast
next
  case (offline e w e' w' g)
  have "dequeues g e w (g\<lparr>g_stopped := True\<rparr>) e' w'"
    unfolding dequeues_def using offline_same[OF offline(1)] by (intro exI[of _ 0]) auto
  then show ?case using offline(2) inv_dequeues by blast
next
  case (online xdev e w e' w' g)
  then show ?case using inv_dequeues dequeues_none online_same[OF online(1)] by auto
next
  case (other e' e w' w g)
  then show ?case using inv_dequeues dequeues_none by auto
qed (auto intro: inv_build inv_queue inv_dequeues work_dequeues poll_dequeues settle_dequeues drain_dequeues)

lemma engine_inv_reachable: "(estep mp)\<^sup>*\<^sup>* s s' \<Longrightarrow> engine_inv s \<Longrightarrow> engine_inv s'"
  by (induction rule: rtranclp_induct) (auto intro: engine_inv_step)

end
