(* ===== verification/Samples.thy ===== *)
theory Samples
  imports EngineSM
begin

text \<open>
  Concrete states used to instantiate the properties: an idle H2C engine, a device
  with that engine, a kernel state whose registers all read zero.
\<close>

definition sample_descs :: "xdma_desc list" where
  "sample_descs = replicate 2048 zero_desc"

lemma sample_descs_length [simp]: "length sample_descs = 2048"
  by (simp add: sample_descs_def)

definition sample_engine :: xdma_engine where
  "sample_engine = \<lparr>e_magic = MAGIC_ENGINE, e_name = ''0-H2C0-MM'', e_version = 0,
     e_regs = 0x10000, e_sgdma_regs = 0x14000, e_bypass_offset = 0,
     e_shutdown = 0, e_dir = DMA_TO_DEVICE, e_device_open = False, e_running = False,
     e_non_incr_addr = False, e_streaming = False, e_addr_align = 1, e_len_granularity = 1,
     e_addr_bits = 64, e_channel = 0, e_desc_dequeued = 0, e_status = 0,
     e_interrupt_enable_mask_value = 0, e_transfer_list = [], e_cyclic_result = None,
     e_cyclic_result_bus = 0, e_cyclic_req = None, e_cyclic_sgt = \<lparr>sgl = [], nents = 0\<rparr>,
     e_eop_found = False, e_rx_tail = 0, e_rx_head = 0, e_rx_overrun = False,
     e_user_buffer_index = 0, e_poll_mode_addr_virt = None, e_poll_mode_bus = 0,
     e_msix_irq_line = 0, e_irq_bitmask = 1, e_desc_bus = 0x100000,
     e_desc = Some sample_descs, e_xdma_perf = None\<rparr>"

definition sample_dev :: xdma_dev where
  "sample_dev = \<lparr>d_magic = MAGIC_DEVICE, d_pdev = 7, d_idx = 0, d_lock = False, d_flags = 0,
     d_bar = [Some 0x10000, None, None, None, None, None], d_user_bar_idx = - 1,
     d_config_bar_idx = 0, d_bypass_bar_idx = - 1, d_regions_in_use = False,
     d_got_regions = True, d_user_max = 16, d_c2h_channel_max = 4, d_h2c_channel_max = 4,
     d_irq_count = 0, d_irq_line = 0, d_msi_enabled = False, d_msix_enabled = True,
     d_user_irq = [], d_mask_irq_user = 0, d_engines_num = 1, d_mask_irq_h2c = 1,
     d_mask_irq_c2h = 0, d_engine_h2c = [sample_engine], d_engine_c2h = []\<rparr>"

definition sample_world :: world where
  "sample_world = \<lparr>hw = (\<lambda>_ _. 0), blog = [],
     xfers = (\<lambda>_. zero_transfer\<lparr>t_desc_num := 1\<rparr>), ktrace = []\<rparr>"

lemmas sample_defs = sample_engine_def sample_dev_def sample_world_def

text \<open>An environment in which a transfer completes while the caller sleeps.\<close>

definition sample_env :: submit_env where
  "sample_env = \<lparr>map_sg = (\<lambda>s. s), alloc_req = True,
     wait_xfer = (\<lambda>x e w. Some (1, e\<lparr>e_transfer_list := tl (e_transfer_list e), e_running := False\<rparr>,
        upd_xfer x (\<lambda>t. t\<lparr>t_state := TRANSFER_STATE_COMPLETED\<rparr>) w)),
     poll_fuel = 0, poll_late = (\<lambda>_. True), poll_dma = (\<lambda>_ r. r)\<rparr>"

lemma sample_env_calm: "env_calm sample_env"
  by (auto simp: env_calm_def sample_env_def calm_def quiet_state)

lemma sample_has_descs: "has_descs sample_engine"
  by (simp add: has_descs_def sample_engine_def XDMA_TRANSFER_MAX_DESC_def)

section \<open>A submission of 4096 bytes\<close>

definition sample_sgt :: sg_table where
  "sample_sgt = \<lparr>sgl = [(0x2000, 4096)], nents = 1\<rparr>"

definition sample_req :: xdma_request_cb where
  "sample_req = \<lparr>r_sgt = sample_sgt, r_total_len = 4096, r_ep_addr = 0x1000, r_xfer = zero_transfer,
     r_sw_desc_idx = 0, r_sw_desc_cnt = 1, r_sdesc = [\<lparr>sd_addr = 0x2000, sd_len = 4096\<rparr>]\<rparr>"

lemma sample_pieces: "sg_pieces 0xFFFFFFF [(0x2000, 4096)] = [\<lparr>sd_addr = 0x2000, sd_len = 4096\<rparr>]"
  by (simp add: pieces.simps)

lemma sample_blen: "desc_blen_max default_modparams = 0xFFFFFFF"
  by (simp add: default_modparams_def XDMA_DESC_BLEN_MAX_def XDMA_DESC_BLEN_BITS_def push_bit_eq_mult)

lemma sample_table:
  shows "desc_blen_max default_modparams \<noteq> 0"
    and "nents sample_sgt \<le> length (sgl sample_sgt)"
    and "[(0x2000, 4096)] = take (nents sample_sgt) (sgl sample_sgt)"
    and "no_wrap (desc_blen_max default_modparams) [(0x2000, 4096)]"
    and "extra_spec (desc_blen_max default_modparams) [(0x2000, 4096)] < 2 ^ 32"
    and "sum_list (map (unat \<circ> snd) [(0x2000 :: u64, 4096 :: u32)]) < 2 ^ 32"
    and "map_sg sample_env sample_sgt = sample_sgt"
proof -
  have x: "extra_spec (desc_blen_max default_modparams) [(0x2000, 4096)] = 0"
    unfolding sample_blen by (simp add: extra_spec_def)
  show "extra_spec (desc_blen_max default_modparams) [(0x2000, 4096)] < 2 ^ 32"
    unfolding x by simp
  show "no_wrap (desc_blen_max default_modparams) [(0x2000, 4096)]"
    unfolding sample_blen by (simp add: no_wrap_def)
qed (simp_all add: sample_blen sample_sgt_def sample_env_def)

lemma sample_request:
  "xdma_init_request default_modparams True sample_sgt 0x1000 = Some (Some sample_req)"
proof -
  have p: "[\<lparr>sd_addr = 0x2000, sd_len = 4096\<rparr>] = sg_pieces (desc_blen_max default_modparams) [(0x2000, 4096)]"
    unfolding sample_blen sample_pieces by simp
  have x: "extra_spec (desc_blen_max default_modparams) [(0x2000, 4096)] = 0"
    unfolding sample_blen by (simp add: extra_spec_def)
  show ?thesis
    unfolding xdma_init_request_eq[OF sample_table(1-5) p] x by (simp add: sample_req_def sample_sgt_def)
qed

lemma sample_init:
  "\<exists>ds. length ds = 2048 \<and> transfer_init sample_engine sample_req = Some
     (sample_engine\<lparr>e_desc := Some ds\<rparr>,
      sample_req\<lparr>r_xfer := zero_transfer\<lparr>t_dir := DMA_TO_DEVICE, t_desc_bus := 0x100000, t_len := 4096,
        t_desc_num := 1, t_desc_adjacent := 1\<rparr>, r_ep_addr := 0x2000, r_sw_desc_idx := 1\<rparr>)"
proof -
  let ?ds = sample_descs
  have d: "e_desc sample_engine = Some ?ds" by (simp add: sample_engine_def)
  have f: "e_desc_bus sample_engine = 0x100000" "e_non_incr_addr sample_engine = False"
    "e_dir sample_engine = DMA_TO_DEVICE" by (simp_all add: sample_engine_def)
  have r: "r_sw_desc_idx sample_req = 0" "r_sw_desc_cnt sample_req = 1"
    "r_sdesc sample_req = [\<lparr>sd_addr = 0x2000, sd_len = 4096\<rparr>]" "r_ep_addr sample_req = 0x1000"
    by (simp_all add: sample_req_def)
  have e: "ep_step False [\<lparr>sd_addr = 0x2000, sd_len = 4096\<rparr>] 0x1000 = 0x2000"
    by (simp add: ep_step_def)
  let ?ds' = "map_range 0 1 (xfer_desc 0x100000 1 False [\<lparr>sd_addr = 0x2000, sd_len = 4096\<rparr>]
          0x1000 DMA_TO_DEVICE) ?ds"
  have "transfer_init sample_engine sample_req = Some
     (sample_engine\<lparr>e_desc := Some ?ds'\<rparr>,
      sample_req\<lparr>r_xfer := zero_transfer\<lparr>t_dir := DMA_TO_DEVICE, t_desc_bus := 0x100000,
        t_len := sum_list (map sd_len [\<lparr>sd_addr = 0x2000, sd_len = 4096\<rparr>]),
        t_desc_num := int 1, t_desc_adjacent := int 1\<rparr>, r_ep_addr := 0x2000, r_sw_desc_idx := 0 + 1\<rparr>)"
    using transfer_init_eq[OF d, of sample_req 1 "[\<lparr>sd_addr = 0x2000, sd_len = 4096\<rparr>]"]
    unfolding f r e by (simp add: XDMA_TRANSFER_MAX_DESC_def)
  then show ?thesis by (intro exI[of _ ?ds'] conjI) simp_all
qed

text \<open>A request of two pieces, for a chain with a link in it.\<close>

definition sample_req2 :: xdma_request_cb where
  "sample_req2 = \<lparr>r_sgt = sample_sgt, r_total_len = 4096, r_ep_addr = 0x1000, r_xfer = zero_transfer,
     r_sw_desc_idx = 0, r_sw_desc_cnt = 2,
     r_sdesc = [\<lparr>sd_addr = 0x2000, sd_len = 4096\<rparr>, \<lparr>sd_addr = 0x8000, sd_len = 16\<rparr>]\<rparr>"

lemma sample_init2: "\<exists>e r. transfer_init sample_engine sample_req2 = Some (e, r)"
proof -
  have d: "e_desc sample_engine = Some sample_descs" by (simp add: sample_engine_def)
  have c: "XDMA_TRANSFER_MAX_DESC \<le> length sample_descs" "r_sw_desc_idx sample_req2 < r_sw_desc_cnt sample_req2"
    "r_sw_desc_cnt sample_req2 \<le> length (r_sdesc sample_req2)"
    "2 = min (r_sw_desc_cnt sample_req2 - r_sw_desc_idx sample_req2) XDMA_TRANSFER_MAX_DESC"
    "r_sdesc sample_req2 = take 2 (drop (r_sw_desc_idx sample_req2) (r_sdesc sample_req2))"
    by (simp_all add: XDMA_TRANSFER_MAX_DESC_def sample_req2_def)
  show ?thesis unfolding transfer_init_eq[OF d c] by blast
qed

lemma sample_submit:
  "\<exists>s e w. submit_on_engine sample_env default_modparams sample_dev False 0 DMA_TO_DEVICE 0x1000
     sample_sgt sample_engine sample_world = Some (4096, s, e, w)"
proof -
  obtain ds where ds: "length ds = 2048" "transfer_init sample_engine sample_req = Some
     (sample_engine\<lparr>e_desc := Some ds\<rparr>,
      sample_req\<lparr>r_xfer := zero_transfer\<lparr>t_dir := DMA_TO_DEVICE, t_desc_bus := 0x100000, t_len := 4096,
        t_desc_num := 1, t_desc_adjacent := 1\<rparr>, r_ep_addr := 0x2000, r_sw_desc_idx := 1\<rparr>)"
    using sample_init by blast
  have m: "map_sg sample_env sample_sgt = sample_sgt" "alloc_req sample_env = True"
    "nents sample_sgt = 1" "r_sw_desc_cnt sample_req = 1" "poll_mode default_modparams = False"
    by (simp_all add: sample_env_def sample_sgt_def sample_req_def default_modparams_def)
  let ?t = "zero_transfer\<lparr>t_dir := DMA_TO_DEVICE, t_desc_bus := 0x100000, t_len := 4096,
        t_desc_num := 1, t_desc_adjacent := 1, t_flags := XFER_FLAG_NEED_UNMAP, t_last_in_request := True\<rparr>"
  let ?w = "upd_xfer 0 (\<lambda>_. ?t) sample_world"
  have "\<exists>e' w'. transfer_queue default_modparams sample_dev (sample_engine\<lparr>e_desc := Some ds\<rparr>) 0 ?w =
      Some (0, e', w') \<and> e_desc e' = Some ds \<and>
      xfers w' = (xfers ?w)(0 := ?t\<lparr>t_state := TRANSFER_STATE_SUBMITTED\<rparr>)"
    by (simp add: transfer_queue_def flag_check_eq sample_dev_def sample_engine_def Let_def
        engine_start_def list_first_def engine_status_read_nodump case_prod_beta
        engine_start_mode_config_def ENGINE_SHUTDOWN_REQUEST_def)
  then obtain e' w' where q: "transfer_queue default_modparams sample_dev (sample_engine\<lparr>e_desc := Some ds\<rparr>) 0 ?w =
      Some (0, e', w')" "e_desc e' = Some ds" "xfers w' = (xfers ?w)(0 := ?t\<lparr>t_state := TRANSFER_STATE_SUBMITTED\<rparr>)"
    by blast
  have "\<exists>r s e w. submit_round sample_env default_modparams sample_dev False 0 1 sample_req sample_sgt
      sample_engine 0 sample_world = Some (0, 0, r, s, e, 4096, w)"
    unfolding submit_round_def ds(2)
    using q by (simp add: Let_def sample_env_def m submit_settle_def transfer_destroy_def)
  then have "\<exists>s e w. submit_loop sample_env default_modparams sample_dev False 0 1 sample_req sample_sgt
      sample_engine 0 sample_world = Some (0, s, e, 4096, w)"
    by (subst submit_loop.simps) (auto simp: submit_loop_0)
  then show ?thesis
    by (auto simp: submit_on_engine_def m sample_request case_prod_beta Let_def)
qed

end
