(* ===== verification/EngineProps.thy ===== *)
theory EngineProps
  imports Samples
begin

text \<open>
  Properties of the engine: its queue, its service, the descriptor ring of a cyclic
  transfer, the polled write-back, the status text; and the layout of the registers.
\<close>

unbundle bit_operations_syntax

section \<open>The queue\<close>

text \<open>C2: From an empty queue, under every sequence of building, queueing and refused
  queueing, deferred and polled service (of plain and of cyclic transfers), giving up any
  transfer, the stop and the drain of a cyclic transfer, going off line and on line, and
  whatever leaves queue, running flag and transfers alone: the queue holds the most recently
  queued transfers in the order they were queued, each submitted or given up in its place;
  unless the engine has been stopped by going off line or by the end of a cyclic transfer
  and has taken no transfer since, it is marked running or its queue is empty; and every
  transfer that left the queue is completed, failed or aborted, or has been the cyclic
  request of the engine.\<close>

theorem engine_queue_safe:
  assumes "e_transfer_list e = []" "(estep mp)\<^sup>*\<^sup>* (ghost_start, e, w) (g, e', w')"
  shows "distinct (e_transfer_list e') \<and>
    (\<not> g_stopped g \<longrightarrow> e_running e' \<or> e_transfer_list e' = []) \<and>
    (\<forall>i \<in> set (e_transfer_list e').
       t_state (xfers w' i) \<in> {TRANSFER_STATE_SUBMITTED, TRANSFER_STATE_ABORTED}) \<and>
    (\<exists>d. g_history g = d @ e_transfer_list e' \<and>
       (\<forall>i \<in> set d - set (e_transfer_list e') - g_cyclic g. t_state (xfers w' i) \<in>
          {TRANSFER_STATE_COMPLETED, TRANSFER_STATE_FAILED, TRANSFER_STATE_ABORTED}))"
proof -
  have "engine_inv (g, e', w')" by (rule engine_inv_reachable[OF assms(2) engine_inv_start[OF assms(1)]])
  then obtain d where d: "g_history g = d @ e_transfer_list e'" "\<forall>i \<in> set d. left_well g e' w' i"
    and r: "distinct (e_transfer_list e')" "g_stopped g \<or> e_running e' \<or> e_transfer_list e' = []"
    "\<forall>i \<in> set (e_transfer_list e').
       t_state (xfers w' i) \<in> {TRANSFER_STATE_SUBMITTED, TRANSFER_STATE_ABORTED}"
    unfolding engine_inv_def by blast
  have "\<forall>i \<in> set d - set (e_transfer_list e') - g_cyclic g. t_state (xfers w' i) \<in>
      {TRANSFER_STATE_COMPLETED, TRANSFER_STATE_FAILED, TRANSFER_STATE_ABORTED}"
    using d(2) unfolding left_well_def final_states_def by blast
  with d(1) r show ?thesis by blast
qed

lemma sample_queue:
  "\<exists>e w. transfer_queue default_modparams sample_dev sample_engine 3 sample_world = Some (0, e, w) \<and>
     e_transfer_list e = [3]"
  using transfer_queue_idle[of sample_dev sample_world 3 sample_engine default_modparams]
  by (auto simp: sample_defs ENGINE_SHUTDOWN_REQUEST_def)

text \<open>Queueing a transfer and going off line: the transfer stays in the queue of the stopped engine.\<close>

theorem engine_queue_safe_witness:
  "\<exists>e w e' w'. transfer_queue default_modparams sample_dev sample_engine 3 sample_world = Some (0, e, w) \<and>
     offline_loop default_modparams 1 0 [e] w = Some ([e'], w') \<and>
     e_transfer_list e' = [3] \<and> \<not> e_running e' \<and>
     t_state (xfers w' 3) \<in> {TRANSFER_STATE_SUBMITTED, TRANSFER_STATE_ABORTED}"
proof -
  obtain e w where q: "transfer_queue default_modparams sample_dev sample_engine 3 sample_world = Some (0, e, w)"
    "e_transfer_list e = [3]" using sample_queue by blast
  have l: "e_transfer_list sample_engine = []" by (simp add: sample_engine_def)
  have "e_magic e = MAGIC_ENGINE" using calm_queue[OF q(1)] by (simp add: calm_def sample_engine_def)
  then obtain e' w' where o1: "offline_loop default_modparams 1 0 [e] w = Some ([e'], w')"
    "e_transfer_list e' = [3]" "\<not> e_running e'"
    using q(2) by (simp add: arr_get_def Let_def)
  let ?g = "ghost_start\<lparr>g_history := g_history ghost_start @ [3], g_stopped := False\<rparr>"
  have "estep default_modparams (ghost_start, sample_engine, sample_world) (?g, e, w)"
    by (rule estep.queue[OF q(1)]) (simp add: l)
  moreover have "estep default_modparams (?g, e, w) (?g\<lparr>g_stopped := True\<rparr>, e', w')"
    by (rule estep.offline[OF o1(1)])
  ultimately have r: "(estep default_modparams)\<^sup>*\<^sup>* (ghost_start, sample_engine, sample_world) (?g\<lparr>g_stopped := True\<rparr>, e', w')"
    by simp
  have "t_state (xfers w' 3) \<in> {TRANSFER_STATE_SUBMITTED, TRANSFER_STATE_ABORTED}"
    using engine_queue_safe[OF l r] o1(2) by simp
  with q(1) o1 show ?thesis by blast
qed

text \<open>C9: Queueing on an idle engine that is on line starts it: the state of the engine is
  reset, the transfer is submitted, and the device sees the first descriptor's address and
  adjacency and, last, the control register with the run bit.\<close>

theorem transfer_queue_starts_idle_engine:
  assumes "\<not> d_lock xdev" "t_desc_num (xfers w i) \<noteq> 0"
    and "d_flags xdev AND XDEV_FLAG_OFFLINE = 0" "e_shutdown engine AND ENGINE_SHUTDOWN_REQUEST = 0"
    and "\<not> e_running engine" "e_transfer_list engine = []"
  shows "\<exists>engine' w'. transfer_queue mp xdev engine i w = Some (0, engine', w') \<and>
    e_running engine' \<and> e_transfer_list engine' = [i] \<and> e_desc_dequeued engine' = 0 \<and>
    xfers w' = (xfers w)(i := (xfers w i)\<lparr>t_state := TRANSFER_STATE_SUBMITTED\<rparr>) \<and>
    writes w' = writes w @
      [(sreg engine SG_first_desc_lo, ucast (PCI_DMA_L (t_desc_bus (xfers w i)))),
       (sreg engine SG_first_desc_hi, ucast (PCI_DMA_H (t_desc_bus (xfers w i)))),
       (sreg engine SG_first_desc_adjacent, word_of_int (first_extra_adj (xfers w i)))] @
      (if e_xdma_perf engine \<noteq> None then [(ereg engine ER_interrupt_enable_mask, perf_interrupts)] else []) @
      [(ereg engine ER_control, start_control mp engine)] \<and>
    start_control mp engine AND XDMA_CTRL_RUN_STOP \<noteq> 0"
proof -
  obtain e' w' where q: "transfer_queue mp xdev engine i w = Some (0, e', w')" "e_running e'"
    "e_transfer_list e' = [] @ [i]" "e_desc_dequeued e' = 0"
    "xfers w' = (xfers w)(i := (xfers w i)\<lparr>t_state := TRANSFER_STATE_SUBMITTED\<rparr>)"
    "writes w' = writes w @ start_writes mp engine (xfers w' (hd (e_transfer_list e')))"
    using transfer_queue_idle[OF assms(1-5), of mp] unfolding assms(6) by blast
  have "start_control mp engine AND XDMA_CTRL_RUN_STOP \<noteq> 0"
    unfolding control_run_bit(2) by (simp add: XDMA_CTRL_RUN_STOP_def)
  then show ?thesis
    using q by (intro exI[of _ e'] exI[of _ w']) (simp add: start_writes_def first_extra_adj_def)
qed

theorem transfer_queue_starts_idle_engine_witness:
  "\<exists>e w. transfer_queue default_modparams sample_dev sample_engine 0 sample_world = Some (0, e, w) \<and>
     e_running e \<and> hd (writes w) = (sreg sample_engine SG_first_desc_lo, 0)"
  using transfer_queue_starts_idle_engine[of sample_dev sample_world 0 sample_engine default_modparams]
  by (auto simp: sample_defs ENGINE_SHUTDOWN_REQUEST_def writes_def zero_transfer_def PCI_DMA_L_def)

text \<open>C10: A device that is off line, or an engine that is shutting down, refuses a
  transfer with \<^verbatim>\<open>-EBUSY\<close> and nothing changes.\<close>

theorem transfer_queue_refuses:
  assumes "\<not> d_lock xdev" "t_desc_num (xfers w i) \<noteq> 0"
    and "d_flags xdev AND XDEV_FLAG_OFFLINE \<noteq> 0 \<or> e_shutdown engine AND ENGINE_SHUTDOWN_REQUEST \<noteq> 0"
  shows "transfer_queue mp xdev engine i w = Some (- EBUSY, engine, w)"
  by (rule transfer_queue_refused[OF assms])

theorem transfer_queue_refuses_witness:
  "transfer_queue default_modparams (sample_dev\<lparr>d_flags := 1\<rparr>) sample_engine 0 sample_world =
     Some (- 16, sample_engine, sample_world)"
  by (rule transfer_queue_refuses) (simp_all add: sample_dev_def sample_world_def XDEV_FLAG_OFFLINE_def)

section \<open>The service\<close>

text \<open>C6: Servicing a running engine returns 0 and takes a prefix of its queue, at least
  one transfer when there is one: each of them is completed or failed and its waiter woken,
  all but the last of them completed; the other transfers are untouched, and the engine is
  left running unless its queue is empty.\<close>

theorem engine_service_takes_prefix:
  assumes "e_running engine" "engine_service mp engine wb w = Some (r, engine', w')"
  shows "r = 0 \<and> (\<exists>k \<le> length (e_transfer_list engine).
     (k = 0 \<longleftrightarrow> e_transfer_list engine = []) \<and>
     e_transfer_list engine' = drop k (e_transfer_list engine) \<and>
     (\<forall>i. i \<notin> set (take k (e_transfer_list engine)) \<longrightarrow> xfers w' i = xfers w i) \<and>
     (\<forall>i \<in> set (take k (e_transfer_list engine)).
        t_state (xfers w' i) \<in> {TRANSFER_STATE_COMPLETED, TRANSFER_STATE_FAILED} \<and>
        WakeTransfer i \<in> set (ktrace w')) \<and>
     (\<forall>i \<in> set (take (k - 1) (e_transfer_list engine)). i \<noteq> e_transfer_list engine ! (k - 1) \<longrightarrow>
        t_state (xfers w' i) = TRANSFER_STATE_COMPLETED)) \<and>
   (e_running engine' \<or> e_transfer_list engine' = [])"
  using engine_service_running[OF assms] unfolding served_def by blast

definition sample_c2h :: xdma_engine where
  "sample_c2h = sample_engine\<lparr>e_name := ''0-C2H0-ST'', e_dir := DMA_FROM_DEVICE, e_streaming := True,
     e_running := True, e_transfer_list := [0]\<rparr>"

lemma sample_dump: "engine_status_dump (sample_c2h\<lparr>e_status := v\<rparr>) \<noteq> None"
  by (simp add: status_dump_c2h_ok sample_c2h_def)

text \<open>The status that a service of an engine works with: it is read unless the write-back
  says that descriptors have been completed without an error.\<close>

definition service_status :: "xdma_engine \<Rightarrow> u32 \<Rightarrow> world \<Rightarrow> u32" where
  "service_status engine wb w =
     (if wb AND WB_COUNT_MASK = 0 \<or> wb AND WB_ERR_MASK \<noteq> 0
      then fst (read_register (ereg engine ER_status_rc) w) else e_status engine)"

lemma service_enter_status:
  assumes "service_enter mp engine wb w = Some (n, tr, engine1, w1)"
  shows "e_status engine1 = service_status engine wb w"
proof -
  have perf: "e_status e' = e_status e" if "engine_service_perf e n w = (e', w')" for e n w e' w'
    using service_perf_frame(1)[OF that] by auto
  show ?thesis
    using assms
    by (auto simp: service_enter_def service_status_def Let_def engine_status_read_nodump engine_service_shutdown_def
        case_prod_beta dest!: perf split: if_splits list.splits)
qed

lemma engine_service_defined:
  assumes "status_has_error (engine\<lparr>e_status := service_status engine wb w\<rparr>) \<Longrightarrow>
      engine_status_dump (engine\<lparr>e_status := service_status engine wb w\<rparr>) \<noteq> None"
    and "poll_mode mp \<Longrightarrow> e_poll_mode_addr_virt engine \<noteq> None"
  shows "engine_service mp engine wb w \<noteq> None"
proof (cases "e_running engine")
  case True
  let ?ts = "e_transfer_list engine"
  obtain n tr e1 w1 where en: "service_enter mp engine wb w = Some (n, tr, e1, w1)"
    using service_enter_defined[of mp engine wb w] by (auto simp: prod_cases3)
  note ef = service_enter_frame[OF en]
  obtain k e2 w2 p q where l:
    "engine_service_transfer_list e1 tr (n - word_of_int (e_desc_dequeued e1)) w1 =
       Some (list_first (drop k ?ts), p, e2, w2)"
    and q: "e2 = e1\<lparr>e_transfer_list := drop k ?ts, e_desc_dequeued := q\<rparr>"
    using service_list_defined[OF ef(3)] unfolding ef(1) by blast
  have e2: "e_transfer_list e2 = drop k ?ts" "e_dir e2 = e_dir engine" "e_name e2 = e_name engine"
    "e_poll_mode_addr_virt e2 = e_poll_mode_addr_virt engine"
    unfolding q by (simp_all add: ef(4-6))
  have st: "e_status e2 = service_status engine wb w" unfolding q by (simp add: service_enter_status[OF en])
  have "status_has_error e2 \<Longrightarrow> engine_status_dump e2 \<noteq> None"
  proof -
    have c: "engine_status_dump e2 = engine_status_dump (engine\<lparr>e_status := e_status e2\<rparr>)"
      by (rule status_dump_cong) (simp_all add: e2)
    have "status_has_error e2 = status_has_error (engine\<lparr>e_status := e_status e2\<rparr>)"
      by (simp add: status_has_error_def e2)
    then show "status_has_error e2 \<Longrightarrow> engine_status_dump e2 \<noteq> None"
      unfolding c st using assms(1) by simp
  qed
  then have "engine_service_final_transfer mp e2 (list_first us) p w2 \<noteq> None"
    if "e_transfer_list e2 = us" for us
    using final_transfer_defined[of e2] that
    by (cases us) (simp_all add: list_first_def final_transfer_None)
  from this[OF e2(1)] obtain tr3 e3 w3 where f:
    "engine_service_final_transfer mp e2 (list_first (drop k ?ts)) p w2 = Some (tr3, e3, w3)"
    by auto
  have "e_poll_mode_addr_virt e3 = e_poll_mode_addr_virt e2"
  proof (cases "drop k ?ts")
    case Nil
    then show ?thesis using f by (simp add: list_first_def final_transfer_None)
  next
    case (Cons t us)
    then have el: "e_transfer_list e2 = t # us" using e2(1) by simp
    from f Cons have fs: "engine_service_final_transfer mp e2 (Some t) p w2 = Some (tr3, e3, w3)"
      by (simp add: list_first_def)
    from final_transfer_spec(1)[OF el fs] show ?thesis by simp
  qed
  then have "e_poll_mode_addr_virt e3 = e_poll_mode_addr_virt engine" by (simp only: e2(4))
  then have "clear_writeback mp e3 w3 \<noteq> None"
    using assms(2) by (auto simp: clear_writeback_def)
  then obtain w4 where c: "clear_writeback mp e3 w3 = Some w4" by auto
  obtain e5 w5 where rs: "engine_service_resume mp e3 w4 = Some (e5, w5)"
    using resume_defined[of mp e3 w4] by auto
  show ?thesis
    unfolding engine_service_def Let_def using True by (simp add: en l f c rs)
next
  case False
  then show ?thesis using engine_service_idle[OF False] by fastforce
qed

text \<open>C7: The service of an engine returns 0 for every engine that receives, whatever the device
  answers; for one that sends, whenever the text of the status it reads fits its buffer or that
  status is no error.  In polled mode the write-back must be allocated.\<close>

theorem engine_service_total:
  assumes "v = (if wb AND WB_COUNT_MASK = 0 \<or> wb AND WB_ERR_MASK \<noteq> 0
      then fst (read_register (ereg engine ER_status_rc) w) else e_status engine)"
    and "e_dir engine \<noteq> DMA_TO_DEVICE \<and> length (e_name engine) \<le> 57 \<or>
      length (engine_status_text (engine\<lparr>e_status := v\<rparr>)) < 256 \<or> \<not> status_has_error (engine\<lparr>e_status := v\<rparr>)"
    and "poll_mode mp \<Longrightarrow> e_poll_mode_addr_virt engine \<noteq> None"
  shows "\<exists>engine' w'. engine_service mp engine wb w = Some (0, engine', w')"
proof -
  have v: "v = service_status engine wb w" unfolding assms(1) service_status_def ..
  have "status_has_error (engine\<lparr>e_status := v\<rparr>) \<Longrightarrow> engine_status_dump (engine\<lparr>e_status := v\<rparr>) \<noteq> None"
    using assms(2) status_dump_c2h_ok[of "engine\<lparr>e_status := v\<rparr>"] by (auto simp: engine_status_dump_def Let_def)
  then obtain r e' w' where s: "engine_service mp engine wb w = Some (r, e', w')"
    using engine_service_defined[OF _ assms(3)] unfolding v by fastforce
  have "r = 0"
    using engine_service_running[OF _ s] engine_service_idle[of engine mp wb w] s
    by (cases "e_running engine") auto
  with s show ?thesis by blast
qed

definition sample_h2c :: xdma_engine where
  "sample_h2c = sample_engine\<lparr>e_running := True, e_transfer_list := [0]\<rparr>"

theorem engine_service_total_witness:
  "(\<exists>e w. engine_service default_modparams sample_c2h 0 (sample_world\<lparr>hw := \<lambda>_ _. - 1\<rparr>) = Some (0, e, w)) \<and>
   (\<exists>e w. engine_service default_modparams sample_h2c 0 sample_world = Some (0, e, w))"
proof
  show "\<exists>e w. engine_service default_modparams sample_c2h 0 (sample_world\<lparr>hw := \<lambda>_ _. - 1\<rparr>) = Some (0, e, w)"
    by (rule engine_service_total[OF refl]) (simp_all add: sample_c2h_def default_modparams_def)
  show "\<exists>e w. engine_service default_modparams sample_h2c 0 sample_world = Some (0, e, w)"
    by (rule engine_service_total[OF refl])
      (simp_all add: sample_h2c_def sample_world_def fst_read status_has_error_def default_modparams_def)
qed

theorem engine_service_takes_prefix_witness:
  "\<exists>e w. engine_service default_modparams sample_c2h 1 sample_world = Some (0, e, w) \<and>
     e_transfer_list e = [] \<and> WakeTransfer 0 \<in> set (ktrace w)"
proof -
  have "engine_service default_modparams sample_c2h 1 sample_world \<noteq> None"
    by (rule engine_service_defined) (simp_all add: sample_dump default_modparams_def)
  then obtain r e w where s: "engine_service default_modparams sample_c2h 1 sample_world = Some (r, e, w)"
    by auto
  have c: "e_running sample_c2h" "e_transfer_list sample_c2h = [0]" by (simp_all add: sample_c2h_def)
  obtain k where "r = 0" "k \<le> 1" "k \<noteq> 0" "e_transfer_list e = drop k [0]"
    "\<forall>i \<in> set (take k [0]). WakeTransfer i \<in> set (ktrace w)"
    using engine_service_takes_prefix[OF c(1) s] unfolding c(2) by auto
  moreover then have "k = 1" by simp
  ultimately show ?thesis using s by auto
qed

section \<open>Time-outs\<close>

lemma settle_timeout:
  assumes "e_transfer_list e = x # ts" "t_state (xfers w x) = TRANSFER_STATE_SUBMITTED"
    and "t_desc_num (xfers w x) \<noteq> 0"
    and "v = fst (read_register (ereg e ER_status) (engine_reg_dump e w))"
    and "engine_status_dump (e\<lparr>e_status := v\<rparr>) \<noteq> None"
  shows "\<exists>e' w'. submit_settle mp e x dn w = Some (- ERESTARTSYS, dn, e', w') \<and>
    e' = e\<lparr>e_status := v, e_transfer_list := ts\<rparr> \<and>
    xfers w' = (xfers w)(x := (xfers w x)\<lparr>t_state := TRANSFER_STATE_ABORTED\<rparr>) \<and>
    writes w' = writes w @ [(ereg e ER_control, stop_control mp e)]"
proof -
  let ?w = "engine_reg_dump e w"
  obtain w1 where r: "read_register (ereg e ER_status) ?w = (v, w1)" unfolding assms(4) by (metis prod.collapse)
  have f: "xfers ?w = xfers w" "writes ?w = writes w"
    using iobus.seen_fold_rd by (simp_all add: engine_reg_dump_def Let_def case_prod_beta)
  have f1: "xfers w1 = xfers w" "writes w1 = writes w" using read_frameD[OF r] f by simp_all
  obtain t where d: "engine_status_dump (e\<lparr>e_status := v\<rparr>) = Some t"
    using assms(5) by auto
  have sr: "engine_status_read e False True w = Some (v, e\<lparr>e_status := v\<rparr>, w1)"
    by (simp add: engine_status_read_def Let_def r d)
  let ?e = "e\<lparr>e_status := v, e_transfer_list := ts\<rparr>"
  have ab: "transfer_abort (e\<lparr>e_status := v\<rparr>) x w1 =
      Some (?e, upd_xfer x (\<lambda>t. t\<lparr>t_state := TRANSFER_STATE_ABORTED\<rparr>) w1)"
    using assms(1-3) f1 by (simp add: transfer_abort_def Let_def)
  have sc: "stop_control mp ?e = stop_control mp e" by (simp add: stop_control_def Let_def)
  show ?thesis
    using assms(2) f1
    by (simp add: submit_settle_def sr ab sc Let_def)
qed

text \<open>What submissions do to an engine: a transfer is built, queued or refused, given up or found
  finished after the wait, and destroyed.\<close>

inductive submitter :: "modparams \<Rightarrow> xdma_engine \<times> world \<Rightarrow> xdma_engine \<times> world \<Rightarrow> bool" for mp where
  build: "submitter mp (e, w) (e\<lparr>e_desc := ds\<rparr>, upd_xfer i (\<lambda>_. t) w)"
| queue: "transfer_queue mp xdev e i w = Some (rv, e', w') \<Longrightarrow> submitter mp (e, w) (e', w')"
| settle: "submit_settle mp e i dn w = Some (rv, dn', e', w') \<Longrightarrow> submitter mp (e, w) (e', w')"
| destroy: "transfer_destroy e i sgt w = Some (e', sgt', w') \<Longrightarrow> submitter mp (e, w) (e', w')"

definition stranded :: "modparams \<Rightarrow> xdma_engine \<Rightarrow> world \<Rightarrow> xdma_engine \<Rightarrow> world \<Rightarrow> bool" where
  "stranded mp e w e' w' \<longleftrightarrow> e_running e' \<and> ereg e' ER_control = ereg e ER_control \<and>
     stop_control mp e' = stop_control mp e \<and>
     (\<exists>ws. writes w' = writes w @ ws \<and> set ws \<subseteq> {(ereg e ER_control, stop_control mp e)})"

lemma stranded_same:
  assumes "stranded mp e w e1 w1" "e_running e2" "ereg e2 ER_control = ereg e1 ER_control"
    and "stop_control mp e2 = stop_control mp e1"
    and "writes w2 = writes w1 \<or> writes w2 = writes w1 @ [(ereg e1 ER_control, stop_control mp e1)]"
  shows "stranded mp e w e2 w2"
  using assms unfolding stranded_def by auto

lemma queue_running_cases:
  assumes "transfer_queue mp xdev e i w = Some (rv, e', w')" "e_running e"
  shows "e' = e \<and> w' = w \<or>
    e' = enqueue_transfer i e \<and> w' = upd_xfer i (\<lambda>t. t\<lparr>t_state := TRANSFER_STATE_SUBMITTED\<rparr>) w"
  using assms by (auto simp: transfer_queue_def Let_def enqueue_transfer_def split: if_splits bind_splits)

lemma settle_running_cases:
  assumes "submit_settle mp e x dn w = Some (rv, dn', e', w')"
  shows "e' = e \<and> w' = w \<or> (\<exists>v l. e' = e\<lparr>e_status := v, e_transfer_list := l\<rparr>) \<and>
    writes w' = writes w @ [(ereg e ER_control, stop_control mp e)]"
proof (cases "t_state (xfers w x) \<in> {TRANSFER_STATE_COMPLETED, TRANSFER_STATE_FAILED}")
  case True
  then show ?thesis using assms by (auto simp: submit_settle_def)
next
  case False
  have "do {
          (_, engine, w) \<leftarrow> engine_status_read e False True w;
          (engine, w) \<leftarrow> transfer_abort engine x w;
          let w = xdma_engine_stop mp engine w;
          Some (- ERESTARTSYS, dn, engine, w)
        } = Some (rv, dn', e', w')"
    using assms False by (cases "t_state (xfers w x)") (simp_all add: submit_settle_def)
  then obtain v e1 w1 w2 where s: "engine_status_read e False True w = Some (v, e1, w1)"
    and a: "transfer_abort e1 x w1 = Some (e', w2)" and w': "w' = xdma_engine_stop mp e' w2"
    by (auto simp: Let_def split: bind_splits)
  have d: "writes (engine_reg_dump e w) = writes w"
    using iobus.seen_fold_rd by (simp add: engine_reg_dump_def Let_def case_prod_beta)
  have e1: "e1 = e\<lparr>e_status := v\<rparr>" "writes w1 = writes w"
    using s d by (auto simp: engine_status_read_def Let_def case_prod_beta split: bind_splits)
  have ab: "e' = (case e_transfer_list e1 of
        h # rest \<Rightarrow> (if h = x then e1\<lparr>e_transfer_list := rest\<rparr> else e1) | [] \<Rightarrow> e1)"
    and w2: "writes w2 = writes w1"
    using a unfolding transfer_abort_def Let_def by (clarsimp split: if_splits)+
  obtain l where e': "e' = e1\<lparr>e_transfer_list := l\<rparr>"
  proof (cases "e_transfer_list e1")
    case Nil
    then have "e' = e1\<lparr>e_transfer_list := e_transfer_list e1\<rparr>" unfolding ab by simp
    then show ?thesis by (rule that)
  next
    case (Cons h rest)
    show ?thesis
    proof (cases "h = x")
      case True
      then show ?thesis using that[of rest] unfolding ab Cons by simp
    next
      case False
      then have "e' = e1" using ab Cons by simp
      then show ?thesis using that[of "e_transfer_list e1"] by simp
    qed
  qed
  have "writes w' = writes w @ [(ereg e ER_control, stop_control mp e)]"
    by (simp add: w' w2 e1 e' stop_control_def Let_def)
  then show ?thesis unfolding e' e1(1) by auto
qed

lemma submitter_strands:
  assumes "(submitter mp)\<^sup>*\<^sup>* (e, w) (e', w')" "e_running e"
  shows "stranded mp e w e' w'"
  using assms(1)
proof (induction rule: rtranclp_induct2)
  case refl
  then show ?case using assms(2) by (simp add: stranded_def)
next
  case (step e1 w1 e2 w2)
  have r: "e_running e1" using step.IH by (simp add: stranded_def)
  show ?case
    using step.hyps(2)
  proof cases
    case (build ds i t)
    then show ?thesis using r by (intro stranded_same[OF step.IH]) (simp_all add: ereg_def stop_control_def Let_def)
  next
    case (queue xdev i rv)
    then show ?thesis
      using queue_running_cases[OF queue r] r
      by (intro stranded_same[OF step.IH]) (auto simp: enqueue_transfer_def ereg_def stop_control_def Let_def)
  next
    case (settle i dn rv dn')
    then show ?thesis
      using settle_running_cases[OF settle] r
      by (intro stranded_same[OF step.IH]) (auto simp: ereg_def stop_control_def Let_def)
  next
    case (destroy i sgt sgt')
    then show ?thesis
      using destroy_cases(1)[OF destroy] r
      by (intro stranded_same[OF step.IH])
        (auto simp: transfer_destroy_def ereg_def stop_control_def Let_def split: if_splits bind_splits)
  qed
qed

text \<open>C11: When the wait for the transfer at the head times out, and the text of the status
  that is read then fits its buffer, the call returns \<^verbatim>\<open>-ERESTARTSYS\<close> and stops the engine,
  which stays marked running. An engine that is on line accepts the next transfer, but no
  submission, however many follow, starts it again: they write nothing but the stop of a
  further time-out.\<close>

theorem timeout_strands_engine:
  assumes "e_running e" "e_transfer_list e = x # ts" "t_state (xfers w x) = TRANSFER_STATE_SUBMITTED"
    and "t_desc_num (xfers w x) \<noteq> 0"
    and "v = fst (read_register (ereg e ER_status) (engine_reg_dump e w))"
    and "engine_status_dump (e\<lparr>e_status := v\<rparr>) \<noteq> None"
  shows "\<exists>e1 w1. submit_settle mp e x done w = Some (- ERESTARTSYS, done, e1, w1) \<and>
    e_transfer_list e1 = ts \<and> t_state (xfers w1 x) = TRANSFER_STATE_ABORTED \<and>
    writes w1 = writes w @ [(ereg e ER_control, stop_control mp e)] \<and>
    stop_control mp e AND XDMA_CTRL_RUN_STOP = 0 \<and>
    (\<forall>xdev y. \<not> d_lock xdev \<and> d_flags xdev AND XDEV_FLAG_OFFLINE = 0 \<and>
       e_shutdown e AND ENGINE_SHUTDOWN_REQUEST = 0 \<and> t_desc_num (xfers w y) \<noteq> 0 \<longrightarrow>
       (\<exists>e2 w2. transfer_queue mp xdev e1 y w1 = Some (0, e2, w2) \<and> e_transfer_list e2 = ts @ [y])) \<and>
    (\<forall>e2 w2. (submitter mp)\<^sup>*\<^sup>* (e1, w1) (e2, w2) \<longrightarrow> e_running e2 \<and>
       (\<exists>ws. writes w2 = writes w1 @ ws \<and> set ws \<subseteq> {(ereg e ER_control, stop_control mp e)}))"
proof -
  obtain e1 w1 where s: "submit_settle mp e x done w = Some (- ERESTARTSYS, done, e1, w1)"
    "e1 = e\<lparr>e_status := v, e_transfer_list := ts\<rparr>"
    "xfers w1 = (xfers w)(x := (xfers w x)\<lparr>t_state := TRANSFER_STATE_ABORTED\<rparr>)"
    "writes w1 = writes w @ [(ereg e ER_control, stop_control mp e)]"
    using settle_timeout[OF assms(2-6), of mp "done"] by blast
  have f: "e_running e1" "e_transfer_list e1 = ts" "e_shutdown e1 = e_shutdown e"
    "ereg e1 r = ereg e r" "stop_control mp e1 = stop_control mp e" for r
    using assms(1) by (simp_all add: s(2) stop_control_def Let_def)
  have a: "\<exists>e2 w2. transfer_queue mp xdev e1 y w1 = Some (0, e2, w2) \<and> e_transfer_list e2 = ts @ [y]"
    if "\<not> d_lock xdev" "d_flags xdev AND XDEV_FLAG_OFFLINE = 0" "e_shutdown e AND ENGINE_SHUTDOWN_REQUEST = 0"
      "t_desc_num (xfers w y) \<noteq> 0" for xdev y
  proof -
    have "t_desc_num (xfers w1 y) \<noteq> 0" unfolding s(3) using that(4) assms(4) by simp
    then show ?thesis
      using stuck_engine_not_started[of xdev e1 w1 y mp] that(1-3) f(1-3) by metis
  qed
  have b: "e_running e2 \<and> (\<exists>ws. writes w2 = writes w1 @ ws \<and> set ws \<subseteq> {(ereg e ER_control, stop_control mp e)})"
    if "(submitter mp)\<^sup>*\<^sup>* (e1, w1) (e2, w2)" for e2 w2
    using submitter_strands[OF that f(1)] unfolding stranded_def f(4,5) by blast
  have x: "t_state (xfers w1 x) = TRANSFER_STATE_ABORTED" by (simp add: s(3))
  show ?thesis using s(1,4) f(2) a b x control_run_bit(1)[of mp e] by blast
qed

text \<open>An engine that sends, and a device whose registers read zero: two submissions later it is still stopped.\<close>

theorem timeout_strands_engine_witness:
  "\<exists>e1 w1 e2 w2. submit_settle default_modparams sample_h2c 0 0 (upd_xfer 0 (\<lambda>t. t\<lparr>t_state := TRANSFER_STATE_SUBMITTED\<rparr>) sample_world) =
     Some (- 512, 0, e1, w1) \<and> transfer_queue default_modparams sample_dev e1 1 w1 = Some (0, e2, w2) \<and>
     e_transfer_list e2 = [1] \<and> e_running e2 \<and>
     (\<forall>a v. (a, v) \<in> set (writes w2) \<longrightarrow> v AND XDMA_CTRL_RUN_STOP = 0)"
proof -
  let ?w = "upd_xfer 0 (\<lambda>t. t\<lparr>t_state := TRANSFER_STATE_SUBMITTED\<rparr>) sample_world"
  let ?v = "fst (read_register (ereg sample_h2c ER_status) (engine_reg_dump sample_h2c ?w))"
  have "hw (engine_reg_dump sample_h2c ?w) = hw sample_world"
    by (simp add: engine_reg_dump_def Let_def case_prod_beta)
  then have v: "?v = 0" by (simp add: fst_read sample_world_def)
  have "engine_status_dump (sample_h2c\<lparr>e_status := 0\<rparr>) \<noteq> None" by code_simp
  then have d: "engine_status_dump (sample_h2c\<lparr>e_status := ?v\<rparr>) \<noteq> None" unfolding v .
  have "e_running sample_h2c" "e_transfer_list sample_h2c = 0 # []"
    "t_state (xfers ?w 0) = TRANSFER_STATE_SUBMITTED" "t_desc_num (xfers ?w 0) \<noteq> 0"
    by (simp_all add: sample_h2c_def sample_defs)
  from timeout_strands_engine[OF this refl d, of default_modparams 0] obtain e1 w1 where
    s: "submit_settle default_modparams sample_h2c 0 0 ?w = Some (- ERESTARTSYS, 0, e1, w1)"
      "writes w1 = writes ?w @ [(ereg sample_h2c ER_control, stop_control default_modparams sample_h2c)]"
      "stop_control default_modparams sample_h2c AND XDMA_CTRL_RUN_STOP = 0"
    and q: "\<And>xdev y. \<not> d_lock xdev \<and> d_flags xdev AND XDEV_FLAG_OFFLINE = 0 \<and>
       e_shutdown sample_h2c AND ENGINE_SHUTDOWN_REQUEST = 0 \<and> t_desc_num (xfers ?w y) \<noteq> 0 \<Longrightarrow>
       \<exists>e2 w2. transfer_queue default_modparams xdev e1 y w1 = Some (0, e2, w2) \<and> e_transfer_list e2 = [] @ [y]"
    and n: "\<And>e2 w2. (submitter default_modparams)\<^sup>*\<^sup>* (e1, w1) (e2, w2) \<Longrightarrow> e_running e2 \<and>
       (\<exists>ws. writes w2 = writes w1 @ ws \<and> set ws \<subseteq> {(ereg sample_h2c ER_control, stop_control default_modparams sample_h2c)})"
    by blast
  obtain e2 w2 where t: "transfer_queue default_modparams sample_dev e1 1 w1 = Some (0, e2, w2)" "e_transfer_list e2 = [1]"
    using q[of sample_dev 1] by (auto simp: sample_h2c_def sample_defs)
  have e: "writes ?w = []" by (simp add: sample_world_def writes_def)
  have r: "e_running e2" "\<exists>ws. writes w2 = writes w1 @ ws \<and>
      set ws \<subseteq> {(ereg sample_h2c ER_control, stop_control default_modparams sample_h2c)}"
    using n[of e2 w2] submitter.queue[OF t(1)] by auto
  show ?thesis using s t r unfolding e by (intro exI[of _ e1] exI[of _ w1] exI[of _ e2] exI[of _ w2]) auto
qed

section \<open>The ring of a cyclic transfer\<close>

text \<open>C12: One scan of the result ring visits each of its 256 entries at most once: it
  counts between 0 and 256 packets, leaves the tail in the ring, and reports an overrun only
  with the tail on the head.\<close>

theorem ring_process_bounded:
  assumes "e_cyclic_result engine = Some result" "length result = 256"
    and "0 \<le> e_rx_head engine" "e_rx_head engine < 256" "0 \<le> e_rx_tail engine" "e_rx_tail engine < 256"
    and "\<not> e_rx_overrun engine"
  shows "\<exists>eop tail overrun. engine_ring_process engine =
      Some (eop, engine\<lparr>e_rx_tail := tail, e_rx_overrun := overrun\<rparr>) \<and>
    0 \<le> eop \<and> eop \<le> 256 \<and> 0 \<le> tail \<and> tail < 256 \<and> (overrun \<longrightarrow> tail = e_rx_head engine)"
  using engine_ring_process_spec[of engine] assms unfolding ring_wf_def by blast

definition sample_ring :: "xdma_result list" where
  "sample_ring = \<lparr>res_status = 1, res_length = 64\<rparr> # replicate 255 \<lparr>res_status = 0, res_length = 0\<rparr>"

theorem ring_process_bounded_witness:
  "\<exists>eop tail ovr. engine_ring_process (sample_c2h\<lparr>e_cyclic_result := Some sample_ring\<rparr>) =
     Some (eop, sample_c2h\<lparr>e_cyclic_result := Some sample_ring, e_rx_tail := tail, e_rx_overrun := ovr\<rparr>) \<and>
     eop \<le> 256 \<and> tail < 256"
proof -
  let ?e = "sample_c2h\<lparr>e_cyclic_result := Some sample_ring\<rparr>"
  have "e_cyclic_result ?e = Some sample_ring" "length sample_ring = 256"
    "0 \<le> e_rx_head ?e" "e_rx_head ?e < 256" "0 \<le> e_rx_tail ?e" "e_rx_tail ?e < 256" "\<not> e_rx_overrun ?e"
    by (simp_all add: sample_c2h_def sample_engine_def sample_ring_def)
  from ring_process_bounded[OF this] show ?thesis by blast
qed

section \<open>Polled mode\<close>

text \<open>C13: The wait for the polled write-back looks at it again and again, and the clock with it,
  until it has the error bit or the expected count, or it is late; so it ends, with enough
  fuel for the looks until the deadline.  What it found then is its value, except that a late
  count that is larger than expected is turned into the expected one with the error bit.\<close>

theorem wb_monitor_returns:
  assumes "e_poll_mode_addr_virt engine = Some wb" "expected \<noteq> 0" "late m" "m < fuel"
  shows "\<exists>k \<le> m. \<exists>x. x = read_at wb k w \<and>
    (\<forall>j < k. \<not> late j \<and> read_at wb j w AND WB_ERR_MASK = 0 \<and> read_at wb j w \<noteq> expected) \<and>
    (x AND WB_ERR_MASK \<noteq> 0 \<or> x = expected \<or> late k) \<and>
    engine_service_wb_monitor fuel late engine expected w =
      Some (if x AND WB_ERR_MASK \<noteq> 0 \<or> x = expected \<or> x AND WB_COUNT_MASK \<le> expected then x
            else expected OR WB_ERR_MASK, after_reads wb (Suc k) w)"
proof -
  obtain k where k: "k \<le> m" "wb_monitor_loop fuel late 0 wb expected w =
      Some (if read_at wb k w AND WB_ERR_MASK \<noteq> 0 \<or> read_at wb k w = expected then read_at wb k w
            else if read_at wb k w AND WB_COUNT_MASK > expected then expected OR WB_ERR_MASK
            else read_at wb k w, after_reads wb (Suc k) w)"
    "\<forall>j < k. \<not> late j \<and> read_at wb j w AND WB_ERR_MASK = 0 \<and> read_at wb j w \<noteq> expected"
    "read_at wb k w AND WB_ERR_MASK = 0 \<and> read_at wb k w \<noteq> expected \<longrightarrow> late k"
    using wb_monitor_loop_exact[of late m 0 fuel wb expected w] assms(3,4) by auto
  have e: "engine_service_wb_monitor fuel late engine expected w = wb_monitor_loop fuel late 0 wb expected w"
    using assms(1,2) by (simp add: engine_service_wb_monitor_def)
  show ?thesis
    using k unfolding e by (intro exI[of _ k] exI[of _ "read_at wb k w"]) (auto simp: not_le)
qed

text \<open>A device that completes two descriptors at the third look.\<close>

theorem wb_monitor_returns_witness:
  "engine_service_wb_monitor 10 (\<lambda>n. n = 9) (sample_c2h\<lparr>e_poll_mode_addr_virt := Some 0x40\<rparr>) 2
     (sample_world\<lparr>hw := \<lambda>l _. of_nat (length l)\<rparr>) =
   Some (2, after_reads 0x40 3 (sample_world\<lparr>hw := \<lambda>l _. of_nat (length l)\<rparr>))"
proof -
  let ?w = "sample_world\<lparr>hw := \<lambda>l _. of_nat (length l) :: u32\<rparr>"
  let ?e = "sample_c2h\<lparr>e_poll_mode_addr_virt := Some 0x40\<rparr>"
  have l: "hw w = hw ?w \<Longrightarrow> read_at 0x40 n w = of_nat (n + length (blog w))" for n w
    by (induction n arbitrary: w) (simp_all add: read_at_def fst_read read_register_def Let_def)
  have x: "read_at 0x40 n ?w = of_nat n" for n using l[of ?w n] by (simp add: sample_world_def)
  have h: "e_poll_mode_addr_virt ?e = Some 0x40" "(2 :: u32) \<noteq> 0" "(9 :: nat) = 9" "(9 :: nat) < 10" by simp_all
  obtain k where k: "k \<le> 9"
    "\<forall>j < k. \<not> j = 9 \<and> read_at 0x40 j ?w AND WB_ERR_MASK = 0 \<and> read_at 0x40 j ?w \<noteq> 2"
    "read_at 0x40 k ?w AND WB_ERR_MASK \<noteq> 0 \<or> read_at 0x40 k ?w = 2 \<or> k = 9"
    "engine_service_wb_monitor 10 (\<lambda>n. n = 9) ?e 2 ?w =
      Some (if read_at 0x40 k ?w AND WB_ERR_MASK \<noteq> 0 \<or> read_at 0x40 k ?w = 2 \<or> read_at 0x40 k ?w AND WB_COUNT_MASK \<le> 2
            then read_at 0x40 k ?w else 2 OR WB_ERR_MASK, after_reads 0x40 (Suc k) ?w)"
    using wb_monitor_returns[where late = "\<lambda>n. n = 9" and m = 9, OF h, of ?w] by blast
  have "\<not> 2 < k" using k(2) x[of 2] by auto
  then have "k = 0 \<or> k = 1 \<or> k = 2" by linarith
  then have "k = 2" using k(3) by (auto simp: x WB_ERR_MASK_def)
  then show ?thesis using k(4) by (simp add: x numeral_3_eq_3)
qed

section \<open>The status text\<close>

text \<open>C15: The status text of a C2H engine always fits the buffer of 256 bytes, for the
  longest name the driver gives.\<close>

theorem c2h_status_text_fits:
  assumes "e_dir engine \<noteq> DMA_TO_DEVICE" "length (e_name engine) \<le> 57"
  shows "\<exists>s. engine_status_dump engine = Some s \<and> length s < 256"
proof -
  have "length (engine_status_text engine) \<le> 255"
    using status_text_c2h_le[OF assms(1)] assms(2) by simp
  then show ?thesis unfolding status_dump_c2h_ok[OF assms] by simp
qed

theorem c2h_status_text_fits_witness:
  "\<exists>s. engine_status_dump (sample_c2h\<lparr>e_status := - 1\<rparr>) = Some s"
  using c2h_status_text_fits[of "sample_c2h\<lparr>e_status := - 1\<rparr>"] by (auto simp: sample_c2h_def)

text \<open>C16: The status text of an H2C engine with every status bit set (as when the
  device no longer answers) is longer than its buffer on the stack: 252 bytes and the name of
  the engine, so reading the status with a dump overruns it.\<close>

theorem h2c_status_text_overflows:
  assumes "e_dir engine = DMA_TO_DEVICE" "4 \<le> length (e_name engine)"
    and "\<And>l a. hw w l a = - 1"
  shows "engine_status_read engine clear True w = None"
proof -
  have "engine_status_dump (engine\<lparr>e_status := - 1\<rparr>) = None"
    by (rule status_dump_h2c_overflow) (simp_all add: assms)
  moreover have "hw (engine_reg_dump engine w) = hw w"
    by (simp add: engine_reg_dump_def Let_def case_prod_beta)
  then have "fst (read_register a (engine_reg_dump engine w)) = - 1" for a
    by (simp add: fst_read assms(3))
  ultimately show ?thesis
    by (simp add: engine_status_read_def Let_def case_prod_beta)
qed

theorem h2c_status_text_overflows_witness:
  "engine_status_read sample_engine False True (sample_world\<lparr>hw := \<lambda>_ _. - 1\<rparr>) = None"
  by (rule h2c_status_text_overflows) (simp_all add: sample_engine_def)

section \<open>Data layout\<close>

text \<open>A descriptor carries both 64-bit addresses through its 32-bit halves without
  loss, the host's on the source side for a transfer to the device and on the destination side
  otherwise, with the length, and keeps its link and its control word.\<close>

lemma descriptor_roundtrip:
  "desc_src (xdma_desc_set rc ep len dir d) = (if dir = DMA_TO_DEVICE then rc else ep) \<and>
   desc_dst (xdma_desc_set rc ep len dir d) = (if dir = DMA_TO_DEVICE then ep else rc) \<and>
   bytes (xdma_desc_set rc ep len dir d) = len \<and>
   desc_next (xdma_desc_set rc ep len dir d) = desc_next d \<and>
   control (xdma_desc_set rc ep len dir d) = control d"
  by (simp add: desc_set_addresses)

lemma reg_offset_injective:
  "(\<And>f. f \<in> fst ` set fs) \<Longrightarrow> list_all (\<lambda>(g, n). 0 < n) fs \<Longrightarrow> inj (reg_offset fs)"
  by (rule injI, rule reg_offset_inj[of _ fs]) (auto simp: list_all_iff)

text \<open>The registers of each register file have different offsets, and those of an engine and of
  the interrupts have the sizes of the C structures.\<close>

lemma register_layout:
  "inj (reg_offset engine_regs) \<and> inj (reg_offset engine_sgdma_regs) \<and> inj (reg_offset interrupt_regs) \<and>
   inj (reg_offset config_regs) \<and> inj (reg_offset sgdma_common_regs) \<and>
   reg_size engine_regs = 0xDC \<and> reg_size engine_sgdma_regs = 0x90 \<and> reg_size interrupt_regs = 0xC0"
proof -
  have "inj (reg_offset engine_regs)"
    by (rule reg_offset_injective, case_tac f) (simp_all add: engine_regs_def)
  moreover have "inj (reg_offset engine_sgdma_regs)"
    by (rule reg_offset_injective, case_tac f) (simp_all add: engine_sgdma_regs_def)
  moreover have "inj (reg_offset interrupt_regs)"
    by (rule reg_offset_injective, case_tac f) (simp_all add: interrupt_regs_def)
  moreover have "inj (reg_offset config_regs)"
    by (rule reg_offset_injective, case_tac f) (simp_all add: config_regs_def)
  moreover have "inj (reg_offset sgdma_common_regs)"
    by (rule reg_offset_injective, case_tac f) (simp_all add: sgdma_common_regs_def)
  ultimately show ?thesis
    by (simp add: engine_regs_def engine_sgdma_regs_def interrupt_regs_def)
qed

text \<open>The test-and-set of a device flag releases the lock a second time when the flag
  is already set, and the kernel stops; it works when the flag is clear.\<close>

lemma flag_test_and_set_unlocks_twice:
  "xdma_device_flag_test_n_set sample_dev XDEV_FLAG_OFFLINE =
     Some (False, sample_dev\<lparr>d_flags := 1\<rparr>) \<and>
   xdma_device_flag_test_n_set (sample_dev\<lparr>d_flags := 1\<rparr>) XDEV_FLAG_OFFLINE = None"
  by (simp add: flag_test_n_set_clear_bit flag_test_n_set_set_bit sample_dev_def XDEV_FLAG_OFFLINE_def)

section \<open>Requests\<close>

text \<open>C8: A request describes the mapped table completely: its descriptors are the pieces
  of the entries in order, none empty and none longer than the maximum of a descriptor, and
  their lengths add up to those of the entries.\<close>

theorem init_request_partitions_table:
  assumes "desc_blen_max mp \<noteq> 0" "nents sgt \<le> length (sgl sgt)"
    and "sg = take (nents sgt) (sgl sgt)"
    and "no_wrap (desc_blen_max mp) sg" "extra_spec (desc_blen_max mp) sg < 2 ^ 32"
  shows "\<exists>req. xdma_init_request mp True sgt ep = Some (Some req) \<and>
    r_sw_desc_cnt req \<le> length (r_sdesc req) \<and>
    take (r_sw_desc_cnt req) (r_sdesc req) = sg_pieces (desc_blen_max mp) sg \<and>
    (\<forall>s \<in> set (take (r_sw_desc_cnt req) (r_sdesc req)). 0 < sd_len s \<and> sd_len s \<le> desc_blen_max mp) \<and>
    sd_total (take (r_sw_desc_cnt req) (r_sdesc req)) = sum_list (map (unat \<circ> snd) sg) \<and>
    r_total_len req = sum_list (map snd sg) \<and> r_sw_desc_idx req = 0 \<and> r_ep_addr req = ep"
  unfolding xdma_init_request_eq[OF assms refl]
  using sg_pieces_len[of _ "desc_blen_max mp" sg] sg_pieces_total[OF assms(1), of sg]
    sg_pieces_room[OF assms(1), of sg] by simp

theorem init_request_partitions_table_witness:
  "\<exists>req. xdma_init_request default_modparams True sample_sgt 0x1000 = Some (Some req) \<and>
     sd_total (take (r_sw_desc_cnt req) (r_sdesc req)) = 4096"
proof -
  have "sum_list (map (unat \<circ> snd) [(0x2000 :: u64, 4096 :: u32)]) = 4096" by simp
  then show ?thesis
    using init_request_partitions_table[OF sample_table(1-5), where ep = "0x1000"] by auto
qed

text \<open>The room for the descriptors of a long entry is computed in 32 bits: for an
  entry of \<^verbatim>\<open>0xF0000010\<close> bytes the sum wraps, one descriptor is reserved for the sixteen
  that the entry needs, and the request is filled past its array.\<close>

lemma init_request_room_wraps:
  "extra_descs XDMA_DESC_BLEN_MAX [(a, 0xF0000010)] 0 = Some 0 \<and>
   length (pieces XDMA_DESC_BLEN_MAX a 0xF0000010) = 16 \<and>
   xdma_init_request default_modparams True \<lparr>sgl = [(a, 0xF0000010)], nents = 1\<rparr> ep = None"
proof -
  have b: "XDMA_DESC_BLEN_MAX = 0xFFFFFFF" using sample_blen by (simp add: default_modparams_def)
  have l: "length (pieces 0xFFFFFFF a 0xF0000010) = 16"
    by (subst pieces_length) simp_all
  have x: "extra_descs 0xFFFFFFF [(a, 0xF0000010)] 0 = Some 0" by simp
  have f: "fill_entries 0xFFFFFFF [(a, 0xF0000010)] 0 0 ds = None" if "length ds = 1" for ds
    by (subst fill_entries_eq) (simp_all add: l that Let_def)
  have w: "sg_walk \<lparr>sgl = [(a, 0xF0000010)], nents = 1\<rparr> = Some [(a, 0xF0000010)]"
    by (simp add: sg_walk_def)
  have "xdma_init_request default_modparams True \<lparr>sgl = [(a, 0xF0000010)], nents = 1\<rparr> ep = None"
    unfolding xdma_init_request_def w bind.bind_lunit sample_blen x xdma_request_alloc_def
    by (simp add: f Let_def del: fill_entries.simps)
  then show ?thesis
    using x l unfolding b by blast
qed

end
