(* ===== verification/CyclicProps.thy ===== *)
theory CyclicProps
  imports EngineSM Samples
begin

text \<open>
  Properties of cyclic transfers.  Taking results off the ring is refined to taking a packet
  off a list, the copy to the reader is the ring of pages read in order, the descriptors
  of the ring are closed, and every page is given back.  A read returns in bounds whatever
  happens while it sleeps or polls; in polled mode there are rings on which it never returns.
\<close>

unbundle bit_operations_syntax

section \<open>The ring of results as a list\<close>

definition ring_list :: "xdma_result list \<Rightarrow> int \<Rightarrow> nat \<Rightarrow> xdma_result list" where
  "ring_list rs head n = map (\<lambda>i. rs ! ring_idx head i) [0..<n]"

definition bad_result :: "xdma_result \<Rightarrow> bool" where
  "bad_result r \<longleftrightarrow> drop_bit 16 (res_status r) \<noteq> C2H_WB \<or> unat (res_length r) > PAGE_SIZE \<or> res_length r = 0"

text \<open>A packet off a list: fault, end of packet, bytes, results looked at.\<close>

fun take_packet :: "xdma_result list \<Rightarrow> bool \<times> bool \<times> nat \<times> nat" where
  "take_packet [] = (False, False, 0, 0)"
| "take_packet (r # rs) =
     (if bad_result r then (True, False, 0, 1)
      else if res_status r AND RX_STATUS_EOP \<noteq> 0 then (False, True, unat (res_length r), 1)
      else (let (f, e, l, c) = take_packet rs in (f, e, unat (res_length r) + l, c + 1)))"

definition stops :: "xdma_result \<Rightarrow> bool" where
  "stops r \<longleftrightarrow> bad_result r \<or> res_status r AND RX_STATUS_EOP \<noteq> 0"

lemma take_packet_stop: "\<exists>r \<in> set xs. stops r \<Longrightarrow> take_packet (xs @ ys) = take_packet xs"
proof (induction xs)
  case (Cons a xs)
  show ?case
  proof (cases "stops a")
    case False
    then have "take_packet (xs @ ys) = take_packet xs" using Cons by simp
    then show ?thesis by simp
  qed (auto simp: stops_def)
qed simp

lemma take_packet_length: "take_packet rs = (f, e, l, c) \<Longrightarrow> c \<le> length rs \<and> (f \<longrightarrow> 0 < c)"
  by (induction rs arbitrary: l c) (auto split: if_splits prod.splits)

lemma bad_zero [simp]: "bad_result zero_result"
  by (simp add: bad_result_def zero_result_def)

text \<open>The results a reader may look at: those between head and tail, or all once around.\<close>

definition visible :: "bool \<Rightarrow> xdma_result list \<Rightarrow> int \<Rightarrow> int \<Rightarrow> xdma_result list" where
  "visible overrun rs head tail =
     (if overrun then ring_list rs head 256 @ [zero_result]
      else ring_list rs head (nat ((tail - head) mod 256)))"

lemma ring_list_Suc: "ring_list rs head (Suc n) = rs ! ring_idx head 0 # ring_list rs ((head + 1) mod 256) n"
proof -
  have "[0..<Suc n] = 0 # map Suc [0..<n]" by (simp only: upt_conv_Cons map_Suc_upt)
  then have "ring_list rs head (Suc n) = map (\<lambda>i. rs ! ring_idx head i) (0 # map Suc [0..<n])"
    by (simp only: ring_list_def)
  then show ?thesis by (simp add: ring_list_def ring_idx_Suc comp_def)
qed

lemma small_multiple: "m dvd x \<Longrightarrow> \<bar>x\<bar> < m \<Longrightarrow> x = (0 :: int)"
  using dvd_imp_le_int[of x m] by fastforce

lemma ring_idx_inj:
  assumes "i < 256" "j < 256" "ring_idx h i = ring_idx h j"
  shows "i = j"
proof -
  have "(h + int i) mod 256 = (h + int j) mod 256"
    using assms(3) by (simp add: ring_idx_def eq_nat_nat_iff)
  then have "256 dvd (int i - int j)" by (simp add: mod_eq_dvd_iff)
  moreover have "\<bar>int i - int j\<bar> < 256" using assms(1,2) by linarith
  ultimately have "int i - int j = 0" by (rule small_multiple)
  then show ?thesis by simp
qed

lemma ring_idx_last: "ring_idx ((head + 1) mod 256) 255 = ring_idx head 0"
  by (simp add: ring_idx_def mod_add_left_eq)

lemma ring_list_upd:
  assumes "length rs = 256" "n \<le> 255"
  shows "ring_list (rs[ring_idx head 0 := x]) ((head + 1) mod 256) n = ring_list rs ((head + 1) mod 256) n"
proof -
  have "ring_idx ((head + 1) mod 256) i \<noteq> ring_idx head 0" if "i < n" for i
    using that assms(2) ring_idx_inj[of "Suc i" 0 head] unfolding ring_idx_Suc by fastforce
  then have "rs[ring_idx head 0 := x] ! ring_idx ((head + 1) mod 256) i = rs ! ring_idx ((head + 1) mod 256) i" if "i < n" for i
    using that by (metis nth_list_update_neq)
  then show ?thesis by (simp add: ring_list_def)
qed

lemma ring_list_snoc: "ring_list rs head (Suc n) = ring_list rs head n @ [rs ! ring_idx head n]"
  by (simp add: ring_list_def)

lemma ring_gap:
  assumes "head \<noteq> tail" "0 \<le> head" "head < 256" "0 \<le> tail" "tail < 256"
  shows "(tail - head) mod 256 \<noteq> (0 :: int)"
proof
  assume "(tail - head) mod 256 = 0"
  then have "256 dvd (tail - head)" by (simp add: mod_eq_0_iff_dvd)
  moreover have "\<bar>tail - head\<bar> < 256" using assms by linarith
  ultimately have "tail - head = 0" by (rule small_multiple)
  then show False using assms(1) by simp
qed

lemma pred_mod: "x mod 256 \<noteq> 0 \<Longrightarrow> (x - 1) mod 256 = x mod 256 - (1 :: int)"
proof -
  assume nz: "x mod 256 \<noteq> 0"
  have "0 \<le> x mod 256" "x mod 256 < 256" by simp_all
  then have "(x mod 256 - 1) mod 256 = x mod 256 - 1" using nz by (intro mod_pos_pos_trivial) linarith+
  then show ?thesis by (simp only: mod_diff_left_eq)
qed

lemma ring_next:
  assumes "head \<noteq> tail" "0 \<le> head" "head < 256" "0 \<le> tail" "tail < 256"
  shows "\<exists>n. nat ((tail - head) mod 256) = Suc n \<and> nat ((tail - (head + 1) mod 256) mod 256) = n \<and> n \<le> 255"
proof -
  define y where "y = (tail - head) mod 256"
  have "(tail - (head + 1) mod 256) mod 256 = (tail - head - 1) mod 256"
    by (simp only: mod_diff_right_eq diff_diff_eq)
  also have "\<dots> = y - 1" unfolding y_def by (rule pred_mod[OF ring_gap[OF assms]])
  finally have e: "(tail - (head + 1) mod 256) mod 256 = y - 1" .
  have "0 \<le> y" "y < 256" unfolding y_def by simp_all
  moreover have "y \<noteq> 0" unfolding y_def by (rule ring_gap[OF assms])
  ultimately have "nat y = Suc (nat (y - 1))" "nat (y - 1) \<le> 255" by linarith+
  then show ?thesis unfolding e y_def[symmetric] by (intro exI[of _ "nat (y - 1)"] conjI refl)
qed

text \<open>What is visible after the first result has been cleared.\<close>

lemma visible_step:
  assumes "length rs = 256" "head \<noteq> tail \<or> overrun" "0 \<le> head" "head < 256" "0 \<le> tail" "tail < 256"
    and "\<not> stops (rs ! ring_idx head 0)"
  shows "\<exists>ys. visible overrun rs head tail = rs ! ring_idx head 0 # ys \<and>
    take_packet ys = take_packet (visible overrun (rs[ring_idx head 0 := zero_result]) ((head + 1) mod 256) tail)"
proof (cases overrun)
  case True
  let ?rs = "rs[ring_idx head 0 := zero_result]" and ?h = "(head + 1) mod 256"
  have "?rs ! ring_idx ?h 255 = zero_result" using assms(1) by (simp add: ring_idx_last)
  then have e: "ring_list ?rs ?h 256 = ring_list rs ?h 255 @ [zero_result]"
    using ring_list_snoc[of ?rs ?h 255] ring_list_upd[OF assms(1), of 255 head zero_result] by simp
  have s: "\<exists>r \<in> set (ring_list ?rs ?h 256). stops r" unfolding e by (simp add: stops_def)
  have t: "take_packet (ring_list rs ?h 255 @ [zero_result]) = take_packet (visible True ?rs ?h tail)"
    using take_packet_stop[OF s, of "[zero_result]"] unfolding visible_def if_True e by (rule sym)
  have "visible True rs head tail = rs ! ring_idx head 0 # ring_list rs ?h 255 @ [zero_result]"
    using ring_list_Suc[of rs head 255] by (simp add: visible_def)
  with t show ?thesis unfolding eqTrueI[OF True] by blast
next
  case False
  let ?h = "(head + 1) mod 256"
  have ne: "head \<noteq> tail" using assms(2) False by simp
  obtain n where m: "nat ((tail - head) mod 256) = Suc n" "nat ((tail - ?h) mod 256) = n" "n \<le> 255"
    using ring_next[OF ne assms(3-6)] by blast
  show ?thesis
    using False ring_list_Suc[of rs head n] ring_list_upd[OF assms(1) m(3), of head zero_result]
    by (simp only: visible_def if_False m) simp
qed

lemma complete_stop:
  assumes "arr_get head rs = Some r" "head \<noteq> tail \<or> overrun" "stops r"
  shows "complete_loop tail overrun p n rs head =
     Some (bad_result r, \<not> bad_result r, if bad_result r then p else p + unat (res_length r),
       if bad_result r then n else n + 1, rs[nat head := zero_result], (head + 1) mod 256)"
proof (cases "bad_result r")
  case True
  then show ?thesis
    by (subst complete_loop.simps)
      (simp only: assms(1,2) if_True option.case bad_result_def[symmetric] CYCLIC_RX_PAGES_MAX_def simp_thms)
next
  case False
  then have "res_status r AND RX_STATUS_EOP \<noteq> 0" using assms(3) by (simp add: stops_def)
  then show ?thesis using False
    by (subst complete_loop.simps)
      (simp only: assms(1,2) if_True if_False option.case bad_result_def[symmetric] CYCLIC_RX_PAGES_MAX_def simp_thms)
qed

lemma complete_go:
  assumes "arr_get head rs = Some r" "head \<noteq> tail \<or> overrun" "\<not> stops r"
  shows "complete_loop tail overrun p n rs head =
     complete_loop tail overrun (p + unat (res_length r)) (n + 1) (rs[nat head := zero_result]) ((head + 1) mod 256)"
proof -
  have "\<not> bad_result r" "res_status r AND RX_STATUS_EOP = 0" using assms(3) by (simp_all add: stops_def)
  then show ?thesis
    by (subst complete_loop.simps)
      (simp only: assms(1,2) if_True if_False option.case bad_result_def[symmetric] CYCLIC_RX_PAGES_MAX_def simp_thms)
qed

lemma visible_nonempty:
  assumes "head \<noteq> tail \<or> overrun" "0 \<le> head" "head < 256" "0 \<le> tail" "tail < 256"
  shows "\<exists>zs. visible overrun rs head tail = rs ! ring_idx head 0 # zs"
proof (cases overrun)
  case True
  then show ?thesis using ring_list_Suc[of rs head 255] by (simp add: visible_def)
next
  case False
  have ne: "head \<noteq> tail" using assms(1) False by simp
  note ring_gap[OF ne assms(2-5)]
  moreover have "0 \<le> (tail - head) mod 256" by simp
  ultimately have "0 < nat ((tail - head) mod 256)" by linarith
  then obtain k where "nat ((tail - head) mod 256) = Suc k" using gr0_implies_Suc by blast
  then show ?thesis using False ring_list_Suc[of rs head k] by (simp add: visible_def)
qed

lemma complete_loop_spec:
  assumes "length rs = 256" "0 \<le> head" "head < 256" "0 \<le> tail" "tail < 256"
    and "take_packet (visible overrun rs head tail) = (f, e, l, c)"
  shows "\<exists>rs'. complete_loop tail overrun p n rs head =
      Some (f, e, p + l, n + (if f then c - 1 else c), rs', (head + int c) mod 256) \<and> length rs' = 256 \<and>
    (\<forall>i < 256. rs' ! ring_idx head i = (if i < c then zero_result else rs ! ring_idx head i))"
  using assms
proof (induction "full_results rs" arbitrary: rs head p n l c rule: less_induct)
  case less
  have g: "arr_get head rs = Some (rs ! ring_idx head 0)"
    using less.prems(1-3) by (simp add: arr_get_def ring_idx_def)
  have nh: "nat head = ring_idx head 0" using less.prems(2,3) by (simp add: ring_idx_def)
  let ?r = "rs ! ring_idx head 0" and ?rs = "rs[ring_idx head 0 := zero_result]" and ?h = "(head + 1) mod 256"
  show ?case
  proof (cases "head \<noteq> tail \<or> overrun")
    case False
    then have "visible overrun rs head tail = []" by (simp add: visible_def ring_list_def)
    then show ?thesis
      using less.prems False by (subst complete_loop.simps) auto
  next
    case go: True
    have upd: "?rs ! ring_idx head i = (if i = 0 then zero_result else rs ! ring_idx head i)" if "i < 256" for i
      using that less.prems(1) ring_idx_inj[of i 0 head] by (auto simp: nth_list_update)
    obtain zs where v: "visible overrun rs head tail = ?r # zs"
      using visible_nonempty[OF go less.prems(2-5)] by blast
    show ?thesis
    proof (cases "stops ?r")
      case True
      then have "f = bad_result ?r \<and> e = (\<not> bad_result ?r) \<and> l = (if bad_result ?r then 0 else unat (res_length ?r)) \<and> c = 1"
        using less.prems(6) unfolding v by (auto simp: stops_def split: if_splits)
      then have "complete_loop tail overrun p n rs head = Some (f, e, p + l, n + (if f then c - 1 else c), ?rs, ?h) \<and> c = 1"
        unfolding complete_stop[OF g go True] nh by simp
      then show ?thesis using upd less.prems(1) by auto
    next
      case False
      obtain ys where ys: "visible overrun rs head tail = ?r # ys" "take_packet ys = take_packet (visible overrun ?rs ?h tail)"
        using visible_step[OF less.prems(1) go less.prems(2-5) False] by blast
      obtain f' e' l' c' where t: "take_packet (visible overrun ?rs ?h tail) = (f', e', l', c')" by (metis prod_cases4)
      have r: "f = f'" "e = e'" "l = unat (res_length ?r) + l'" "c = Suc c'"
        using less.prems(6) False t ys by (auto simp: stops_def)
      have nb: "\<not> bad_result ?r" "res_status ?r AND RX_STATUS_EOP = 0" using False by (auto simp: stops_def)
      have step: "complete_loop tail overrun p n rs head =
          complete_loop tail overrun (p + unat (res_length ?r)) (n + 1) ?rs ?h"
        using complete_go[OF g go False, of p n] unfolding nh .
      have "full_results ?rs < full_results rs"
        using full_results_clear[OF g] nb(1) unfolding nh[symmetric] by (simp add: bad_result_def)
      from less.hyps[OF this, of ?h l' c' "p + unat (res_length ?r)" "n + 1"] t r less.prems
      obtain rs' where rs': "complete_loop tail overrun (p + unat (res_length ?r)) (n + 1) ?rs ?h =
          Some (f, e, p + unat (res_length ?r) + l', n + 1 + (if f then c' - 1 else c'), rs', (?h + int c') mod 256)"
        "length rs' = 256"
        "\<forall>i < 256. rs' ! ring_idx ?h i = (if i < c' then zero_result else ?rs ! ring_idx ?h i)"
        by auto
      have pos: "f \<longrightarrow> 0 < c'" using take_packet_length[OF t] r(1) by simp
      have h: "(?h + int c') mod 256 = (head + int c) mod 256" by (simp add: r(4) mod_add_left_eq add.assoc)
      have "rs' ! ring_idx head i = (if i < c then zero_result else rs ! ring_idx head i)" if i: "i < 256" for i
      proof (cases i)
        case 0
        have "rs' ! ring_idx head 0 = (if 255 < c' then zero_result else ?rs ! ring_idx head 0)"
          using rs'(3)[rule_format, of 255] unfolding ring_idx_last by simp
        then show ?thesis using 0 r(4) upd[of 0] by simp
      next
        case (Suc j)
        have "rs' ! ring_idx ?h j = (if j < c' then zero_result else ?rs ! ring_idx ?h j)" using rs'(3) i Suc by simp
        then show ?thesis using upd[OF i] unfolding ring_idx_Suc Suc r(4) by simp
      qed
      then show ?thesis using rs'(1,2) pos unfolding step h r(3,4) by (auto simp: add.assoc)
    qed
  qed
qed

section \<open>The copy to the reader\<close>

definition copied :: "nat \<Rightarrow> nat \<Rightarrow> nat \<Rightarrow> (nat \<Rightarrow> nat \<Rightarrow> u8) \<Rightarrow> (nat \<Rightarrow> u8) \<Rightarrow> nat \<Rightarrow> u8" where
  "copied p off n pages ubuf = (\<lambda>a. if off \<le> a \<and> a < off + n
     then pages ((p + (a - off) div 4096) mod 256) ((a - off) mod 4096) else ubuf a)"

lemma copied_page: "n \<le> 4096 \<Longrightarrow> p < 256 \<Longrightarrow> put_user off n (pages p) ubuf = copied p off n pages ubuf"
  by (rule ext) (auto simp: put_user_def copied_def)

lemma copied_next:
  assumes "p < 256"
  shows "copied (Suc p mod 256) (off + 4096) n pages (put_user off 4096 (pages p) ubuf) = copied p off (4096 + n) pages ubuf"
proof
  fix a
  consider "a < off \<or> off + 4096 + n \<le> a" | "off \<le> a" "a < off + 4096" | k where "a = off + 4096 + k" "k < n"
    by (metis add_less_cancel_left le_Suc_ex linorder_not_le)
  then show "copied (Suc p mod 256) (off + 4096) n pages (put_user off 4096 (pages p) ubuf) a = copied p off (4096 + n) pages ubuf a"
  proof cases
    case 1
    then show ?thesis by (auto simp: copied_def put_user_def)
  next
    case 2
    then show ?thesis using assms by (auto simp: copied_def put_user_def)
  next
    case 3
    have "(a - off) div 4096 = Suc (k div 4096)" "(a - off) mod 4096 = k mod 4096" "a - (off + 4096) = k" "a - off = 4096 + k"
      using 3 by simp_all
    then show ?thesis using 3 by (simp add: copied_def mod_simps)
  qed
qed

lemma copied_nothing [simp]: "copied p off 0 pages ubuf = ubuf"
  by (rule ext) (auto simp: copied_def)

lemma copy_word:
  assumes "count < 2 ^ 32" "unat idx \<le> count"
  shows "unat (min (min remain (of_nat PAGE_SIZE)) (of_nat count - idx) :: u32) = min (min (unat remain) 4096) (count - unat idx)"
proof -
  have "idx \<le> (of_nat count :: u32)" using assms by (simp add: word_le_nat_alt unat_of_nat_u32)
  then have d: "unat (of_nat count - idx :: u32) = count - unat idx" using assms(1) by (simp add: unat_sub unat_of_nat_u32)
  have m: "unat (min a b) = min (unat a) (unat b)" for a b :: u32 by (simp add: min_def word_le_nat_alt)
  show ?thesis unfolding m d by (simp add: PAGE_SIZE_def)
qed

lemma sg_step:
  assumes "p < 256"
  shows "(if int p + 1 \<ge> CYCLIC_RX_PAGES_MAX then f 0 (Some 0) else f (int p + 1) (sg_next 256 p)) =
    f (int (Suc p mod 256)) (Some (Suc p mod 256))"
  using assms by (cases "p = 255") (auto simp: CYCLIC_RX_PAGES_MAX_def sg_next_def add.commute)

text \<open>One round of the copy, with its arithmetic in natural numbers.\<close>

lemma copy_round:
  assumes "count < 2 ^ 32" "unat idx \<le> count" "p < 256" "remain \<noteq> 0"
    and "c = min (min remain (of_nat PAGE_SIZE)) (of_nat count - idx)"
  shows "copy_loop pages ok 256 count remain (int p) (Some p) idx ubuf =
    (if \<not> ok idx c then Some (False, idx, ubuf)
     else if unat idx + unat c = count then Some (True, idx + c, put_user (unat idx) (unat c) (pages p) ubuf)
     else copy_loop pages ok 256 count (remain - c) (int (Suc p mod 256)) (Some (Suc p mod 256)) (idx + c)
            (put_user (unat idx) (unat c) (pages p) ubuf))"
    "unat c = min (min (unat remain) 4096) (count - unat idx)" "unat (idx + c) = unat idx + unat c"
    "unat (remain - c) = unat remain - unat c"
proof -
  show c: "unat c = min (min (unat remain) 4096) (count - unat idx)" unfolding assms(5) by (rule copy_word[OF assms(1,2)])
  show i: "unat (idx + c) = unat idx + unat c"
    using c assms(1,2) by (intro unat_add_lem[THEN iffD1]) simp
  have "c \<le> remain" using c by (simp add: word_le_nat_alt)
  then show "unat (remain - c) = unat remain - unat c" by (rule unat_sub)
  show "copy_loop pages ok 256 count remain (int p) (Some p) idx ubuf =
    (if \<not> ok idx c then Some (False, idx, ubuf)
     else if unat idx + unat c = count then Some (True, idx + c, put_user (unat idx) (unat c) (pages p) ubuf)
     else copy_loop pages ok 256 count (remain - c) (int (Suc p mod 256)) (Some (Suc p mod 256)) (idx + c)
            (put_user (unat idx) (unat c) (pages p) ubuf))"
    using assms(4) sg_step[OF assms(3), of "\<lambda>h s. copy_loop pages ok 256 count (remain - c) h s (idx + c)
            (put_user (unat idx) (unat c) (pages p) ubuf)"]
    by (subst copy_loop.simps) (simp add: assms(5)[symmetric] Let_def i)
qed

lemma min_room:
  fixes c r i n :: nat
  assumes "c = min (min r 4096) (n - i)" "i \<le> n" "0 < r"
  shows "i + c \<le> n" "i + c = n \<Longrightarrow> min r (n - i) = c" "c \<le> 4096" "c \<le> r" "i + c \<noteq> n \<Longrightarrow> 0 < c"
    "i + c \<noteq> n \<Longrightarrow> c = min r 4096" "min (r - c) (n - (i + c)) + c = min r (n - i)"
  using assms by linarith+

lemma copy_loop_spec:
  assumes "count < 2 ^ 32" "\<And>i n. ok i n"
  shows "unat idx \<le> count \<Longrightarrow> p < 256 \<Longrightarrow>
    copy_loop pages ok 256 count remain (int p) (Some p) idx ubuf =
      Some (True, idx + of_nat (min (unat remain) (count - unat idx)),
        copied p (unat idx) (min (unat remain) (count - unat idx)) pages ubuf)"
proof (induction "unat remain" arbitrary: remain p idx ubuf rule: less_induct)
  case less
  show ?case
  proof (cases "remain = 0")
    case True
    then show ?thesis by (subst copy_loop.simps) simp
  next
    case False
    define c where "c = min (min remain (of_nat PAGE_SIZE)) (of_nat count - idx)"
    note r = copy_round[OF assms(1) less.prems(1,2) False c_def]
    have pos: "0 < unat remain" using False by (simp add: unat_gt_0)
    show ?thesis
    proof (cases "unat idx + unat c = count")
      case True
      then have m: "min (unat remain) (count - unat idx) = unat c" "unat c \<le> 4096"
        using min_room(2,3)[OF r(2) less.prems(1) pos] by simp_all
      show ?thesis unfolding r(1) using assms(2) True m less.prems(2) by (simp add: copied_page)
    next
      case room: False
      have lt: "unat (remain - c) < unat remain" "unat (idx + c) \<le> count" 
        using min_room(1,4,5)[OF r(2) less.prems(1) pos] room pos unfolding r(3,4) by simp_all
      note IH = less.hyps[OF lt(1) lt(2), of "Suc p mod 256" "put_user (unat idx) (unat c) (pages p) ubuf"]
      have cc: "unat c = min (unat remain) 4096" by (rule min_room(6)[OF r(2) less.prems(1) pos room])
      have m: "min (unat (remain - c)) (count - unat (idx + c)) + unat c = min (unat remain) (count - unat idx)"
        unfolding r(3,4) by (rule min_room(7)[OF r(2) less.prems(1) pos])
      have "copied (Suc p mod 256) (unat idx + unat c) (min (unat (remain - c)) (count - unat (idx + c))) pages
          (put_user (unat idx) (unat c) (pages p) ubuf) =
        copied p (unat idx) (min (unat remain) (count - unat idx)) pages ubuf"
      proof (cases "unat remain \<le> 4096")
        case True
        then have "unat (remain - c) = 0" using cc r(4) by simp
        then show ?thesis using m copied_page[of "unat c" p] True cc less.prems(2) by simp
      next
        case False
        then have "unat c = 4096" using cc by simp
        then show ?thesis using copied_next[OF less.prems(2)] m by (simp add: add.commute)
      qed
      moreover have "idx + c + of_nat (min (unat (remain - c)) (count - unat (idx + c))) =
          idx + of_nat (min (unat remain) (count - unat idx))"
        unfolding m[symmetric] by (simp add: add.assoc)
      ultimately show ?thesis unfolding r(1) using assms(2) room IH r(3) by simp
    qed
  qed
qed

text \<open>Whatever \<^verbatim>\<open>copy_to_user\<close> answers, the copy ends and stays inside the buffer.\<close>

lemma copy_loop_returns:
  assumes "count < 2 ^ 32"
  shows "unat idx \<le> count \<Longrightarrow> p < 256 \<Longrightarrow>
    \<exists>f idx' ubuf'. copy_loop pages ok 256 count remain (int p) (Some p) idx ubuf = Some (f, idx', ubuf') \<and>
      unat idx \<le> unat idx' \<and> unat idx' \<le> count \<and> (\<forall>a. a < unat idx \<or> unat idx' \<le> a \<longrightarrow> ubuf' a = ubuf a)"
proof (induction "unat remain" arbitrary: remain p idx ubuf rule: less_induct)
  case less
  show ?case
  proof (cases "remain = 0")
    case True
    then show ?thesis using less.prems by (subst copy_loop.simps) auto
  next
    case False
    define c where "c = min (min remain (of_nat PAGE_SIZE)) (of_nat count - idx)"
    note r = copy_round[OF assms(1) less.prems(1,2) False c_def]
    have pos: "0 < unat remain" using False by (simp add: unat_gt_0)
    let ?u = "put_user (unat idx) (unat c) (pages p) ubuf"
    have out: "?u a = ubuf a" if "a < unat idx \<or> unat idx + unat c \<le> a" for a
      using that by (auto simp: put_user_def)
    show ?thesis
    proof (cases "ok idx c \<and> unat idx + unat c \<noteq> count")
      case False
      then show ?thesis using r(3) out less.prems(1) by (auto simp: r(1))
    next
      case True
      have lt: "unat (remain - c) < unat remain" "unat (idx + c) \<le> count" 
        using min_room(1,4,5)[OF r(2) less.prems(1) pos] True pos unfolding r(3,4) by simp_all
      obtain f idx' ubuf' where "copy_loop pages ok 256 count (remain - c) (int (Suc p mod 256)) (Some (Suc p mod 256)) (idx + c) ?u =
          Some (f, idx', ubuf')" "unat (idx + c) \<le> unat idx'" "unat idx' \<le> count"
        "\<forall>a. a < unat (idx + c) \<or> unat idx' \<le> a \<longrightarrow> ubuf' a = ?u a"
        using less.hyps[OF lt(1) lt(2), of "Suc p mod 256" ?u] by auto
      then show ?thesis using True r(3) out by (auto simp: r(1))
    qed
  qed
qed

section \<open>One read\<close>

text \<open>A ring that has been set up.\<close>

definition cyc_ok :: "xdma_engine \<Rightarrow> bool" where
  "cyc_ok e \<longleftrightarrow> (\<exists>rs. e_cyclic_result e = Some rs \<and> length rs = 256) \<and> length (sgl (e_cyclic_sgt e)) = 256 \<and>
     0 \<le> e_rx_head e \<and> e_rx_head e < 256 \<and> 0 \<le> e_rx_tail e \<and> e_rx_tail e < 256"

lemma sglist_index_head: "cyc_ok e \<Longrightarrow> sglist_index (e_cyclic_sgt e) (e_rx_head e) = Some (nat (e_rx_head e))"
proof -
  assume "cyc_ok e"
  then have h: "0 \<le> e_rx_head e" "e_rx_head e < 256" "length (sgl (e_cyclic_sgt e)) = 256" by (simp_all add: cyc_ok_def)
  then have "unat (word_of_int (e_rx_head e) :: u32) = nat (e_rx_head e)"
    by (simp add: unat_eq_nat_uint uint_word_of_int)
  then show ?thesis using h by (simp add: sglist_index_def)
qed

lemma take_packet_bytes: "take_packet rs = (f, e, l, c) \<Longrightarrow> l \<le> 4096 * c"
proof (induction rs arbitrary: l c)
  case (Cons r rs)
  show ?case
  proof (cases "stops r")
    case True
    then show ?thesis using Cons.prems by (auto simp: stops_def bad_result_def PAGE_SIZE_def split: if_splits)
  next
    case False
    obtain l' c' where t: "take_packet rs = (f, e, l', c')" "l = unat (res_length r) + l'" "c = Suc c'"
      using Cons.prems False by (auto simp: stops_def split: prod.splits)
    have "unat (res_length r) \<le> 4096" using False by (simp add: stops_def bad_result_def PAGE_SIZE_def)
    then show ?thesis using Cons.IH[OF t(1)] t(2,3) by simp
  qed
qed simp

lemma visible_length:
  "length (visible ov rs head tail) \<le> 257"
proof -
  have "nat ((tail - head) mod 256) < 256" by (simp add: nat_less_iff)
  then show ?thesis by (simp add: visible_def ring_list_def)
qed

lemma packet_word:
  assumes "take_packet (visible ov rs head tail) = (f, e, l, c)"
  shows "unat (of_nat l :: u32) = l" "unat (of_nat c :: u32) = c"
proof -
  have "c \<le> 257" using take_packet_length[OF assms] visible_length order.trans by blast
  then have "l < 2 ^ 32" "c < 2 ^ 32" using take_packet_bytes[OF assms] by simp_all
  then show "unat (of_nat l :: u32) = l" "unat (of_nat c :: u32) = c" by (simp_all add: unat_of_nat_u32)
qed

text \<open>The engine after \<^verbatim>\<open>c\<close> results have been taken off.\<close>

definition taken :: "xdma_engine \<Rightarrow> xdma_result list \<Rightarrow> nat \<Rightarrow> bool \<Rightarrow> xdma_engine" where
  "taken e rs c ep = (let e1 = e\<lparr>e_cyclic_result := Some rs, e_rx_head := (e_rx_head e + int c) mod 256\<rparr>
     in if ep then e1\<lparr>e_eop_found := True\<rparr> else e1)"

definition cleared :: "int \<Rightarrow> nat \<Rightarrow> xdma_result list \<Rightarrow> xdma_result list \<Rightarrow> bool" where
  "cleared head c rs rs' \<longleftrightarrow> length rs' = 256 \<and>
     (\<forall>i < 256. rs' ! ring_idx head i = (if i < c then zero_result else rs ! ring_idx head i))"

lemma complete_cyclic_eq:
  assumes "cyc_ok e" "e_cyclic_result e = Some rs"
    and "take_packet (visible (e_rx_overrun e) rs (e_rx_head e) (e_rx_tail e)) = (f, ep, l, c)"
  shows "\<exists>rs'. cleared (e_rx_head e) c rs rs' \<and> cyc_ok (taken e rs' c ep) \<and>
     complete_cyclic pages ok e count ubuf w =
       (if f then Some (- EIO, taken e rs' c ep, ubuf, w)
        else Option.bind (copy_loop pages ok 256 count (of_nat l) (int (nat (e_rx_head e))) (Some (nat (e_rx_head e)))
               (e_user_buffer_index e) ubuf)
          (\<lambda>(g, idx, ubuf). Some (if g then int l else - EIO,
             (taken e rs' c ep)\<lparr>e_user_buffer_index := idx, e_rx_overrun := False\<rparr>, ubuf,
             if g \<and> 0 < l then write_register (of_nat c) (sreg e SG_credits) w else w)))"
proof -
  note ok = assms(1)[unfolded cyc_ok_def]
  have len: "length rs = 256" using ok assms(2) by simp
  from complete_loop_spec[OF len _ _ _ _ assms(3), of 0 0] ok
  obtain rs' where rs': "complete_loop (e_rx_tail e) (e_rx_overrun e) 0 0 rs (e_rx_head e) =
      Some (f, ep, l, (if f then c - 1 else c), rs', (e_rx_head e + int c) mod 256)" "length rs' = 256"
    "\<forall>i < 256. rs' ! ring_idx (e_rx_head e) i = (if i < c then zero_result else rs ! ring_idx (e_rx_head e) i)"
    by auto
  define e1 where "e1 = e\<lparr>e_cyclic_result := Some rs', e_rx_head := (e_rx_head e + int c) mod 256\<rparr>"
  define e2 where "e2 = (if ep then e1\<lparr>e_eop_found := True\<rparr> else e1)"
  have tk: "taken e rs' c ep = e2" by (simp add: taken_def e1_def e2_def)
  have fl: "e_cyclic_sgt e2 = e_cyclic_sgt e" "e_user_buffer_index e2 = e_user_buffer_index e"
    "sreg (e2\<lparr>e_user_buffer_index := i, e_rx_overrun := False\<rparr>) r = sreg e r" for i r
    by (simp_all add: e2_def e1_def sreg_def)
  have ok2: "cyc_ok e2" using ok rs'(2) by (simp add: e2_def e1_def cyc_ok_def)
  have sg: "sglist_index (e_cyclic_sgt e2) (e_rx_head e) = Some (nat (e_rx_head e))"
    unfolding fl(1) by (rule sglist_index_head[OF assms(1)])
  have n: "length (sgl (e_cyclic_sgt e2)) = 256" "int (nat (e_rx_head e)) = e_rx_head e" using ok fl(1) by simp_all
  have "complete_cyclic pages ok e count ubuf w =
       (if f then Some (- EIO, e2, ubuf, w)
        else Option.bind (copy_loop pages ok 256 count (of_nat l) (int (nat (e_rx_head e))) (Some (nat (e_rx_head e)))
               (e_user_buffer_index e) ubuf)
          (\<lambda>(g, idx, ubuf). Some (if g then int l else - EIO, e2\<lparr>e_user_buffer_index := idx, e_rx_overrun := False\<rparr>, ubuf,
             if g \<and> 0 < l then write_register (of_nat c) (sreg e SG_credits) w else w)))"
    unfolding complete_cyclic_def assms(2) Option.bind.bind_lunit Let_def rs'(1) prod.case e1_def[symmetric]
      e2_def[symmetric] copy_cyclic_to_user_def sg option.case n(1)
    using n(2) by (auto simp: fl Option.bind_assoc case_prod_unfold intro!: bind_option_cong)
  then show ?thesis using rs'(2,3) ok2 unfolding tk[symmetric] cleared_def by blast
qed

lemma cyclic_takes:
  assumes "cyc_ok e" "e_cyclic_result e = Some rs"
    and "take_packet (visible (e_rx_overrun e) rs (e_rx_head e) (e_rx_tail e)) = (f, ep, l, c)"
    and "count < 2 ^ 32" "unat (e_user_buffer_index e) \<le> count" "\<And>i n. ok i n"
    and "n = min l (count - unat (e_user_buffer_index e))"
  shows "\<exists>rs'. cleared (e_rx_head e) c rs rs' \<and>
     complete_cyclic pages ok e count ubuf w =
       (if f then Some (- EIO, taken e rs' c ep, ubuf, w)
        else Some (int l, (taken e rs' c ep)\<lparr>e_user_buffer_index := e_user_buffer_index e + of_nat n, e_rx_overrun := False\<rparr>,
               copied (nat (e_rx_head e)) (unat (e_user_buffer_index e)) n pages ubuf,
               if 0 < l then write_register (of_nat c) (sreg e SG_credits) w else w))"
proof -
  obtain rs' where r: "cleared (e_rx_head e) c rs rs'"
    "complete_cyclic pages ok e count ubuf w =
       (if f then Some (- EIO, taken e rs' c ep, ubuf, w)
        else Option.bind (copy_loop pages ok 256 count (of_nat l) (int (nat (e_rx_head e))) (Some (nat (e_rx_head e)))
               (e_user_buffer_index e) ubuf)
          (\<lambda>(g, idx, ubuf). Some (if g then int l else - EIO,
             (taken e rs' c ep)\<lparr>e_user_buffer_index := idx, e_rx_overrun := False\<rparr>, ubuf,
             if g \<and> 0 < l then write_register (of_nat c) (sreg e SG_credits) w else w)))"
    using complete_cyclic_eq[OF assms(1-3)] by blast
  have h: "nat (e_rx_head e) < 256" using assms(1) by (auto simp: cyc_ok_def)
  have cl: "copy_loop pages ok 256 count (of_nat l) (int (nat (e_rx_head e))) (Some (nat (e_rx_head e))) (e_user_buffer_index e) ubuf
      = Some (True, e_user_buffer_index e + of_nat n, copied (nat (e_rx_head e)) (unat (e_user_buffer_index e)) n pages ubuf)"
    using copy_loop_spec[of count ok, OF assms(4,6,5) h, of pages "of_nat l" ubuf] unfolding packet_word[OF assms(3)] assms(7) .
  show ?thesis using r(1) unfolding r(2) cl by (intro exI[of _ rs'] conjI) simp_all
qed

text \<open>C24: \<^verbatim>\<open>complete_cyclic\<close> takes one packet off the ring of results as off a list: it
  looks at the results from the head to the tail (all of them after an overrun) up to the
  first faulty one or the end of the packet, clears exactly those and advances the head past
  them. Without a fault the reader gets the bytes of the ring of pages, page after page from
  the head, as many as the packet has and the buffer has room for, and the results are
  returned to the device as credits; with a fault he gets \<^verbatim>\<open>-EIO\<close> and nothing.\<close>

theorem cyclic_read_takes_packet:
  assumes "cyc_ok e" "e_cyclic_result e = Some rs"
    and "take_packet (visible (e_rx_overrun e) rs (e_rx_head e) (e_rx_tail e)) = (f, ep, l, c)"
    and "count < 2 ^ 32" "unat (e_user_buffer_index e) \<le> count" "\<And>i n. ok i n"
    and "n = min l (count - unat (e_user_buffer_index e))"
  shows "\<exists>rs'. cleared (e_rx_head e) c rs rs' \<and>
     complete_cyclic pages ok e count ubuf w =
       (if f then Some (- EIO, taken e rs' c ep, ubuf, w)
        else Some (int l, (taken e rs' c ep)\<lparr>e_user_buffer_index := e_user_buffer_index e + of_nat n, e_rx_overrun := False\<rparr>,
               copied (nat (e_rx_head e)) (unat (e_user_buffer_index e)) n pages ubuf,
               if 0 < l then write_register (of_nat c) (sreg e SG_credits) w else w))"
  by (rule cyclic_takes[OF assms])

definition sample_packet :: "xdma_result list" where
  "sample_packet = [\<lparr>res_status = 0x52b40000, res_length = 4096\<rparr>, \<lparr>res_status = 0x52b40001, res_length = 100\<rparr>] @
     replicate 254 zero_result"

definition sample_pages :: "nat \<Rightarrow> nat \<Rightarrow> u8" where
  "sample_pages p q = of_nat (p + q)"

definition sample_cyclic :: xdma_engine where
  "sample_cyclic = sample_engine\<lparr>e_dir := DMA_FROM_DEVICE, e_streaming := True, e_cyclic_req := Some 0,
     e_cyclic_result := Some sample_packet,
     e_cyclic_sgt := \<lparr>sgl = replicate 256 (0, 4096), nents = 256\<rparr>, e_rx_head := 0, e_rx_tail := 2\<rparr>"

lemma sample_cyclic_ok: "cyc_ok sample_cyclic" "e_cyclic_result sample_cyclic = Some sample_packet"
  by (simp_all add: cyc_ok_def sample_cyclic_def sample_packet_def)

lemma sample_visible:
  "visible (e_rx_overrun sample_cyclic) sample_packet (e_rx_head sample_cyclic) (e_rx_tail sample_cyclic) =
     [\<lparr>res_status = 0x52b40000, res_length = 4096\<rparr>, \<lparr>res_status = 0x52b40001, res_length = 100\<rparr>]"
  by (simp add: visible_def sample_cyclic_def sample_engine_def ring_list_def ring_idx_def sample_packet_def
      numeral_2_eq_2)

lemma sample_take:
  "take_packet (visible (e_rx_overrun sample_cyclic) sample_packet (e_rx_head sample_cyclic) (e_rx_tail sample_cyclic)) =
     (False, True, 4196, 2)"
  unfolding sample_visible by (simp add: bad_result_def C2H_WB_def PAGE_SIZE_def RX_STATUS_EOP_def)

theorem cyclic_read_takes_packet_witness:
  "\<exists>e' w'. complete_cyclic sample_pages (\<lambda>_ _. True) sample_cyclic 5000 (\<lambda>_. 7) sample_world =
     Some (4196, e', copied 0 0 4196 sample_pages (\<lambda>_. 7), w') \<and> e_rx_head e' = 2 \<and> e_eop_found e'"
proof -
  have n: "4196 = min 4196 (5000 - unat (e_user_buffer_index sample_cyclic))" "unat (e_user_buffer_index sample_cyclic) \<le> 5000"
    "(5000 :: nat) < 2 ^ 32"
    by (simp_all add: sample_cyclic_def sample_engine_def)
  obtain rs' where "complete_cyclic sample_pages (\<lambda>_ _. True) sample_cyclic 5000 (\<lambda>_. 7) sample_world =
     (if False then Some (- EIO, taken sample_cyclic rs' 2 True, (\<lambda>_. 7), sample_world)
      else Some (int 4196, (taken sample_cyclic rs' 2 True)\<lparr>e_user_buffer_index := e_user_buffer_index sample_cyclic + of_nat 4196,
               e_rx_overrun := False\<rparr>,
             copied (nat (e_rx_head sample_cyclic)) (unat (e_user_buffer_index sample_cyclic)) 4196 sample_pages (\<lambda>_. 7),
             if (0 :: nat) < 4196 then write_register (of_nat 2) (sreg sample_cyclic SG_credits) sample_world else sample_world))"
    using cyclic_read_takes_packet[OF sample_cyclic_ok sample_take n(3,2) _ n(1),
        of "\<lambda>_ _. True" sample_pages "\<lambda>_. 7" sample_world] by blast
  then show ?thesis by (simp add: taken_def sample_cyclic_def sample_engine_def)
qed

section \<open>A whole read\<close>

lemma complete_cyclic_safe:
  assumes "cyc_ok e" "count < 2 ^ 32" "unat (e_user_buffer_index e) \<le> count"
  shows "\<exists>rc e' ubuf' w'. complete_cyclic pages ok e count ubuf w = Some (rc, e', ubuf', w') \<and> cyc_ok e' \<and>
    unat (e_user_buffer_index e') \<le> count \<and> (rc = - EIO \<or> 0 \<le> rc) \<and> (\<forall>a \<ge> count. ubuf' a = ubuf a) \<and>
    e_magic e' = e_magic e \<and> e_cyclic_req e' = e_cyclic_req e \<and> e_poll_mode_addr_virt e' = e_poll_mode_addr_virt e"
proof -
  obtain rs where rs: "e_cyclic_result e = Some rs" using assms(1) by (auto simp: cyc_ok_def)
  obtain f ep l c where t: "take_packet (visible (e_rx_overrun e) rs (e_rx_head e) (e_rx_tail e)) = (f, ep, l, c)"
    by (metis prod_cases4)
  obtain rs' where r: "cyc_ok (taken e rs' c ep)"
    "complete_cyclic pages ok e count ubuf w =
       (if f then Some (- EIO, taken e rs' c ep, ubuf, w)
        else Option.bind (copy_loop pages ok 256 count (of_nat l) (int (nat (e_rx_head e))) (Some (nat (e_rx_head e)))
               (e_user_buffer_index e) ubuf)
          (\<lambda>(g, idx, ubuf). Some (if g then int l else - EIO,
             (taken e rs' c ep)\<lparr>e_user_buffer_index := idx, e_rx_overrun := False\<rparr>, ubuf,
             if g \<and> 0 < l then write_register (of_nat c) (sreg e SG_credits) w else w)))"
    using complete_cyclic_eq[OF assms(1) rs t] by blast
  have h: "nat (e_rx_head e) < 256" using assms(1) by (auto simp: cyc_ok_def)
  obtain g idx ubuf' where cl: "copy_loop pages ok 256 count (of_nat l) (int (nat (e_rx_head e))) (Some (nat (e_rx_head e)))
      (e_user_buffer_index e) ubuf = Some (g, idx, ubuf')" "unat idx \<le> count"
    "\<forall>a. a < unat (e_user_buffer_index e) \<or> unat idx \<le> a \<longrightarrow> ubuf' a = ubuf a"
    using copy_loop_returns[OF assms(2,3) h] by metis
  have i: "e_user_buffer_index (taken e rs' c ep) = e_user_buffer_index e" by (simp add: taken_def Let_def)
  have m: "e_magic (taken e rs' c ep) = e_magic e" "e_cyclic_req (taken e rs' c ep) = e_cyclic_req e"
    "e_poll_mode_addr_virt (taken e rs' c ep) = e_poll_mode_addr_virt e" by (simp_all add: taken_def Let_def)
  have k: "cyc_ok ((taken e rs' c ep)\<lparr>e_user_buffer_index := idx, e_rx_overrun := False\<rparr>)"
    using r(1) by (simp add: cyc_ok_def)
  show ?thesis
  proof (cases f)
    case True
    then show ?thesis unfolding r(2) using r(1) i m assms(3) by simp
  next
    case False
    then show ?thesis unfolding r(2) cl(1) using k m cl(2,3) by auto
  qed
qed

subsection \<open>The sleep\<close>

text \<open>
  While the reader sleeps, with interrupts, the device writes results, the engine is serviced,
  transfers are queued, the device goes off line, and the rest of the kernel runs.  All that keeps
  the ring well formed, the head of the ring and the position in the buffer.
\<close>

inductive sleeping :: "modparams \<Rightarrow> xdma_engine \<times> world \<Rightarrow> xdma_engine \<times> world \<Rightarrow> bool" for mp where
  dma: "e_cyclic_result e = Some rs \<Longrightarrow> length rs' = length rs \<Longrightarrow>
    sleeping mp (e, w) (e\<lparr>e_cyclic_result := Some rs'\<rparr>, w)"
| work: "engine_service_work fuel dma mp xdev e w = Some (e', w') \<Longrightarrow> \<not> poll_mode mp \<Longrightarrow>
    sleeping mp (e, w) (e', w')"
| queue: "transfer_queue mp xdev e i w = Some (rv, e', w') \<Longrightarrow> sleeping mp (e, w) (e', w')"
| offline: "offline_loop mp 1 0 [e] w = Some ([e'], w') \<Longrightarrow> sleeping mp (e, w) (e', w')"
| kernel: "sleeping mp (e, w) (e, w')"

definition sleeps :: "modparams \<Rightarrow> cyclic_env \<Rightarrow> bool" where
  "sleeps mp env \<longleftrightarrow> (\<forall>i e w. (sleeping mp)\<^sup>*\<^sup>* (e, w) (cyc_wait env i e w))"

text \<open>What the reader owns of an engine.\<close>

definition reader_keeps :: "xdma_engine \<Rightarrow> xdma_engine \<Rightarrow> bool" where
  "reader_keeps e e' \<longleftrightarrow> e_cyclic_sgt e' = e_cyclic_sgt e \<and> e_rx_head e' = e_rx_head e \<and>
     e_user_buffer_index e' = e_user_buffer_index e \<and> e_cyclic_req e' = e_cyclic_req e \<and>
     e_magic e' = e_magic e \<and> e_poll_mode_addr_virt e' = e_poll_mode_addr_virt e \<and>
     (cyc_ok e \<longrightarrow> cyc_ok e')"

lemma reader_keeps_refl [simp]: "reader_keeps e e"
  by (simp add: reader_keeps_def)

lemma reader_keeps_trans: "reader_keeps e e1 \<Longrightarrow> reader_keeps e1 e' \<Longrightarrow> reader_keeps e e'"
  by (simp add: reader_keeps_def)

lemma reader_keeps_upd [simp]:
  "reader_keeps e (e\<lparr>e_status := a\<rparr>)" "reader_keeps e (e\<lparr>e_running := b\<rparr>)" "reader_keeps e (e\<lparr>e_transfer_list := c\<rparr>)"
  "reader_keeps e (e\<lparr>e_eop_found := d\<rparr>)" "reader_keeps e (e\<lparr>e_shutdown := f\<rparr>)" "reader_keeps e (e\<lparr>e_desc_dequeued := g\<rparr>)"
  "reader_keeps e (e\<lparr>e_xdma_perf := h\<rparr>)"
  by (simp_all add: reader_keeps_def cyc_ok_def)

lemma reader_keeps_dma:
  "e_cyclic_result e = Some rs \<Longrightarrow> length rs' = length rs \<Longrightarrow> reader_keeps e (e\<lparr>e_cyclic_result := Some rs'\<rparr>)"
  by (auto simp: reader_keeps_def cyc_ok_def)

lemma cyc_ring_wf: "cyc_ok e \<Longrightarrow> ring_wf e"
  by (auto simp: cyc_ok_def ring_wf_def)

lemma reader_keeps_ring:
  assumes "engine_ring_process e = Some (n, e')"
  shows "reader_keeps e e'"
proof -
  obtain t ov where e': "e' = e\<lparr>e_rx_tail := t, e_rx_overrun := ov\<rparr>" using ring_process_fields[OF assms] by blast
  have "cyc_ok e'" if c: "cyc_ok e"
  proof -
    obtain eop tail ov' where p: "engine_ring_process e = Some (eop, e\<lparr>e_rx_tail := tail, e_rx_overrun := ov'\<rparr>)"
      and t: "0 \<le> tail" "tail < 256"
      using engine_ring_process_spec[OF cyc_ring_wf[OF c]] by blast
    have "e' = e\<lparr>e_rx_tail := tail, e_rx_overrun := ov'\<rparr>" using p assms by simp
    then show ?thesis using c t by (simp add: cyc_ok_def)
  qed
  then show ?thesis by (simp add: e' reader_keeps_def)
qed

lemma reader_keeps_status: "engine_status_read e c d w = Some (v, e', w') \<Longrightarrow> reader_keeps e e'"
  by (auto simp: engine_status_read_def Let_def case_prod_beta split: bind_splits)

lemma reader_keeps_start: "engine_start mp e w = Some (t, e', w') \<Longrightarrow> reader_keeps e e'"
  using engine_start_result[of mp e w t e' w'] by (auto simp: reader_keeps_def cyc_ok_def)

lemma reader_keeps_queue:
  assumes "transfer_queue mp xdev e i w = Some (rv, e', w')"
  shows "reader_keeps e e'"
proof -
  have "reader_keeps e e'" if "engine_start mp (e\<lparr>e_transfer_list := l\<rparr>) w1 = Some (t, e', w2)" for l t w1 w2
    using reader_keeps_start[OF that] reader_keeps_upd(3) reader_keeps_trans by blast
  then show ?thesis using assms by (auto simp: transfer_queue_def Let_def split: if_splits bind_splits)
qed

lemma reader_keeps_shutdown: "engine_service_shutdown mp e w = (e', w') \<Longrightarrow> reader_keeps e e'"
  by (auto simp: engine_service_shutdown_def Let_def)

lemma reader_keeps_perf: "engine_service_perf e n w = (e', w') \<Longrightarrow> reader_keeps e e'"
  using service_perf_frame(1)[of e n w e' w'] by auto

lemma reader_keeps_enter:
  assumes "service_enter mp e wb w = Some (n, tr, e', w')"
  shows "reader_keeps e e'"
proof -
  obtain e1 w1 where s1: "(if wb AND WB_COUNT_MASK = 0 \<or> wb AND WB_ERR_MASK \<noteq> 0 then do {
          (_, engine, w) \<leftarrow> engine_status_read e True False w;
          Some (engine, w)
        } else Some (e, w)) = Some (e1, w1)" and k1: "reader_keeps e e1"
    by (cases "wb AND WB_COUNT_MASK = 0 \<or> wb AND WB_ERR_MASK \<noteq> 0")
      (auto simp: engine_status_read_nodump Let_def case_prod_beta)
  obtain e2 w2 where s2: "(if (e_running e1 \<and> e_status e1 AND XDMA_STAT_BUSY = 0) \<or> wb AND WB_COUNT_MASK \<noteq> 0
        then engine_service_shutdown mp e1 w1 else (e1, w1)) = (e2, w2)"
    by fastforce
  then have k2: "reader_keeps e1 e2" by (auto dest: reader_keeps_shutdown split: if_splits)
  have "reader_keeps e2 e'"
    using assms unfolding service_enter_def Let_def s1 bind.bind_lunit case_prod_conv s2
    by (auto simp: case_prod_beta dest!: reader_keeps_perf split: list.splits)
  then show ?thesis using k1 k2 reader_keeps_trans by blast
qed

lemma reader_keeps_resume: "engine_service_resume mp e w = Some (e', w') \<Longrightarrow> reader_keeps e e'"
  by (auto simp: engine_service_resume_def split: if_splits bind_splits dest!: reader_keeps_start)

lemma reader_keeps_service:
  assumes "engine_service mp e wb w = Some (rv, e', w')"
  shows "reader_keeps e e'"
proof (cases "e_running e")
  case False
  then show ?thesis
    using assms by (auto simp: engine_service_def dest!: reader_keeps_status split: bind_splits)
next
  case True
  obtain n tr e1 w1 tr2 p e2 w2 tr3 e3 w3 w4 where
    en: "service_enter mp e wb w = Some (n, tr, e1, w1)"
    and l: "engine_service_transfer_list e1 tr (n - word_of_int (e_desc_dequeued e1)) w1 = Some (tr2, p, e2, w2)"
    and f: "engine_service_final_transfer mp e2 tr2 p w2 = Some (tr3, e3, w3)"
    and rs: "engine_service_resume mp e3 w4 = Some (e', w')"
    using True assms by (auto simp: engine_service_def Let_def split: bind_splits)
  obtain k q where "e3 = e1\<lparr>e_transfer_list := drop k (e_transfer_list e), e_desc_dequeued := q\<rparr>"
    using complete_spec[OF l[unfolded service_enter_frame(1)[OF en]] f service_enter_frame(3)[OF en]] by blast
  then have "reader_keeps e1 e3" using reader_keeps_trans[OF reader_keeps_upd(3) reader_keeps_upd(6)] by simp
  then show ?thesis using reader_keeps_enter[OF en] reader_keeps_resume[OF rs] reader_keeps_trans by blast
qed

lemma reader_keeps_stopped: "cyclic_engine_stopped mp e w = (e', w') \<Longrightarrow> reader_keeps e e'"
  by (auto simp: cyclic_engine_stopped_def engine_transfer_dequeue_def Let_def
      intro: reader_keeps_trans[OF reader_keeps_upd(3) reader_keeps_shutdown] dest: reader_keeps_shutdown
      split: if_splits list.splits)

lemma reader_keeps_interrupt:
  assumes "engine_service_cyclic_interrupt mp e w = Some (rv, e', w')"
  shows "reader_keeps e e'"
proof -
  obtain v e1 w1 n e2 w2 where s: "engine_status_read e True False w = Some (v, e1, w1)"
    and r: "engine_ring_process e1 = Some (n, e2)"
    and rest: "cyclic_engine_stopped mp
        (if enable_credit_mp mp then e2 else if n > 0 then e2\<lparr>e_eop_found := True\<rparr> else e2) w2 = (e', w')"
    using assms
    by (auto simp: engine_service_cyclic_interrupt_def Let_def case_prod_beta prod_eq_iff
        split: bind_splits if_splits)
  have "reader_keeps e2 (if enable_credit_mp mp then e2 else if n > 0 then e2\<lparr>e_eop_found := True\<rparr> else e2)" by simp
  then show ?thesis
    using reader_keeps_status[OF s] reader_keeps_ring[OF r] reader_keeps_stopped[OF rest] reader_keeps_trans by blast
qed

lemma reader_keeps_sleep:
  assumes "(sleeping mp)\<^sup>*\<^sup>* (e, w) (e', w')"
  shows "reader_keeps e e'"
  using assms
proof (induction rule: rtranclp_induct2)
  case (step e1 w1 e2 w2)
  have "reader_keeps e1 e2"
    using step.hyps(2)
  proof cases
    case (work fuel dma xdev)
    then obtain rv w3 where "(if e_cyclic_req e1 \<noteq> None then engine_service_cyclic fuel dma mp e1 w1
        else engine_service mp e1 0 w1) = Some (rv, e2, w3)"
      unfolding engine_service_work_def by (auto split: bind_splits if_splits)
    then show ?thesis
      using work(2) reader_keeps_service reader_keeps_interrupt
      by (auto simp: engine_service_cyclic_def split: if_splits)
  next
    case offline
    then show ?thesis
      using reader_keeps_trans[OF reader_keeps_upd(5) reader_keeps_upd(2)]
      by (auto simp: arr_get_def Let_def split: if_splits)
  qed (auto intro: reader_keeps_dma reader_keeps_queue)
  then show ?case using step.IH reader_keeps_trans by blast
qed simp

subsection \<open>The polls\<close>

text \<open>A poll that has been looking \<^verbatim>\<open>fuel\<close> times without finding an error in the write-back or
  the end of a packet in the ring.\<close>

primrec starved ::
  "nat \<Rightarrow> (nat \<Rightarrow> xdma_result list \<Rightarrow> xdma_result list) \<Rightarrow> nat \<Rightarrow> xdma_engine \<Rightarrow> world \<Rightarrow> bool" where
  "starved 0 dma n e w \<longleftrightarrow> True"
| "starved (Suc fuel) dma n e w \<longleftrightarrow>
     (case e_poll_mode_addr_virt e of
        None \<Rightarrow> False
      | Some wb \<Rightarrow> fst (read_register wb w) AND WB_ERR_MASK = 0 \<and>
          (case engine_ring_process (e\<lparr>e_cyclic_result := map_option (dma n) (e_cyclic_result e)\<rparr>) of
             None \<Rightarrow> False
           | Some (c, e') \<Rightarrow> c = 0 \<and> starved fuel dma (n + 1) e' (snd (read_register wb w))))"

text \<open>The states that a polled read goes through.\<close>

inductive polling :: "cyclic_env \<Rightarrow> modparams \<Rightarrow> nat \<Rightarrow> xdma_engine \<times> world \<Rightarrow> xdma_engine \<times> world \<Rightarrow> bool"
  for env mp count where
  poll: "engine_service_poll (cyc_fuel env) (cyc_late env) (cyc_dma env) mp e 0 w = Some (rc, e', w') \<Longrightarrow>
    polling env mp count (e, w) (e', w')"
| take: "complete_cyclic pages (user_ok env) e count ubuf w = Some (rc, e', ubuf', w') \<Longrightarrow>
    polling env mp count (e, w) (e', w')"

lemma poll_loop_cases:
  assumes "\<And>n rs. length (dma n rs) = length rs"
  shows "cyc_ok e \<Longrightarrow> e_poll_mode_addr_virt e \<noteq> None \<Longrightarrow>
    (\<exists>rc c e' w'. cyclic_poll_loop (Suc fuel) dma n 0 e w = Some (rc, c, e', w') \<and> reader_keeps e e') \<or>
    cyclic_poll_loop (Suc fuel) dma n 0 e w = None \<and> starved fuel dma n e w"
proof (induction fuel arbitrary: n e w)
  case 0
  obtain wb v w1 where wb: "e_poll_mode_addr_virt e = Some wb" "read_register wb w = (v, w1)"
    using 0(2) by (metis not_None_eq prod.exhaust)
  show ?case
  proof (cases "v AND WB_ERR_MASK = 0")
    case False
    then show ?thesis using wb by simp
  next
    case True
    show ?thesis using True wb by (auto simp: Let_def split: bind_splits)
  qed
next
  case (Suc fuel)
  obtain wb v w1 where wb: "e_poll_mode_addr_virt e = Some wb" "read_register wb w = (v, w1)"
    using Suc.prems(2) by (metis not_None_eq prod.exhaust)
  obtain rs where rs: "e_cyclic_result e = Some rs" using Suc.prems(1) by (auto simp: cyc_ok_def)
  let ?e = "e\<lparr>e_cyclic_result := Some (dma n rs)\<rparr>"
  have k1: "reader_keeps e ?e" by (rule reader_keeps_dma[OF rs]) (rule assms)
  have ok1: "cyc_ok ?e" using k1 Suc.prems(1) by (simp add: reader_keeps_def)
  obtain c e1 where p: "engine_ring_process ?e = Some (c, e1)"
    using engine_ring_process_spec[OF cyc_ring_wf[OF ok1]] by blast
  have k: "reader_keeps e e1" using k1 reader_keeps_ring[OF p] reader_keeps_trans by blast
  have ok: "cyc_ok e1" "e_poll_mode_addr_virt e1 \<noteq> None" using k Suc.prems by (simp_all add: reader_keeps_def)
  show ?case
  proof (cases "v AND WB_ERR_MASK = 0")
    case False
    then show ?thesis using wb by simp
  next
    case True
    have step: "cyclic_poll_loop (Suc (Suc fuel)) dma n 0 e w = cyclic_poll_loop (Suc fuel) dma (n + 1) c e1 w1"
      using True by (subst cyclic_poll_loop.simps) (simp add: wb rs p del: cyclic_poll_loop.simps)
    show ?thesis
    proof (cases "c = 0")
      case c: True
      have st: "starved (Suc fuel) dma n e w = starved fuel dma (n + 1) e1 w1"
        using True by (simp add: wb rs p c)
      show ?thesis
        unfolding step st unfolding c using Suc.IH[OF ok, of "n + 1" w1] k reader_keeps_trans by blast
    next
      case False
      then show ?thesis unfolding step using k by simp
    qed
  qed
qed

definition reading_ok :: "modparams \<Rightarrow> xdma_engine \<Rightarrow> bool" where
  "reading_ok mp e \<longleftrightarrow> cyc_ok e \<and> e_magic e = MAGIC_ENGINE \<and> e_cyclic_req e \<noteq> None \<and>
     (poll_mode mp \<longrightarrow> e_poll_mode_addr_virt e \<noteq> None)"

lemma reading_keeps: "reader_keeps e e' \<Longrightarrow> reading_ok mp e \<Longrightarrow> reading_ok mp e'"
  by (simp add: reader_keeps_def reading_ok_def)

lemma poll_is_loop:
  assumes "reading_ok mp e" "poll_mode mp"
  shows "engine_service_poll fuel late dma mp e 0 w = do {
     (rc, eop_count, engine, w) \<leftarrow> cyclic_poll_loop fuel dma 0 0 e w;
     if eop_count = 0 then do {
       (_, engine, w) \<leftarrow> engine_status_read engine True False w;
       let (engine, w) = cyclic_engine_stopped mp engine w;
       Some (rc, engine, w)
     } else Some (rc, engine, w)
   }"
proof -
  obtain x where "e_cyclic_req e = Some x" "e_magic e = MAGIC_ENGINE" using assms(1) by (auto simp: reading_ok_def)
  then show ?thesis
    using assms(2)
    by (simp add: engine_service_poll_def engine_service_wb_monitor_def engine_service_cyclic_def
        engine_service_cyclic_polled_def)
qed

lemma poll_cases:
  assumes "reading_ok mp e" "poll_mode mp" "\<And>n rs. length (dma n rs) = length rs"
  shows "(\<exists>rc e' w'. engine_service_poll (Suc fuel) late dma mp e 0 w = Some (rc, e', w') \<and> reader_keeps e e') \<or>
    engine_service_poll (Suc fuel) late dma mp e 0 w = None \<and> starved fuel dma 0 e w"
proof -
  have ok: "cyc_ok e" "e_poll_mode_addr_virt e \<noteq> None" using assms(1,2) by (simp_all add: reading_ok_def)
  show ?thesis
    using poll_loop_cases[of dma, OF assms(3) ok, of fuel 0 w]
  proof
    assume "\<exists>rc c e' w'. cyclic_poll_loop (Suc fuel) dma 0 0 e w = Some (rc, c, e', w') \<and> reader_keeps e e'"
    then obtain rc c e1 w1 where l: "cyclic_poll_loop (Suc fuel) dma 0 0 e w = Some (rc, c, e1, w1)" "reader_keeps e e1"
      by blast
    obtain v e2 w2 where st: "engine_status_read e1 True False w1 = Some (v, e2, w2)"
      by (simp add: engine_status_read_nodump Let_def case_prod_beta)
    obtain e3 w3 where sp: "cyclic_engine_stopped mp e2 w2 = (e3, w3)" by fastforce
    have "reader_keeps e e3"
      using l(2) reader_keeps_status[OF st] reader_keeps_stopped[OF sp] reader_keeps_trans by blast
    then show ?thesis unfolding poll_is_loop[OF assms(1,2)] using l st sp by (cases "c = 0") simp_all
  next
    assume "cyclic_poll_loop (Suc fuel) dma 0 0 e w = None \<and> starved fuel dma 0 e w"
    then show ?thesis unfolding poll_is_loop[OF assms(1,2)] by simp
  qed
qed

lemma monitor_polls_cases:
  assumes "poll_mode mp" "\<And>n rs. length (cyc_dma env n rs) = length rs" "cyc_fuel env = Suc fuel"
  shows "reading_ok mp e \<Longrightarrow>
    (\<exists>e' w'. monitor_polls env mp n e w = Some (e', w') \<and> reader_keeps e e' \<and> (polling env mp count)\<^sup>*\<^sup>* (e, w) (e', w')) \<or>
    monitor_polls env mp n e w = None \<and>
      (\<exists>e1 w1. (polling env mp count)\<^sup>*\<^sup>* (e, w) (e1, w1) \<and> starved fuel (cyc_dma env) 0 e1 w1)"
proof (induction n arbitrary: e w)
  case (Suc n)
  show ?case
    using poll_cases[of mp e "cyc_dma env", OF Suc.prems assms(1,2), of fuel "cyc_late env" w]
  proof
    assume "\<exists>rc e' w'. engine_service_poll (Suc fuel) (cyc_late env) (cyc_dma env) mp e 0 w = Some (rc, e', w') \<and> reader_keeps e e'"
    then obtain rc e1 w1 where p: "engine_service_poll (cyc_fuel env) (cyc_late env) (cyc_dma env) mp e 0 w = Some (rc, e1, w1)"
      and k: "reader_keeps e e1" unfolding assms(3) by blast
    have ok: "reading_ok mp e1" by (rule reading_keeps[OF k Suc.prems])
    obtain rs where rs: "e_cyclic_result e1 = Some rs" "length rs = 256" "0 \<le> e_rx_head e1" "e_rx_head e1 < 256"
      using ok by (auto simp: reading_ok_def cyc_ok_def)
    have g: "arr_get (e_rx_head e1) rs = Some (rs ! nat (e_rx_head e1))" using rs by (simp add: arr_get_def)
    have s1: "polling env mp count (e, w) (e1, w1)" by (rule polling.poll[OF p])
    show ?thesis
    proof (cases "res_status (rs ! nat (e_rx_head e1)) = 0")
      case False
      then show ?thesis using s1 k by (auto simp: p rs(1) g)
    next
      case True
      then have e: "monitor_polls env mp (Suc n) e w = monitor_polls env mp n e1 w1" by (simp add: p rs(1) g)
      show ?thesis
        unfolding e using Suc.IH[OF ok, of w1] k reader_keeps_trans converse_rtranclp_into_rtranclp[of "polling env mp count", OF s1] by blast
    qed
  next
    assume "engine_service_poll (Suc fuel) (cyc_late env) (cyc_dma env) mp e 0 w = None \<and> starved fuel (cyc_dma env) 0 e w"
    then show ?thesis by (auto simp: assms(3))
  qed
qed auto

section \<open>The whole read\<close>

lemma monitor_cases:
  assumes "reading_ok mp e" "x \<noteq> None" "poll_mode mp \<or> sleeps mp env"
    and "\<And>n rs. length (cyc_dma env n rs) = length rs" "cyc_fuel env = Suc fuel"
  shows "(\<exists>e' w'. transfer_monitor_cyclic env mp x i e w = Some (0, e', w') \<and> reader_keeps e e' \<and>
      (poll_mode mp \<longrightarrow> (polling env mp count)\<^sup>*\<^sup>* (e, w) (e', w'))) \<or>
    poll_mode mp \<and> transfer_monitor_cyclic env mp x i e w = None \<and>
      (\<exists>e1 w1. (polling env mp count)\<^sup>*\<^sup>* (e, w) (e1, w1) \<and> starved fuel (cyc_dma env) 0 e1 w1)"
proof -
  obtain rs where rs: "e_cyclic_result e = Some rs" using assms(1) by (auto simp: reading_ok_def cyc_ok_def)
  show ?thesis
  proof (cases "poll_mode mp")
    case True
    have e: "transfer_monitor_cyclic env mp x i e w = map_option (\<lambda>(e, w). (0, e, w)) (monitor_polls env mp 5 e w)"
      using True rs by (simp add: transfer_monitor_cyclic_def del: monitor_polls.simps)
        (cases "monitor_polls env mp 5 e w"; auto)
    show ?thesis
      unfolding e using monitor_polls_cases[OF True assms(4,5,1), of 5 w count] True by auto
  next
    case False
    obtain e1 w1 where w1: "cyc_wait env i e w = (e1, w1)" by fastforce
    then have "(sleeping mp)\<^sup>*\<^sup>* (e, w) (e1, w1)" using assms(3) False unfolding sleeps_def by metis
    then have "reader_keeps e e1" by (rule reader_keeps_sleep)
    then show ?thesis using False rs assms(2) w1 by (simp add: transfer_monitor_cyclic_def)
  qed
qed

lemma read_rounds_safe:
  assumes "x \<noteq> None" "poll_mode mp \<or> sleeps mp env"
    and "\<And>n rs. length (cyc_dma env n rs) = length rs" "cyc_fuel env = Suc fuel" "count < 2 ^ 32"
  shows "reading_ok mp e \<Longrightarrow> unat (e_user_buffer_index e) \<le> count \<Longrightarrow> 0 \<le> rl \<Longrightarrow>
    (\<exists>rc e' ubuf' w'. read_rounds env mp x n i rl e count ubuf w = Some (rc, e', ubuf', w') \<and>
      (rc = - EIO \<or> 0 \<le> rc) \<and> (\<forall>a \<ge> count. ubuf' a = ubuf a)) \<or>
    poll_mode mp \<and> read_rounds env mp x n i rl e count ubuf w = None \<and>
      (\<exists>e1 w1. (polling env mp count)\<^sup>*\<^sup>* (e, w) (e1, w1) \<and> starved fuel (cyc_dma env) 0 e1 w1)"
proof (induction n arbitrary: i rl e ubuf w)
  case (Suc n)
  show ?case
    using monitor_cases[where env = env and i = i and w = w and count = count, OF Suc.prems(1) assms(1-4)]
  proof
    assume "\<exists>e' w'. transfer_monitor_cyclic env mp x i e w = Some (0, e', w') \<and> reader_keeps e e' \<and>
      (poll_mode mp \<longrightarrow> (polling env mp count)\<^sup>*\<^sup>* (e, w) (e', w'))"
    then obtain e1 w1 where m: "transfer_monitor_cyclic env mp x i e w = Some (0, e1, w1)" "reader_keeps e e1"
      and pl: "poll_mode mp \<Longrightarrow> (polling env mp count)\<^sup>*\<^sup>* (e, w) (e1, w1)" by blast
    have ok1: "reading_ok mp e1" "cyc_ok e1" "unat (e_user_buffer_index e1) \<le> count"
      using reading_keeps[OF m(2) Suc.prems(1)] m(2) Suc.prems(2) by (simp_all add: reading_ok_def reader_keeps_def)
    obtain rc e2 ubuf2 w2 where c: "complete_cyclic (page_mem env i) (user_ok env) e1 count ubuf w1 = Some (rc, e2, ubuf2, w2)"
      "cyc_ok e2" "unat (e_user_buffer_index e2) \<le> count" "rc = - EIO \<or> 0 \<le> rc" "\<forall>a \<ge> count. ubuf2 a = ubuf a"
      "e_magic e2 = e_magic e1" "e_cyclic_req e2 = e_cyclic_req e1" "e_poll_mode_addr_virt e2 = e_poll_mode_addr_virt e1"
      using complete_cyclic_safe[OF ok1(2) assms(5) ok1(3)] by metis
    show ?thesis
    proof (cases "rc < 0 \<or> e_eop_found e2")
      case True
      then show ?thesis using m c(1,4,5) Suc.prems(3) by auto
    next
      case False
      have ok2: "reading_ok mp e2" using ok1(1) c(2,6-8) by (simp add: reading_ok_def)
      have r: "read_rounds env mp x (Suc n) i rl e count ubuf w =
          read_rounds env mp x n (Suc i) (rl + rc) e2 count ubuf2 w2"
        using m(1) c(1) False by simp
      have pl2: "poll_mode mp \<Longrightarrow> (polling env mp count)\<^sup>*\<^sup>* (e, w) (e2, w2)"
        using pl polling.take[OF c(1)] by (rule rtranclp.rtrancl_into_rtrancl)
      have "0 \<le> rl + rc" using False Suc.prems(3) by simp
      from Suc.IH[OF ok2 c(3) this, of "Suc i" ubuf2 w2] show ?thesis
      proof
        assume "\<exists>rc' e' ubuf' w'. read_rounds env mp x n (Suc i) (rl + rc) e2 count ubuf2 w2 = Some (rc', e', ubuf', w') \<and>
          (rc' = - EIO \<or> 0 \<le> rc') \<and> (\<forall>a \<ge> count. ubuf' a = ubuf2 a)"
        then show ?thesis using c(5) r by auto
      next
        assume "poll_mode mp \<and> read_rounds env mp x n (Suc i) (rl + rc) e2 count ubuf2 w2 = None \<and>
          (\<exists>e1 w1. (polling env mp count)\<^sup>*\<^sup>* (e2, w2) (e1, w1) \<and> starved fuel (cyc_dma env) 0 e1 w1)"
        then show ?thesis using pl2 r rtranclp_trans[of "polling env mp count"] by metis
      qed
    qed
  next
    assume "poll_mode mp \<and> transfer_monitor_cyclic env mp x i e w = None \<and>
      (\<exists>e1 w1. (polling env mp count)\<^sup>*\<^sup>* (e, w) (e1, w1) \<and> starved fuel (cyc_dma env) 0 e1 w1)"
    then show ?thesis by auto
  qed
qed auto

text \<open>C25: A cyclic read of fewer than 4 GB, from a ring that has been set up, returns with
  \<^verbatim>\<open>-EIO\<close> or a length and never writes the reader's memory past the buffer, whatever the
  device has put into the ring: with interrupts always, whatever services, queueings and
  writes of the device happen while it sleeps; in polled mode unless one of its polls goes
  on for as many looks as the fuel allows without an error in the write-back or the end of a
  packet in the ring.\<close>

theorem cyclic_read_returns_in_bounds:
  assumes "cyc_ok e" "e_magic e = MAGIC_ENGINE" "e_cyclic_req e \<noteq> None" "count < 2 ^ 32"
    and "\<not> poll_mode mp \<Longrightarrow> sleeps mp env" "poll_mode mp \<Longrightarrow> e_poll_mode_addr_virt e \<noteq> None"
    and "\<And>n rs. length (cyc_dma env n rs) = length rs" "cyc_fuel env = Suc fuel"
  shows "(\<exists>rc e' ubuf' w'. xdma_engine_read_cyclic env mp e count ubuf w = Some (rc, e', ubuf', w') \<and>
      (rc = - EIO \<or> 0 \<le> rc) \<and> (\<forall>a \<ge> count. ubuf' a = ubuf a)) \<or>
    poll_mode mp \<and> xdma_engine_read_cyclic env mp e count ubuf w = None \<and>
      (\<exists>e1 w1. (polling env mp count)\<^sup>*\<^sup>* (e\<lparr>e_user_buffer_index := 0\<rparr>, w) (e1, w1) \<and>
         starved fuel (cyc_dma env) 0 e1 w1)"
proof -
  let ?e = "e\<lparr>e_user_buffer_index := 0\<rparr>"
  have ok: "reading_ok mp ?e" using assms(1-3,6) by (simp add: reading_ok_def cyc_ok_def)
  have i: "unat (e_user_buffer_index ?e) \<le> count" "(0 :: int) \<le> 0" by simp_all
  have sl: "poll_mode mp \<or> sleeps mp env" using assms(5) by blast
  have r: "xdma_engine_read_cyclic env mp e count ubuf w = do {
      (rc, engine, ubuf, w) \<leftarrow> read_rounds env mp (e_cyclic_req e) 11 0 0 ?e count ubuf w;
      if rc < 0 then Some (rc, engine, ubuf, w)
      else Some (rc, if enable_credit_mp mp then engine\<lparr>e_eop_found := False\<rparr> else engine, ubuf, w)
    }"
    using assms(2) by (simp add: xdma_engine_read_cyclic_def Let_def del: read_rounds.simps)
  show ?thesis
    using read_rounds_safe[where env = env and n = 11 and i = 0 and ubuf = ubuf and w = w, OF assms(3) sl assms(7,8,4) ok i]
    unfolding r
    by (elim disjE exE conjE) (auto simp del: read_rounds.simps)
qed

definition sample_cyc_env :: cyclic_env where
  "sample_cyc_env = \<lparr>sg_alloc_ok = True, page_ok = (\<lambda>_. True), page_bus = (\<lambda>i. Some (of_nat (0x1000000 + 4096 * i))), req_ok = True,
     cyc_wait = (\<lambda>_ e w. (e, w)), cyc_fuel = 10, cyc_late = (\<lambda>n. n > 5), cyc_dma = (\<lambda>_ rs. rs), page_mem = (\<lambda>_. sample_pages),
     user_ok = (\<lambda>_ _. True)\<rparr>"

text \<open>A sleep in which the device writes a packet of two results and the engine is serviced.\<close>

definition sample_sleep :: "xdma_engine \<times> world \<Rightarrow> xdma_engine \<times> world" where
  "sample_sleep = (\<lambda>(e, w). case e_cyclic_result e of
       None \<Rightarrow> (e, w)
     | Some rs \<Rightarrow>
         (let e1 = (if length rs = 256 then e\<lparr>e_cyclic_result := Some sample_packet\<rparr> else e)
          in case engine_service_work 0 (\<lambda>_ rs. rs) default_modparams sample_dev e1 w of
               None \<Rightarrow> (e1, w) | Some p \<Rightarrow> p))"

lemma sample_sleeps: "sleeps default_modparams (sample_cyc_env\<lparr>cyc_wait := \<lambda>_ e w. sample_sleep (e, w)\<rparr>)"
proof -
  have "(sleeping default_modparams)\<^sup>*\<^sup>* (e, w) (sample_sleep (e, w))" for e w
  proof (cases "e_cyclic_result e")
    case None
    then show ?thesis by (simp add: sample_sleep_def)
  next
    case (Some rs)
    define e1 where "e1 = (if length rs = 256 then e\<lparr>e_cyclic_result := Some sample_packet\<rparr> else e)"
    have l: "length sample_packet = 256" by (simp add: sample_packet_def)
    have "(sleeping default_modparams)\<^sup>*\<^sup>* (e, w) (e1, w)"
    proof (cases "length rs = 256")
      case True
      then show ?thesis unfolding e1_def using sleeping.dma[OF Some, of sample_packet default_modparams w] l by auto
    qed (simp add: e1_def)
    moreover have "(sleeping default_modparams)\<^sup>*\<^sup>* (e1, w)
        (case engine_service_work 0 (\<lambda>_ rs. rs) default_modparams sample_dev e1 w of None \<Rightarrow> (e1, w) | Some p \<Rightarrow> p)"
    proof (cases "engine_service_work 0 (\<lambda>_ rs. rs) default_modparams sample_dev e1 w")
      case (Some p)
      have "\<not> poll_mode default_modparams" by (simp add: default_modparams_def)
      then have "sleeping default_modparams (e1, w) (fst p, snd p)"
        by (intro sleeping.work[of 0 "\<lambda>_ rs. rs" _ sample_dev]) (simp_all add: Some)
      then show ?thesis by (simp add: Some)
    qed simp
    ultimately show ?thesis by (simp add: sample_sleep_def Some e1_def[symmetric] Let_def)
  qed
  then show ?thesis by (simp add: sleeps_def)
qed

theorem cyclic_read_returns_in_bounds_witness:
  "\<exists>rc e' ubuf' w'. xdma_engine_read_cyclic (sample_cyc_env\<lparr>cyc_wait := \<lambda>_ e w. sample_sleep (e, w)\<rparr>)
     default_modparams sample_cyclic 100 (\<lambda>_. 7) sample_world = Some (rc, e', ubuf', w') \<and> ubuf' 100 = 7"
proof -
  have h: "e_magic sample_cyclic = MAGIC_ENGINE" "e_cyclic_req sample_cyclic \<noteq> None" "(100 :: nat) < 2 ^ 32"
    by (simp_all add: sample_cyclic_def sample_engine_def)
  have p: "\<not> poll_mode default_modparams" by (simp add: default_modparams_def)
  have f: "cyc_fuel (sample_cyc_env\<lparr>cyc_wait := \<lambda>_ e w. sample_sleep (e, w)\<rparr>) = Suc 9"
    "\<And>n rs. length (cyc_dma (sample_cyc_env\<lparr>cyc_wait := \<lambda>_ e w. sample_sleep (e, w)\<rparr>) n rs) = length rs"
    by (simp_all add: sample_cyc_env_def)
  from cyclic_read_returns_in_bounds[OF sample_cyclic_ok(1) h sample_sleeps _ f(2,1), of "\<lambda>_. 7" sample_world] p
  show ?thesis by auto
qed

section \<open>Polls that never end\<close>

text \<open>The scan of a ring that has overrun does nothing.\<close>

lemma overrun_scan:
  assumes "cyc_ok e" "e_rx_overrun e"
  shows "engine_ring_process e = Some (0, e)"
proof -
  obtain rs where rs: "e_cyclic_result e = Some rs" "length rs = 256" "0 \<le> e_rx_tail e" "e_rx_tail e < 256"
    using assms(1) by (auto simp: cyc_ok_def)
  have "e\<lparr>e_rx_tail := e_rx_tail e, e_rx_overrun := e_rx_overrun e\<rparr> = e" by simp
  then show ?thesis
    using assms(2) rs by (simp add: engine_ring_process_def ring_loop_overrun)
qed

lemma after_reads_snoc: "after_reads a (Suc n) w = snd (read_register a (after_reads a n w))"
  by (induction n arbitrary: w) simp_all

lemma overrun_look:
  assumes "cyc_ok e" "e_rx_overrun e" "e_poll_mode_addr_virt e = Some wb" "\<And>l. hw w l wb AND WB_ERR_MASK = 0"
    and "\<And>n rs. length (dma n rs) = length rs"
  shows "\<exists>rs. cyclic_poll_loop (k + fuel) dma 0 0 e w =
      cyclic_poll_loop fuel dma k 0 (e\<lparr>e_cyclic_result := Some rs\<rparr>) (after_reads wb k w) \<and> length rs = 256"
proof (induction k arbitrary: fuel)
  case 0
  obtain rs where rs: "e_cyclic_result e = Some rs" "length rs = 256" using assms(1) by (auto simp: cyc_ok_def)
  have "e\<lparr>e_cyclic_result := e_cyclic_result e\<rparr> = e" by simp
  then have "e\<lparr>e_cyclic_result := Some rs\<rparr> = e" unfolding rs(1) .
  then show ?case using rs(2) by (intro exI[of _ rs]) simp
next
  case (Suc k)
  obtain rs where IH: "cyclic_poll_loop (k + Suc fuel) dma 0 0 e w =
      cyclic_poll_loop (Suc fuel) dma k 0 (e\<lparr>e_cyclic_result := Some rs\<rparr>) (after_reads wb k w)" "length rs = 256"
    using Suc.IH by blast
  let ?e = "e\<lparr>e_cyclic_result := Some (dma k rs)\<rparr>"
  have ok: "cyc_ok ?e" "e_rx_overrun ?e" using assms(1,2,5) IH(2) by (simp_all add: cyc_ok_def)
  have h: "fst (read_register wb (after_reads wb k w)) AND WB_ERR_MASK = 0"
    using assms(4) after_reads_frame[of wb k w] by (simp add: fst_read)
  have "cyclic_poll_loop (Suc fuel) dma k 0 (e\<lparr>e_cyclic_result := Some rs\<rparr>) (after_reads wb k w) =
      cyclic_poll_loop fuel dma (Suc k) 0 ?e (after_reads wb (Suc k) w)"
    using h unfolding after_reads_snoc
    by (subst cyclic_poll_loop.simps)
      (simp add: assms(3) overrun_scan[OF ok] case_prod_beta Let_def del: cyclic_poll_loop.simps)
  then show ?case using IH assms(5) by (intro exI[of _ "dma k rs"]) simp
qed

text \<open>C14: A faulty result in a ring that has overrun makes the read return \<^verbatim>\<open>-EIO\<close> with the
  overrun still set. In polled mode the next read then never returns, whatever the device
  writes into the ring, unless it raises the error bit of the write-back: the scan does
  nothing while the overrun is set, so that after any number of looks the loop, which runs
  under the lock of the engine, is where it was.\<close>

theorem polled_read_after_overrun_hangs:
  assumes "cyc_ok e" "e_rx_overrun e" "e_cyclic_result e = Some rs"
    and "take_packet (visible True rs (e_rx_head e) (e_rx_tail e)) = (True, ep, l, c)"
    and "e_magic e = MAGIC_ENGINE" "e_cyclic_req e \<noteq> None" "poll_mode mp"
    and "e_poll_mode_addr_virt e = Some wb" "\<And>l. hw w l wb AND WB_ERR_MASK = 0"
    and "\<And>n rs. length (cyc_dma env n rs) = length rs"
  shows "\<exists>e1. complete_cyclic pages ok e count ubuf w = Some (- EIO, e1, ubuf, w) \<and> e_rx_overrun e1 \<and>
    (\<forall>fuel count' ubuf'. xdma_engine_read_cyclic (env\<lparr>cyc_fuel := fuel\<rparr>) mp e1 count' ubuf' w = None) \<and>
    (\<forall>k fuel. \<exists>rs'. cyclic_poll_loop (k + fuel) (cyc_dma env) 0 0 e1 w =
       cyclic_poll_loop fuel (cyc_dma env) k 0 (e1\<lparr>e_cyclic_result := Some rs'\<rparr>) (after_reads wb k w))"
proof -
  obtain rs' where c: "cyc_ok (taken e rs' c ep)"
    "complete_cyclic pages ok e count ubuf w = Some (- EIO, taken e rs' c ep, ubuf, w)"
    using complete_cyclic_eq[of e rs True ep l c pages ok count ubuf w] assms(1-4) by auto
  define e1 where "e1 = taken e rs' c ep"
  have e1: "e_rx_overrun e1" "e_poll_mode_addr_virt e1 = Some wb" "e_magic e1 = MAGIC_ENGINE" "e_cyclic_req e1 \<noteq> None"
    using assms(2,5,6,8) by (simp_all add: e1_def taken_def Let_def)
  have ok1: "cyc_ok e1" using c(1) by (simp add: e1_def)
  let ?e = "e1\<lparr>e_user_buffer_index := 0\<rparr>"
  have ok: "cyc_ok ?e" "e_rx_overrun ?e" "e_poll_mode_addr_virt ?e = Some wb" "reading_ok mp ?e"
    using ok1 e1 by (simp_all add: cyc_ok_def reading_ok_def)
  have "xdma_engine_read_cyclic (env\<lparr>cyc_fuel := fuel\<rparr>) mp e1 count' ubuf' w = None" for fuel count' ubuf'
  proof -
    have "cyclic_poll_loop fuel (cyc_dma env) 0 0 ?e w = None"
      using overrun_look[where dma = "cyc_dma env", OF ok(1-3) assms(9,10), of fuel 0] by auto
    then have "engine_service_poll fuel (cyc_late env) (cyc_dma env) mp ?e 0 w = None"
      unfolding poll_is_loop[OF ok(4) assms(7)] by simp
    then have "monitor_polls (env\<lparr>cyc_fuel := fuel\<rparr>) mp (Suc 4) ?e w = None"
      unfolding monitor_polls.simps by simp
    then have "monitor_polls (env\<lparr>cyc_fuel := fuel\<rparr>) mp 5 ?e w = None"
      by (simp only: eval_nat_numeral)
    then have m: "transfer_monitor_cyclic (env\<lparr>cyc_fuel := fuel\<rparr>) mp x 0 ?e w = None" for x
      using assms(7) by (simp add: transfer_monitor_cyclic_def del: monitor_polls.simps)
    have "read_rounds (env\<lparr>cyc_fuel := fuel\<rparr>) mp x (Suc 10) 0 0 ?e count' ubuf' w = None" for x
      unfolding read_rounds.simps m by simp
    then have "read_rounds (env\<lparr>cyc_fuel := fuel\<rparr>) mp x 11 0 0 ?e count' ubuf' w = None" for x
      by (simp only: eval_nat_numeral)
    then show ?thesis using e1(3) by (simp add: xdma_engine_read_cyclic_def Let_def del: read_rounds.simps)
  qed
  moreover have "\<exists>rs'. cyclic_poll_loop (k + fuel) (cyc_dma env) 0 0 e1 w =
       cyclic_poll_loop fuel (cyc_dma env) k 0 (e1\<lparr>e_cyclic_result := Some rs'\<rparr>) (after_reads wb k w)" for k fuel
    using overrun_look[where dma = "cyc_dma env", OF ok1 e1(1,2) assms(9,10)] by blast
  ultimately show ?thesis using c(2) e1(1) unfolding e1_def by blast
qed

text \<open>An overrun ring of empty results.\<close>

theorem polled_read_after_overrun_hangs_witness:
  "\<exists>e1. complete_cyclic sample_pages (\<lambda>_ _. True)
      (sample_cyclic\<lparr>e_cyclic_result := Some (replicate 256 zero_result), e_rx_overrun := True, e_poll_mode_addr_virt := Some 0x40\<rparr>)
      100 (\<lambda>_. 7) sample_world = Some (- 5, e1, (\<lambda>_. 7), sample_world) \<and>
    xdma_engine_read_cyclic sample_cyc_env (default_modparams\<lparr>poll_mode := True\<rparr>) e1 100 (\<lambda>_. 7) sample_world = None"
proof -
  let ?e = "sample_cyclic\<lparr>e_cyclic_result := Some (replicate 256 zero_result), e_rx_overrun := True, e_poll_mode_addr_virt := Some 0x40\<rparr>"
  have t: "take_packet (visible True (replicate 256 zero_result) (e_rx_head ?e) (e_rx_tail ?e)) = (True, False, 0, 1)"
  proof -
    have h: "(replicate 256 zero_result) ! ring_idx h 0 = zero_result" for h by (rule nth_replicate) simp
    have "ring_list (replicate 256 zero_result) h (Suc 255) = zero_result # ring_list (replicate 256 zero_result) ((h + 1) mod 256) 255" for h
      unfolding ring_list_Suc h ..
    then show ?thesis by (simp add: visible_def)
  qed
  have o1: "cyc_ok ?e" "e_rx_overrun ?e" "e_cyclic_result ?e = Some (replicate 256 zero_result)"
    "e_magic ?e = MAGIC_ENGINE" "e_cyclic_req ?e \<noteq> None" "poll_mode (default_modparams\<lparr>poll_mode := True\<rparr>)"
    "e_poll_mode_addr_virt ?e = Some 0x40" "\<And>l. hw sample_world l 0x40 AND WB_ERR_MASK = 0"
    "\<And>n rs. length (cyc_dma sample_cyc_env n rs) = length rs"
    using sample_cyclic_ok(1)
    by (simp_all add: cyc_ok_def sample_cyclic_def sample_engine_def sample_world_def sample_cyc_env_def)
  have "sample_cyc_env\<lparr>cyc_fuel := 10\<rparr> = sample_cyc_env" by (simp add: sample_cyc_env_def)
  then show ?thesis
    using polled_read_after_overrun_hangs[OF o1(1-3) t o1(4-9), of sample_pages "\<lambda>_ _. True" 100 "\<lambda>_. 7"]
    by metis
qed

section \<open>Packets longer than the buffer\<close>

text \<open>C26: The value of a cyclic read is the length of the packet even where the buffer was
  shorter: a first packet longer than the buffer makes \<^verbatim>\<open>read\<close> report more bytes than it was
  asked for.\<close>

theorem cyclic_read_overreports:
  assumes "cyc_ok e" "e_magic e = MAGIC_ENGINE" "\<not> poll_mode mp" "count < 2 ^ 32"
    and "e_cyclic_req e \<noteq> None \<or> read_ready mp e"
    and "cyc_wait env 0 (e\<lparr>e_user_buffer_index := 0\<rparr>) w = (e1, w1)" "cyc_ok e1" "e_user_buffer_index e1 = 0"
    and "e_cyclic_result e1 = Some rs" "\<And>i n. user_ok env i n"
    and "take_packet (visible (e_rx_overrun e1) rs (e_rx_head e1) (e_rx_tail e1)) = (False, True, l, c)" "count < l"
  shows "\<exists>e' w'. xdma_engine_read_cyclic env mp e count ubuf w =
    Some (int l, e', copied (nat (e_rx_head e1)) 0 count (page_mem env 0) ubuf, w') \<and> int count < int l"
proof -
  have i: "unat (e_user_buffer_index e1) \<le> count" "count = min l (count - unat (e_user_buffer_index e1))"
    using assms(8,12) by simp_all
  obtain rs' where c: "complete_cyclic (page_mem env 0) (user_ok env) e1 count ubuf w1 =
       (if False then Some (- EIO, taken e1 rs' c True, ubuf, w1)
        else Some (int l, (taken e1 rs' c True)\<lparr>e_user_buffer_index := e_user_buffer_index e1 + of_nat count, e_rx_overrun := False\<rparr>,
               copied (nat (e_rx_head e1)) (unat (e_user_buffer_index e1)) count (page_mem env 0) ubuf,
               if 0 < l then write_register (of_nat c) (sreg e1 SG_credits) w1 else w1))"
    using cyclic_takes[OF assms(7,9,11,4) i(1) _ i(2), of "user_ok env"] assms(10) by blast
  have m: "transfer_monitor_cyclic env mp (e_cyclic_req e) 0 (e\<lparr>e_user_buffer_index := 0\<rparr>) w = Some (0, e1, w1)"
    using assms(1,3,5,6) by (auto simp: transfer_monitor_cyclic_def cyc_ok_def read_ready_def)
  have p: "e_eop_found (taken e1 rs' c True)" by (simp add: taken_def Let_def)
  have "read_rounds env mp (e_cyclic_req e) (Suc 10) 0 0 (e\<lparr>e_user_buffer_index := 0\<rparr>) count ubuf w =
      Some (int l, (taken e1 rs' c True)\<lparr>e_user_buffer_index := of_nat count, e_rx_overrun := False\<rparr>,
        copied (nat (e_rx_head e1)) 0 count (page_mem env 0) ubuf, write_register (of_nat c) (sreg e1 SG_credits) w1)"
    unfolding read_rounds.simps using m c p assms(8,12) by simp
  then show ?thesis using assms(2,12) by (simp add: xdma_engine_read_cyclic_def Let_def del: read_rounds.simps)
qed

theorem cyclic_read_overreports_witness:
  "\<exists>e' w'. xdma_engine_read_cyclic sample_cyc_env default_modparams sample_cyclic 100 (\<lambda>_. 7) sample_world =
     Some (4196, e', copied 0 0 100 sample_pages (\<lambda>_. 7), w')"
proof -
  have z: "sample_cyclic\<lparr>e_user_buffer_index := 0\<rparr> = sample_cyclic" "e_user_buffer_index sample_cyclic = 0"
    by (simp_all add: sample_cyclic_def sample_engine_def)
  have h: "e_magic sample_cyclic = MAGIC_ENGINE" "\<not> poll_mode default_modparams" "(100 :: nat) < 2 ^ 32"
    by (simp_all add: sample_cyclic_def sample_engine_def default_modparams_def)
  have q: "e_cyclic_req sample_cyclic \<noteq> None \<or> read_ready default_modparams sample_cyclic"
    by (simp add: sample_cyclic_def)
  have c: "cyc_wait sample_cyc_env 0 (sample_cyclic\<lparr>e_user_buffer_index := 0\<rparr>) sample_world = (sample_cyclic, sample_world)"
    by (simp add: z sample_cyc_env_def)
  have u: "user_ok sample_cyc_env i n" for i n by (simp add: sample_cyc_env_def)
  have l: "(100 :: nat) < 4196" by simp
  have p: "page_mem sample_cyc_env 0 = sample_pages" "nat (e_rx_head sample_cyclic) = 0"
    by (simp_all add: sample_cyc_env_def sample_cyclic_def)
  show ?thesis
    using cyclic_read_overreports[OF sample_cyclic_ok(1) h q c sample_cyclic_ok(1) z(2) sample_cyclic_ok(2) u sample_take l,
        of "\<lambda>_. 7"] unfolding p by simp
qed

end
