(* ===== verification/Chardev.thy ===== *)
theory Chardev
  imports Device
begin

text \<open>
  The character devices (xdma_cdev.c, xdma_mod.h): the structures of the module, the check of
  a file's device, \<^verbatim>\<open>create_xcdev\<close> and \<^verbatim>\<open>destroy_xcdev\<close>, and the interfaces of a PCI device.

  A pointer to the device is its address, and the device there is an argument; a pointer to
  an engine is its direction and index in the arrays of the device.  What the kernel
  answers is in \<^verbatim>\<open>cdev_env\<close>.  Registering and removing devices are events of the trace.
\<close>

unbundle bit_operations_syntax

definition MAGIC_CHAR :: u64 where [const_defs]: "MAGIC_CHAR = 0xCCCCCCCC"
definition XVC_BAR_OFFSET_DFLT :: u64 where [const_defs]: "XVC_BAR_OFFSET_DFLT = 0x40000"

section \<open>Structures\<close>

datatype cdev_type =
  CHAR_USER | CHAR_CTRL | CHAR_XVC | CHAR_EVENTS | CHAR_XDMA_H2C | CHAR_XDMA_C2H
| CHAR_BYPASS_H2C | CHAR_BYPASS_C2H | CHAR_BYPASS

fun cdev_type_val :: "cdev_type \<Rightarrow> nat" where
  "cdev_type_val CHAR_USER = 0"
| "cdev_type_val CHAR_CTRL = 1"
| "cdev_type_val CHAR_XVC = 2"
| "cdev_type_val CHAR_EVENTS = 3"
| "cdev_type_val CHAR_XDMA_H2C = 4"
| "cdev_type_val CHAR_XDMA_C2H = 5"
| "cdev_type_val CHAR_BYPASS_H2C = 6"
| "cdev_type_val CHAR_BYPASS_C2H = 7"
| "cdev_type_val CHAR_BYPASS = 8"

text \<open>The name of a node: the format of the type with the device index and a last number.\<close>

fun devnode_name :: "cdev_type \<Rightarrow> nat \<Rightarrow> nat \<Rightarrow> string" where
  "devnode_name CHAR_USER i n = ''xdma'' @ dec i @ ''_user''"
| "devnode_name CHAR_CTRL i n = ''xdma'' @ dec i @ ''_control''"
| "devnode_name CHAR_XVC i n = ''xdma'' @ dec i @ ''_xvc''"
| "devnode_name CHAR_EVENTS i n = ''xdma'' @ dec i @ ''_events_'' @ dec n"
| "devnode_name CHAR_XDMA_H2C i n = ''xdma'' @ dec i @ ''_h2c_'' @ dec n"
| "devnode_name CHAR_XDMA_C2H i n = ''xdma'' @ dec i @ ''_c2h_'' @ dec n"
| "devnode_name CHAR_BYPASS_H2C i n = ''xdma'' @ dec i @ ''_bypass_h2c_'' @ dec n"
| "devnode_name CHAR_BYPASS_C2H i n = ''xdma'' @ dec i @ ''_bypass_c2h_'' @ dec n"
| "devnode_name CHAR_BYPASS i n = ''xdma'' @ dec i @ ''_bypass''"

datatype xpdev_flags_bits =
  XDF_CDEV_USER | XDF_CDEV_CTRL | XDF_CDEV_XVC | XDF_CDEV_EVENT | XDF_CDEV_SG | XDF_CDEV_BYPASS

fun flag_bit :: "xpdev_flags_bits \<Rightarrow> nat" where
  "flag_bit XDF_CDEV_USER = 0"
| "flag_bit XDF_CDEV_CTRL = 1"
| "flag_bit XDF_CDEV_XVC = 2"
| "flag_bit XDF_CDEV_EVENT = 3"
| "flag_bit XDF_CDEV_SG = 4"
| "flag_bit XDF_CDEV_BYPASS = 5"

record xdma_cdev =
  c_magic :: u64
  c_xdev :: "nat option"
  c_major :: nat
  c_minor :: nat
  c_name :: string
  c_bar :: int
  c_base :: u64
  c_engine :: "(dma_dir \<times> nat) option"
  c_user_irq :: "nat option"
  c_sys_device :: bool
  c_lock :: bool

definition zero_cdev :: xdma_cdev where
  "zero_cdev = \<lparr>c_magic = 0, c_xdev = None, c_major = 0, c_minor = 0, c_name = [], c_bar = 0,
     c_base = 0, c_engine = None, c_user_irq = None, c_sys_device = False, c_lock = False\<rparr>"

record xdma_pci_dev =
  x_magic :: u64
  x_pdev :: nat
  x_xdev :: "nat option"
  x_major :: nat
  x_user_max :: nat
  x_c2h_channel_max :: nat
  x_h2c_channel_max :: nat
  x_flags :: u32
  x_ctrl :: xdma_cdev
  x_sgdma_c2h :: "xdma_cdev list"
  x_sgdma_h2c :: "xdma_cdev list"
  x_events :: "xdma_cdev list"
  x_user :: xdma_cdev
  x_bypass_c2h :: "xdma_cdev list"
  x_bypass_h2c :: "xdma_cdev list"
  x_bypass_base :: xdma_cdev
  x_xvc :: xdma_cdev

text \<open>
  The kernel: the result of allocating a device region and its major number, of naming an
  object, of adding a character device with a minor number, of making the node.  The
  variable \<^verbatim>\<open>dev\<close> of \<^verbatim>\<open>create_xcdev\<close> is set only when a region is allocated;
  \<^verbatim>\<open>stale_major\<close> is what it holds otherwise.
\<close>

record cdev_env =
  chrdev_rv :: "kevent list \<Rightarrow> int"
  chrdev_major :: "kevent list \<Rightarrow> nat"
  stale_major :: nat
  name_rv :: "string \<Rightarrow> int"
  cdev_add_rv :: "kevent list \<Rightarrow> nat \<Rightarrow> int"
  sysdev_ok :: "kevent list \<Rightarrow> nat \<Rightarrow> bool"
  class_made :: bool

definition xpdev_flag_set :: "xpdev_flags_bits \<Rightarrow> xdma_pci_dev \<Rightarrow> xdma_pci_dev" where
  "xpdev_flag_set f xp = xp\<lparr>x_flags := x_flags xp OR push_bit (flag_bit f) 1\<rparr>"

definition xcdev_flag_clear :: "xpdev_flags_bits \<Rightarrow> xdma_pci_dev \<Rightarrow> xdma_pci_dev" where
  "xcdev_flag_clear f xp = xp\<lparr>x_flags := x_flags xp AND NOT (push_bit (flag_bit f) 1)\<rparr>"

definition xpdev_flag_test :: "xpdev_flags_bits \<Rightarrow> xdma_pci_dev \<Rightarrow> bool" where
  "xpdev_flag_test f xp \<longleftrightarrow> x_flags xp AND push_bit (flag_bit f) 1 \<noteq> 0"

section \<open>The check of a file\<close>

definition engine_at :: "xdma_dev \<Rightarrow> (dma_dir \<times> nat) option \<Rightarrow> xdma_engine option" where
  "engine_at d r = Option.bind r (\<lambda>(dir, i). arr_get (int i) (engines_of d dir))"

definition xcdev_check :: "xdma_cdev option \<Rightarrow> xdma_dev \<Rightarrow> bool \<Rightarrow> int" where
  "xcdev_check xcdev d check_engine =
     (case xcdev of
        None \<Rightarrow> - EINVAL
      | Some c \<Rightarrow>
          if c_magic c \<noteq> MAGIC_CHAR then - EINVAL
          else if c_xdev c = None \<or> d_magic d \<noteq> MAGIC_DEVICE then - EINVAL
          else if check_engine then
            (case engine_at d (c_engine c) of
               None \<Rightarrow> - EINVAL
             | Some engine \<Rightarrow> if e_magic engine \<noteq> MAGIC_ENGINE then - EINVAL else 0)
          else 0)"

text \<open>Opening returns the private data of the file, the device itself.\<close>

definition char_open :: "xdma_cdev \<Rightarrow> (int \<times> xdma_cdev) option" where
  "char_open xcdev = do {
     BUG_ON (c_magic xcdev \<noteq> MAGIC_CHAR);
     Some (0, xcdev)
   }"

definition char_close :: "xdma_cdev option \<Rightarrow> xdma_dev \<Rightarrow> int option" where
  "char_close file d = do {
     xcdev \<leftarrow> file;
     BUG_ON (c_magic xcdev \<noteq> MAGIC_CHAR);
     BUG_ON (c_xdev xcdev = None);
     BUG_ON (d_magic d \<noteq> MAGIC_DEVICE);
     Some 0
   }"

section \<open>One character device\<close>

definition config_kobject ::
  "cdev_env \<Rightarrow> xdma_dev \<Rightarrow> cdev_type \<Rightarrow> xdma_cdev \<Rightarrow> (int \<times> xdma_cdev) option" where
  "config_kobject env d type xcdev =
     (let named = (\<lambda>n. let s = devnode_name type (nat (d_idx d)) n
                       in Some (name_rv env s, xcdev\<lparr>c_name := s\<rparr>)) in
      if type \<in> {CHAR_XDMA_H2C, CHAR_XDMA_C2H, CHAR_BYPASS_H2C, CHAR_BYPASS_C2H} then do {
        engine \<leftarrow> engine_at d (c_engine xcdev);
        named (e_channel engine)
      }
      else if type = CHAR_EVENTS then named (nat (c_bar xcdev))
      else named 0)"

definition create_sys_device ::
  "cdev_env \<Rightarrow> xdma_cdev \<Rightarrow> world \<Rightarrow> int \<times> xdma_cdev \<times> world" where
  "create_sys_device env xcdev w =
     (if sysdev_ok env (ktrace w) (c_minor xcdev)
      then (0, xcdev\<lparr>c_sys_device := True\<rparr>, kcall (SysDevAdded (c_major xcdev) (c_minor xcdev)) w)
      else (- 1, xcdev\<lparr>c_sys_device := False\<rparr>, w))"

definition destroy_xcdev :: "cdev_env \<Rightarrow> xdma_cdev \<Rightarrow> world \<Rightarrow> (int \<times> world) option" where
  "destroy_xcdev env cdev w =
     (if c_magic cdev \<noteq> MAGIC_CHAR then Some (0, w)
      else do {
        BUG_ON (c_xdev cdev = None);
        BUG_ON (\<not> class_made env);
        BUG_ON (\<not> c_sys_device cdev);
        let w = (if c_sys_device cdev then kcall (SysDevRemoved (c_major cdev) (c_minor cdev)) w else w);
        let w = kcall (CharDevRemoved (c_major cdev) (c_minor cdev)) w;
        Some (0, w)
      })"

text \<open>The minor number and the fields that the operations of each type set.\<close>

definition cdev_minor :: "cdev_type \<Rightarrow> int \<Rightarrow> nat \<Rightarrow> nat" where
  "cdev_minor type bar channel =
     (case type of
        CHAR_USER \<Rightarrow> cdev_type_val type
      | CHAR_CTRL \<Rightarrow> cdev_type_val type
      | CHAR_XVC \<Rightarrow> cdev_type_val type
      | CHAR_XDMA_H2C \<Rightarrow> 32 + channel
      | CHAR_XDMA_C2H \<Rightarrow> 36 + channel
      | CHAR_EVENTS \<Rightarrow> nat (10 + bar)
      | CHAR_BYPASS_H2C \<Rightarrow> 64 + channel
      | CHAR_BYPASS_C2H \<Rightarrow> 68 + channel
      | CHAR_BYPASS \<Rightarrow> 100)"

definition cdev_type_init :: "cdev_type \<Rightarrow> xdma_cdev \<Rightarrow> xdma_cdev" where
  "cdev_type_init type xcdev =
     (if type = CHAR_XVC then xcdev\<lparr>c_base := XVC_BAR_OFFSET_DFLT\<rparr>
      else if type = CHAR_EVENTS then xcdev\<lparr>c_user_irq := Some (nat (c_bar xcdev))\<rparr>
      else xcdev)"

text \<open>Bringing the device live, and undoing it on failure: \<^verbatim>\<open>dev\<close> is the region given back.\<close>

definition add_xcdev ::
  "cdev_env \<Rightarrow> nat \<Rightarrow> xdma_pci_dev \<Rightarrow> xdma_cdev \<Rightarrow> world \<Rightarrow> int \<times> xdma_pci_dev \<times> xdma_cdev \<times> world" where
  "add_xcdev env dev xpdev xcdev w =
     (let rv = cdev_add_rv env (ktrace w) (c_minor xcdev)
      in if rv < 0 then (rv, xpdev, xcdev, kcall (ChrdevRegionFreed dev) w)
         else
           (let w = kcall (CharDevAdded (c_major xcdev) (c_minor xcdev)) w
            in if class_made env then
                 (let (rv, xcdev, w) = create_sys_device env xcdev w
                  in if rv < 0 then
                       (rv, xpdev, xcdev,
                        kcall (ChrdevRegionFreed dev) (kcall (CharDevRemoved (c_major xcdev) (c_minor xcdev)) w))
                     else (0, xpdev, xcdev, w))
               else (0, xpdev, xcdev, w)))"

text \<open>A region is allocated for the first device only.\<close>

definition get_region ::
  "cdev_env \<Rightarrow> xdma_pci_dev \<Rightarrow> world \<Rightarrow> int \<times> nat \<times> xdma_pci_dev \<times> world" where
  "get_region env xpdev w =
     (if x_major xpdev = 0 then
        (let rv = chrdev_rv env (ktrace w); major = chrdev_major env (ktrace w)
         in if rv \<noteq> 0 then (rv, stale_major env, xpdev, w)
            else (0, major, xpdev\<lparr>x_major := major\<rparr>, kcall (ChrdevRegion major) w))
      else (0, stale_major env, xpdev, w))"

definition create_xcdev ::
  "cdev_env \<Rightarrow> xdma_dev \<Rightarrow> xdma_pci_dev \<Rightarrow> xdma_cdev \<Rightarrow> int \<Rightarrow> (dma_dir \<times> nat) option \<Rightarrow> cdev_type \<Rightarrow>
   world \<Rightarrow> (int \<times> xdma_pci_dev \<times> xdma_cdev \<times> world) option" where
  "create_xcdev env d xpdev xcdev bar engine type w =
     (let xcdev = xcdev\<lparr>c_lock := False\<rparr>;
          (rv, dev, xpdev, w) = get_region env xpdev w
      in if rv \<noteq> 0 then Some (rv, xpdev, xcdev, w)
      else do {
        let xcdev = xcdev\<lparr>c_magic := MAGIC_CHAR, c_xdev := x_xdev xpdev, c_engine := engine, c_bar := bar\<rparr>;
        BUG_ON (x_xdev xpdev = None);
        (rv, xcdev) \<leftarrow> config_kobject env d type xcdev;
        if rv < 0 then Some (rv, xpdev, xcdev, w)
        else do {
          let channel = (case engine_at d engine of None \<Rightarrow> 0 | Some e \<Rightarrow> e_channel e);
          let xcdev = (cdev_type_init type xcdev)
            \<lparr>c_major := x_major xpdev, c_minor := cdev_minor type bar channel\<rparr>;
          Some (add_xcdev env dev xpdev xcdev w)
        }
      })"

section \<open>The interfaces of a PCI device\<close>

text \<open>The array of a type of device, and its update.\<close>

definition cdevs_of :: "cdev_type \<Rightarrow> xdma_pci_dev \<Rightarrow> xdma_cdev list" where
  "cdevs_of type xp =
     (case type of
        CHAR_EVENTS \<Rightarrow> x_events xp
      | CHAR_XDMA_H2C \<Rightarrow> x_sgdma_h2c xp
      | CHAR_XDMA_C2H \<Rightarrow> x_sgdma_c2h xp
      | CHAR_BYPASS_H2C \<Rightarrow> x_bypass_h2c xp
      | CHAR_BYPASS_C2H \<Rightarrow> x_bypass_c2h xp
      | CHAR_CTRL \<Rightarrow> [x_ctrl xp]
      | CHAR_USER \<Rightarrow> [x_user xp]
      | CHAR_XVC \<Rightarrow> [x_xvc xp]
      | CHAR_BYPASS \<Rightarrow> [x_bypass_base xp])"

definition set_cdev :: "cdev_type \<Rightarrow> nat \<Rightarrow> xdma_cdev \<Rightarrow> xdma_pci_dev \<Rightarrow> xdma_pci_dev" where
  "set_cdev type i c xp =
     (case type of
        CHAR_EVENTS \<Rightarrow> xp\<lparr>x_events := (x_events xp)[i := c]\<rparr>
      | CHAR_XDMA_H2C \<Rightarrow> xp\<lparr>x_sgdma_h2c := (x_sgdma_h2c xp)[i := c]\<rparr>
      | CHAR_XDMA_C2H \<Rightarrow> xp\<lparr>x_sgdma_c2h := (x_sgdma_c2h xp)[i := c]\<rparr>
      | CHAR_BYPASS_H2C \<Rightarrow> xp\<lparr>x_bypass_h2c := (x_bypass_h2c xp)[i := c]\<rparr>
      | CHAR_BYPASS_C2H \<Rightarrow> xp\<lparr>x_bypass_c2h := (x_bypass_c2h xp)[i := c]\<rparr>
      | CHAR_CTRL \<Rightarrow> xp\<lparr>x_ctrl := c\<rparr>
      | CHAR_USER \<Rightarrow> xp\<lparr>x_user := c\<rparr>
      | CHAR_XVC \<Rightarrow> xp\<lparr>x_xvc := c\<rparr>
      | CHAR_BYPASS \<Rightarrow> xp\<lparr>x_bypass_base := c\<rparr>)"

primrec destroy_loop :: "cdev_env \<Rightarrow> cdev_type \<Rightarrow> nat \<Rightarrow> nat \<Rightarrow> xdma_pci_dev \<Rightarrow> world \<Rightarrow> world option" where
  "destroy_loop env type 0 i xp w = Some w"
| "destroy_loop env type (Suc n) i xp w = do {
     c \<leftarrow> arr_get (int i) (cdevs_of type xp);
     (_, w) \<leftarrow> destroy_xcdev env c w;
     destroy_loop env type n (Suc i) xp w
   }"

definition destroy_if ::
  "cdev_env \<Rightarrow> xpdev_flags_bits \<Rightarrow> (cdev_type \<times> nat) list \<Rightarrow> xdma_pci_dev \<Rightarrow> world \<Rightarrow> world option" where
  "destroy_if env f groups xp w =
     (if xpdev_flag_test f xp
      then fold (\<lambda>(type, n) r. Option.bind r (destroy_loop env type n 0 xp)) groups (Some w)
      else Some w)"

definition xpdev_destroy_interfaces :: "cdev_env \<Rightarrow> xdma_pci_dev \<Rightarrow> world \<Rightarrow> world option" where
  "xpdev_destroy_interfaces env xp w = do {
     w \<leftarrow> destroy_if env XDF_CDEV_SG
       [(CHAR_XDMA_H2C, x_h2c_channel_max xp), (CHAR_XDMA_C2H, x_c2h_channel_max xp)] xp w;
     w \<leftarrow> destroy_if env XDF_CDEV_EVENT [(CHAR_EVENTS, x_user_max xp)] xp w;
     w \<leftarrow> destroy_if env XDF_CDEV_CTRL [(CHAR_CTRL, 1)] xp w;
     w \<leftarrow> destroy_if env XDF_CDEV_USER [(CHAR_USER, 1)] xp w;
     w \<leftarrow> destroy_if env XDF_CDEV_XVC [(CHAR_XVC, 1)] xp w;
     w \<leftarrow> destroy_if env XDF_CDEV_BYPASS
       [(CHAR_BYPASS_H2C, x_h2c_channel_max xp), (CHAR_BYPASS_C2H, x_c2h_channel_max xp), (CHAR_BYPASS, 1)] xp w;
     Some (if x_major xp \<noteq> 0 then kcall (ChrdevRegionFreed (x_major xp)) w else w)
   }"

text \<open>Creating the device at an index of the array of its type.\<close>

definition create_at ::
  "cdev_env \<Rightarrow> xdma_dev \<Rightarrow> cdev_type \<Rightarrow> nat \<Rightarrow> int \<Rightarrow> (dma_dir \<times> nat) option \<Rightarrow> xdma_pci_dev \<Rightarrow> world \<Rightarrow>
   (int \<times> xdma_pci_dev \<times> world) option" where
  "create_at env d type i bar engine xp w = do {
     c \<leftarrow> arr_get (int i) (cdevs_of type xp);
     (rv, xp, c, w) \<leftarrow> create_xcdev env d xp c bar engine type w;
     Some (rv, set_cdev type i c xp, w)
   }"

primrec create_events ::
  "cdev_env \<Rightarrow> xdma_dev \<Rightarrow> nat \<Rightarrow> nat \<Rightarrow> xdma_pci_dev \<Rightarrow> world \<Rightarrow> (int \<times> xdma_pci_dev \<times> world) option" where
  "create_events env d 0 i xp w = Some (0, xp, w)"
| "create_events env d (Suc n) i xp w = do {
     (rv, xp, w) \<leftarrow> create_at env d CHAR_EVENTS i (int i) None xp w;
     if rv < 0 then Some (rv, xp, w) else create_events env d n (Suc i) xp w
   }"

text \<open>The loops over the channels; an engine that was not found is passed over.\<close>

primrec create_channels ::
  "cdev_env \<Rightarrow> xdma_dev \<Rightarrow> cdev_type \<Rightarrow> dma_dir \<Rightarrow> nat \<Rightarrow> nat \<Rightarrow> xdma_pci_dev \<Rightarrow> world \<Rightarrow>
   (int \<times> xdma_pci_dev \<times> world) option" where
  "create_channels env d type dir 0 i xp w = Some (0, xp, w)"
| "create_channels env d type dir (Suc n) i xp w = do {
     engine \<leftarrow> arr_get (int i) (engines_of d dir);
     if e_magic engine \<noteq> MAGIC_ENGINE then create_channels env d type dir n (Suc i) xp w
     else do {
       (rv, xp, w) \<leftarrow> create_at env d type i (int i) (Some (dir, i)) xp w;
       if rv < 0 then Some (rv, xp, w) else create_channels env d type dir n (Suc i) xp w
     }
   }"

text \<open>The next step, unless the last one failed.\<close>

definition unless_failed ::
  "(int \<times> xdma_pci_dev \<times> world) option \<Rightarrow> (xdma_pci_dev \<Rightarrow> world \<Rightarrow> (int \<times> xdma_pci_dev \<times> world) option) \<Rightarrow>
   (int \<times> xdma_pci_dev \<times> world) option" where
  "unless_failed r f = Option.bind r (\<lambda>(rv, xp, w). if rv < 0 then Some (rv, xp, w) else f xp w)"

definition create_ctrl_events ::
  "cdev_env \<Rightarrow> xdma_dev \<Rightarrow> xdma_pci_dev \<Rightarrow> world \<Rightarrow> (int \<times> xdma_pci_dev \<times> world) option" where
  "create_ctrl_events env d xp w =
     unless_failed (create_at env d CHAR_CTRL 0 (d_config_bar_idx d) None xp w) (\<lambda>xp w.
     unless_failed (create_events env d (x_user_max xp) 0 (xpdev_flag_set XDF_CDEV_CTRL xp) w) (\<lambda>xp w.
     Some (0, xpdev_flag_set XDF_CDEV_EVENT xp, w)))"

definition create_sgdma ::
  "cdev_env \<Rightarrow> xdma_dev \<Rightarrow> xdma_pci_dev \<Rightarrow> world \<Rightarrow> (int \<times> xdma_pci_dev \<times> world) option" where
  "create_sgdma env d xp w =
     unless_failed (create_channels env d CHAR_XDMA_H2C DMA_TO_DEVICE (x_h2c_channel_max xp) 0 xp w) (\<lambda>xp w.
     unless_failed (create_channels env d CHAR_XDMA_C2H DMA_FROM_DEVICE (x_c2h_channel_max xp) 0 xp w) (\<lambda>xp w.
     Some (0, xpdev_flag_set XDF_CDEV_SG xp, w)))"

definition create_bypass ::
  "cdev_env \<Rightarrow> xdma_dev \<Rightarrow> xdma_pci_dev \<Rightarrow> world \<Rightarrow> (int \<times> xdma_pci_dev \<times> world) option" where
  "create_bypass env d xp w =
     (if d_bypass_bar_idx d > 0 then
        unless_failed (create_channels env d CHAR_BYPASS_H2C DMA_TO_DEVICE (x_h2c_channel_max xp) 0 xp w) (\<lambda>xp w.
        unless_failed (create_channels env d CHAR_BYPASS_C2H DMA_FROM_DEVICE (x_c2h_channel_max xp) 0 xp w) (\<lambda>xp w.
        unless_failed (create_at env d CHAR_BYPASS 0 (d_bypass_bar_idx d) None xp w) (\<lambda>xp w.
        Some (0, xpdev_flag_set XDF_CDEV_BYPASS xp, w))))
      else Some (0, xp, w))"

definition create_user ::
  "cdev_env \<Rightarrow> xdma_dev \<Rightarrow> xdma_pci_dev \<Rightarrow> world \<Rightarrow> (int \<times> xdma_pci_dev \<times> world) option" where
  "create_user env d xp w =
     (if d_user_bar_idx d \<ge> 0 then
        unless_failed (create_at env d CHAR_USER 0 (d_user_bar_idx d) None xp w) (\<lambda>xp w.
        unless_failed (create_at env d CHAR_XVC 0 (d_user_bar_idx d) None (xpdev_flag_set XDF_CDEV_USER xp) w) (\<lambda>xp w.
        Some (0, xpdev_flag_set XDF_CDEV_XVC xp, w)))
      else Some (0, xp, w))"

definition xpdev_create_interfaces ::
  "cdev_env \<Rightarrow> xdma_dev \<Rightarrow> xdma_pci_dev \<Rightarrow> world \<Rightarrow> (int \<times> xdma_pci_dev \<times> world) option" where
  "xpdev_create_interfaces env d xp w = do {
     (rv, xp, w) \<leftarrow>
       unless_failed (create_ctrl_events env d xp w) (\<lambda>xp w.
       unless_failed (create_sgdma env d xp w) (\<lambda>xp w.
       unless_failed (create_bypass env d xp w) (create_user env d)));
     if rv < 0 then do {
       w \<leftarrow> xpdev_destroy_interfaces env xp w;
       Some (- 1, xp, w)
     }
     else Some (0, xp, w)
   }"

definition xdma_cdev_init :: "bool \<Rightarrow> int" where
  "xdma_cdev_init class_err = (if class_err then - 1 else 0)"

end
