(* ===== verification/Sgdma.thy ===== *)
theory Sgdma
  imports Chardev Cyclic
begin

text \<open>
  The character device of an SG DMA engine (cdev_sgdma.c): seeking, the check of the
  alignment, pinning the pages of the user buffer and the table made from them, read and
  write, the ioctl calls, open and close.

  Pages are known by their numbers.  Pinning and releasing a page are events of the trace.
  What \<^verbatim>\<open>get_user_pages_fast\<close> and the allocator answer is in \<^verbatim>\<open>user_env\<close>.  An address
  of the user and a position of a file are 64-bit words, a position read as signed.
\<close>

unbundle bit_operations_syntax

section \<open>Seeking\<close>

definition char_sgdma_llseek :: "u64 \<Rightarrow> u64 \<Rightarrow> nat \<Rightarrow> int \<times> u64" where
  "char_sgdma_llseek f_pos off whence =
     (let r = (if whence = 0 then Some off
               else if whence = 1 then Some (f_pos + off)
               else if whence = 2 then Some (0xFFFFFFFF + off)
               else None)
      in case r of
           None \<Rightarrow> (- EINVAL, f_pos)
         | Some newpos \<Rightarrow> if sint newpos < 0 then (- EINVAL, f_pos) else (sint newpos, newpos))"

section \<open>Alignment\<close>

definition check_transfer_align :: "xdma_engine \<Rightarrow> u64 \<Rightarrow> u64 \<Rightarrow> u64 \<Rightarrow> bool \<Rightarrow> int" where
  "check_transfer_align engine buf count pos sync =
     (let buf_lsb = (ucast buf :: u32) AND (e_addr_align engine - 1);
          pos_lsb = (ucast pos :: u32) AND (e_addr_align engine - 1)
      in if e_non_incr_addr engine then
           (let len_lsb = count AND (scast (e_len_granularity engine) - 1)
            in if buf_lsb \<noteq> 0 then - EINVAL
               else if pos_lsb \<noteq> 0 \<and> sync then - EINVAL
               else if len_lsb \<noteq> 0 then - EINVAL
               else 0)
         else if buf_lsb \<noteq> pos_lsb then - EINVAL else 0)"

section \<open>The pages of a user buffer\<close>

record xdma_io_cb =
  io_buf :: u64
  io_len :: u64
  io_pages_nr :: u32
  io_sgt :: sg_table
  io_pages :: "nat option list option"

definition zero_io_cb :: xdma_io_cb where
  "zero_io_cb = \<lparr>io_buf = 0, io_len = 0, io_pages_nr = 0, io_sgt = \<lparr>sgl = [], nents = 0\<rparr>, io_pages = None\<rparr>"

text \<open>Whether the table and the page array can be allocated, and the pinning of pages.\<close>

record user_env =
  sgl_ok :: bool
  pages_ok :: bool
  pin_pages :: "u64 \<Rightarrow> u32 \<Rightarrow> int \<times> nat list"

primrec release_all :: "nat option list \<Rightarrow> world \<Rightarrow> world option" where
  "release_all [] w = Some w"
| "release_all (p # ps) w = do {
     p \<leftarrow> p;
     release_all ps (kcall (UserPagePut p) w)
   }"

definition xdma_io_cb_release :: "xdma_io_cb \<Rightarrow> world \<Rightarrow> (xdma_io_cb \<times> world) option" where
  "xdma_io_cb_release cb w = do {
     let n = unat (io_pages_nr cb);
     w \<leftarrow> (if n = 0 then Some w
           else do {
             pages \<leftarrow> io_pages cb;
             BUG_ON (length pages < n);
             release_all (take n pages) w
           });
     Some (zero_io_cb, w)
   }"

text \<open>At most \<^verbatim>\<open>n\<close> pages, up to the first that is not there.\<close>

primrec put_pages :: "bool \<Rightarrow> nat \<Rightarrow> nat option list \<Rightarrow> world \<Rightarrow> world option" where
  "put_pages wr n [] w = (if n = 0 then Some w else None)"
| "put_pages wr n (p # ps) w =
     (if n = 0 then Some w
      else case p of
        None \<Rightarrow> Some w
      | Some q \<Rightarrow> put_pages wr (n - 1) ps (kcall (UserPagePut q) (if \<not> wr then kcall (UserPageDirty q) w else w)))"

definition char_sgdma_unmap_user_buf :: "xdma_io_cb \<Rightarrow> bool \<Rightarrow> world \<Rightarrow> (xdma_io_cb \<times> world) option" where
  "char_sgdma_unmap_user_buf cb wr w =
     (let cb = cb\<lparr>io_sgt := \<lparr>sgl = [], nents = 0\<rparr>\<rparr>
      in case io_pages cb of
           None \<Rightarrow> Some (cb, w)
         | Some pages \<Rightarrow>
             if io_pages_nr cb = 0 then Some (cb, w)
             else do {
               w \<leftarrow> put_pages wr (unat (io_pages_nr cb)) pages w;
               Some (cb\<lparr>io_pages := None\<rparr>, w)
             })"

definition count_pages :: "u64 \<Rightarrow> u64 \<Rightarrow> u32" where
  "count_pages buf len = ucast (drop_bit 12 ((buf + len + of_nat PAGE_SIZE - 1) - (buf AND NOT 0xFFF)))"

text \<open>One entry for each page; the second component is the length that is left.\<close>

primrec fill_table :: "nat list \<Rightarrow> u64 \<Rightarrow> u64 \<Rightarrow> (u64 \<times> u32) list \<times> u64" where
  "fill_table [] buf len = ([], len)"
| "fill_table (p # ps) buf len =
     (let offset = ucast buf AND 0xFFF;
          nbytes = min (of_nat PAGE_SIZE - offset) (ucast len);
          (sg, rest) = fill_table ps (buf + ucast nbytes) (len - ucast nbytes)
      in ((of_nat (p * PAGE_SIZE) + ucast offset, nbytes) # sg, rest))"

fun adjacent_duplicates :: "nat list \<Rightarrow> bool" where
  "adjacent_duplicates (p # q # ps) \<longleftrightarrow> p = q \<or> adjacent_duplicates (q # ps)"
| "adjacent_duplicates _ \<longleftrightarrow> False"

definition pinned :: "nat list \<Rightarrow> world \<Rightarrow> world" where
  "pinned ps w = fold (\<lambda>p. kcall (UserPagePinned p)) ps w"

definition char_sgdma_map_user_buf_to_sgl ::
  "user_env \<Rightarrow> xdma_io_cb \<Rightarrow> bool \<Rightarrow> world \<Rightarrow> (int \<times> xdma_io_cb \<times> world) option" where
  "char_sgdma_map_user_buf_to_sgl env cb wr w =
     (let pages_nr = count_pages (io_buf cb) (io_len cb);
          err_out = (\<lambda>rv cb w. do {
            (cb, w) \<leftarrow> char_sgdma_unmap_user_buf cb wr w;
            Some (rv, cb, w)
          })
      in if pages_nr = 0 then Some (- EINVAL, cb, w)
         else if \<not> sgl_ok env then Some (- ENOMEM, cb, w)
         else if \<not> pages_ok env then err_out (- ENOMEM) (cb\<lparr>io_pages := None\<rparr>) w
         else
           (let (rv, ps) = pin_pages env (io_buf cb) pages_nr;
                w = pinned ps w;
                cb = cb\<lparr>io_pages := Some (map Some ps @ replicate (unat pages_nr - length ps) None)\<rparr>
            in if rv < 0 then err_out rv cb w
               else if rv \<noteq> int (unat pages_nr) then
                 err_out (- EFAULT) (cb\<lparr>io_pages_nr := word_of_int (- EFAULT)\<rparr>) w
               else if adjacent_duplicates ps then err_out (- EFAULT) (cb\<lparr>io_pages_nr := pages_nr\<rparr>) w
               else do {
                 let (sg, rest) = fill_table ps (io_buf cb) (io_len cb);
                 BUG_ON (rest \<noteq> 0);
                 Some (0, cb\<lparr>io_sgt := \<lparr>sgl = sg, nents = unat pages_nr\<rparr>, io_pages_nr := pages_nr\<rparr>, w)
               }))"

section \<open>Read and write\<close>

definition file_dev :: "xdma_cdev option \<Rightarrow> devtab \<Rightarrow> xdma_dev" where
  "file_dev file tab = dt_devs tab (case Option.bind file c_xdev of None \<Rightarrow> 0 | Some h \<Rightarrow> h)"

definition char_sgdma_read_write ::
  "user_env \<Rightarrow> submit_env \<Rightarrow> modparams \<Rightarrow> xdma_cdev option \<Rightarrow> u64 \<Rightarrow> u64 \<Rightarrow> u64 \<Rightarrow> bool \<Rightarrow> nat \<Rightarrow> devtab \<Rightarrow>
   world \<Rightarrow> (int \<times> devtab \<times> world) option" where
  "char_sgdma_read_write uenv senv mp file buf count pos wr x tab w =
     (let d = file_dev file tab; rv = xcdev_check file d True in
      if rv < 0 then Some (rv, tab, w)
      else do {
        xcdev \<leftarrow> file;
        engine \<leftarrow> engine_at d (c_engine xcdev);
        if (wr \<and> e_dir engine \<noteq> DMA_TO_DEVICE) \<or> (\<not> wr \<and> e_dir engine \<noteq> DMA_FROM_DEVICE)
        then Some (- EINVAL, tab, w)
        else
          (let rv = check_transfer_align engine buf count pos True in
           if rv \<noteq> 0 then Some (rv, tab, w)
           else do {
             let cb = zero_io_cb\<lparr>io_buf := buf, io_len := count\<rparr>;
             (rv, cb, w) \<leftarrow> char_sgdma_map_user_buf_to_sgl uenv cb wr w;
             if rv < 0 then Some (rv, tab, w)
             else do {
               (res, sgt, tab, w) \<leftarrow> xdma_xfer_submit senv mp (c_xdev xcdev) (int (e_channel engine)) wr pos
                 (io_sgt cb) False x tab w;
               (cb, w) \<leftarrow> char_sgdma_unmap_user_buf (cb\<lparr>io_sgt := sgt\<rparr>) wr w;
               Some (res, tab, w)
             }
           })
      })"

definition char_sgdma_write ::
  "user_env \<Rightarrow> submit_env \<Rightarrow> modparams \<Rightarrow> xdma_cdev option \<Rightarrow> u64 \<Rightarrow> u64 \<Rightarrow> u64 \<Rightarrow> nat \<Rightarrow> devtab \<Rightarrow>
   world \<Rightarrow> (int \<times> devtab \<times> world) option" where
  "char_sgdma_write uenv senv mp file buf count pos x tab w =
     char_sgdma_read_write uenv senv mp file buf count pos True x tab w"

text \<open>Storing the engine of a file back into its device.\<close>

definition put_engine :: "(dma_dir \<times> nat) option \<Rightarrow> xdma_engine \<Rightarrow> xdma_dev \<Rightarrow> xdma_dev" where
  "put_engine r e d = (case r of None \<Rightarrow> d | Some (dir, i) \<Rightarrow> set_engines dir ((engines_of d dir)[i := e]) d)"

definition put_file_engine :: "xdma_cdev \<Rightarrow> xdma_engine \<Rightarrow> devtab \<Rightarrow> devtab" where
  "put_file_engine c e tab =
     (case c_xdev c of None \<Rightarrow> tab | Some h \<Rightarrow> upd_dev h (put_engine (c_engine c) e) tab)"

definition char_sgdma_read ::
  "cyclic_env \<Rightarrow> user_env \<Rightarrow> submit_env \<Rightarrow> modparams \<Rightarrow> xdma_cdev option \<Rightarrow> u64 \<Rightarrow> u64 \<Rightarrow> u64 \<Rightarrow> nat \<Rightarrow>
   (nat \<Rightarrow> u8) \<Rightarrow> devtab \<Rightarrow> world \<Rightarrow> (int \<times> (nat \<Rightarrow> u8) \<times> devtab \<times> world) option" where
  "char_sgdma_read cenv uenv senv mp file buf count pos x ubuf tab w =
     (let d = file_dev file tab; rv = xcdev_check file d True in
      if rv < 0 then Some (rv, ubuf, tab, w)
      else do {
        xcdev \<leftarrow> file;
        engine \<leftarrow> engine_at d (c_engine xcdev);
        if e_streaming engine \<and> e_dir engine = DMA_FROM_DEVICE then do {
          (rv, engine, w) \<leftarrow> xdma_cyclic_transfer_setup cenv mp d x engine w;
          if rv < 0 \<and> rv \<noteq> - EBUSY then Some (rv, ubuf, put_file_engine xcdev engine tab, w)
          else do {
            (rv, engine, ubuf, w) \<leftarrow> xdma_engine_read_cyclic cenv mp engine (unat count) ubuf w;
            Some (rv, ubuf, put_file_engine xcdev engine tab, w)
          }
        }
        else do {
          (rv, tab, w) \<leftarrow> char_sgdma_read_write uenv senv mp file buf count pos False x tab w;
          Some (rv, ubuf, tab, w)
        }
      })"

section \<open>The ioctl calls\<close>

text \<open>The number of a call, from linux/ioctl.h: direction, size, magic and number.\<close>

definition IOC :: "nat \<Rightarrow> nat \<Rightarrow> nat \<Rightarrow> nat \<Rightarrow> u32" where
  "IOC dir magic nr sz = of_nat (dir * 2 ^ 30 + sz * 2 ^ 16 + magic * 2 ^ 8 + nr)"

definition IOCTL_XDMA_PERF_V1 :: u32 where [const_defs]: "IOCTL_XDMA_PERF_V1 = 1"
definition IOCTL_XDMA_PERF_START :: u32 where "IOCTL_XDMA_PERF_START = IOC 1 113 1 8"
definition IOCTL_XDMA_PERF_STOP :: u32 where "IOCTL_XDMA_PERF_STOP = IOC 1 113 2 8"
definition IOCTL_XDMA_PERF_GET :: u32 where "IOCTL_XDMA_PERF_GET = IOC 2 113 3 8"
definition IOCTL_XDMA_ADDRMODE_SET :: u32 where "IOCTL_XDMA_ADDRMODE_SET = IOC 1 113 4 4"
definition IOCTL_XDMA_ADDRMODE_GET :: u32 where "IOCTL_XDMA_ADDRMODE_GET = IOC 2 113 5 4"
definition IOCTL_XDMA_ALIGN_GET :: u32 where "IOCTL_XDMA_ALIGN_GET = IOC 2 113 6 4"

text \<open>
  What user space gives and gets: the structure as \<^verbatim>\<open>copy_from_user\<close> leaves it, the word
  \<^verbatim>\<open>get_user\<close> reads, whether copies back succeed, and what has been copied back.
\<close>

datatype ioctl_out = NoOut | PerfOut xdma_performance_ioctl | WordOut u32

record perf_env =
  perf_alloc :: bool
  perf_user :: xdma_performance_ioctl
  perf_buffer :: u64
  perf_xfer_ok :: bool
  perf_desc_mem :: "u64 option"
  user_word :: "u64 option"
  copy_back :: bool

definition ioctl_do_perf_start ::
  "perf_env \<Rightarrow> modparams \<Rightarrow> xdma_dev \<Rightarrow> nat \<Rightarrow> xdma_engine \<Rightarrow> world \<Rightarrow> (int \<times> xdma_engine \<times> world) option" where
  "ioctl_do_perf_start env mp xdev x engine w =
     (if e_xdma_perf engine \<noteq> None then Some (- EBUSY, engine, w)
      else if \<not> perf_alloc env then Some (- ENOMEM, engine, w)
      else do {
        let engine = engine\<lparr>e_xdma_perf := Some (perf_user env)\<rparr>;
        if p_version (perf_user env) \<noteq> IOCTL_XDMA_PERF_V1 then Some (- EINVAL, engine, w)
        else do {
          let w = enable_perf engine w;
          (_, engine, w) \<leftarrow> xdma_performance_submit (perf_buffer env) (perf_xfer_ok env) (perf_desc_mem env)
            mp xdev engine x w;
          Some (0, engine, w)
        }
      })"

definition ioctl_do_perf_stop ::
  "perf_env \<Rightarrow> modparams \<Rightarrow> xdma_engine \<Rightarrow> world \<Rightarrow> (int \<times> ioctl_out \<times> xdma_engine \<times> world) option" where
  "ioctl_do_perf_stop env mp engine w =
     (if e_xdma_perf engine = None then Some (- EINVAL, NoOut, engine, w)
      else do {
        (_, engine, w) \<leftarrow> engine_cyclic_stop mp engine w;
        let (engine, w) = get_perf_stats engine w;
        if \<not> copy_back env then Some (- EINVAL, NoOut, engine, w)
        else
          (let out = (case e_xdma_perf engine of None \<Rightarrow> NoOut | Some p \<Rightarrow> PerfOut p)
           in Some (0, out, engine\<lparr>e_xdma_perf := None\<rparr>, w))
      })"

definition ioctl_do_perf_get :: "perf_env \<Rightarrow> xdma_engine \<Rightarrow> world \<Rightarrow> int \<times> ioctl_out \<times> xdma_engine \<times> world" where
  "ioctl_do_perf_get env engine w =
     (if e_xdma_perf engine \<noteq> None then
        (let (engine, w) = get_perf_stats engine w
         in if \<not> copy_back env then (- EINVAL, NoOut, engine, w)
            else (0, (case e_xdma_perf engine of None \<Rightarrow> NoOut | Some p \<Rightarrow> PerfOut p), engine, w))
      else (- EPROTO, NoOut, engine, w))"

definition ioctl_do_addrmode_set :: "perf_env \<Rightarrow> xdma_engine \<Rightarrow> world \<Rightarrow> int \<times> xdma_engine \<times> world" where
  "ioctl_do_addrmode_set env engine w = engine_addrmode_set engine (user_word env) w"

definition ioctl_do_addrmode_get :: "perf_env \<Rightarrow> xdma_engine \<Rightarrow> int \<times> ioctl_out" where
  "ioctl_do_addrmode_get env engine =
     (if copy_back env then (0, WordOut (if e_non_incr_addr engine then 1 else 0)) else (- EFAULT, NoOut))"

definition ioctl_do_align_get :: "perf_env \<Rightarrow> xdma_engine \<Rightarrow> int \<times> ioctl_out" where
  "ioctl_do_align_get env engine =
     (if copy_back env then (0, WordOut (e_addr_align engine)) else (- EFAULT, NoOut))"

text \<open>The switch on the command, on the engine of the file.\<close>

definition engine_ioctl ::
  "perf_env \<Rightarrow> modparams \<Rightarrow> xdma_dev \<Rightarrow> nat \<Rightarrow> u32 \<Rightarrow> xdma_engine \<Rightarrow> world \<Rightarrow>
   (int \<times> ioctl_out \<times> xdma_engine \<times> world) option" where
  "engine_ioctl env mp xdev x cmd engine w =
     (if cmd = IOCTL_XDMA_PERF_START then do {
        (rv, engine, w) \<leftarrow> ioctl_do_perf_start env mp xdev x engine w;
        Some (rv, NoOut, engine, w)
      }
      else if cmd = IOCTL_XDMA_PERF_STOP then ioctl_do_perf_stop env mp engine w
      else if cmd = IOCTL_XDMA_PERF_GET then Some (ioctl_do_perf_get env engine w)
      else if cmd = IOCTL_XDMA_ADDRMODE_SET then
        (let (rv, engine, w) = ioctl_do_addrmode_set env engine w in Some (rv, NoOut, engine, w))
      else if cmd = IOCTL_XDMA_ADDRMODE_GET then
        (let (rv, out) = ioctl_do_addrmode_get env engine in Some (rv, out, engine, w))
      else if cmd = IOCTL_XDMA_ALIGN_GET then
        (let (rv, out) = ioctl_do_align_get env engine in Some (rv, out, engine, w))
      else Some (- EINVAL, NoOut, engine, w))"

definition char_sgdma_ioctl ::
  "perf_env \<Rightarrow> modparams \<Rightarrow> xdma_cdev option \<Rightarrow> nat \<Rightarrow> u32 \<Rightarrow> devtab \<Rightarrow> world \<Rightarrow>
   (int \<times> ioctl_out \<times> devtab \<times> world) option" where
  "char_sgdma_ioctl env mp file x cmd tab w =
     (let d = file_dev file tab; rv = xcdev_check file d True in
      if rv < 0 then Some (rv, NoOut, tab, w)
      else do {
        xcdev \<leftarrow> file;
        engine \<leftarrow> engine_at d (c_engine xcdev);
        (rv, out, engine, w) \<leftarrow> engine_ioctl env mp d x cmd engine w;
        Some (rv, out, put_file_engine xcdev engine tab, w)
      })"

section \<open>Open and close\<close>

definition char_sgdma_open :: "xdma_cdev \<Rightarrow> devtab \<Rightarrow> (int \<times> xdma_cdev \<times> devtab) option" where
  "char_sgdma_open cdev tab = do {
     (_, xcdev) \<leftarrow> char_open cdev;
     engine \<leftarrow> engine_at (file_dev (Some xcdev) tab) (c_engine xcdev);
     if e_streaming engine \<and> e_dir engine = DMA_FROM_DEVICE then
       (if e_device_open engine then Some (- EBUSY, xcdev, tab)
        else Some (0, xcdev, put_file_engine xcdev (engine\<lparr>e_device_open := True\<rparr>) tab))
     else Some (0, xcdev, tab)
   }"

definition char_sgdma_close ::
  "cyclic_env \<Rightarrow> modparams \<Rightarrow> xdma_cdev option \<Rightarrow> devtab \<Rightarrow> world \<Rightarrow> (int \<times> devtab \<times> world) option" where
  "char_sgdma_close env mp file tab w =
     (let d = file_dev file tab; rv = xcdev_check file d True in
      if rv < 0 then Some (rv, tab, w)
      else do {
        xcdev \<leftarrow> file;
        engine \<leftarrow> engine_at d (c_engine xcdev);
        if e_streaming engine \<and> e_dir engine = DMA_FROM_DEVICE then do {
          let engine = engine\<lparr>e_device_open := False\<rparr>;
          if e_cyclic_req engine \<noteq> None then do {
            (rv, engine, w) \<leftarrow> xdma_cyclic_transfer_teardown env mp engine w;
            Some (rv, put_file_engine xcdev engine tab, w)
          }
          else Some (0, put_file_engine xcdev engine tab, w)
        }
        else Some (0, tab, w)
      })"

end
