(* ===== verification/Ctrl.thy ===== *)
theory Ctrl
  imports Sgdma
begin

text \<open>
  The control, bypass and event devices (cdev_ctrl.c, cdev_ctrl.h, cdev_bypass.c,
  cdev_events.c): reading and writing registers, the information ioctl, mapping a BAR into
  user space, reading descriptors, writing the bypass BAR, waiting for and polling events.

  What the kernel answers, whether copies succeed and what user space holds are
  parameters; what is copied back to the user is part of the result.
\<close>

unbundle bit_operations_syntax

section \<open>Register access\<close>

text \<open>The address of a BAR; using one that is not mapped is a fault.\<close>

definition bar_base :: "xdma_dev \<Rightarrow> int \<Rightarrow> addr option" where
  "bar_base d bar = Option.bind (arr_get bar (d_bar d)) (\<lambda>b. b)"

definition char_ctrl_read ::
  "bool \<Rightarrow> xdma_cdev option \<Rightarrow> xdma_dev \<Rightarrow> u64 \<Rightarrow> world \<Rightarrow> (int \<times> u32 option \<times> u64 \<times> world) option" where
  "char_ctrl_read copy_ok file xdev pos w =
     (let rv = xcdev_check file xdev False in
      if rv < 0 then Some (rv, None, pos, w)
      else do {
        xcdev \<leftarrow> file;
        if pos AND 3 \<noteq> 0 then Some (- EPROTO, None, pos, w)
        else do {
          base \<leftarrow> bar_base xdev (c_bar xcdev);
          let (v, w) = read_register (base + pos) w;
          Some (4, if copy_ok then Some v else None, pos + 4, w)
        }
      })"

text \<open>\<^verbatim>\<open>uval\<close> is what the variable holds after \<^verbatim>\<open>copy_from_user\<close>, whose failure is only logged.\<close>

definition char_ctrl_write ::
  "u32 \<Rightarrow> xdma_cdev option \<Rightarrow> xdma_dev \<Rightarrow> u64 \<Rightarrow> world \<Rightarrow> (int \<times> u64 \<times> world) option" where
  "char_ctrl_write uval file xdev pos w =
     (let rv = xcdev_check file xdev False in
      if rv < 0 then Some (rv, pos, w)
      else do {
        xcdev \<leftarrow> file;
        if pos AND 3 \<noteq> 0 then Some (- EPROTO, pos, w)
        else do {
          base \<leftarrow> bar_base xdev (c_bar xcdev);
          Some (4, pos + 4, write_register uval (base + pos) w)
        }
      })"

section \<open>The ioctl calls of the control device\<close>

definition XDMA_IOC_MAGIC :: u32 where [const_defs]: "XDMA_IOC_MAGIC = 0x78"
definition XDMA_XCL_MAGIC :: u32 where [const_defs]: "XDMA_XCL_MAGIC = 0x586C0C6C"

definition XDMA_IOC_INFO :: u32 where [const_defs]: "XDMA_IOC_INFO = 1"
definition XDMA_IOC_OFFLINE :: u32 where [const_defs]: "XDMA_IOC_OFFLINE = 2"
definition XDMA_IOC_ONLINE :: u32 where [const_defs]: "XDMA_IOC_ONLINE = 3"

text \<open>The fields of a command, from linux/ioctl.h.\<close>

definition ioc_bits :: "u32 \<Rightarrow> u32 \<Rightarrow> u32 \<Rightarrow> u32 \<Rightarrow> u32" where
  "ioc_bits dir magic nr sz = push_bit 30 dir OR push_bit 8 magic OR nr OR push_bit 16 sz"

definition ioc_dir :: "u32 \<Rightarrow> u32" where
  "ioc_dir cmd = drop_bit 30 cmd AND 3"

definition ioc_type :: "u32 \<Rightarrow> u32" where
  "ioc_type cmd = drop_bit 8 cmd AND 0xFF"

definition XDMA_IOCINFO :: u32 where "XDMA_IOCINFO = ioc_bits 3 XDMA_IOC_MAGIC XDMA_IOC_INFO 40"
definition XDMA_IOCOFFLINE :: u32 where "XDMA_IOCOFFLINE = ioc_bits 0 XDMA_IOC_MAGIC XDMA_IOC_OFFLINE 0"
definition XDMA_IOCONLINE :: u32 where "XDMA_IOCONLINE = ioc_bits 0 XDMA_IOC_MAGIC XDMA_IOC_ONLINE 0"

definition DRV_MOD_VERSION_NUMBER :: u32 where
  "DRV_MOD_VERSION_NUMBER = 2017 * 1000 + 1 * 100 + 47"

record xdma_ioc_info =
  i_magic :: u32
  i_command :: u32
  i_vendor :: u16
  i_device :: u16
  i_subsystem_vendor :: u16
  i_subsystem_device :: u16
  i_dma_engine_version :: u32
  i_driver_version :: u32
  i_feature_id :: u64
  i_domain :: u16
  i_bus :: u8
  i_dev :: u8
  i_func :: u8

text \<open>The identity of the PCI device, and the copies from and to user space.\<close>

record ioctl_env =
  id_vendor :: u16
  id_device :: u16
  id_subsystem_vendor :: u16
  id_subsystem_device :: u16
  id_devfn :: u32
  user_range_ok :: bool
  base_magic :: "u32 option"
  info_in_ok :: bool
  info_out_ok :: bool

text \<open>The feature number of the device is never written, so it is zero.\<close>

definition version_ioctl :: "ioctl_env \<Rightarrow> int \<times> xdma_ioc_info option" where
  "version_ioctl env =
     (if \<not> info_in_ok env then (- EFAULT, None)
      else
        (let devfn = id_devfn env;
             obj = \<lparr>i_magic = 0, i_command = 0, i_vendor = id_vendor env, i_device = id_device env,
               i_subsystem_vendor = id_subsystem_vendor env, i_subsystem_device = id_subsystem_device env,
               i_dma_engine_version = 0, i_driver_version = DRV_MOD_VERSION_NUMBER, i_feature_id = 0,
               i_domain = 0, i_bus = ucast (drop_bit 8 devfn AND 0xFF), i_dev = ucast (drop_bit 3 devfn AND 0x1F),
               i_func = ucast (devfn AND 0x07)\<rparr>
         in if \<not> info_out_ok env then (- EFAULT, None) else (0, Some obj)))"

definition char_ctrl_ioctl ::
  "ioctl_env \<Rightarrow> pci_env \<Rightarrow> modparams \<Rightarrow> xdma_cdev option \<Rightarrow> u32 \<Rightarrow> devtab \<Rightarrow> world \<Rightarrow>
   (int \<times> xdma_ioc_info option \<times> devtab \<times> world) option" where
  "char_ctrl_ioctl env penv mp file cmd tab w =
     (let xdev = file_dev file tab; rv = xcdev_check file xdev False in
      if rv < 0 then Some (rv, None, tab, w)
      else do {
        xcdev \<leftarrow> file;
        let result =
          (if ioc_dir cmd AND 2 \<noteq> 0 then \<not> user_range_ok env
           else if ioc_dir cmd AND 1 \<noteq> 0 then \<not> user_range_ok env
           else False);
        if ioc_type cmd \<noteq> XDMA_IOC_MAGIC then Some (- ENOTTY, None, tab, w)
        else if result then Some (- EFAULT, None, tab, w)
        else if cmd = XDMA_IOCINFO then
          (case base_magic env of
             None \<Rightarrow> Some (- EFAULT, None, tab, w)
           | Some m \<Rightarrow>
               if m \<noteq> XDMA_XCL_MAGIC then Some (- ENOTTY, None, tab, w)
               else (let (rv, out) = version_ioctl env in Some (rv, out, tab, w)))
        else if cmd = XDMA_IOCOFFLINE then do {
          (tab, w) \<leftarrow> xdma_device_offline penv mp (Some (d_pdev xdev)) (c_xdev xcdev) tab w;
          Some (0, None, tab, w)
        }
        else if cmd = XDMA_IOCONLINE then do {
          (tab, w) \<leftarrow> xdma_device_online penv mp (Some (d_pdev xdev)) (c_xdev xcdev) tab w;
          Some (0, None, tab, w)
        }
        else Some (- ENOTTY, None, tab, w)
      })"

section \<open>Mapping a BAR\<close>

record vm_area =
  vm_start :: u64
  vm_end :: u64
  vm_pgoff :: u64

record bar_env =
  resource_start :: "int \<Rightarrow> u64"
  resource_end :: "int \<Rightarrow> u64"
  remap_ok :: bool

text \<open>A mapping is its first page and its size.\<close>

definition map_bar_range :: "bool \<Rightarrow> u64 \<Rightarrow> u64 \<Rightarrow> vm_area \<Rightarrow> world \<Rightarrow> int \<times> world" where
  "map_bar_range remap start stop vma w =
     (let off = push_bit 12 (vm_pgoff vma);
          phys = start + off;
          vsize = vm_end vma - vm_start vma;
          psize = stop - start + 1 - off
      in if vsize > psize then (- EINVAL, w)
         else if \<not> remap then (- EAGAIN, w)
         else (0, kcall (UserMapped (drop_bit 12 phys) vsize) w))"

definition bridge_mmap ::
  "bar_env \<Rightarrow> xdma_cdev option \<Rightarrow> xdma_dev \<Rightarrow> vm_area \<Rightarrow> world \<Rightarrow> (int \<times> world) option" where
  "bridge_mmap env file xdev vma w =
     (let rv = xcdev_check file xdev False in
      if rv < 0 then Some (rv, w)
      else do {
        xcdev \<leftarrow> file;
        Some (map_bar_range (remap_ok env) (resource_start env (c_bar xcdev)) (resource_end env (c_bar xcdev)) vma w)
      })"

section \<open>Descriptors of the bypass device\<close>

text \<open>
  The loop over the descriptors of a transfer: the offset in the buffer, what has been
  copied and where, and the last error.
\<close>

primrec copy_desc_loop ::
  "(nat \<Rightarrow> bool) \<Rightarrow> xdma_desc list \<Rightarrow> nat \<Rightarrow> nat \<Rightarrow> nat \<Rightarrow> int \<Rightarrow> nat \<Rightarrow> (nat \<times> xdma_desc) list \<Rightarrow>
   (int \<times> nat \<times> (nat \<times> xdma_desc) list) option" where
  "copy_desc_loop ok descs bsize 0 i rc off out = Some (rc, off, out)"
| "copy_desc_loop ok descs bsize (Suc n) i rc off out =
     (if off + XDMA_DESC_SIZE \<le> bsize then do {
        desc \<leftarrow> arr_get (int i) descs;
        if \<not> ok off then copy_desc_loop ok descs bsize n (Suc i) (- EINVAL) bsize out
        else copy_desc_loop ok descs bsize n (Suc i) rc (off + XDMA_DESC_SIZE) (out @ [(off, desc)])
      }
      else copy_desc_loop ok descs bsize n (Suc i) (- ENOMEM) off out)"

definition copy_desc_data ::
  "(nat \<Rightarrow> bool) \<Rightarrow> xdma_desc list \<Rightarrow> xdma_transfer \<Rightarrow> nat \<Rightarrow> nat \<Rightarrow> (nat \<times> xdma_desc) list \<Rightarrow>
   (int \<times> nat \<times> (nat \<times> xdma_desc) list) option" where
  "copy_desc_data ok descs transfer off bsize out =
     copy_desc_loop ok descs bsize (nat (t_desc_num transfer)) 0 0 off out"

text \<open>The descriptors of every transfer are those of the engine (\<^verbatim>\<open>desc_virt\<close> is \<^verbatim>\<open>engine->desc\<close>).\<close>

primrec bypass_read_loop ::
  "(nat \<Rightarrow> bool) \<Rightarrow> xdma_desc list \<Rightarrow> world \<Rightarrow> nat \<Rightarrow> nat list \<Rightarrow> int \<Rightarrow> nat \<Rightarrow> (nat \<times> xdma_desc) list \<Rightarrow>
   (int \<times> nat \<times> (nat \<times> xdma_desc) list) option" where
  "bypass_read_loop ok descs w bsize [] rc off out = Some (rc, off, out)"
| "bypass_read_loop ok descs w bsize (t # ts) rc off out = do {
     (rc, off, out) \<leftarrow> copy_desc_data ok descs (xfers w t) off bsize out;
     bypass_read_loop ok descs w bsize ts rc off out
   }"

definition char_bypass_read ::
  "(nat \<Rightarrow> bool) \<Rightarrow> xdma_cdev option \<Rightarrow> bool \<Rightarrow> nat \<Rightarrow> xdma_dev \<Rightarrow> world \<Rightarrow>
   (int \<times> (nat \<times> xdma_desc) list) option" where
  "char_bypass_read ok file buf_null count xdev w =
     (let rc = xcdev_check file xdev True in
      if rc < 0 then Some (rc, [])
      else do {
        xcdev \<leftarrow> file;
        engine \<leftarrow> engine_at xdev (c_engine xcdev);
        if count mod 4 \<noteq> 0 then Some (- EINVAL, [])
        else if buf_null then Some (- EINVAL, [])
        else if d_bypass_bar_idx xdev < 0 then Some (- ENODEV, [])
        else do {
          (rc, off, out) \<leftarrow>
            (if e_transfer_list engine \<noteq> [] then do {
               descs \<leftarrow> e_desc engine;
               bypass_read_loop ok descs w count (e_transfer_list engine) 0 0 []
             }
             else Some (0, 0, []));
          Some (if rc < 0 then rc else int off, out)
        }
      })"

text \<open>
  The words of the user are written to one address.  \<^verbatim>\<open>bypass_addr\<close> is a pointer to 32-bit
  words, so the offset of the engine counts words.
\<close>

primrec bypass_write_loop ::
  "(nat \<Rightarrow> u32 option) \<Rightarrow> addr \<Rightarrow> nat \<Rightarrow> nat \<Rightarrow> int \<Rightarrow> world \<Rightarrow> int \<times> world" where
  "bypass_write_loop user a 0 off rc w = (rc, w)"
| "bypass_write_loop user a (Suc n) off rc w =
     (case user off of
        Some v \<Rightarrow> bypass_write_loop user a n (off + 4) (sint (of_nat (off + 4) :: u32)) (write_register v a w)
      | None \<Rightarrow> (- EINVAL, w))"

definition char_bypass_write ::
  "(nat \<Rightarrow> u32 option) \<Rightarrow> xdma_cdev option \<Rightarrow> bool \<Rightarrow> nat \<Rightarrow> xdma_dev \<Rightarrow> world \<Rightarrow> (int \<times> world) option" where
  "char_bypass_write user file buf_null count xdev w =
     (let rc = xcdev_check file xdev True in
      if rc < 0 then Some (rc, w)
      else do {
        xcdev \<leftarrow> file;
        engine \<leftarrow> engine_at xdev (c_engine xcdev);
        if count mod 4 \<noteq> 0 then Some (- EINVAL, w)
        else if buf_null then Some (- EINVAL, w)
        else if d_bypass_bar_idx xdev < 0 then Some (- ENODEV, w)
        else do {
          base \<leftarrow> bar_base xdev (d_bypass_bar_idx xdev);
          Some (bypass_write_loop user (base + 4 * ucast (e_bypass_offset engine)) (count div 4) 0 rc w)
        }
      })"

section \<open>Events\<close>

text \<open>
  \<^verbatim>\<open>wait\<close> is what \<^verbatim>\<open>wait_event_interruptible\<close> returns and the user interrupt as it is then.
\<close>

definition char_events_read ::
  "(xdma_user_irq \<Rightarrow> int \<times> xdma_user_irq) \<Rightarrow> bool \<Rightarrow> xdma_cdev option \<Rightarrow> u64 \<Rightarrow> u64 \<Rightarrow> xdma_dev \<Rightarrow>
   (int \<times> bool option \<times> xdma_dev) option" where
  "char_events_read wait copy_ok file count pos xdev =
     (let rv = xcdev_check file xdev False in
      if rv < 0 then Some (rv, None, xdev)
      else do {
        xcdev \<leftarrow> file;
        case c_user_irq xcdev of
          None \<Rightarrow> Some (- EINVAL, None, xdev)
        | Some i \<Rightarrow>
            if count \<noteq> 4 then Some (- EPROTO, None, xdev)
            else if pos AND 3 \<noteq> 0 then Some (- EPROTO, None, xdev)
            else do {
              user_irq \<leftarrow> arr_get (int i) (d_user_irq xdev);
              let (rv, user_irq) = wait user_irq;
              if rv = - ERESTARTSYS then Some (- ERESTARTSYS, None, xdev\<lparr>d_user_irq := (d_user_irq xdev)[i := user_irq]\<rparr>)
              else do {
                let events_user = u_events_irq user_irq;
                let user_irq = user_irq\<lparr>u_events_irq := False\<rparr>;
                Some (4, if copy_ok then Some events_user else None, xdev\<lparr>d_user_irq := (d_user_irq xdev)[i := user_irq]\<rparr>)
              }
            }
      })"

definition char_events_poll :: "xdma_cdev option \<Rightarrow> xdma_dev \<Rightarrow> u32 option" where
  "char_events_poll file xdev =
     (let rv = xcdev_check file xdev False in
      if rv < 0 then Some (word_of_int rv)
      else do {
        xcdev \<leftarrow> file;
        case c_user_irq xcdev of
          None \<Rightarrow> Some (word_of_int (- EINVAL))
        | Some i \<Rightarrow> do {
            user_irq \<leftarrow> arr_get (int i) (d_user_irq xdev);
            Some (if u_events_irq user_irq then 0x41 else 0)
          }
      })"

end
