(* ===== verification/Zynq.thy ===== *)
theory Zynq
  imports Ctrl
begin

text \<open>
  The sensor FPGA behind BAR 0 (zynq/basa.h, basa_regs.h, basa_debug.h, zynq_api.h): the
  structures of a device, the module parameters and global variables, the access to its
  registers and the bit fields.

  Devices live in a table by address; an address that holds nothing is a structure that has
  not been allocated or has been freed, and using it is a fault.  The locks are not
  modelled: each operation is one step.
\<close>

unbundle bit_operations_syntax

section \<open>Registers\<close>

definition ZYNQ_G_VERSION :: u32 where [const_defs]: "ZYNQ_G_VERSION = 0x000"
definition ZYNQ_G_STATUS :: u32 where [const_defs]: "ZYNQ_G_STATUS = 0x008"
definition ZYNQ_STATUS_GPS_LOCKED :: u32 where [const_defs]: "ZYNQ_STATUS_GPS_LOCKED = push_bit 18 1"
definition ZYNQ_G_INTR_STATUS_TX :: u32 where [const_defs]: "ZYNQ_G_INTR_STATUS_TX = 0x100"
definition ZYNQ_G_INTR_MASK_TX :: u32 where [const_defs]: "ZYNQ_G_INTR_MASK_TX = 0x104"
definition ZYNQ_G_INTR_UNMASK_TX :: u32 where [const_defs]: "ZYNQ_G_INTR_UNMASK_TX = 0x108"
definition ZYNQ_INTR_TX_ALL :: u32 where [const_defs]: "ZYNQ_INTR_TX_ALL = 0xFFFFFFFF"
definition ZYNQ_G_INTR_STATUS_RX :: u32 where [const_defs]: "ZYNQ_G_INTR_STATUS_RX = 0x110"
definition ZYNQ_G_INTR_MASK_RX :: u32 where [const_defs]: "ZYNQ_G_INTR_MASK_RX = 0x114"
definition ZYNQ_G_INTR_UNMASK_RX :: u32 where [const_defs]: "ZYNQ_G_INTR_UNMASK_RX = 0x118"
definition ZYNQ_INTR_RX_ALL :: u32 where [const_defs]: "ZYNQ_INTR_RX_ALL = 0xFFFFFFFF"
definition ZYNQ_G_PS_INTR_STATUS :: u32 where [const_defs]: "ZYNQ_G_PS_INTR_STATUS = 0x120"
definition ZYNQ_G_PS_INTR_MASK :: u32 where [const_defs]: "ZYNQ_G_PS_INTR_MASK = 0x124"
definition ZYNQ_PS_INTR_GPS_PPS_CHG :: u32 where [const_defs]: "ZYNQ_PS_INTR_GPS_PPS_CHG = push_bit 4 1"
definition ZYNQ_PS_INTR_GPS_PPS :: u32 where [const_defs]: "ZYNQ_PS_INTR_GPS_PPS = 0x10"
definition ZYNQ_PS_INTR_FW :: u32 where [const_defs]: "ZYNQ_PS_INTR_FW = 0x3"
definition ZYNQ_PS_INTR_ALL :: u32 where [const_defs]: "ZYNQ_PS_INTR_ALL = 0x13"
definition ZYNQ_CH_ERR_STATUS :: u32 where [const_defs]: "ZYNQ_CH_ERR_STATUS = 0x1080"
definition ZYNQ_G_NTP_LO :: u32 where [const_defs]: "ZYNQ_G_NTP_LO = 0x1000"
definition ZYNQ_G_NTP_HI :: u32 where [const_defs]: "ZYNQ_G_NTP_HI = 0x1004"
definition ZYNQ_G_GPRMC :: u32 where [const_defs]: "ZYNQ_G_GPRMC = 0x204C"
definition ZYNQ_G_GPS_CONFIG :: u32 where [const_defs]: "ZYNQ_G_GPS_CONFIG = 0x2100"
definition ZYNQ_GPS_LOOPBACK_EN :: u32 where [const_defs]: "ZYNQ_GPS_LOOPBACK_EN = push_bit 28 1"
definition ZYNQ_GPS_DISABLE_SMOOTH :: u32 where [const_defs]: "ZYNQ_GPS_DISABLE_SMOOTH = push_bit 30 1"
definition ZYNQ_G_GPS_TIME_LO_INIT :: u32 where [const_defs]: "ZYNQ_G_GPS_TIME_LO_INIT = 0x2104"
definition ZYNQ_GPS_TIME_VALID :: u32 where [const_defs]: "ZYNQ_GPS_TIME_VALID = push_bit 0 1"
definition ZYNQ_G_GPS_TIME_HI_INIT :: u32 where [const_defs]: "ZYNQ_G_GPS_TIME_HI_INIT = 0x2108"
definition ZYNQ_G_GPS_CONFIG_2 :: u32 where [const_defs]: "ZYNQ_G_GPS_CONFIG_2 = 0x210C"
definition ZYNQ_GPS_CHECKSUM_CHECK :: u32 where [const_defs]: "ZYNQ_GPS_CHECKSUM_CHECK = push_bit 31 1"
definition ZYNQ_G_GPS_STATUS :: u32 where [const_defs]: "ZYNQ_G_GPS_STATUS = 0x2110"
definition ZYNQ_GPS_INIT_SET :: u32 where [const_defs]: "ZYNQ_GPS_INIT_SET = push_bit 29 1"
definition ZYNQ_GPS_SMOOTH_IN_PROGRESS :: u32 where [const_defs]: "ZYNQ_GPS_SMOOTH_IN_PROGRESS = push_bit 30 1"
definition ZYNQ_G_GPS_LAST_TIME_LO :: u32 where [const_defs]: "ZYNQ_G_GPS_LAST_TIME_LO = 0x2118"

definition ZYNQ_INTR_CH_TX :: "nat \<Rightarrow> u32" where "ZYNQ_INTR_CH_TX ch = push_bit ch 1"
definition ZYNQ_INTR_CH_TX_ERR :: "nat \<Rightarrow> u32" where "ZYNQ_INTR_CH_TX_ERR ch = push_bit (ch + 16) 1"
definition ZYNQ_INTR_CH_TX_ALL :: "nat \<Rightarrow> u32" where
  "ZYNQ_INTR_CH_TX_ALL ch = ZYNQ_INTR_CH_TX ch OR ZYNQ_INTR_CH_TX_ERR ch"
definition ZYNQ_INTR_CH_RX :: "nat \<Rightarrow> u32" where "ZYNQ_INTR_CH_RX ch = push_bit ch 1"
definition ZYNQ_INTR_CH_RX_ERR :: "nat \<Rightarrow> u32" where "ZYNQ_INTR_CH_RX_ERR ch = push_bit (ch + 16) 1"
definition ZYNQ_INTR_CH_RX_ALL :: "nat \<Rightarrow> u32" where
  "ZYNQ_INTR_CH_RX_ALL ch = ZYNQ_INTR_CH_RX ch OR ZYNQ_INTR_CH_RX_ERR ch"

text \<open>A bit field: its offset and its mask.\<close>

datatype bit_field = Field nat u32

primrec GET_BITS :: "bit_field \<Rightarrow> u32 \<Rightarrow> u32" where
  "GET_BITS (Field off msk) reg_val = drop_bit off reg_val AND msk"

primrec SET_BITS :: "bit_field \<Rightarrow> u32 \<Rightarrow> u32 \<Rightarrow> u32" where
  "SET_BITS (Field off msk) reg_val data =
     (reg_val AND NOT (push_bit off msk)) OR push_bit off (data AND msk)"

definition ZYNQ_GPS_ADJ_STEP :: bit_field where "ZYNQ_GPS_ADJ_STEP = Field 0 0xFFFF"
definition ZYNQ_GPS_MAX_TOLERANCE :: bit_field where "ZYNQ_GPS_MAX_TOLERANCE = Field 16 0xFFF"
definition ZYNQ_GPS_TIME_NSEC :: bit_field where "ZYNQ_GPS_TIME_NSEC = Field 1 0x7F"
definition ZYNQ_GPS_TIME_USEC :: bit_field where "ZYNQ_GPS_TIME_USEC = Field 8 0xFFF"
definition ZYNQ_GPS_TIME_MSEC :: bit_field where "ZYNQ_GPS_TIME_MSEC = Field 20 0xFFF"
definition ZYNQ_GPS_TIME_SEC :: bit_field where "ZYNQ_GPS_TIME_SEC = Field 0 0xFF"
definition ZYNQ_GPS_TIME_MIN :: bit_field where "ZYNQ_GPS_TIME_MIN = Field 8 0xFF"
definition ZYNQ_GPS_TIME_HOUR :: bit_field where "ZYNQ_GPS_TIME_HOUR = Field 16 0xFF"
definition ZYNQ_GPS_TIME_YEAR :: bit_field where "ZYNQ_GPS_TIME_YEAR = Field 0 0xFF"
definition ZYNQ_GPS_TIME_MON :: bit_field where "ZYNQ_GPS_TIME_MON = Field 8 0xFF"
definition ZYNQ_GPS_TIME_DAY :: bit_field where "ZYNQ_GPS_TIME_DAY = Field 16 0xFF"

definition ZYNQ_GPS_SYNC_TIME_MAX :: u32 where "ZYNQ_GPS_SYNC_TIME_MAX = 100 * 24 * 3600"
definition ZYNQ_GPS_SYNC_TIME_SMOOTH :: u32 where "ZYNQ_GPS_SYNC_TIME_SMOOTH = 1"
definition ZYNQ_GPS_SMOOTH_STEP_MIN :: u32 where "ZYNQ_GPS_SMOOTH_STEP_MIN = 16"
definition ZYNQ_GPS_SMOOTH_STEP_MAX :: u32 where "ZYNQ_GPS_SMOOTH_STEP_MAX = 500000"
definition PCI_DEVICE_ID_MOONROVER :: u16 where "PCI_DEVICE_ID_MOONROVER = 0x903f"
definition ZYNQ_DMA_CHAN_NUM_MR :: nat where "ZYNQ_DMA_CHAN_NUM_MR = 16"
definition ZYNQ_VIDEO_MAP_MR :: u64 where "ZYNQ_VIDEO_MAP_MR = 0x001F"
definition ZYNQ_CAN_MAP_MR :: u64 where "ZYNQ_CAN_MAP_MR = 0x3C00"
definition ZYNQ_HW_CAP_FPGA_TIME_INIT :: u32 where "ZYNQ_HW_CAP_FPGA_TIME_INIT = push_bit 6 1"
definition ZYNQ_HW_CAP_GPS_SMOOTH :: u32 where "ZYNQ_HW_CAP_GPS_SMOOTH = push_bit 7 1"

section \<open>Structures\<close>

record timespec =
  tv_sec :: int
  tv_nsec :: int

datatype zynq_chan_type = ZYNQ_CHAN_INVAL | ZYNQ_CHAN_CAN | ZYNQ_CHAN_VIDEO

text \<open>The counters of the interrupts of a channel.\<close>

record chan_stats =
  CHAN_STATS_RX_INTR :: u64
  CHAN_STATS_TX_INTR :: u64
  CHAN_STATS_RX_ERR_INTR :: u64
  CHAN_STATS_TX_ERR_INTR :: u64

definition zero_stats :: chan_stats where
  "zero_stats = \<lparr>CHAN_STATS_RX_INTR = 0, CHAN_STATS_TX_INTR = 0, CHAN_STATS_RX_ERR_INTR = 0, CHAN_STATS_TX_ERR_INTR = 0\<rparr>"

record zynq_chan =
  zchan_num :: nat
  zchan_type :: zynq_chan_type
  zchan_dev :: "nat option"
  zchan_reg :: "addr option"
  zchan_stats :: chan_stats

definition zero_chan :: zynq_chan where
  "zero_chan = \<lparr>zchan_num = 0, zchan_type = ZYNQ_CHAN_INVAL, zchan_dev = None, zchan_reg = None, zchan_stats = zero_stats\<rparr>"

text \<open>A CAN or video structure: its number and its channel.\<close>

record zynq_sub =
  sub_num :: nat
  sub_chan :: nat

record zynq_dev =
  zdev_inst :: nat
  zdev_version :: u32
  zdev_hw_cap :: u32
  zdev_chan_cnt :: nat
  zdev_can_cnt :: nat
  zdev_video_cnt :: nat
  zdev_can_map :: u64
  zdev_video_map :: u64
  zdev_can_num_start :: nat
  zdev_chans :: "zynq_chan list"
  zdev_cans :: "zynq_sub option list"
  zdev_videos :: "zynq_sub option list"
  zdev_vid :: u16
  zdev_did :: u16
  zdev_bar0 :: "addr option"
  zdev_bar0_len :: u32
  zdev_dev_gps :: "nat \<times> nat"
  zdev_gps_ts_first :: timespec
  zdev_gps_ts :: timespec
  zdev_gps_smoothing :: u32
  zdev_gps_cnt :: u32
  zdev_sys_drift :: int
  zdev_intr_invalid :: u64
  zdev_next :: "nat option"

text \<open>The module parameters of zynq_main.c and zynq_gps.c.\<close>

record zynq_params =
  zynq_trace_stats :: bool
  zynq_trace_intr :: bool
  zynq_bringup :: bool
  zynq_fwupdate :: bool
  zynq_stats_log_interval :: u64
  zynq_gps_sync_time :: u32
  zynq_gps_smooth_step :: u32
  zynq_gps_smooth_max :: u32
  zynq_gps_checksum :: bool
  zynq_gps_high_factor :: u32
  zynq_gps_low_factor :: u32

text \<open>The global variables, and the allocated devices.\<close>

record zynq_state =
  zdevs :: "nat \<Rightarrow> zynq_dev option"
  zdev_static :: "nat option"
  zynq_gps_master_dev :: "nat option"
  zynq_gps_taskp :: bool
  zynq_gps_valid_once :: bool
  zynq_instance :: nat
  zynq_can_count :: nat
  zynq_dev_list :: "nat option"
  zynq_major :: nat
  zynq_minor :: nat
  zynq_class :: bool

definition put_zdev :: "nat \<Rightarrow> zynq_dev \<Rightarrow> zynq_state \<Rightarrow> zynq_state" where
  "put_zdev h z s = s\<lparr>zdevs := (zdevs s)(h := Some z)\<rparr>"

definition free_zdev :: "nat \<Rightarrow> zynq_state \<Rightarrow> zynq_state" where
  "free_zdev h s = s\<lparr>zdevs := (zdevs s)(h := None)\<rparr>"

definition ZYNQ_CAP :: "u32 \<Rightarrow> zynq_dev \<Rightarrow> bool" where
  "ZYNQ_CAP cap z \<longleftrightarrow> zdev_hw_cap z AND cap \<noteq> 0"

section \<open>Register access\<close>

definition zynq_g_reg_read :: "zynq_params \<Rightarrow> zynq_dev \<Rightarrow> u32 \<Rightarrow> world \<Rightarrow> (u32 \<times> world) option" where
  "zynq_g_reg_read zp z reg w =
     (if \<not> zynq_bringup zp then do {
        base \<leftarrow> zdev_bar0 z;
        Some (read_register (base + ucast reg) w)
      }
      else Some (0, w))"

definition zynq_g_reg_write :: "zynq_params \<Rightarrow> zynq_dev \<Rightarrow> u32 \<Rightarrow> u32 \<Rightarrow> world \<Rightarrow> world option" where
  "zynq_g_reg_write zp z reg val w =
     (if \<not> zynq_bringup zp then do {
        base \<leftarrow> zdev_bar0 z;
        Some (write_register val (base + ucast reg) w)
      }
      else Some w)"

definition zchan_reg_read :: "zynq_params \<Rightarrow> zynq_chan \<Rightarrow> u32 \<Rightarrow> world \<Rightarrow> (u32 \<times> world) option" where
  "zchan_reg_read zp c reg w =
     (if \<not> zynq_bringup zp then do {
        base \<leftarrow> zchan_reg c;
        Some (read_register (base + ucast reg) w)
      }
      else Some (0, w))"

definition zchan_reg_write :: "zynq_params \<Rightarrow> zynq_chan \<Rightarrow> u32 \<Rightarrow> u32 \<Rightarrow> world \<Rightarrow> world option" where
  "zchan_reg_write zp c reg val w =
     (if \<not> zynq_bringup zp then do {
        base \<leftarrow> zchan_reg c;
        Some (write_register val (base + ucast reg) w)
      }
      else Some w)"

end
