(* ===== verification/Gps.thy ===== *)
theory Gps
  imports Zynq
begin

text \<open>
  The time of the GPS receiver (zynq_gps.c): reading the time and the position sentence, the
  synchronisation with the system time, setting the time of the FPGA, the configuration of
  the smoothing, the notification of user space, and the file operations of the device.

  The clock of the system, what the kernel answers and what user space holds are parameters.
\<close>

unbundle bit_operations_syntax

section \<open>Reading the time\<close>

definition zynq_get_gps_time ::
  "zynq_params \<Rightarrow> zynq_dev \<Rightarrow> bool \<Rightarrow> world \<Rightarrow> (int \<times> u64 \<times> bool \<times> world) option" where
  "zynq_get_gps_time zp z once w = do {
     (lo, w) \<leftarrow> zynq_g_reg_read zp z ZYNQ_G_NTP_LO w;
     (hi, w) \<leftarrow> zynq_g_reg_read zp z ZYNQ_G_NTP_HI w;
     let v = push_bit 32 (ucast hi) OR ucast lo;
     if v = - 1 then Some (- 1, v, once, w)
     else if v AND ucast ZYNQ_GPS_TIME_VALID = 0 then do {
       (once, w) \<leftarrow>
         (if ZYNQ_CAP ZYNQ_HW_CAP_GPS_SMOOTH z \<and> \<not> once then do {
            (val, w) \<leftarrow> zynq_g_reg_read zp z ZYNQ_G_GPS_LAST_TIME_LO w;
            if val AND ZYNQ_GPS_TIME_VALID \<noteq> 0 then Some (True, w)
            else do {
              (val, w) \<leftarrow> zynq_g_reg_read zp z ZYNQ_G_GPS_STATUS w;
              Some (if val AND ZYNQ_GPS_INIT_SET \<noteq> 0 then True else once, w)
            }
          }
          else Some (once, w));
       if ZYNQ_CAP ZYNQ_HW_CAP_GPS_SMOOTH z \<and> once then Some (0, v, once, w)
       else Some (- 1, v, once, w)
     }
     else Some (0, v, True, w)
   }"

definition ntohl :: "u32 \<Rightarrow> u32" where
  "ntohl v = drop_bit 24 v OR (drop_bit 8 v AND 0xFF00) OR (push_bit 8 v AND 0xFF0000) OR push_bit 24 v"

definition ZYNQ_GPS_GPRMC_VAL_SZ :: nat where "ZYNQ_GPS_GPRMC_VAL_SZ = 68"

primrec gprmc_words :: "zynq_params \<Rightarrow> zynq_dev \<Rightarrow> nat \<Rightarrow> u32 list \<Rightarrow> world \<Rightarrow> (u32 list \<times> world) option" where
  "gprmc_words zp z 0 vs w = Some (vs, w)"
| "gprmc_words zp z (Suc n) vs w = do {
     (v, w) \<leftarrow> zynq_g_reg_read zp z ZYNQ_G_GPRMC w;
     gprmc_words zp z n (vs @ [ntohl v]) w
   }"

definition zynq_get_gprmc :: "zynq_params \<Rightarrow> zynq_dev \<Rightarrow> world \<Rightarrow> (int \<times> u32 list \<times> world) option" where
  "zynq_get_gprmc zp z w = do {
     (v, w) \<leftarrow> zynq_g_reg_read zp z ZYNQ_G_GPRMC w;
     let v = ntohl v;
     if v = - 1 \<or> v = 0x44414544 then Some (- 1, [v], w)
     else if v = 0x45464143 then Some (- 1, [v], w)
     else do {
       (vs, w) \<leftarrow> gprmc_words zp z (ZYNQ_GPS_GPRMC_VAL_SZ div 4 - 1) [v] w;
       Some (0, vs, w)
     }
   }"

text \<open>
  \<^verbatim>\<open>mktime(1970, 1, 1, 0, 0, 0)\<close> is zero, so the base is the epoch.  \<^verbatim>\<open>timespec_add\<close>
  carries whole seconds out of the nanoseconds.
\<close>

definition timespec_add :: "timespec \<Rightarrow> timespec \<Rightarrow> timespec" where
  "timespec_add a b =
     (let nsec = tv_nsec a + tv_nsec b
      in \<lparr>tv_sec = tv_sec a + tv_sec b + nsec div 10 ^ 9, tv_nsec = nsec mod 10 ^ 9\<rparr>)"

definition zynq_gps_time_ts :: "u64 \<Rightarrow> timespec" where
  "zynq_gps_time_ts v =
     (let ts_100us = uint (v AND 0xfffff);
          b = \<lparr>tv_sec = 0, tv_nsec = 0\<rparr>;
          off = \<lparr>tv_sec = uint (drop_bit 20 v), tv_nsec = ts_100us * 100 * 1000\<rparr>
      in timespec_add b off)"

section \<open>Synchronisation\<close>

text \<open>An \<^verbatim>\<open>int\<close> of C, and its division, which rounds towards zero.\<close>

definition to_int :: "int \<Rightarrow> int" where
  "to_int x = sint (word_of_int x :: u32)"

definition c_div :: "int \<Rightarrow> int \<Rightarrow> int" where
  "c_div a b = (if a < 0 then - ((- a) div b) else a div b)"

text \<open>
  The check against the water marks only decides which warning is logged: every path
  returns 0.  \<^verbatim>\<open>clock\<close> is the time of the system when it is asked before or after the receiver.
\<close>

datatype gap_warning = NoWarning | TimeJump | HighGap | LowGap

definition gap_check :: "zynq_params \<Rightarrow> int \<Rightarrow> timespec \<Rightarrow> zynq_dev \<Rightarrow> gap_warning" where
  "gap_check zp diff ts_gps z =
     (if zdev_gps_smoothing z \<noteq> 0 then NoWarning
      else if tv_sec (zdev_gps_ts z) = 0 \<and> tv_nsec (zdev_gps_ts z) = 0 then NoWarning
      else
        (let delay = to_int (tv_sec ts_gps - tv_sec (zdev_gps_ts z))
         in if delay < 0 then TimeJump
            else
              (let thresh = to_int (uint (zynq_gps_high_factor zp) * delay)
               in if diff > thresh \<or> diff < - thresh then HighGap
                  else
                    (let thresh = to_int (uint (zynq_gps_low_factor zp) * delay)
                     in if diff > thresh \<or> diff < - thresh then LowGap else NoWarning))))"

definition zynq_gps_ts_check ::
  "zynq_params \<Rightarrow> (bool \<Rightarrow> timespec) \<Rightarrow> zynq_dev \<Rightarrow> bool \<Rightarrow> world \<Rightarrow>
   (int \<times> (timespec \<times> gap_warning) option \<times> zynq_dev \<times> bool \<times> world) option" where
  "zynq_gps_ts_check zp clock z once w = do {
     let ts_sys = clock (zdev_gps_cnt z AND 1 \<noteq> 0);
     (rv, v, once, w) \<leftarrow> zynq_get_gps_time zp z once w;
     if rv \<noteq> 0 then Some (- 1, None, z, once, w)
     else do {
       let ts_gps = zynq_gps_time_ts v;
       let diff = to_int ((tv_sec ts_sys - tv_sec ts_gps) * 10 ^ 6 + c_div (tv_nsec ts_sys - tv_nsec ts_gps) 1000);
       let z = (if tv_sec (zdev_gps_ts_first z) \<noteq> 0 then z\<lparr>zdev_sys_drift := zdev_sys_drift z + diff\<rparr> else z);
       Some (0, Some (ts_gps, gap_check zp diff ts_gps z), z, once, w)
     }
   }"

definition zynq_do_gps_sync ::
  "zynq_params \<Rightarrow> (bool \<Rightarrow> timespec) \<Rightarrow> zynq_dev \<Rightarrow> bool \<Rightarrow> world \<Rightarrow> (int \<times> zynq_dev \<times> bool \<times> world) option" where
  "zynq_do_gps_sync zp clock z once w = do {
     (ret, ts, z, once, w) \<leftarrow> zynq_gps_ts_check zp clock z once w;
     case ts of
       None \<Rightarrow> Some (ret, z, once, w)
     | Some (ts_gps, _) \<Rightarrow> do {
         let z = (if tv_sec (zdev_gps_ts_first z) = 0 then z\<lparr>zdev_gps_ts_first := ts_gps\<rparr> else z);
         Some (0, z\<lparr>zdev_gps_ts := ts_gps, zdev_gps_cnt := zdev_gps_cnt z + 1\<rparr>, once, w)
       }
   }"

text \<open>
  One round of the thread: the wait is asked for a delay in seconds and answers with its
  result.  The flag says whether the thread goes on.
\<close>

definition gps_delay :: "zynq_params \<Rightarrow> zynq_dev \<Rightarrow> u32" where
  "gps_delay zp z =
     (let delay_time = (if zdev_gps_smoothing z \<noteq> 0 then ZYNQ_GPS_SYNC_TIME_SMOOTH else zynq_gps_sync_time zp)
      in if delay_time = 0 then ZYNQ_GPS_SYNC_TIME_MAX else delay_time)"

definition gps_smoothing :: "zynq_params \<Rightarrow> zynq_dev \<Rightarrow> world \<Rightarrow> (zynq_dev \<times> world) option" where
  "gps_smoothing zp z w =
     (if ZYNQ_CAP ZYNQ_HW_CAP_GPS_SMOOTH z then do {
        (status, w) \<leftarrow> zynq_g_reg_read zp z ZYNQ_G_GPS_STATUS w;
        Some (if status AND ZYNQ_GPS_SMOOTH_IN_PROGRESS \<noteq> 0 then z\<lparr>zdev_gps_smoothing := 2\<rparr>
              else if zdev_gps_smoothing z \<noteq> 0 then z\<lparr>zdev_gps_smoothing := zdev_gps_smoothing z - 1\<rparr>
              else z, w)
      }
      else Some (z, w))"

definition gps_sync_round ::
  "zynq_params \<Rightarrow> (bool \<Rightarrow> timespec) \<Rightarrow> (u32 \<Rightarrow> int) \<Rightarrow> zynq_state \<Rightarrow> world \<Rightarrow> (bool \<times> zynq_state \<times> world) option" where
  "gps_sync_round zp clock wait s w = do {
     h \<leftarrow> zynq_gps_master_dev s;
     z \<leftarrow> zdevs s h;
     (_, z, once, w) \<leftarrow> zynq_do_gps_sync zp clock z (zynq_gps_valid_once s) w;
     let result = wait (gps_delay zp z);
     (z, w) \<leftarrow> gps_smoothing zp z w;
     Some (result \<ge> 0, put_zdev h z (s\<lparr>zynq_gps_valid_once := once\<rparr>), w)
   }"

text \<open>The thread, for the rounds that run before it is told to stop.\<close>

primrec zynq_gps_sync_thread ::
  "zynq_params \<Rightarrow> ((bool \<Rightarrow> timespec) \<times> (u32 \<Rightarrow> int)) list \<Rightarrow> zynq_state \<Rightarrow> world \<Rightarrow> (zynq_state \<times> world) option" where
  "zynq_gps_sync_thread zp [] s w = Some (s, w)"
| "zynq_gps_sync_thread zp (r # rs) s w = do {
     (go, s, w) \<leftarrow> gps_sync_round zp (fst r) (snd r) s w;
     if go then zynq_gps_sync_thread zp rs s w else Some (s, w)
   }"

text \<open>
  Whether the thread can be created is the argument \<^verbatim>\<open>thread_ok\<close>.  The result of its creation is not
  checked: an error is a pointer that \<^verbatim>\<open>sched_setscheduler\<close> then dereferences, which is a fault.
\<close>

definition zynq_gps_thread_init :: "bool \<Rightarrow> zynq_state \<Rightarrow> world \<Rightarrow> (zynq_state \<times> world) option" where
  "zynq_gps_thread_init thread_ok s w =
     (if thread_ok then Some (s\<lparr>zynq_gps_taskp := True\<rparr>, kcall GpsThreadStarted w) else None)"

text \<open>Stopping does not clear the pointer.\<close>

definition zynq_gps_thread_fini :: "zynq_state \<Rightarrow> world \<Rightarrow> world" where
  "zynq_gps_thread_fini s w =
     (let w = kcall GpsWake w in if zynq_gps_taskp s then kcall GpsThreadStopped w else w)"

section \<open>The time of the FPGA\<close>

text \<open>The broken-down time; \<^verbatim>\<open>time_to_tm\<close> is a function of the kernel.\<close>

record tm =
  tm_sec :: int
  tm_min :: int
  tm_hour :: int
  tm_mday :: int
  tm_mon :: int
  tm_year :: int

definition gps_date_bits :: "u32 \<Rightarrow> tm \<Rightarrow> u32" where
  "gps_date_bits val t =
     SET_BITS ZYNQ_GPS_TIME_DAY val (word_of_int (tm_mday t)) OR
     SET_BITS ZYNQ_GPS_TIME_MON val (word_of_int (tm_mon t + 1)) OR
     SET_BITS ZYNQ_GPS_TIME_YEAR val (word_of_int (tm_year t - 100))"

definition gps_clock_bits :: "tm \<Rightarrow> u32" where
  "gps_clock_bits t =
     SET_BITS ZYNQ_GPS_TIME_SEC 0 (word_of_int (tm_sec t)) OR
     SET_BITS ZYNQ_GPS_TIME_MIN 0 (word_of_int (tm_min t)) OR
     SET_BITS ZYNQ_GPS_TIME_HOUR 0 (word_of_int (tm_hour t))"

definition gps_fraction_bits :: "int \<Rightarrow> u32" where
  "gps_fraction_bits nsec =
     SET_BITS ZYNQ_GPS_TIME_NSEC 0 (word_of_int (nsec mod 1000 div 8)) OR
     SET_BITS ZYNQ_GPS_TIME_USEC 0 (word_of_int (nsec div 1000 mod 1000)) OR
     SET_BITS ZYNQ_GPS_TIME_MSEC 0 (word_of_int (nsec div 1000000)) OR
     ZYNQ_GPS_TIME_VALID"

definition zynq_gps_init_fpga_time ::
  "zynq_params \<Rightarrow> (int \<Rightarrow> tm) \<Rightarrow> timespec \<Rightarrow> zynq_dev \<Rightarrow> bool \<Rightarrow> world \<Rightarrow> (int \<times> bool \<times> world) option" where
  "zynq_gps_init_fpga_time zp time_to_tm ts z once w =
     (if \<not> ZYNQ_CAP ZYNQ_HW_CAP_FPGA_TIME_INIT z then Some (- EPERM, once, w)
      else do {
        (_, _, once, w) \<leftarrow> zynq_get_gps_time zp z once w;
        if once then Some (- EAGAIN, once, w)
        else do {
          let t = time_to_tm (tv_sec ts);
          (val, w) \<leftarrow> zynq_g_reg_read zp z ZYNQ_G_GPS_CONFIG_2 w;
          w \<leftarrow> zynq_g_reg_write zp z ZYNQ_G_GPS_CONFIG_2 (gps_date_bits val t) w;
          w \<leftarrow> zynq_g_reg_write zp z ZYNQ_G_GPS_TIME_HI_INIT (gps_clock_bits t) w;
          w \<leftarrow> zynq_g_reg_write zp z ZYNQ_G_GPS_TIME_LO_INIT (gps_fraction_bits (tv_nsec ts)) w;
          Some (0, once, w)
        }
      })"

section \<open>Configuration and notification\<close>

definition gps_smooth_bits :: "zynq_params \<Rightarrow> u32 \<Rightarrow> u32" where
  "gps_smooth_bits zp val =
     (if zynq_gps_smooth_max zp = 0 then val OR ZYNQ_GPS_DISABLE_SMOOTH
      else
        (let step = (if zynq_gps_smooth_step zp < ZYNQ_GPS_SMOOTH_STEP_MIN then 0xFFFF
                     else if zynq_gps_smooth_step zp > ZYNQ_GPS_SMOOTH_STEP_MAX then 1
                     else 1000000 div zynq_gps_smooth_step zp - 1);
             val = SET_BITS ZYNQ_GPS_ADJ_STEP val step;
             val = SET_BITS ZYNQ_GPS_MAX_TOLERANCE val (zynq_gps_smooth_max zp)
         in val AND NOT ZYNQ_GPS_DISABLE_SMOOTH))"

definition zynq_gps_config :: "zynq_params \<Rightarrow> zynq_dev \<Rightarrow> world \<Rightarrow> world option" where
  "zynq_gps_config zp z w =
     (if \<not> ZYNQ_CAP ZYNQ_HW_CAP_GPS_SMOOTH z then Some w
      else do {
        (val, w) \<leftarrow> zynq_g_reg_read zp z ZYNQ_G_GPS_CONFIG w;
        let val = gps_smooth_bits zp val AND NOT ZYNQ_GPS_LOOPBACK_EN;
        w \<leftarrow> zynq_g_reg_write zp z ZYNQ_G_GPS_CONFIG val w;
        (val, w) \<leftarrow> zynq_g_reg_read zp z ZYNQ_G_GPS_CONFIG_2 w;
        let val = (if zynq_gps_checksum zp then val OR ZYNQ_GPS_CHECKSUM_CHECK
                   else val AND NOT ZYNQ_GPS_CHECKSUM_CHECK);
        zynq_g_reg_write zp z ZYNQ_G_GPS_CONFIG_2 val w
      })"

definition zynq_gps_status :: "zynq_params \<Rightarrow> zynq_dev \<Rightarrow> world \<Rightarrow> (u32 \<times> world) option" where
  "zynq_gps_status zp z w = zynq_g_reg_read zp z ZYNQ_G_STATUS w"

definition zynq_gps_init :: "zynq_params \<Rightarrow> bool \<Rightarrow> nat \<Rightarrow> zynq_state \<Rightarrow> world \<Rightarrow> (zynq_state \<times> world) option" where
  "zynq_gps_init zp thread_ok h s w =
     (if zynq_fwupdate zp then Some (s, w)
      else if zynq_gps_master_dev s \<noteq> None then Some (s, w)
      else do {
        z \<leftarrow> zdevs s h;
        let s = s\<lparr>zynq_gps_master_dev := Some h\<rparr>;
        w \<leftarrow> zynq_gps_config zp z w;
        (_, w) \<leftarrow> zynq_gps_status zp z w;
        zynq_gps_thread_init thread_ok s w
      })"

definition zynq_gps_fini :: "zynq_state \<Rightarrow> world \<Rightarrow> zynq_state \<times> world" where
  "zynq_gps_fini s w =
     (let s = s\<lparr>zynq_gps_master_dev := None\<rparr> in (s, zynq_gps_thread_fini s w))"

text \<open>Counting is left out of \<^verbatim>\<open>ZYNQ_STATS_LOGX\<close>, which only prints.\<close>

definition zynq_gps_pps_changed :: "zynq_params \<Rightarrow> nat \<Rightarrow> zynq_state \<Rightarrow> world \<Rightarrow> world option" where
  "zynq_gps_pps_changed zp h s w = do {
     z \<leftarrow> zdevs s h;
     (status, w) \<leftarrow> zynq_gps_status zp z w;
     let w = kcall GpsPpsWake w;
     if ZYNQ_CAP ZYNQ_HW_CAP_GPS_SMOOTH z \<and> status AND ZYNQ_STATUS_GPS_LOCKED \<noteq> 0 then
       (if zynq_gps_master_dev s \<noteq> Some h then Some w
        else do {
          w \<leftarrow> zynq_gps_config zp z w;
          (status, w) \<leftarrow> zynq_g_reg_read zp z ZYNQ_G_GPS_STATUS w;
          Some (if status AND ZYNQ_GPS_SMOOTH_IN_PROGRESS \<noteq> 0 then kcall GpsWake w else w)
        })
     else Some w
   }"

section \<open>File operations\<close>

definition ZYNQ_IOC_MAGIC :: u32 where
  "ZYNQ_IOC_MAGIC = push_bit 12 0x7A OR push_bit 8 0x79 OR push_bit 4 0x6E OR 0x71"

definition ZYNQ_IOC_GPS_GET :: u32 where "ZYNQ_IOC_GPS_GET = ioc_bits 2 ZYNQ_IOC_MAGIC 1 8"
definition ZYNQ_IOC_GPS_GPRMC_GET :: u32 where "ZYNQ_IOC_GPS_GPRMC_GET = ioc_bits 2 ZYNQ_IOC_MAGIC 2 8"
definition ZYNQ_IOC_GPS_FPGA_INIT :: u32 where "ZYNQ_IOC_GPS_FPGA_INIT = ioc_bits 0 ZYNQ_IOC_MAGIC 110 0"
definition ZYNQ_IOC_GPS_SYNC :: u32 where "ZYNQ_IOC_GPS_SYNC = ioc_bits 0 ZYNQ_IOC_MAGIC 111 0"

text \<open>
  What is copied to the user: the time with four more bytes of the stack, or the sentence.
\<close>

datatype gps_out = NoGps | GpsVal u64 u32 | Gprmc "u32 list"

record gps_env =
  gps_clock :: "bool \<Rightarrow> timespec"
  gps_now :: timespec
  gps_tm :: "int \<Rightarrow> tm"
  gps_copy_ok :: bool
  gps_stack :: u32

definition zynq_gps_ioctl ::
  "zynq_params \<Rightarrow> gps_env \<Rightarrow> nat \<Rightarrow> u32 \<Rightarrow> zynq_state \<Rightarrow> world \<Rightarrow> (int \<times> gps_out \<times> zynq_state \<times> world) option" where
  "zynq_gps_ioctl zp env h cmd s w = do {
     z \<leftarrow> zdevs s h;
     let once = zynq_gps_valid_once s;
     let valid = (\<lambda>once. s\<lparr>zynq_gps_valid_once := once\<rparr>);
     if cmd = ZYNQ_IOC_GPS_GET then do {
       (rv, v, once, w) \<leftarrow> zynq_get_gps_time zp z once w;
       if rv \<noteq> 0 then Some (- EAGAIN, NoGps, valid once, w)
       else if \<not> gps_copy_ok env then Some (- EFAULT, NoGps, valid once, w)
       else Some (0, GpsVal v (gps_stack env), valid once, w)
     }
     else if cmd = ZYNQ_IOC_GPS_GPRMC_GET then do {
       (rv, vs, w) \<leftarrow> zynq_get_gprmc zp z w;
       if rv \<noteq> 0 then Some (- EAGAIN, NoGps, s, w)
       else if \<not> gps_copy_ok env then Some (- EFAULT, NoGps, s, w)
       else Some (0, Gprmc vs, s, w)
     }
     else if cmd = ZYNQ_IOC_GPS_SYNC then
       (if zynq_gps_master_dev s \<noteq> Some h then Some (- EPERM, NoGps, s, w)
        else do {
          (rv, z, once, w) \<leftarrow> zynq_do_gps_sync zp (gps_clock env) z once w;
          Some (if rv \<noteq> 0 then - EAGAIN else 0, NoGps, put_zdev h z (valid once), w)
        })
     else if cmd = ZYNQ_IOC_GPS_FPGA_INIT then
       (if zynq_gps_master_dev s \<noteq> Some h then Some (- EPERM, NoGps, s, w)
        else do {
          (rv, once, w) \<leftarrow> zynq_gps_init_fpga_time zp (gps_tm env) (gps_now env) z once w;
          Some (rv, NoGps, valid once, w)
        })
     else Some (- EINVAL, NoGps, s, w)
   }"

text \<open>The length of the BAR is cut to 32 bits.\<close>

definition zynq_mmap :: "bar_env \<Rightarrow> nat option \<Rightarrow> vm_area \<Rightarrow> world \<Rightarrow> int \<times> world" where
  "zynq_mmap env zdev vma w =
     (case zdev of
        None \<Rightarrow> (- EINVAL, w)
      | Some _ \<Rightarrow>
          (let off = push_bit 12 (vm_pgoff vma);
               vsize = vm_end vma - vm_start vma;
               bar_start = resource_start env 0;
               bar_len = (ucast (resource_end env 0 - resource_start env 0 + 1) :: u32);
               phys = bar_start + off;
               psize = ucast bar_len - off
           in if vsize > psize then (- EINVAL, w)
              else if \<not> remap_ok env then (- EAGAIN, w)
              else (0, kcall (UserMapped (drop_bit 12 phys) vsize) w)))"

definition zynq_read ::
  "zynq_params \<Rightarrow> bool \<Rightarrow> zynq_dev option \<Rightarrow> u64 \<Rightarrow> world \<Rightarrow> (int \<times> u32 option \<times> u64 \<times> world) option" where
  "zynq_read zp copy_ok zdev pos w =
     (case zdev of
        None \<Rightarrow> Some (- EINVAL, None, pos, w)
      | Some z \<Rightarrow>
          let off = (ucast pos :: u32) in
          if off AND 3 \<noteq> 0 then Some (- EPROTO, None, pos, w)
          else do {
            (v, w) \<leftarrow> zynq_g_reg_read zp z off w;
            Some (4, if copy_ok then Some v else None, pos + 4, w)
          })"

definition zynq_write ::
  "zynq_params \<Rightarrow> u32 \<Rightarrow> zynq_dev option \<Rightarrow> u64 \<Rightarrow> world \<Rightarrow> (int \<times> u64 \<times> world) option" where
  "zynq_write zp uval zdev pos w =
     (case zdev of
        None \<Rightarrow> Some (- EINVAL, pos, w)
      | Some z \<Rightarrow>
          let off = (ucast pos :: u32) in
          if off AND 3 \<noteq> 0 then Some (- EPROTO, pos, w)
          else do {
            w \<leftarrow> zynq_g_reg_write zp z off uval w;
            Some (4, pos + 4, w)
          })"

definition zynq_gps_open :: "nat \<Rightarrow> int \<times> nat" where
  "zynq_gps_open zdev = (0, zdev)"

definition zynq_gps_release :: int where
  "zynq_gps_release = 0"

end
