(* ===== verification/ZynqMain.thy ===== *)
theory ZynqMain
  imports Gps
begin

text \<open>
  The sensor FPGA as a device (zynq_main.c): masking and acknowledging its interrupts, the
  tasklets, the structures of the channels, the node of the GPS, probing and removing, and
  the start and end of the module.

  The parts of the structure of a device that follow it in memory, its channels, CAN and
  video structures, are lists of the device.  A device number of zero is the pair of zeros.
\<close>

unbundle bit_operations_syntax

section \<open>Interrupt masks\<close>

definition zdev_clear_intr_ch :: "zynq_params \<Rightarrow> zynq_dev \<Rightarrow> nat \<Rightarrow> world \<Rightarrow> world option" where
  "zdev_clear_intr_ch zp z ch w =
     (if ch \<ge> zdev_chan_cnt z then Some w
      else do {
        w \<leftarrow> zynq_g_reg_write zp z ZYNQ_G_INTR_STATUS_TX (ZYNQ_INTR_CH_TX_ALL ch) w;
        zynq_g_reg_write zp z ZYNQ_G_INTR_STATUS_RX (ZYNQ_INTR_CH_RX_ALL ch) w
      })"

primrec clear_err_loop :: "zynq_params \<Rightarrow> zynq_chan list \<Rightarrow> world \<Rightarrow> world option" where
  "clear_err_loop zp [] w = Some w"
| "clear_err_loop zp (c # cs) w = do {
     (v, w) \<leftarrow> zchan_reg_read zp c ZYNQ_CH_ERR_STATUS w;
     w \<leftarrow> zchan_reg_write zp c ZYNQ_CH_ERR_STATUS v w;
     clear_err_loop zp cs w
   }"

definition zdev_clear_err_intr_all :: "zynq_params \<Rightarrow> zynq_dev \<Rightarrow> world \<Rightarrow> world option" where
  "zdev_clear_err_intr_all zp z w = clear_err_loop zp (take (zdev_chan_cnt z) (zdev_chans z)) w"

definition zdev_clear_intr_all :: "zynq_params \<Rightarrow> zynq_dev \<Rightarrow> world \<Rightarrow> world option" where
  "zdev_clear_intr_all zp z w = do {
     (v, w) \<leftarrow> zynq_g_reg_read zp z ZYNQ_G_INTR_STATUS_TX w;
     w \<leftarrow> zynq_g_reg_write zp z ZYNQ_G_INTR_STATUS_TX v w;
     (v, w) \<leftarrow> zynq_g_reg_read zp z ZYNQ_G_INTR_STATUS_RX w;
     w \<leftarrow> zynq_g_reg_write zp z ZYNQ_G_INTR_STATUS_RX v w;
     (v, w) \<leftarrow> zynq_g_reg_read zp z ZYNQ_G_PS_INTR_STATUS w;
     zynq_g_reg_write zp z ZYNQ_G_PS_INTR_STATUS v w
   }"

definition zdev_disable_intr_all :: "zynq_params \<Rightarrow> zynq_dev \<Rightarrow> world \<Rightarrow> world option" where
  "zdev_disable_intr_all zp z w = do {
     w \<leftarrow> zynq_g_reg_write zp z ZYNQ_G_INTR_MASK_TX ZYNQ_INTR_TX_ALL w;
     w \<leftarrow> zynq_g_reg_write zp z ZYNQ_G_INTR_MASK_RX ZYNQ_INTR_RX_ALL w;
     zynq_g_reg_write zp z ZYNQ_G_PS_INTR_MASK ZYNQ_PS_INTR_ALL w
   }"

definition zdev_enable_intr_all :: "zynq_params \<Rightarrow> zynq_dev \<Rightarrow> world \<Rightarrow> world option" where
  "zdev_enable_intr_all zp z w =
     (let all = (\<lambda>f. fold (\<lambda>ch m. m OR f ch) [0..<zdev_chan_cnt z] (0 :: u32));
          (tx, rx, ps) =
            (if zynq_fwupdate zp then (0, 0, NOT ZYNQ_PS_INTR_FW)
             else (all ZYNQ_INTR_CH_TX_ALL, all ZYNQ_INTR_CH_RX_ALL, NOT ZYNQ_PS_INTR_GPS_PPS))
      in do {
        w \<leftarrow> zynq_g_reg_write zp z ZYNQ_G_INTR_UNMASK_TX tx w;
        w \<leftarrow> zynq_g_reg_write zp z ZYNQ_G_INTR_UNMASK_RX rx w;
        zynq_g_reg_write zp z ZYNQ_G_PS_INTR_MASK ps w
      })"

definition zdev_disable_intr_ch :: "zynq_params \<Rightarrow> zynq_dev \<Rightarrow> nat \<Rightarrow> world \<Rightarrow> world option" where
  "zdev_disable_intr_ch zp z ch w = do {
     w \<leftarrow> zynq_g_reg_write zp z ZYNQ_G_INTR_MASK_TX (ZYNQ_INTR_CH_TX_ALL ch) w;
     zynq_g_reg_write zp z ZYNQ_G_INTR_MASK_RX (ZYNQ_INTR_CH_RX_ALL ch) w
   }"

definition zdev_enable_intr_ch :: "zynq_params \<Rightarrow> zynq_dev \<Rightarrow> nat \<Rightarrow> world \<Rightarrow> world option" where
  "zdev_enable_intr_ch zp z ch w = do {
     w \<leftarrow> zynq_g_reg_write zp z ZYNQ_G_INTR_UNMASK_TX (ZYNQ_INTR_CH_TX_ALL ch) w;
     zynq_g_reg_write zp z ZYNQ_G_INTR_UNMASK_RX (ZYNQ_INTR_CH_RX_ALL ch) w
   }"

definition zdev_disable_intr_ch_rx_all :: "zynq_params \<Rightarrow> zynq_dev \<Rightarrow> nat \<Rightarrow> world \<Rightarrow> world option" where
  "zdev_disable_intr_ch_rx_all zp z ch w = zynq_g_reg_write zp z ZYNQ_G_INTR_MASK_RX (ZYNQ_INTR_CH_RX_ALL ch) w"

definition zdev_enable_intr_ch_rx_all :: "zynq_params \<Rightarrow> zynq_dev \<Rightarrow> nat \<Rightarrow> world \<Rightarrow> world option" where
  "zdev_enable_intr_ch_rx_all zp z ch w = zynq_g_reg_write zp z ZYNQ_G_INTR_UNMASK_RX (ZYNQ_INTR_CH_RX_ALL ch) w"

definition zdev_disable_intr_ch_tx_all :: "zynq_params \<Rightarrow> zynq_dev \<Rightarrow> nat \<Rightarrow> world \<Rightarrow> world option" where
  "zdev_disable_intr_ch_tx_all zp z ch w = zynq_g_reg_write zp z ZYNQ_G_INTR_MASK_TX (ZYNQ_INTR_CH_TX_ALL ch) w"

definition zdev_enable_intr_ch_tx_all :: "zynq_params \<Rightarrow> zynq_dev \<Rightarrow> nat \<Rightarrow> world \<Rightarrow> world option" where
  "zdev_enable_intr_ch_tx_all zp z ch w = zynq_g_reg_write zp z ZYNQ_G_INTR_UNMASK_TX (ZYNQ_INTR_CH_TX_ALL ch) w"

section \<open>Counters\<close>

text \<open>Whether a counter is to be logged now, and the counter and the time of its last log.\<close>

definition zynq_stats_log ::
  "zynq_params \<Rightarrow> u64 \<Rightarrow> u64 \<Rightarrow> (u64 \<times> u64) option \<Rightarrow> int \<Rightarrow> int \<Rightarrow> int \<times> (u64 \<times> u64) option" where
  "zynq_stats_log zp jiffies hz stats count interval =
     (case stats of
        None \<Rightarrow> (0, None)
      | Some (cnt, ts) \<Rightarrow>
          (let cnt = cnt + word_of_int count;
               log_interval = (if interval \<ge> 0 then word_of_int interval else zynq_stats_log_interval zp * hz)
           in if \<not> zynq_trace_stats zp \<and> jiffies - ts < log_interval then (0, Some (cnt, ts))
              else (1, Some (cnt, jiffies))))"

section \<open>Tasklets\<close>

text \<open>
  The counters of a channel for the bits of the two status words; \<^verbatim>\<open>zynq_chan_proc\<close>, which
  gets the same as a mask, does nothing.
\<close>

definition count_chan :: "u32 \<Rightarrow> u32 \<Rightarrow> nat \<Rightarrow> chan_stats \<Rightarrow> chan_stats" where
  "count_chan rx tx ch st =
     (let st = (if rx AND ZYNQ_INTR_CH_RX ch \<noteq> 0 then st\<lparr>CHAN_STATS_RX_INTR := CHAN_STATS_RX_INTR st + 1\<rparr> else st);
          st = (if tx AND ZYNQ_INTR_CH_TX ch \<noteq> 0 then st\<lparr>CHAN_STATS_TX_INTR := CHAN_STATS_TX_INTR st + 1\<rparr> else st);
          st = (if rx AND ZYNQ_INTR_CH_RX_ERR ch \<noteq> 0
                then st\<lparr>CHAN_STATS_RX_ERR_INTR := CHAN_STATS_RX_ERR_INTR st + 1\<rparr> else st)
      in if tx AND ZYNQ_INTR_CH_TX_ERR ch \<noteq> 0
         then st\<lparr>CHAN_STATS_TX_ERR_INTR := CHAN_STATS_TX_ERR_INTR st + 1\<rparr> else st)"

text \<open>The reads of the last trace message are made only when it is printed.\<close>

definition zynq_chan_tasklet ::
  "zynq_params \<Rightarrow> nat \<Rightarrow> nat \<Rightarrow> zynq_state \<Rightarrow> world \<Rightarrow> (zynq_state \<times> world) option" where
  "zynq_chan_tasklet zp h i s w = do {
     z \<leftarrow> zdevs s h;
     c \<leftarrow> arr_get (int i) (zdev_chans z);
     (tx, w) \<leftarrow> zynq_g_reg_read zp z ZYNQ_G_INTR_STATUS_TX w;
     (rx, w) \<leftarrow> zynq_g_reg_read zp z ZYNQ_G_INTR_STATUS_RX w;
     let chan_id = zchan_num c;
     (gps, w) \<leftarrow>
       (if chan_id = 0 then do {
          (gps, w) \<leftarrow> zynq_g_reg_read zp z ZYNQ_G_PS_INTR_STATUS w;
          w \<leftarrow> (if gps AND ZYNQ_PS_INTR_GPS_PPS_CHG \<noteq> 0 then zynq_gps_pps_changed zp h s w else Some w);
          Some (gps, w)
        }
        else Some (0, w));
     let c = c\<lparr>zchan_stats := count_chan rx tx chan_id (zchan_stats c)\<rparr>;
     w \<leftarrow> (if tx \<noteq> 0 then zynq_g_reg_write zp z ZYNQ_G_INTR_STATUS_TX (ZYNQ_INTR_CH_TX_ALL chan_id) w else Some w);
     w \<leftarrow> (if rx \<noteq> 0 then zynq_g_reg_write zp z ZYNQ_G_INTR_STATUS_RX (ZYNQ_INTR_CH_RX_ALL chan_id) w else Some w);
     w \<leftarrow> (if gps \<noteq> 0 then zynq_g_reg_write zp z ZYNQ_G_PS_INTR_STATUS gps w else Some w);
     w \<leftarrow>
       (if zynq_trace_intr zp then do {
          (_, w) \<leftarrow> zynq_g_reg_read zp z ZYNQ_G_INTR_STATUS_TX w;
          (_, w) \<leftarrow> zynq_g_reg_read zp z ZYNQ_G_INTR_STATUS_RX w;
          (_, w) \<leftarrow> zynq_g_reg_read zp z ZYNQ_G_PS_INTR_STATUS w;
          Some w
        }
        else Some w);
     Some (put_zdev h (z\<lparr>zdev_chans := (zdev_chans z)[i := c]\<rparr>) s, w)
   }"

text \<open>The loop over the channels, with the number of the next.\<close>

primrec count_chans :: "u32 \<Rightarrow> u32 \<Rightarrow> nat \<Rightarrow> nat \<Rightarrow> zynq_chan list \<Rightarrow> zynq_chan list option" where
  "count_chans rx tx 0 ch cs = Some cs"
| "count_chans rx tx (Suc n) ch cs = do {
     cs \<leftarrow> arr_mod (int ch) (\<lambda>c. c\<lparr>zchan_stats := count_chan rx tx ch (zchan_stats c)\<rparr>) cs;
     count_chans rx tx n (Suc ch) cs
   }"

definition zynq_tasklet ::
  "zynq_params \<Rightarrow> nat \<Rightarrow> zynq_state \<Rightarrow> world \<Rightarrow> (zynq_state \<times> world) option" where
  "zynq_tasklet zp h s w = do {
     z \<leftarrow> zdevs s h;
     (rd_intr, w) \<leftarrow> zynq_g_reg_read zp z ZYNQ_G_INTR_STATUS_TX w;
     (wr_intr, w) \<leftarrow> zynq_g_reg_read zp z ZYNQ_G_INTR_STATUS_RX w;
     (ps_intr, w) \<leftarrow> zynq_g_reg_read zp z ZYNQ_G_PS_INTR_STATUS w;
     if rd_intr = 0 \<and> wr_intr = 0 \<and> ps_intr = 0
     then Some (put_zdev h (z\<lparr>zdev_intr_invalid := zdev_intr_invalid z + 1\<rparr>) s, w)
     else do {
       w \<leftarrow> (if ps_intr AND ZYNQ_PS_INTR_GPS_PPS_CHG \<noteq> 0 then zynq_gps_pps_changed zp h s w else Some w);
       cs \<leftarrow> count_chans wr_intr rd_intr (zdev_chan_cnt z) 0 (zdev_chans z);
       w \<leftarrow> (if rd_intr \<noteq> 0 then zynq_g_reg_write zp z ZYNQ_G_INTR_STATUS_TX rd_intr w else Some w);
       w \<leftarrow> (if wr_intr \<noteq> 0 then zynq_g_reg_write zp z ZYNQ_G_INTR_STATUS_RX wr_intr w else Some w);
       w \<leftarrow> (if ps_intr \<noteq> 0 then zynq_g_reg_write zp z ZYNQ_G_PS_INTR_STATUS ps_intr w else Some w);
       Some (put_zdev h (z\<lparr>zdev_chans := cs\<rparr>) s, w)
     }
   }"

section \<open>The structure of a device\<close>

definition hweight_long :: "u64 \<Rightarrow> nat" where
  "hweight_long v = length (filter (bit v) [0..<64])"

definition zero_zdev :: zynq_dev where
  "zero_zdev = \<lparr>zdev_inst = 0, zdev_version = 0, zdev_hw_cap = 0, zdev_chan_cnt = 0, zdev_can_cnt = 0,
     zdev_video_cnt = 0, zdev_can_map = 0, zdev_video_map = 0, zdev_can_num_start = 0, zdev_chans = [],
     zdev_cans = [], zdev_videos = [], zdev_vid = 0, zdev_did = 0, zdev_bar0 = None, zdev_bar0_len = 0,
     zdev_dev_gps = (0, 0), zdev_gps_ts_first = \<lparr>tv_sec = 0, tv_nsec = 0\<rparr>, zdev_gps_ts = \<lparr>tv_sec = 0, tv_nsec = 0\<rparr>,
     zdev_gps_smoothing = 0, zdev_gps_cnt = 0, zdev_sys_drift = 0, zdev_intr_invalid = 0, zdev_next = None\<rparr>"

definition zynq_zdev_init :: "zynq_params \<Rightarrow> bool \<Rightarrow> u16 \<Rightarrow> zynq_dev option" where
  "zynq_zdev_init zp alloc_ok did =
     (if did \<noteq> PCI_DEVICE_ID_MOONROVER then None
      else
        (let (chan_cnt, video_map, can_map) =
               (if zynq_fwupdate zp then (0, 0, 0) else (ZYNQ_DMA_CHAN_NUM_MR, ZYNQ_VIDEO_MAP_MR, ZYNQ_CAN_MAP_MR));
             video_cnt = hweight_long video_map;
             can_cnt = hweight_long can_map
         in if \<not> alloc_ok then None
            else Some (zero_zdev\<lparr>zdev_chan_cnt := chan_cnt, zdev_can_cnt := can_cnt, zdev_video_cnt := video_cnt,
                   zdev_can_map := can_map, zdev_video_map := video_map,
                   zdev_chans := replicate chan_cnt zero_chan, zdev_cans := replicate can_cnt None,
                   zdev_videos := replicate video_cnt None\<rparr>)))"

text \<open>Giving each channel its number and its CAN or video structure, the next that is free.\<close>

primrec alloc_loop :: "nat \<Rightarrow> nat \<Rightarrow> nat \<Rightarrow> nat \<Rightarrow> zynq_dev \<Rightarrow> zynq_dev option" where
  "alloc_loop 0 i c v z = Some z"
| "alloc_loop (Suc n) i c v z = do {
     z \<leftarrow> map_option (\<lambda>cs. z\<lparr>zdev_chans := cs\<rparr>) (arr_mod (int i) (\<lambda>ch. ch\<lparr>zchan_num := i\<rparr>) (zdev_chans z));
     let chan_map = push_bit i 1;
     if zdev_can_map z AND chan_map \<noteq> 0 then do {
       cs \<leftarrow> arr_mod (int i) (\<lambda>ch. ch\<lparr>zchan_type := ZYNQ_CHAN_CAN, zchan_dev := Some c\<rparr>) (zdev_chans z);
       cans \<leftarrow> arr_mod (int c) (\<lambda>_. Some \<lparr>sub_num = c, sub_chan = i\<rparr>) (zdev_cans z);
       alloc_loop n (Suc i) (Suc c) v (z\<lparr>zdev_chans := cs, zdev_cans := cans\<rparr>)
     }
     else if zdev_video_map z AND chan_map \<noteq> 0 then do {
       cs \<leftarrow> arr_mod (int i) (\<lambda>ch. ch\<lparr>zchan_type := ZYNQ_CHAN_VIDEO, zchan_dev := Some v\<rparr>) (zdev_chans z);
       vs \<leftarrow> arr_mod (int v) (\<lambda>_. Some \<lparr>sub_num = v, sub_chan = i\<rparr>) (zdev_videos z);
       alloc_loop n (Suc i) c (Suc v) (z\<lparr>zdev_chans := cs, zdev_videos := vs\<rparr>)
     }
     else alloc_loop n (Suc i) c v z
   }"

text \<open>The outer option is the fault of a write outside the structures, the inner one \<^verbatim>\<open>NULL\<close>.\<close>

definition zdev_alloc :: "zynq_params \<Rightarrow> bool \<Rightarrow> u16 \<Rightarrow> zynq_dev option option" where
  "zdev_alloc zp alloc_ok did =
     (case zynq_zdev_init zp alloc_ok did of
        None \<Rightarrow> Some None
      | Some z \<Rightarrow> map_option Some (alloc_loop (zdev_chan_cnt z) 0 0 0 z))"

section \<open>The node of the GPS\<close>

text \<open>
  What the kernel answers while a device is probed.  \<^verbatim>\<open>stale_err\<close> and \<^verbatim>\<open>stale_i\<close> are what the
  variables \<^verbatim>\<open>err\<close> and \<^verbatim>\<open>i\<close> hold where they are used without having been set.
\<close>

record zynq_env =
  zynq_alloc_ok :: bool
  zynq_pci_vid :: u16
  zynq_pci_did :: u16
  zynq_bar_len :: u32
  zynq_ioremap :: "addr option"
  zynq_device_created :: bool
  zynq_cdev_added :: bool
  zynq_dma64_ok :: bool
  zynq_dma32_ok :: bool
  zynq_coherent_ok :: bool
  zynq_thread_ok :: bool
  stale_err :: int
  stale_i :: u32

definition zynq_create_cdev ::
  "zynq_env \<Rightarrow> zynq_state \<Rightarrow> world \<Rightarrow> (nat \<times> nat) \<times> zynq_state \<times> world" where
  "zynq_create_cdev env s w =
     (let dev = (zynq_major s, zynq_minor s);
          s = s\<lparr>zynq_minor := zynq_minor s + 1\<rparr>
      in if \<not> zynq_device_created env then ((0, 0), s, w)
         else
           (let w = kcall (SysDevAdded (fst dev) (snd dev)) w
            in if \<not> zynq_cdev_added env then ((0, 0), s, kcall (SysDevRemoved (fst dev) (snd dev)) w)
               else (dev, s, kcall (CharDevAdded (fst dev) (snd dev)) w)))"

definition zynq_destroy_cdev :: "nat \<times> nat \<Rightarrow> world \<Rightarrow> world" where
  "zynq_destroy_cdev dev w =
     kcall (SysDevRemoved (fst dev) (snd dev)) (kcall (CharDevRemoved (fst dev) (snd dev)) w)"

definition zynq_create_cdev_all ::
  "zynq_env \<Rightarrow> zynq_dev \<Rightarrow> zynq_state \<Rightarrow> world \<Rightarrow> int \<times> zynq_dev \<times> zynq_state \<times> world" where
  "zynq_create_cdev_all env z s w =
     (let (dev, s, w) = zynq_create_cdev env s w;
          z = z\<lparr>zdev_dev_gps := dev\<rparr>
      in (if dev = (0, 0) then - 1 else 0, z, s, w))"

definition zynq_destroy_cdev_all :: "zynq_dev \<Rightarrow> world \<Rightarrow> world" where
  "zynq_destroy_cdev_all z w =
     (if zdev_dev_gps z \<noteq> (0, 0) then zynq_destroy_cdev (zdev_dev_gps z) w else w)"

section \<open>Probing and removing\<close>

text \<open>
  The names that are printed into the structure are not modelled.  The exits after the mapping
  of BAR 0 count \<^verbatim>\<open>i\<close> down to zero (a negative value wraps, as a word does) and move the
  pointer \<^verbatim>\<open>zchan\<close> down with it; what the loop would have released for each channel is
  commented out, so that its result, the pointer, is not used.
\<close>

primrec err_chan_loop :: "nat \<Rightarrow> int \<Rightarrow> int" where
  "err_chan_loop 0 zchan = zchan"
| "err_chan_loop (Suc i) zchan = err_chan_loop i (zchan - 1)"

definition zynq_probe_fail ::
  "u32 option \<Rightarrow> nat \<Rightarrow> int \<Rightarrow> zynq_state \<Rightarrow> world \<Rightarrow> (int \<times> zynq_state \<times> world) option" where
  "zynq_probe_fail mapped h err s w =
     (let w = (case mapped of
                 Some i \<Rightarrow> (let _ = err_chan_loop (unat i) 0 in kcall ZynqBarUnmapped w)
               | None \<Rightarrow> w)
      in Some (err, free_zdev h s, kcall ZynqDevFreed w))"

definition zynq_dma_masks :: "zynq_env \<Rightarrow> world \<Rightarrow> bool \<times> world" where
  "zynq_dma_masks env w =
     (if zynq_dma64_ok env \<or> zynq_dma32_ok env then
        (let w = kcall (DmaMaskSet (if zynq_dma64_ok env then 64 else 32)) w
         in if zynq_coherent_ok env then (True, kcall (ConsistentMaskSet 64) w) else (False, w))
      else (False, w))"

text \<open>What follows the mapping of BAR 0.\<close>

definition zynq_probe_setup ::
  "zynq_params \<Rightarrow> zynq_env \<Rightarrow> nat \<Rightarrow> zynq_dev \<Rightarrow> zynq_state \<Rightarrow> world \<Rightarrow> (int \<times> zynq_state \<times> world) option" where
  "zynq_probe_setup zp env h z s w = do {
     let w = kcall ZynqBarMapped w;
     (ver, w) \<leftarrow> zynq_g_reg_read zp z ZYNQ_G_VERSION w;
     let z = z\<lparr>zdev_version := ver\<rparr>;
     let (rv, z, s, w) = zynq_create_cdev_all env z s w;
     if rv \<noteq> 0 then zynq_probe_fail (Some (stale_i env)) h (stale_err env) s w
     else do {
       let (ok, w) = zynq_dma_masks env (kcall BusMaster w);
       if \<not> ok then zynq_probe_fail (Some (stale_i env)) h (- EPERM) s (zynq_destroy_cdev_all z w)
       else do {
         w \<leftarrow> zdev_enable_intr_all zp z w;
         let z = z\<lparr>zdev_next := zynq_dev_list s\<rparr>;
         let s = put_zdev h z (s\<lparr>zynq_dev_list := Some h\<rparr>);
         (s, w) \<leftarrow> zynq_gps_init zp (zynq_thread_ok env) h s w;
         Some (0, s, w)
       }
     }
   }"

definition zynq_probe ::
  "zynq_params \<Rightarrow> zynq_env \<Rightarrow> nat \<Rightarrow> zynq_state \<Rightarrow> world \<Rightarrow> (int \<times> zynq_state \<times> world) option" where
  "zynq_probe zp env h s w = do {
     a \<leftarrow> zdev_alloc zp (zynq_alloc_ok env) (zynq_pci_did env);
     case a of
       None \<Rightarrow> Some (- ENOMEM, s\<lparr>zdev_static := None\<rparr>, w)
     | Some z \<Rightarrow> do {
         let z = z\<lparr>zdev_inst := zynq_instance s, zdev_can_num_start := zynq_can_count s,
                   zdev_vid := zynq_pci_vid env, zdev_did := zynq_pci_did env,
                   zdev_bar0 := zynq_ioremap env, zdev_bar0_len := zynq_bar_len env\<rparr>;
         let s = s\<lparr>zdev_static := Some h, zynq_can_count := zynq_can_count s + zdev_can_cnt z,
                   zynq_instance := zynq_instance s + 1\<rparr>;
         if zdev_bar0 z = None then zynq_probe_fail None h (- EFAULT) s w
         else zynq_probe_setup zp env h z s w
       }
   }"

definition zynq_remove :: "zynq_params \<Rightarrow> zynq_state \<Rightarrow> world \<Rightarrow> (zynq_state \<times> world) option" where
  "zynq_remove zp s w =
     (case zdev_static s of
        None \<Rightarrow> Some (s, w)
      | Some h \<Rightarrow> do {
          let (s, w) = zynq_gps_fini s w;
          z \<leftarrow> zdevs s h;
          w \<leftarrow> zdev_disable_intr_all zp z w;
          let w = zynq_destroy_cdev_all z w;
          let w = kcall ZynqDevFreed (kcall ZynqBarUnmapped w);
          Some ((free_zdev h s)\<lparr>zdev_static := None\<rparr>, w)
        })"

section \<open>Start and end of the module\<close>

definition zynq_cdev_init :: "int \<Rightarrow> nat \<times> nat \<Rightarrow> bool \<Rightarrow> zynq_state \<Rightarrow> world \<Rightarrow> int \<times> zynq_state \<times> world" where
  "zynq_cdev_init region_rv dev class_ok s w =
     (if region_rv \<noteq> 0 then (region_rv, s, w)
      else
        (let w = kcall (ChrdevRegion (fst dev)) w;
             s = s\<lparr>zynq_major := fst dev, zynq_minor := snd dev\<rparr>
         in if \<not> class_ok then (- 1, s\<lparr>zynq_class := False\<rparr>, kcall (ChrdevRegionFreed (fst dev)) w)
            else (0, s\<lparr>zynq_class := True\<rparr>, w)))"

definition zynq_cdev_cleanup :: "zynq_state \<Rightarrow> world \<Rightarrow> world" where
  "zynq_cdev_cleanup s w = kcall (ChrdevRegionFreed (zynq_major s)) w"

end
