(* ===== verification/Module.thy ===== *)
theory Module
  imports ZynqMain
begin

text \<open>
  The module (xdma_mod.c): the structure of a PCI device, probing and removing, the handlers
  of PCI errors, and the start and end of the module.

  The structures live in a table by address, as those of the sensor FPGA do; the private data
  of a PCI device is the address of its structure.  The addresses that the allocators return
  are arguments of a probe: \<^verbatim>\<open>x\<close> for the structure of the module, \<^verbatim>\<open>h\<close> for that of the
  library, \<^verbatim>\<open>zh\<close> for that of the sensor FPGA.
\<close>

unbundle bit_operations_syntax

section \<open>Structures\<close>

record mod_state =
  xpdevs :: "nat \<Rightarrow> xdma_pci_dev option"
  drvdata :: "nat \<Rightarrow> nat option"
  xpdev_cnt :: int
  mod_devs :: devtab
  mod_zynq :: zynq_state

text \<open>What the kernel answers, by the part that asks.\<close>

record mod_env =
  xpdev_alloc_ok :: bool
  mod_pci :: pci_env
  mod_cdev :: cdev_env
  mod_zenv :: zynq_env

record mod_params =
  mod_mp :: modparams
  mod_zp :: zynq_params

definition zero_xpdev :: xdma_pci_dev where
  "zero_xpdev = \<lparr>x_magic = 0, x_pdev = 0, x_xdev = None, x_major = 0, x_user_max = 0, x_c2h_channel_max = 0,
     x_h2c_channel_max = 0, x_flags = 0, x_ctrl = zero_cdev,
     x_sgdma_c2h = replicate XDMA_CHANNEL_NUM_MAX zero_cdev, x_sgdma_h2c = replicate XDMA_CHANNEL_NUM_MAX zero_cdev,
     x_events = replicate 16 zero_cdev, x_user = zero_cdev,
     x_bypass_c2h = replicate XDMA_CHANNEL_NUM_MAX zero_cdev, x_bypass_h2c = replicate XDMA_CHANNEL_NUM_MAX zero_cdev,
     x_bypass_base = zero_cdev, x_xvc = zero_cdev\<rparr>"

definition put_xpdev :: "nat \<Rightarrow> xdma_pci_dev \<Rightarrow> mod_state \<Rightarrow> mod_state" where
  "put_xpdev x xp s = s\<lparr>xpdevs := (xpdevs s)(x := Some xp)\<rparr>"

definition xpdev_alloc :: "bool \<Rightarrow> nat \<Rightarrow> nat \<Rightarrow> mod_state \<Rightarrow> bool \<times> mod_state" where
  "xpdev_alloc ok pdev x s =
     (if \<not> ok then (False, s)
      else
        (let xpdev = zero_xpdev\<lparr>x_magic := MAGIC_DEVICE, x_pdev := pdev, x_user_max := MAX_USER_IRQ,
               x_h2c_channel_max := XDMA_CHANNEL_NUM_MAX, x_c2h_channel_max := XDMA_CHANNEL_NUM_MAX\<rparr>
         in (True, (put_xpdev x xpdev s)\<lparr>xpdev_cnt := xpdev_cnt s + 1\<rparr>)))"

definition xpdev_free ::
  "mod_params \<Rightarrow> mod_env \<Rightarrow> nat \<Rightarrow> mod_state \<Rightarrow> world \<Rightarrow> (mod_state \<times> world) option" where
  "xpdev_free mp env x s w = do {
     xpdev \<leftarrow> xpdevs s x;
     let xdev = x_xdev xpdev;
     w \<leftarrow> xpdev_destroy_interfaces (mod_cdev env) xpdev w;
     let xpdev = xpdev\<lparr>x_xdev := None\<rparr>;
     (tab, w) \<leftarrow> xdma_device_close (mod_pci env) (mod_mp mp) (Some (x_pdev xpdev)) xdev (mod_devs s) w;
     Some (s\<lparr>mod_devs := tab, xpdev_cnt := xpdev_cnt s - 1, xpdevs := (xpdevs s)(x := None)\<rparr>, w)
   }"

section \<open>Probing and removing\<close>

text \<open>The exit of a failed probe.\<close>

definition probe_err_out ::
  "mod_params \<Rightarrow> mod_env \<Rightarrow> nat \<Rightarrow> int \<Rightarrow> mod_state \<Rightarrow> world \<Rightarrow> (int \<times> mod_state \<times> world) option" where
  "probe_err_out mp env x rv s w = do {
     (s, w) \<leftarrow> xpdev_free mp env x s w;
     Some (rv, s, w)
   }"

text \<open>What follows when the device is found: its interfaces, and the sensor FPGA.\<close>

definition probe_interfaces ::
  "mod_params \<Rightarrow> mod_env \<Rightarrow> nat \<Rightarrow> nat \<Rightarrow> nat \<Rightarrow> nat \<Rightarrow> xdma_pci_dev \<Rightarrow> mod_state \<Rightarrow> world \<Rightarrow>
   (int \<times> mod_state \<times> world) option" where
  "probe_interfaces mp env pdev x hndl zh xpdev s w = do {
     let xpdev = xpdev\<lparr>x_xdev := Some hndl\<rparr>;
     (rv, xpdev, w) \<leftarrow> xpdev_create_interfaces (mod_cdev env) (dt_devs (mod_devs s) hndl) xpdev w;
     let s = put_xpdev x xpdev s;
     if rv \<noteq> 0 then probe_err_out mp env x rv s w
     else do {
       let s = s\<lparr>drvdata := (drvdata s)(pdev := Some x)\<rparr>;
       (_, zs, w) \<leftarrow> zynq_probe (mod_zp mp) (mod_zenv env) zh (mod_zynq s) w;
       Some (0, s\<lparr>mod_zynq := zs\<rparr>, w)
     }
   }"

text \<open>What follows when the library has opened the device.\<close>

definition probe_opened ::
  "mod_params \<Rightarrow> mod_env \<Rightarrow> nat \<Rightarrow> nat \<Rightarrow> nat \<Rightarrow> nat \<Rightarrow> xdma_pci_dev \<Rightarrow> mod_state \<Rightarrow> world \<Rightarrow>
   (int \<times> mod_state \<times> world) option" where
  "probe_opened mp env pdev x hndl zh xpdev s w = do {
     BUG_ON (x_user_max xpdev > MAX_USER_IRQ);
     BUG_ON (x_h2c_channel_max xpdev > XDMA_CHANNEL_NUM_MAX);
     BUG_ON (x_c2h_channel_max xpdev > XDMA_CHANNEL_NUM_MAX);
     (rv, tab, w) \<leftarrow>
       (if x_user_max xpdev \<noteq> 0
        then xdma_user_isr_enable (Some hndl) (push_bit (x_user_max xpdev + 1) 1 - 1) (mod_devs s) w
        else Some (0, mod_devs s, w));
     let s = s\<lparr>mod_devs := tab\<rparr>;
     if rv \<noteq> 0 then probe_err_out mp env x rv s w
     else
       (case xdev_find_by_pdev pdev (mod_devs s) of
          None \<Rightarrow> Some (- EINVAL, s, w)
        | Some xdev \<Rightarrow> do {
            BUG_ON (hndl \<noteq> xdev);
            probe_interfaces mp env pdev x hndl zh xpdev s w
          })
   }"

definition probe_one ::
  "mod_params \<Rightarrow> mod_env \<Rightarrow> nat \<Rightarrow> nat \<Rightarrow> nat \<Rightarrow> nat \<Rightarrow> mod_state \<Rightarrow> world \<Rightarrow>
   (int \<times> mod_state \<times> world) option" where
  "probe_one mp env pdev x h zh s w =
     (let (ok, s) = xpdev_alloc (xpdev_alloc_ok env) pdev x s in
      if \<not> ok then Some (- ENOMEM, s, w)
      else do {
        xpdev \<leftarrow> xpdevs s x;
        (hndl, (user_max, h2c_channel_max, c2h_channel_max), tab, w) \<leftarrow>
          xdma_device_open (mod_pci env) (mod_mp mp) pdev h
            (int (x_user_max xpdev), int (x_h2c_channel_max xpdev), int (x_c2h_channel_max xpdev)) (mod_devs s) w;
        let xpdev = xpdev\<lparr>x_user_max := nat user_max, x_h2c_channel_max := nat h2c_channel_max,
              x_c2h_channel_max := nat c2h_channel_max\<rparr>;
        let s = put_xpdev x xpdev (s\<lparr>mod_devs := tab\<rparr>);
        case hndl of
          None \<Rightarrow> Some (- EINVAL, s, w)
        | Some hndl \<Rightarrow> probe_opened mp env pdev x hndl zh xpdev s w
      })"

definition remove_one ::
  "mod_params \<Rightarrow> mod_env \<Rightarrow> nat option \<Rightarrow> mod_state \<Rightarrow> world \<Rightarrow> (mod_state \<times> world) option" where
  "remove_one mp env pdev s w =
     (case pdev of
        None \<Rightarrow> Some (s, w)
      | Some p \<Rightarrow> do {
          (zs, w) \<leftarrow> zynq_remove (mod_zp mp) (mod_zynq s) w;
          let s = s\<lparr>mod_zynq := zs\<rparr>;
          case drvdata s p of
            None \<Rightarrow> Some (s, w)
          | Some x \<Rightarrow> do {
              (s, w) \<leftarrow> xpdev_free mp env x s w;
              Some (s\<lparr>drvdata := (drvdata s)(p := None)\<rparr>, w)
            }
        })"

section \<open>PCI errors\<close>

datatype pci_channel_state = pci_channel_io_normal | pci_channel_io_frozen | pci_channel_io_perm_failure

datatype pci_ers_result =
  PCI_ERS_RESULT_CAN_RECOVER | PCI_ERS_RESULT_NEED_RESET | PCI_ERS_RESULT_DISCONNECT | PCI_ERS_RESULT_RECOVERED

text \<open>Taking the device of the private data off line and back on line.\<close>

definition mod_offline :: "mod_params \<Rightarrow> mod_env \<Rightarrow> nat \<Rightarrow> mod_state \<Rightarrow> world \<Rightarrow> (mod_state \<times> world) option" where
  "mod_offline mp env pdev s w = do {
     xpdev \<leftarrow> Option.bind (drvdata s pdev) (xpdevs s);
     (tab, w) \<leftarrow> xdma_device_offline (mod_pci env) (mod_mp mp) (Some pdev) (x_xdev xpdev) (mod_devs s) w;
     Some (s\<lparr>mod_devs := tab\<rparr>, w)
   }"

definition mod_online :: "mod_params \<Rightarrow> mod_env \<Rightarrow> nat \<Rightarrow> mod_state \<Rightarrow> world \<Rightarrow> (mod_state \<times> world) option" where
  "mod_online mp env pdev s w = do {
     xpdev \<leftarrow> Option.bind (drvdata s pdev) (xpdevs s);
     (tab, w) \<leftarrow> xdma_device_online (mod_pci env) (mod_mp mp) (Some pdev) (x_xdev xpdev) (mod_devs s) w;
     Some (s\<lparr>mod_devs := tab\<rparr>, w)
   }"

definition xdma_error_detected ::
  "mod_params \<Rightarrow> mod_env \<Rightarrow> nat \<Rightarrow> pci_channel_state \<Rightarrow> mod_state \<Rightarrow> world \<Rightarrow>
   (pci_ers_result \<times> mod_state \<times> world) option" where
  "xdma_error_detected mp env pdev state s w =
     (case state of
        pci_channel_io_normal \<Rightarrow> Some (PCI_ERS_RESULT_CAN_RECOVER, s, w)
      | pci_channel_io_frozen \<Rightarrow> do {
          (s, w) \<leftarrow> mod_offline mp env pdev s w;
          Some (PCI_ERS_RESULT_NEED_RESET, s, kcall DeviceDisabled w)
        }
      | pci_channel_io_perm_failure \<Rightarrow> Some (PCI_ERS_RESULT_DISCONNECT, s, w))"

text \<open>Saving and restoring the configuration space is the kernel's.\<close>

definition xdma_slot_reset ::
  "mod_params \<Rightarrow> mod_env \<Rightarrow> bool \<Rightarrow> nat \<Rightarrow> mod_state \<Rightarrow> world \<Rightarrow> (pci_ers_result \<times> mod_state \<times> world) option" where
  "xdma_slot_reset mp env enabled pdev s w =
     (if \<not> enabled then Some (PCI_ERS_RESULT_DISCONNECT, s, w)
      else do {
        (s, w) \<leftarrow> mod_online mp env pdev s (kcall BusMaster (kcall DeviceEnabled w));
        Some (PCI_ERS_RESULT_RECOVERED, s, w)
      })"

definition xdma_reset_prepare :: "mod_params \<Rightarrow> mod_env \<Rightarrow> nat \<Rightarrow> mod_state \<Rightarrow> world \<Rightarrow> (mod_state \<times> world) option" where
  "xdma_reset_prepare mp env pdev s w = mod_offline mp env pdev s w"

definition xdma_reset_done :: "mod_params \<Rightarrow> mod_env \<Rightarrow> nat \<Rightarrow> mod_state \<Rightarrow> world \<Rightarrow> (mod_state \<times> world) option" where
  "xdma_reset_done mp env pdev s w = mod_online mp env pdev s w"

section \<open>Start and end of the module\<close>

text \<open>The result of registering the driver is an argument; that of \<^verbatim>\<open>zynq_cdev_init\<close> is ignored.\<close>

definition xdma_mod_init ::
  "bool \<Rightarrow> int \<Rightarrow> nat \<times> nat \<Rightarrow> bool \<Rightarrow> int \<Rightarrow> mod_params \<Rightarrow> mod_state \<Rightarrow> world \<Rightarrow>
   int \<times> mod_params \<times> mod_state \<times> world" where
  "xdma_mod_init class_err region_rv dev class_ok driver_rv mp s w =
     (let mp = (if desc_blen_max (mod_mp mp) > XDMA_DESC_BLEN_MAX
                then mp\<lparr>mod_mp := (mod_mp mp)\<lparr>desc_blen_max := XDMA_DESC_BLEN_MAX\<rparr>\<rparr> else mp);
          rv = xdma_cdev_init class_err
      in if rv < 0 then (rv, mp, s, w)
         else
           (let (_, zs, w) = zynq_cdev_init region_rv dev class_ok (mod_zynq s) w
            in (driver_rv, mp, s\<lparr>mod_zynq := zs\<rparr>, w)))"

text \<open>
  Unregistering the driver makes the kernel remove the devices that are bound, which are
  calls of \<^verbatim>\<open>remove_one\<close>; destroying the class is the kernel's.
\<close>

definition xdma_mod_exit :: "mod_state \<Rightarrow> world \<Rightarrow> world" where
  "xdma_mod_exit s w = zynq_cdev_cleanup (mod_zynq s) w"

end
