(* ===== verification/Xvc.thy ===== *)
theory Xvc
  imports Ctrl
begin

text \<open>
  The virtual cable device (cdev_xvc.c, cdev_xvc.h): one shift of up to 32 bits through the
  registers of the debug bridge, and the ioctl that shifts the buffers of the user.
\<close>

unbundle bit_operations_syntax

definition XVC_BAR_LENGTH_REG :: addr where [const_defs]: "XVC_BAR_LENGTH_REG = 0x0"
definition XVC_BAR_TMS_REG :: addr where [const_defs]: "XVC_BAR_TMS_REG = 0x4"
definition XVC_BAR_TDI_REG :: addr where [const_defs]: "XVC_BAR_TDI_REG = 0x8"
definition XVC_BAR_TDO_REG :: addr where [const_defs]: "XVC_BAR_TDO_REG = 0xC"
definition XVC_BAR_CTRL_REG :: addr where [const_defs]: "XVC_BAR_CTRL_REG = 0x10"

definition COMPLETION_LOOP_MAX :: nat where [const_defs]: "COMPLETION_LOOP_MAX = 100"

definition XVC_MAGIC :: u32 where [const_defs]: "XVC_MAGIC = 0x58564344"
definition XDMA_IOCXVC :: u32 where "XDMA_IOCXVC = ioc_bits 3 XVC_MAGIC 1 32"

abbreviation (input) ETIMEDOUT :: int where "ETIMEDOUT \<equiv> 110"

section \<open>One shift\<close>

text \<open>The poll for completion returns the count that is left.\<close>

primrec xvc_poll :: "addr \<Rightarrow> nat \<Rightarrow> world \<Rightarrow> nat \<times> world" where
  "xvc_poll base 0 w = (0, w)"
| "xvc_poll base (Suc count) w =
     (let (control, w) = read_register (base + XVC_BAR_CTRL_REG) w
      in if control AND 1 = 0 then (Suc count, w) else xvc_poll base count w)"

definition xvc_shift_bits :: "addr \<Rightarrow> u32 \<Rightarrow> u32 \<Rightarrow> u32 \<Rightarrow> world \<Rightarrow> int \<times> u32 \<times> world" where
  "xvc_shift_bits base tms_bits tdi_bits tdo_bits w =
     (let w = write_register tms_bits (base + XVC_BAR_TMS_REG) w;
          w = write_register tdi_bits (base + XVC_BAR_TDI_REG) w;
          w = write_register 1 (base + XVC_BAR_CTRL_REG) w;
          (count, w) = xvc_poll base COMPLETION_LOOP_MAX w
      in if count = 0 then (- ETIMEDOUT, tdo_bits, w)
         else (let (tdo, w) = read_register (base + XVC_BAR_TDO_REG) w in (0, tdo, w)))"

section \<open>Buffers\<close>

text \<open>Copying between a buffer and a word, lowest byte first; a copy outside the buffer is a fault.\<close>

definition bytes_at :: "nat \<Rightarrow> nat \<Rightarrow> u8 list \<Rightarrow> u8 list option" where
  "bytes_at off n buf = (if off + n \<le> length buf then Some (take n (drop off buf)) else None)"

definition put_bytes :: "nat \<Rightarrow> u8 list \<Rightarrow> u8 list \<Rightarrow> u8 list option" where
  "put_bytes off bs buf =
     (if off + length bs \<le> length buf then Some (take off buf @ bs @ drop (off + length bs) buf) else None)"

primrec le_word :: "u8 list \<Rightarrow> u32" where
  "le_word [] = 0"
| "le_word (b # bs) = ucast b OR push_bit 8 (le_word bs)"

definition le_bytes :: "u32 \<Rightarrow> u8 list" where
  "le_bytes v = [ucast v, ucast (drop_bit 8 v), ucast (drop_bit 16 v), ucast (drop_bit 24 v)]"

section \<open>The ioctl\<close>

text \<open>The loop over the words: it does not end when \<^verbatim>\<open>bits + 32\<close> wraps below \<^verbatim>\<open>nbits\<close>.\<close>

partial_function (option) xvc_loop ::
  "addr \<Rightarrow> u32 \<Rightarrow> u8 list \<Rightarrow> u8 list \<Rightarrow> u32 \<Rightarrow> u32 \<Rightarrow> int \<Rightarrow> u8 list \<Rightarrow> world \<Rightarrow> (int \<times> u8 list \<times> world) option" where
  "xvc_loop iobase nbits tms tdi bits bits_left rv tdo w =
     (if \<not> bits < nbits then Some (rv, tdo, w)
      else
        (let bytes = unat (drop_bit 3 bits);
             w = (if bits_left < 32 then write_register bits_left (iobase + XVC_BAR_LENGTH_REG) w else w);
             shift_bytes = (if bits_left < 32 then unat (drop_bit 3 (bits_left + 7)) else 4)
         in Option.bind (bytes_at bytes shift_bytes tms) (\<lambda>tms_store.
            Option.bind (bytes_at bytes shift_bytes tdi) (\<lambda>tdi_store.
              let (rv, tdo_store, w) = xvc_shift_bits iobase (le_word tms_store) (le_word tdi_store) 0 w
              in if rv < 0 then Some (rv, tdo, w)
                 else Option.bind (put_bytes bytes (take shift_bytes (le_bytes tdo_store)) tdo) (\<lambda>tdo.
                   xvc_loop iobase nbits tms tdi (bits + 32) (bits_left - 32) rv tdo w)))))"

record xvc_ioc =
  xo_opcode :: u32
  xo_length :: u32

text \<open>
  The structure of the user and the number of its bytes that were not copied; the bytes of
  the two buffers of the user and the numbers not copied; what freshly allocated memory
  holds; the number of bytes not copied back.
\<close>

record xvc_env =
  obj_left :: nat
  xvc_obj :: xvc_ioc
  buffer_ok :: bool
  tms_left :: nat
  tms_user :: "nat \<Rightarrow> u8"
  tdi_left :: nat
  tdi_user :: "nat \<Rightarrow> u8"
  fresh_byte :: "nat \<Rightarrow> u8"
  tdo_left :: nat

definition lock_cdev :: "xdma_cdev \<Rightarrow> xdma_cdev option" where
  "lock_cdev c = (if c_lock c then None else Some (c\<lparr>c_lock := True\<rparr>))"

definition unlock_cdev :: "xdma_cdev \<Rightarrow> xdma_cdev option" where
  "unlock_cdev c = (if c_lock c then Some (c\<lparr>c_lock := False\<rparr>) else None)"

text \<open>The end of the ioctl: every path from the copy of the structure on releases the lock.\<close>

definition xvc_cleanup ::
  "int \<Rightarrow> u8 list option \<Rightarrow> xdma_cdev \<Rightarrow> world \<Rightarrow> (int \<times> u8 list option \<times> xdma_cdev \<times> world) option" where
  "xvc_cleanup rv out xcdev w = do {
     xcdev \<leftarrow> unlock_cdev xcdev;
     Some (rv, out, xcdev, w)
   }"

definition xvc_ioctl ::
  "xvc_env \<Rightarrow> xdma_cdev \<Rightarrow> xdma_dev \<Rightarrow> u32 \<Rightarrow> world \<Rightarrow> (int \<times> u8 list option \<times> xdma_cdev \<times> world) option" where
  "xvc_ioctl env xcdev xdev cmd w =
     (let rv = xcdev_check (Some xcdev) xdev False in
      if rv < 0 then Some (rv, None, xcdev, w)
      else if cmd \<noteq> XDMA_IOCXVC then Some (- ENOIOCTLCMD, None, xcdev, w)
      else if obj_left env \<noteq> 0 then xvc_cleanup (int (obj_left env)) None xcdev w
      else
        (let opcode = xo_opcode (xvc_obj env);
             total_bits = xo_length (xvc_obj env);
             total_bytes = unat (drop_bit 3 (total_bits + 7))
         in if opcode \<noteq> 1 \<and> opcode \<noteq> 2 then Some (- EINVAL, None, xcdev, w)
            else if \<not> buffer_ok env then xvc_cleanup (- ENOMEM) None xcdev w
            else if tms_left env \<noteq> 0 then xvc_cleanup (int (tms_left env)) None xcdev w
            else if tdi_left env \<noteq> 0 then xvc_cleanup (int (tdi_left env)) None xcdev w
            else do {
              let tms_buf = map (tms_user env) [0..<total_bytes];
              let tdi_buf = map (tdi_user env) [0..<total_bytes];
              let tdo_buf = map (fresh_byte env) [0..<total_bytes];
              xcdev \<leftarrow> lock_cdev xcdev;
              base \<leftarrow> bar_base xdev (c_bar xcdev);
              let iobase = base + c_base xcdev;
              let w = (if total_bits \<ge> 32 then write_register 0x20 (iobase + XVC_BAR_LENGTH_REG) w else w);
              (rv, tdo_buf, w) \<leftarrow> xvc_loop iobase total_bits tms_buf tdi_buf 0 total_bits 0 tdo_buf w;
              if rv < 0 then xvc_cleanup rv None xcdev w
              else do {
                let out = (if opcode = 2 then tdi_buf else tdo_buf);
                if tdo_left env \<noteq> 0 then xvc_cleanup (- EFAULT) None xcdev w
                else xvc_cleanup 0 (Some out) xcdev w
              }
            }))"

text \<open>The bar and the offset of the device; \<^verbatim>\<open>__XVC_BAR_NUM__\<close> is not defined.\<close>

definition cdev_xvc_init :: "xdma_cdev \<Rightarrow> xdma_cdev" where
  "cdev_xvc_init xcdev = xcdev\<lparr>c_base := XVC_BAR_OFFSET_DFLT\<rparr>"

end
