(* ===== verification/IrqProps.thy ===== *)
theory IrqProps
  imports Irq Samples
begin

text \<open>
  Lemmas and properties of the interrupts: what the handlers schedule, the contents of
  the vector registers, and the balance of requested and released lines.
\<close>

unbundle bit_operations_syntax

section \<open>The interrupt service routine\<close>

lemma and_not_disjoint: "b AND c = 0 \<Longrightarrow> b AND (m AND NOT c) = b AND (m :: 'a::len word)"
  by (rule bit_word_eqI) (auto simp: bit_simps dest!: arg_cong[where f = "\<lambda>x. bit x _"] intro: ccontr)

text \<open>Engines with disjoint interrupt bits, all of them set up.\<close>

definition engines_disjoint :: "xdma_engine list \<Rightarrow> nat \<Rightarrow> bool" where
  "engines_disjoint es n \<longleftrightarrow> n \<le> length es \<and> (\<forall>i < n. e_magic (es ! i) = MAGIC_ENGINE) \<and>
     (\<forall>i < n. \<forall>j < n. i \<noteq> j \<longrightarrow> e_irq_bitmask (es ! i) AND e_irq_bitmask (es ! j) = 0)"

lemma isr_engine_loop_eq:
  "c + n \<le> k \<Longrightarrow> engines_disjoint es k \<Longrightarrow>
   isr_engine_loop es dir n c m w =
     Some (fold (\<lambda>i. kcall (ScheduleWork dir i))
       (filter (\<lambda>i. e_irq_bitmask (es ! i) AND m \<noteq> 0) [c..<c + n]) w)"
proof (induction n arbitrary: c m w)
  case (Suc n)
  have c: "c < length es" "e_magic (es ! c) = MAGIC_ENGINE"
    using Suc.prems by (auto simp: engines_disjoint_def)
  have r: "[c..<c + Suc n] = c # [Suc c..<Suc c + n]" by (simp add: upt_rec)
  let ?m = "m AND NOT (e_irq_bitmask (es ! c))"
  have "e_irq_bitmask (es ! i) AND ?m = e_irq_bitmask (es ! i) AND m" if "i \<in> set [Suc c..<Suc c + n]" for i
    using Suc.prems that by (intro and_not_disjoint) (auto simp: engines_disjoint_def)
  then have f: "filter (\<lambda>i. e_irq_bitmask (es ! i) AND ?m \<noteq> 0) [Suc c..<Suc c + n] =
      filter (\<lambda>i. e_irq_bitmask (es ! i) AND m \<noteq> 0) [Suc c..<Suc c + n]"
    by (intro filter_cong refl) simp
  have IH: "isr_engine_loop es dir n (Suc c) m' w' =
     Some (fold (\<lambda>i. kcall (ScheduleWork dir i))
       (filter (\<lambda>i. e_irq_bitmask (es ! i) AND m' \<noteq> 0) [Suc c..<Suc c + n]) w')" for m' w'
    using Suc.IH[of "Suc c" m' w'] Suc.prems by simp
  show ?case
  proof (cases "m = 0")
    case False
    then show ?thesis
      unfolding r using c f by (simp add: arr_get_def IH del: upt_Suc)
  qed simp
qed simp

primrec serve_users :: "handlers \<Rightarrow> nat list \<Rightarrow> xdma_dev \<Rightarrow> world \<Rightarrow> (xdma_dev \<times> world) option" where
  "serve_users hret [] d w = Some (d, w)"
| "serve_users hret (i # is) d w = do {
     (_, d, w) \<leftarrow> user_irq_service hret i d w;
     serve_users hret is d w
   }"

lemma isr_user_loop_eq:
  "u + n \<le> 32 \<Longrightarrow> isr_user_loop hret n u (push_bit u 1) q d w =
     serve_users hret (filter (bit q) [u..<u + n]) d w"
proof (induction n arbitrary: u q d w)
  case (Suc n)
  have r: "[u..<u + Suc n] = u # [Suc u..<Suc u + n]" by (simp add: upt_rec)
  have b: "q AND push_bit u 1 \<noteq> 0 \<longleftrightarrow> bit q u"
    by (simp add: bit_iff_and_push_bit_not_eq_0)
  have p: "push_bit 1 (push_bit u 1) = (push_bit (Suc u) 1 :: u32)" by simp
  have f: "filter (bit (q AND NOT (push_bit u 1))) [Suc u..<Suc u + n] = filter (bit q) [Suc u..<Suc u + n]"
    using Suc.prems by (intro filter_cong refl) (auto simp: bit_simps)
  have IH: "isr_user_loop hret n (Suc u) (push_bit (Suc u) 1) q' d' w' =
     serve_users hret (filter (bit q') [Suc u..<Suc u + n]) d' w'" for q' d' w'
    using Suc.IH[of "Suc u" q' d' w'] Suc.prems by simp
  show ?case
  proof (cases "q = 0")
    case False
    then show ?thesis
      unfolding r using b f
      by (cases "user_irq_service hret u d w")
        (auto simp: p IH Let_def simp del: upt_Suc push_bit_Suc push_bit_of_1)
  qed simp
qed simp

section \<open>Vector words\<close>

definition vector_word :: "nat \<Rightarrow> nat \<Rightarrow> u32" where
  "vector_word i m = fst (pack_vectors 4 i m 0 0)"

lemma four_bytes:
  fixes a b c d :: u32
  assumes "take_bit 8 a = a" "take_bit 8 b = b" "take_bit 8 c = c" "take_bit 8 d = d"
  defines "x \<equiv> a OR push_bit 8 b OR push_bit 16 c OR push_bit 24 d"
  shows "take_bit 8 x = a" "take_bit 8 (drop_bit 8 x) = b" "take_bit 8 (drop_bit 16 x) = c"
    "take_bit 8 (drop_bit 24 x) = d"
proof -
  have h: "bit a n \<Longrightarrow> n < 8" "bit b n \<Longrightarrow> n < 8" "bit c n \<Longrightarrow> n < 8" "bit d n \<Longrightarrow> n < 8" for n
    using assms(1-4) by (metis bit_take_bit_iff)+
  show "take_bit 8 x = a" "take_bit 8 (drop_bit 8 x) = b" "take_bit 8 (drop_bit 16 x) = c"
    "take_bit 8 (drop_bit 24 x) = d"
    unfolding x_def by (rule bit_word_eqI; fastforce simp: bit_simps dest: h)+
qed

lemma pack_vectors_stop: "m \<le> i \<Longrightarrow> pack_vectors k i m s v = (v, i)"
  by (cases k) simp_all

definition vector_byte :: "nat \<Rightarrow> nat \<Rightarrow> u32" where
  "vector_byte i m = (if i < m then of_nat i AND 0x1f else 0)"

lemma vector_byte_small: "take_bit 8 (vector_byte i m) = vector_byte i m"
proof -
  have "(0x1f :: u32) = mask 5" by (simp add: mask_eq_exp_minus_1)
  then have "of_nat i AND 0x1f = (take_bit 5 (of_nat i) :: u32)" by (simp add: take_bit_eq_mask)
  then show ?thesis by (simp only: vector_byte_def split: if_split) (simp add: take_bit_take_bit)
qed

lemma vector_word_eq:
  "vector_word i m = vector_byte i m OR push_bit 8 (vector_byte (i + 1) m) OR
     push_bit 16 (vector_byte (i + 2) m) OR push_bit 24 (vector_byte (i + 3) m)"
proof -
  have n: "4 = Suc (Suc (Suc (Suc 0)))" by simp
  show ?thesis
    unfolding vector_word_def n
    by (cases "i < m"; cases "i + 1 < m"; cases "i + 2 < m"; cases "i + 3 < m")
      (simp_all add: vector_byte_def pack_vectors_stop ac_simps del: push_bit_numeral)
qed

lemma vector_word_byte:
  assumes "k < 4"
  shows "take_bit 8 (drop_bit (8 * k) (vector_word i m)) = vector_byte (i + k) m"
proof -
  consider "k = 0" | "k = 1" | "k = 2" | "k = 3" using assms by linarith
  then show ?thesis
    unfolding vector_word_eq using four_bytes[OF vector_byte_small vector_byte_small vector_byte_small
        vector_byte_small, of i m "i + 1" m "i + 2" m "i + 3" m]
    by cases simp_all
qed

lemma four_step:
  assumes "i < m" "i' = i + 4 \<or> i' = m \<and> m \<le> i + (4 :: nat)"
  shows "(m - i + 3) div 4 = Suc ((m - i' + 3) div 4)"
proof (cases "i + 4 \<le> m")
  case True
  then obtain d where d: "m = i + 4 + d" using le_Suc_ex by blast
  then show ?thesis using assms(2) by auto
next
  case False
  then have "m - i = 1 \<or> m - i = 2 \<or> m - i = 3" "m - i' = 0" using assms by auto
  then show ?thesis by auto
qed

text \<open>The writes of the programming loop.\<close>

lemma prog_vectors_writes:
  "writes (prog_vectors clear reg i m j w) = writes w @
     map (\<lambda>q. (reg + of_nat (4 * (j + q)), if clear then 0 else vector_word (i + 4 * q) m))
       [0..<(m - i + 3) div 4]"
proof (induction "m - i" arbitrary: i j w rule: less_induct)
  case less
  show ?case
  proof (cases "i < m")
    case False
    then show ?thesis by (subst prog_vectors.simps) simp
  next
    case True
    define i' where "i' = (if clear then i + 4 else snd (pack_vectors 4 i m 0 0))"
    let ?v = "if clear then 0 else vector_word i m"
    have e: "prog_vectors clear reg i m j w =
        prog_vectors clear reg i' m (j + 1) (write_register ?v (reg + of_nat (4 * j)) w)"
      using True by (subst prog_vectors.simps) (simp add: i'_def vector_word_def case_prod_beta Let_def)
    have i: "(i' = i + 4 \<or> i' = m \<and> m \<le> i + 4) \<and> i < i'"
      using True unfolding i'_def by (auto simp: numeral_eq_Suc pack_vectors_stop not_le less_Suc_eq)
    have IH: "writes (prog_vectors clear reg i' m (j + 1) w') = writes w' @
        map (\<lambda>q. (reg + of_nat (4 * (j + 1 + q)), if clear then 0 else vector_word (i' + 4 * q) m))
          [0..<(m - i' + 3) div 4]" for w'
      by (rule less) (use i True in linarith)
    have n: "(m - i + 3) div 4 = Suc ((m - i' + 3) div 4)"
      by (rule four_step[OF True]) (use i in blast)
    have t: "map (\<lambda>q. (reg + of_nat (4 * (j + 1 + q)), if clear then 0 else vector_word (i' + 4 * q) m))
          [0..<(m - i' + 3) div 4] =
        map (\<lambda>q. (reg + of_nat (4 * (j + Suc q)), if clear then 0 else vector_word (i + 4 * Suc q) m))
          [0..<(m - i' + 3) div 4]"
      using i by (elim conjE disjE) (auto simp: add.assoc)
    show ?thesis
      unfolding e IH t n upt_conv_Cons[OF zero_less_Suc] map_Suc_upt[symmetric] list.map map_map
      by simp
  qed
qed

section \<open>The balance of the lines\<close>

text \<open>How many more times a line has been requested than released for an owner.\<close>

fun irq_balance :: "int \<Rightarrow> irq_owner \<Rightarrow> kevent list \<Rightarrow> int" where
  "irq_balance v ow [] = 0"
| "irq_balance v ow (e # es) =
     (if e = IrqRequested v ow then 1 else if e = IrqFreed v ow then - 1 else 0) + irq_balance v ow es"

text \<open>The lines of the user interrupts \<^verbatim>\<open>i, ..., i + n - 1\<close>, from vector \<^verbatim>\<open>j\<close> on.\<close>

primrec user_lines :: "pci_env \<Rightarrow> int \<Rightarrow> irq_owner \<Rightarrow> nat \<Rightarrow> nat \<Rightarrow> int \<Rightarrow> int" where
  "user_lines env v ow 0 i j = 0"
| "user_lines env v ow (Suc n) i j =
     (if irq_vector env j = v \<and> ow = OwnUser i then 1 else 0) + user_lines env v ow n (Suc i) (j + 1)"

primrec channel_lines :: "pci_env \<Rightarrow> int \<Rightarrow> irq_owner \<Rightarrow> dma_dir \<Rightarrow> nat \<Rightarrow> nat \<Rightarrow> int \<Rightarrow> int" where
  "channel_lines env v ow dir 0 i j = 0"
| "channel_lines env v ow dir (Suc n) i j =
     (if irq_vector env j = v \<and> ow = OwnEngine dir i then 1 else 0) +
     channel_lines env v ow dir n (Suc i) (j + 1)"

lemma user_lines_last:
  "user_lines env v ow (Suc n) i j =
     user_lines env v ow n i j + (if irq_vector env (j + int n) = v \<and> ow = OwnUser (i + n) then 1 else 0)"
proof (induction n arbitrary: i j)
  case (Suc n)
  have e: "j + 1 + int n = j + int (Suc n)" by simp
  have "user_lines env v ow (Suc (Suc n)) i j =
      (if irq_vector env j = v \<and> ow = OwnUser i then 1 else 0) + user_lines env v ow (Suc n) (Suc i) (j + 1)"
    by (rule user_lines.simps(2))
  then show ?case unfolding Suc.IH[of "Suc i" "j + 1"] by (simp add: e)
qed simp

lemma request_users_result:
  assumes "request_users env n i j w = (rv, i', j', w')"
  shows "\<exists>m \<le> n. i' = i + m \<and> j' = j + int m \<and> (rv = 0 \<longrightarrow> m = n) \<and> writes w' = writes w \<and>
    xfers w' = xfers w \<and>
    (\<forall>v ow. irq_balance v ow (ktrace w') = irq_balance v ow (ktrace w) + user_lines env v ow m i j)"
  using assms
proof (induction n arbitrary: i j w)
  case (Suc n)
  let ?w = "kcall (IrqRequested (irq_vector env j) (OwnUser i)) w"
  show ?case
  proof (cases "request_irq env (ktrace w) (irq_vector env j) (OwnUser i) = 0")
    case True
    then have "request_users env n (Suc i) (j + 1) ?w = (rv, i', j', w')"
      using Suc.prems by simp
    from Suc.IH[OF this] obtain m where "m \<le> n" "i' = Suc i + m" "j' = j + 1 + int m" "rv = 0 \<longrightarrow> m = n"
      "writes w' = writes ?w" "xfers w' = xfers ?w"
      "\<And>v ow. irq_balance v ow (ktrace w') = irq_balance v ow (ktrace ?w) + user_lines env v ow m (Suc i) (j + 1)"
      by blast
    then show ?thesis by (intro exI[of _ "Suc m"]) auto
  next
    case False
    then show ?thesis using Suc.prems by (intro exI[of _ 0]) (auto simp: Let_def)
  qed
qed simp

lemma free_users_result:
  "writes (free_users env n i j w) = writes w" "xfers (free_users env n i j w) = xfers w"
  "irq_balance v ow (ktrace (free_users env n i j w)) =
     irq_balance v ow (ktrace w) - user_lines env v ow n i j"
  by (induction n arbitrary: i j w) simp_all

lemma free_users_back_result:
  "writes (free_users_back env n j w) = writes w" "xfers (free_users_back env n j w) = xfers w"
  "irq_balance v ow (ktrace (free_users_back env n j w)) =
     irq_balance v ow (ktrace w) - user_lines env v ow n 0 (j - int n + 1)"
proof -
  show "writes (free_users_back env n j w) = writes w" "xfers (free_users_back env n j w) = xfers w"
    by (induction n arbitrary: j w) simp_all
  show "irq_balance v ow (ktrace (free_users_back env n j w)) =
     irq_balance v ow (ktrace w) - user_lines env v ow n 0 (j - int n + 1)"
  proof (induction n arbitrary: j w)
    case (Suc n)
    have j: "j - 1 - int n + 1 = j - int n" "j - int (Suc n) + 1 = j - int n" by simp_all
    show ?case
      unfolding user_lines_last j free_users_back.simps Suc.IH by simp
  qed simp
qed

text \<open>Requesting the user lines is all or nothing.\<close>

lemma user_setup_result:
  assumes "irq_msix_user_setup env d w = (rv, w')"
  shows "writes w' = writes w" "xfers w' = xfers w"
    "irq_balance v ow (ktrace w') = irq_balance v ow (ktrace w) +
       (if rv = 0 then user_lines env v ow (nat (d_user_max d)) 0 (d_h2c_channel_max d + d_c2h_channel_max d)
        else 0)"
proof -
  let ?j = "d_h2c_channel_max d + d_c2h_channel_max d"
  obtain rv1 i j w1 where r: "request_users env (nat (d_user_max d)) 0 ?j w = (rv1, i, j, w1)"
    by (metis prod_cases4)
  obtain m where m: "i = m" "j = ?j + int m" "rv1 = 0 \<longrightarrow> m = nat (d_user_max d)" "writes w1 = writes w"
    "xfers w1 = xfers w"
    "\<And>v ow. irq_balance v ow (ktrace w1) = irq_balance v ow (ktrace w) + user_lines env v ow m 0 ?j"
    using request_users_result[OF r] by auto
  have e: "rv1 = rv" "w' = (if rv \<noteq> 0 then free_users_back env i (j - 1) w1 else w1)"
    using assms r by (auto simp: irq_msix_user_setup_def Let_def)
  show "writes w' = writes w" "xfers w' = xfers w"
    using e m by (simp_all add: free_users_back_result)
  show "irq_balance v ow (ktrace w') = irq_balance v ow (ktrace w) +
       (if rv = 0 then user_lines env v ow (nat (d_user_max d)) 0 ?j else 0)"
    using e m by (simp add: free_users_back_result)
qed

lemma request_channels_result:
  "request_channels env dir n i j es w = Some (rv, es', w') \<Longrightarrow>
   \<exists>m \<le> n. (rv = 0 \<longrightarrow> m = n) \<and> writes w' = writes w \<and> xfers w' = xfers w \<and> length es' = length es \<and>
    (\<forall>k. k < i \<or> i + m \<le> k \<longrightarrow> es' ! k = es ! k) \<and>
    (\<forall>k < m. es' ! (i + k) = (es ! (i + k))\<lparr>e_msix_irq_line := irq_vector env (j + int k)\<rparr>) \<and>
    (\<forall>v ow. irq_balance v ow (ktrace w') =
       irq_balance v ow (ktrace w) + channel_lines env v ow dir m i j)"
proof (induction n arbitrary: i j es w)
  case (Suc n)
  let ?w = "kcall (IrqRequested (irq_vector env j) (OwnEngine dir i)) w"
  let ?e = "(es ! i)\<lparr>e_msix_irq_line := irq_vector env j\<rparr>"
  obtain l: "i < length es"
    using Suc.prems by (auto simp: arr_get_def split: if_splits)
  show ?case
  proof (cases "request_irq env (ktrace w) (irq_vector env j) (OwnEngine dir i) = 0")
    case True
    then have "request_channels env dir n (Suc i) (j + 1) (es[i := ?e]) ?w = Some (rv, es', w')"
      using Suc.prems l by (simp add: arr_get_def Let_def)
    from Suc.IH[OF this] obtain m where m: "m \<le> n" "rv = 0 \<longrightarrow> m = n" "writes w' = writes ?w"
      "xfers w' = xfers ?w" "length es' = length (es[i := ?e])"
      "\<forall>k. k < Suc i \<or> Suc i + m \<le> k \<longrightarrow> es' ! k = es[i := ?e] ! k"
      "\<forall>k < m. es' ! (Suc i + k) = (es[i := ?e] ! (Suc i + k))\<lparr>e_msix_irq_line := irq_vector env (j + 1 + int k)\<rparr>"
      "\<forall>v ow. irq_balance v ow (ktrace w') =
         irq_balance v ow (ktrace ?w) + channel_lines env v ow dir m (Suc i) (j + 1)"
      by blast
    have "es' ! (i + k) = (es ! (i + k))\<lparr>e_msix_irq_line := irq_vector env (j + int k)\<rparr>" if "k < Suc m" for k
      using that m(6)[rule_format, of i] m(7)[rule_format, of "k - 1"] l by (cases k) (simp_all add: ac_simps)
    moreover have "es' ! k = es ! k" if "k < i \<or> i + Suc m \<le> k" for k
      using that m(6)[rule_format, of k] by auto
    ultimately show ?thesis
      using m by (intro exI[of _ "Suc m"]) auto
  next
    case False
    then show ?thesis
      using Suc.prems l by (intro exI[of _ 0]) (auto simp: Let_def arr_get_def)
  qed
qed simp

lemma free_channels_result:
  "i + n \<le> length es \<Longrightarrow> \<forall>k < n. e_msix_irq_line (es ! (i + k)) = irq_vector env (j + int k) \<Longrightarrow>
   \<forall>k < n. irq_vector env (j + int k) \<noteq> 0 \<Longrightarrow>
   \<exists>w'. free_channels es dir n i w = Some w' \<and> writes w' = writes w \<and> xfers w' = xfers w \<and>
    (\<forall>v ow. irq_balance v ow (ktrace w') =
       irq_balance v ow (ktrace w) - channel_lines env v ow dir n i j)"
proof (induction n arbitrary: i j w)
  case (Suc n)
  let ?w = "kcall (IrqFreed (irq_vector env j) (OwnEngine dir i)) w"
  have z: "e_msix_irq_line (es ! i) = irq_vector env j" "irq_vector env j \<noteq> 0" "i < length es"
    using Suc.prems by force+
  have "e_msix_irq_line (es ! (Suc i + k)) = irq_vector env (j + 1 + int k) \<and>
      irq_vector env (j + 1 + int k) \<noteq> 0" if "k < n" for k
    using spec[OF Suc.prems(2), of "Suc k"] spec[OF Suc.prems(3), of "Suc k"] that by (simp add: ac_simps)
  then have h: "\<forall>k < n. e_msix_irq_line (es ! (Suc i + k)) = irq_vector env (j + 1 + int k)"
    "\<forall>k < n. irq_vector env (j + 1 + int k) \<noteq> 0" by blast+
  have "Suc i + n \<le> length es" using Suc.prems(1) by simp
  from Suc.IH[OF this h, of ?w] obtain w' where "free_channels es dir n (Suc i) ?w = Some w'"
    "writes w' = writes w" "xfers w' = xfers w"
    "\<And>v ow. irq_balance v ow (ktrace w') =
       irq_balance v ow (ktrace ?w) - channel_lines env v ow dir n (Suc i) (j + 1)" by auto
  then show ?case using z by (auto simp: arr_get_def)
qed simp

text \<open>All the lines of a device in MSI-X mode.\<close>

definition device_lines :: "pci_env \<Rightarrow> xdma_dev \<Rightarrow> int \<Rightarrow> irq_owner \<Rightarrow> int" where
  "device_lines env d v ow =
     channel_lines env v ow DMA_TO_DEVICE (nat (d_h2c_channel_max d)) 0 0 +
     channel_lines env v ow DMA_FROM_DEVICE (nat (d_c2h_channel_max d)) 0 (d_h2c_channel_max d)"

definition user_device_lines :: "pci_env \<Rightarrow> xdma_dev \<Rightarrow> int \<Rightarrow> irq_owner \<Rightarrow> int" where
  "user_device_lines env d v ow =
     user_lines env v ow (nat (d_user_max d)) 0 (d_h2c_channel_max d + d_c2h_channel_max d)"

text \<open>The engines know their lines.\<close>

definition lines_set :: "pci_env \<Rightarrow> xdma_dev \<Rightarrow> bool" where
  "lines_set env d \<longleftrightarrow>
     nat (d_h2c_channel_max d) \<le> length (d_engine_h2c d) \<and>
     nat (d_c2h_channel_max d) \<le> length (d_engine_c2h d) \<and>
     (\<forall>k < nat (d_h2c_channel_max d). e_msix_irq_line (d_engine_h2c d ! k) = irq_vector env (int k)) \<and>
     (\<forall>k < nat (d_c2h_channel_max d).
        e_msix_irq_line (d_engine_c2h d ! k) = irq_vector env (d_h2c_channel_max d + int k))"

lemma channel_setup_result:
  assumes "irq_msix_channel_setup env d w = Some (0, d', w')" "d_msix_enabled d"
    and "nat (d_h2c_channel_max d) \<le> length (d_engine_h2c d)"
    and "nat (d_c2h_channel_max d) \<le> length (d_engine_c2h d)"
  shows "\<exists>es fs. d' = d\<lparr>d_engine_h2c := es, d_engine_c2h := fs\<rparr> \<and> lines_set env d' \<and>
    writes w' = writes w \<and> xfers w' = xfers w \<and>
    (\<forall>v ow. irq_balance v ow (ktrace w') = irq_balance v ow (ktrace w) + device_lines env d v ow)"
proof -
  let ?h = "nat (d_h2c_channel_max d)" and ?c = "nat (d_c2h_channel_max d)"
  obtain es w1 fs where r: "request_channels env DMA_TO_DEVICE ?h 0 0 (d_engine_h2c d) w = Some (0, es, w1)"
    "request_channels env DMA_FROM_DEVICE ?c 0 (d_h2c_channel_max d) (d_engine_c2h d) w1 = Some (0, fs, w')"
    "d' = d\<lparr>d_engine_h2c := es, d_engine_c2h := fs\<rparr>"
    using assms(1,2) by (auto simp: irq_msix_channel_setup_def Let_def split: bind_splits if_splits)
  from request_channels_result[OF r(1)] request_channels_result[OF r(2)]
  show ?thesis
    using assms(3,4) unfolding r(3) lines_set_def device_lines_def
    by (intro exI conjI refl) auto
qed

lemma prog_vectors_frame [simp]:
  "ktrace (prog_vectors c r i m j w) = ktrace w" "xfers (prog_vectors c r i m j w) = xfers w"
proof -
  have "ktrace (prog_vectors c r i m j w) = ktrace w \<and> xfers (prog_vectors c r i m j w) = xfers w"
    by (induction c r i m j w rule: prog_vectors.induct)
      (subst (1 2) prog_vectors.simps, auto simp: case_prod_beta Let_def)
  then show "ktrace (prog_vectors c r i m j w) = ktrace w" "xfers (prog_vectors c r i m j w) = xfers w"
    by simp_all
qed

lemma prog_frame:
  "prog_irq_msix_channel d c w = Some w' \<Longrightarrow> ktrace w' = ktrace w \<and> xfers w' = xfers w"
  "prog_irq_msix_user d c w = Some w' \<Longrightarrow> ktrace w' = ktrace w \<and> xfers w' = xfers w"
  by (auto simp: prog_irq_msix_channel_def prog_irq_msix_user_def split: bind_splits)

lemma prog_defined:
  "config_bar d = Some b \<Longrightarrow> \<exists>w'. prog_irq_msix_channel d c w = Some w'"
  "config_bar d = Some b \<Longrightarrow> \<exists>w'. prog_irq_msix_user d c w = Some w'"
  by (simp_all add: prog_irq_msix_channel_def prog_irq_msix_user_def)

text \<open>Releasing in MSI-X mode gives back every line, whether it was requested or not.\<close>

lemma teardown_result:
  assumes "d_msix_enabled d" "lines_set env d" "config_bar d = Some b" "\<And>j. irq_vector env j \<noteq> 0"
  shows "\<exists>w'. irq_teardown env d w = Some w' \<and> xfers w' = xfers w \<and>
    (\<forall>v ow. irq_balance v ow (ktrace w') =
       irq_balance v ow (ktrace w) - device_lines env d v ow - user_device_lines env d v ow)"
proof -
  let ?h = "nat (d_h2c_channel_max d)" and ?c = "nat (d_c2h_channel_max d)"
  obtain w1 where w1: "prog_irq_msix_channel d True w = Some w1" using prog_defined(1)[OF assms(3)] by blast
  obtain w2 where w2: "free_channels (d_engine_h2c d) DMA_TO_DEVICE ?h 0 w1 = Some w2" "xfers w2 = xfers w1"
    "\<And>v ow. irq_balance v ow (ktrace w2) = irq_balance v ow (ktrace w1) - channel_lines env v ow DMA_TO_DEVICE ?h 0 0"
    using free_channels_result[of 0 ?h "d_engine_h2c d" env 0 DMA_TO_DEVICE w1] assms(2,4)
    unfolding lines_set_def by auto
  obtain w3 where w3: "free_channels (d_engine_c2h d) DMA_FROM_DEVICE ?c 0 w2 = Some w3" "xfers w3 = xfers w2"
    "\<And>v ow. irq_balance v ow (ktrace w3) = irq_balance v ow (ktrace w2) -
       channel_lines env v ow DMA_FROM_DEVICE ?c 0 (d_h2c_channel_max d)"
    using free_channels_result[of 0 ?c "d_engine_c2h d" env "d_h2c_channel_max d" DMA_FROM_DEVICE w2] assms(2,4)
    unfolding lines_set_def by auto
  obtain w4 where w4: "prog_irq_msix_user d True w3 = Some w4" using prog_defined(2)[OF assms(3)] by blast
  show ?thesis
    using assms(1) w1 w2 w3 w4 prog_frame(1)[OF w1] prog_frame(2)[OF w4]
    by (simp add: irq_teardown_def irq_msix_channel_teardown_def irq_msix_user_teardown_def
        free_users_result device_lines_def user_device_lines_def)
qed

section \<open>Properties\<close>

text \<open>C17: In MSI-X mode, setting up the interrupts and tearing them down again releases
  exactly the lines that were requested, for every owner.\<close>

theorem irq_setup_teardown_balanced:
  assumes "d_msix_enabled d" "config_bar d = Some b" "\<And>j. irq_vector env j \<noteq> 0"
    and "nat (d_h2c_channel_max d) \<le> length (d_engine_h2c d)"
    and "nat (d_c2h_channel_max d) \<le> length (d_engine_c2h d)"
    and "irq_setup env d w = Some (0, d', w')"
  shows "\<exists>w''. irq_teardown env d' w' = Some w'' \<and>
    (\<forall>v ow. irq_balance v ow (ktrace w'') = irq_balance v ow (ktrace w))"
proof -
  let ?w = "pci_keep_intx_enabled env w"
  have k: "irq_balance v ow (ktrace ?w) = irq_balance v ow (ktrace w)" for v ow
    by (simp add: pci_keep_intx_enabled_def Let_def)
  obtain w1 w2 w3 where r: "irq_msix_channel_setup env d ?w = Some (0, d', w1)"
    "irq_msix_user_setup env d' w1 = (0, w2)" "prog_irq_msix_channel d' False w2 = Some w3"
    "prog_irq_msix_user d' False w3 = Some w'"
    using assms(1,6) by (auto simp: irq_setup_def Let_def case_prod_beta prod_eq_iff split: bind_splits if_splits)
  obtain es fs where c: "d' = d\<lparr>d_engine_h2c := es, d_engine_c2h := fs\<rparr>" "lines_set env d'"
    "\<And>v ow. irq_balance v ow (ktrace w1) = irq_balance v ow (ktrace ?w) + device_lines env d v ow"
    using channel_setup_result[OF r(1) assms(1,4,5)] by blast
  have d: "d_msix_enabled d'" "config_bar d' = Some b" "device_lines env d' = device_lines env d"
    "user_device_lines env d' = user_device_lines env d"
    using assms(1,2) by (simp_all add: c(1) config_bar_def device_lines_def user_device_lines_def fun_eq_iff)
  from teardown_result[OF d(1) c(2) d(2) assms(3), of w'] show ?thesis
    using c(3) user_setup_result(3)[OF r(2)] prog_frame(1)[OF r(3)] prog_frame(2)[OF r(4)] d(3,4)
    by (auto simp: k user_device_lines_def c(1))
qed

text \<open>A PCI environment that answers everything with success.\<close>

definition sample_pci :: pci_env where
  "sample_pci = \<lparr>no_msi = False, bus_no_msi = [False], has_cap = (\<lambda>_. True), alloc_vectors = (\<lambda>_ n. n),
     enable_msi = (\<lambda>_. 0), irq_vector = (\<lambda>j. if 0 \<le> j then 40 + j else 1), request_irq = (\<lambda>_ _ _. 0), pci_irq = 11,
     cfg_word = (\<lambda>_ _. 0), cfg_byte = (\<lambda>_ _. 1), cap_word = (\<lambda>_ _. 0), bar_len = (\<lambda>i. if i = 0 then 0x10000 else 0),
     iomap = (\<lambda>_ _. Some 0x10000), enable_device = (\<lambda>_. 0), request_regions_rv = (\<lambda>_. 0),
     dma_mask_rv = (\<lambda>_. 0), alloc_dev_ok = True, coh_descs = (\<lambda>_. Some (sample_descs, 0x100000)),
     coh_writeback = (\<lambda>_. Some (0x200000, 0x200000)),
     coh_results = (\<lambda>_. Some (replicate 256 \<lparr>res_status = 0, res_length = 0\<rparr>, 0x300000))\<rparr>"

definition sample_irq_dev :: xdma_dev where
  "sample_irq_dev = sample_dev\<lparr>d_h2c_channel_max := 1, d_c2h_channel_max := 0, d_user_max := 2,
     d_user_irq := map (\<lambda>i. \<lparr>u_user_idx = of_nat i, u_events_irq = False, u_handler = None, u_dev = 0\<rparr>) [0..<16]\<rparr>"

lemma sample_config_bar: "config_bar sample_dev = Some 0x10000" "config_bar sample_irq_dev = Some 0x10000"
  by (simp_all add: config_bar_def sample_irq_dev_def sample_dev_def arr_get_def)

lemma sample_irq_setup: "\<exists>d w. irq_setup sample_pci sample_irq_dev sample_world = Some (0, d, w)"
  by (simp add: irq_setup_def irq_msix_channel_setup_def irq_msix_user_setup_def prog_irq_msix_channel_def
      prog_irq_msix_user_def pci_keep_intx_enabled_def sample_pci_def sample_irq_dev_def sample_dev_def
      config_bar_def arr_get_def numeral_2_eq_2 Let_def)

theorem irq_setup_teardown_balanced_witness:
  "\<exists>d w w'. irq_setup sample_pci sample_irq_dev sample_world = Some (0, d, w) \<and>
     irq_teardown sample_pci d w = Some w' \<and> irq_balance 40 (OwnEngine DMA_TO_DEVICE 0) (ktrace w') = 0"
proof -
  obtain d w where s: "irq_setup sample_pci sample_irq_dev sample_world = Some (0, d, w)"
    using sample_irq_setup by blast
  have "d_msix_enabled sample_irq_dev" "\<And>j. irq_vector sample_pci j \<noteq> 0"
    "nat (d_h2c_channel_max sample_irq_dev) \<le> length (d_engine_h2c sample_irq_dev)"
    "nat (d_c2h_channel_max sample_irq_dev) \<le> length (d_engine_c2h sample_irq_dev)"
    by (simp_all add: sample_irq_dev_def sample_dev_def sample_pci_def)
  from irq_setup_teardown_balanced[OF this(1) sample_config_bar(2) this(2-4) s] s show ?thesis
    by (auto simp: sample_world_def)
qed

text \<open>C28: When a user line is refused, the setup gives back the user lines it had
  requested; the tear-down that the error path of \<^verbatim>\<open>xdma_device_open\<close> then runs releases
  every user line a second time.\<close>

theorem failed_user_setup_releases_twice:
  assumes "d_msix_enabled d" "lines_set env d" "config_bar d = Some b" "\<And>j. irq_vector env j \<noteq> 0"
    and "irq_msix_user_setup env d w = (rv, w')" "rv \<noteq> 0"
    and "k < nat (d_user_max d)"
  shows "\<exists>w''. irq_teardown env d w' = Some w'' \<and>
    irq_balance (irq_vector env (d_h2c_channel_max d + d_c2h_channel_max d + int k)) (OwnUser k) (ktrace w'') =
    irq_balance (irq_vector env (d_h2c_channel_max d + d_c2h_channel_max d + int k)) (OwnUser k) (ktrace w) - 1"
proof -
  let ?j = "d_h2c_channel_max d + d_c2h_channel_max d" and ?v = "irq_vector env (d_h2c_channel_max d + d_c2h_channel_max d + int k)"
  have u: "user_lines env (irq_vector env (j + int m)) (OwnUser (i + m)) n i j = (if m < n then 1 else 0)" for m n i j
  proof (induction n)
    case (Suc n)
    show ?case unfolding user_lines_last Suc.IH by (cases "m < n"; cases "m = n") simp_all
  qed simp
  have c: "channel_lines env v (OwnUser k) dir n i j = 0" for v dir n i j
    by (induction n arbitrary: i j) simp_all
  have "device_lines env d ?v (OwnUser k) = 0" by (simp add: device_lines_def c)
  moreover have "user_device_lines env d ?v (OwnUser k) = 1"
    using u[of ?j k 0 "nat (d_user_max d)"] assms(7) by (simp add: user_device_lines_def)
  ultimately show ?thesis
    using teardown_result[OF assms(1-4), of w'] user_setup_result(3)[OF assms(5)] assms(6) by auto
qed

theorem failed_user_setup_releases_twice_witness:
  "\<exists>w w'. irq_msix_user_setup (sample_pci\<lparr>irq_vector := \<lambda>j. 2 * j + 1, request_irq := \<lambda>_ _ _. - 16\<rparr>)
       (sample_irq_dev\<lparr>d_h2c_channel_max := 0\<rparr>) sample_world = (- 16, w) \<and>
     irq_teardown (sample_pci\<lparr>irq_vector := \<lambda>j. 2 * j + 1, request_irq := \<lambda>_ _ _. - 16\<rparr>)
       (sample_irq_dev\<lparr>d_h2c_channel_max := 0\<rparr>) w = Some w' \<and>
     irq_balance 1 (OwnUser 0) (ktrace w') = - 1"
proof -
  let ?env = "sample_pci\<lparr>irq_vector := \<lambda>j. 2 * j + 1, request_irq := \<lambda>_ _ _. - 16\<rparr>"
  let ?d = "sample_irq_dev\<lparr>d_h2c_channel_max := 0\<rparr>"
  have d: "d_h2c_channel_max ?d = 0" "d_c2h_channel_max ?d = 0" "d_user_max ?d = 2" "d_msix_enabled ?d"
    by (simp_all add: sample_irq_dev_def sample_dev_def)
  obtain w where s: "irq_msix_user_setup ?env ?d sample_world = (- 16, w)"
    by (simp add: irq_msix_user_setup_def d numeral_2_eq_2 Let_def)
  have l: "lines_set ?env ?d" by (simp add: lines_set_def d)
  have b: "config_bar ?d = Some 0x10000" using sample_config_bar(2) by (simp add: config_bar_def)
  have v: "irq_vector ?env j \<noteq> 0" for j by (simp add: sample_pci_def) presburger
  have "0 < nat (d_user_max ?d)" by (simp add: d)
  from failed_user_setup_releases_twice[OF d(4) l b v s _ this] s show ?thesis
    by (auto simp: d sample_world_def)
qed

lemma user_service_frame:
  assumes "user_irq_service hret i d w = Some (r, d', w')"
  shows "\<exists>us. d' = d\<lparr>d_user_irq := us\<rparr>"
proof (cases "u_handler (d_user_irq d ! i) = None \<and> \<not> u_events_irq (d_user_irq d ! i)")
  case True
  then show ?thesis
    using assms by (auto simp: user_irq_service_def arr_get_def split: if_splits)
next
  case False
  then have "d' = d" using assms
    by (auto simp: user_irq_service_def arr_get_def split: if_splits option.splits)
  then show ?thesis by (intro exI[of _ "d_user_irq d"]) simp
qed

lemma serve_users_frame:
  "serve_users hret is d w = Some (d', w') \<Longrightarrow> \<exists>us. d' = d\<lparr>d_user_irq := us\<rparr>"
proof (induction "is" arbitrary: d w)
  case Nil
  then show ?case by (intro exI[of _ "d_user_irq d"]) simp
next
  case (Cons i "is")
  then obtain r d1 w1 where u: "user_irq_service hret i d w = Some (r, d1, w1)"
    "serve_users hret is d1 w1 = Some (d', w')" by (auto split: bind_splits)
  show ?case using user_service_frame[OF u(1)] Cons.IH[OF u(2)] by auto
qed

text \<open>The work scheduled for the engines whose bit is in a mask.\<close>

definition schedule_masked :: "dma_dir \<Rightarrow> xdma_engine list \<Rightarrow> nat \<Rightarrow> u32 \<Rightarrow> world \<Rightarrow> world" where
  "schedule_masked dir es n m w = fold (\<lambda>i. kcall (ScheduleWork dir i))
     (filter (\<lambda>i. e_irq_bitmask (es ! i) AND m \<noteq> 0) [0..<n]) w"

lemma schedule_masked_trace:
  "ktrace (schedule_masked dir es n m w) =
     rev (map (ScheduleWork dir) (filter (\<lambda>i. e_irq_bitmask (es ! i) AND m \<noteq> 0) [0..<n])) @ ktrace w"
proof -
  have "ktrace (fold (\<lambda>i. kcall (ScheduleWork dir i)) is x) = rev (map (ScheduleWork dir) is) @ ktrace x"
    for "is" and x :: world
    by (induction "is" arbitrary: x) simp_all
  then show ?thesis by (simp add: schedule_masked_def)
qed

lemma schedule_masked_writes: "writes (schedule_masked dir es n m w) = writes w"
proof -
  have "writes (fold (\<lambda>i. kcall (ScheduleWork dir i)) is x) = writes x" for "is" and x :: world
    by (induction "is" arbitrary: x) simp_all
  then show ?thesis by (simp add: schedule_masked_def)
qed

lemma masked_loop:
  assumes "engines_disjoint es n"
  shows "(if m \<noteq> 0 then isr_engine_loop es dir n 0 m w else Some w) = Some (schedule_masked dir es n m w)"
  using isr_engine_loop_eq[of 0 n n es dir m w] assms by (simp add: schedule_masked_def)

lemma xdma_isr_eq:
  assumes "config_bar d = Some bar" "nat (d_h2c_channel_max d) \<le> 32"
    and "engines_disjoint (d_engine_h2c d) (nat (d_h2c_channel_max d))"
    and "engines_disjoint (d_engine_c2h d) (nat (d_c2h_channel_max d))"
    and r1: "read_register (ireg bar IR_channel_int_request) w = (ch, wr)"
    and r2: "read_register (ireg bar IR_user_int_request)
      (if ch \<noteq> 0 then write_register ch (ireg bar IR_channel_int_enable_w1c) wr else wr) = (u, w1)"
    and sv: "serve_users hret (filter (bit u) [0..<nat (d_h2c_channel_max d)]) d w1 = s"
  shows "xdma_isr hret d w = Option.bind s (\<lambda>(d1, w2). Some (IRQ_HANDLED, d1\<lparr>d_irq_count := d_irq_count d + 1\<rparr>,
     schedule_masked DMA_FROM_DEVICE (d_engine_c2h d) (nat (d_c2h_channel_max d)) (ch AND d_mask_irq_c2h d)
       (schedule_masked DMA_TO_DEVICE (d_engine_h2c d) (nat (d_h2c_channel_max d)) (ch AND d_mask_irq_h2c d) w2)))"
proof -
  let ?h = "nat (d_h2c_channel_max d)"
  have us: "(if u \<noteq> 0 then isr_user_loop hret ?h 0 1 u d w1 else Some (d, w1)) = s"
    using isr_user_loop_eq[of 0 ?h hret u d w1] assms(2) sv by auto
  have ack: "(if ch \<noteq> 0 then channel_interrupts_disable d ch wr else Some wr) =
      Some (if ch \<noteq> 0 then write_register ch (ireg bar IR_channel_int_enable_w1c) wr else wr)"
    by (simp add: channel_interrupts_disable_def assms(1))
  have isr: "xdma_isr hret d w = Option.bind s (\<lambda>(d, w). do {
     let mask = ch AND d_mask_irq_h2c d;
     w \<leftarrow> (if mask \<noteq> 0 then
          isr_engine_loop (d_engine_h2c d) DMA_TO_DEVICE (nat (d_h2c_channel_max d)) 0 mask w else Some w);
     let mask = ch AND d_mask_irq_c2h d;
     w \<leftarrow> (if mask \<noteq> 0 then
          isr_engine_loop (d_engine_c2h d) DMA_FROM_DEVICE (nat (d_c2h_channel_max d)) 0 mask w else Some w);
     Some (IRQ_HANDLED, d\<lparr>d_irq_count := d_irq_count d + 1\<rparr>, w)})"
    unfolding xdma_isr_def assms(1) bind.bind_lunit r1 Let_def prod.case ack r2 us ..
  show ?thesis
  proof (cases s)
    case (Some p)
    obtain d1 w2 where p: "p = (d1, w2)" by fastforce
    obtain us' where "d1 = d\<lparr>d_user_irq := us'\<rparr>"
      using serve_users_frame sv Some p by blast
    then have f: "d_engine_h2c d1 = d_engine_h2c d" "d_engine_c2h d1 = d_engine_c2h d"
      "d_h2c_channel_max d1 = d_h2c_channel_max d" "d_c2h_channel_max d1 = d_c2h_channel_max d"
      "d_mask_irq_h2c d1 = d_mask_irq_h2c d" "d_mask_irq_c2h d1 = d_mask_irq_c2h d"
      "d_irq_count d1 = d_irq_count d" by simp_all
    show ?thesis
      unfolding isr Some p
      by (simp only: bind.bind_lunit prod.case Let_def f masked_loop[OF assms(3)] masked_loop[OF assms(4)])
  qed (simp add: isr)
qed

text \<open>C18: The service routine reads the channel requests, acknowledges by masking exactly
  the requested channels, reads the user requests, serves the requested user lines in order,
  as far as their numbers are below that of the H2C channels, schedules the work of every
  engine whose channel interrupt is requested and enabled by the driver's masks, once each
  and of no other engine, and reports the interrupt as handled.\<close>

theorem isr_schedules_requested:
  assumes "config_bar d = Some bar" "nat (d_h2c_channel_max d) \<le> 32"
    and "engines_disjoint (d_engine_h2c d) (nat (d_h2c_channel_max d))"
    and "engines_disjoint (d_engine_c2h d) (nat (d_c2h_channel_max d))"
    and "ch = hw w (blog w) (ireg bar IR_channel_int_request)"
    and "w1 = (if ch = 0 then snd (read_register (ireg bar IR_channel_int_request) w)
      else write_register ch (ireg bar IR_channel_int_enable_w1c)
             (snd (read_register (ireg bar IR_channel_int_request) w)))"
    and "u = hw w1 (blog w1) (ireg bar IR_user_int_request)"
    and "xdma_isr hret d w = Some (rv, d', w')"
  shows "rv = IRQ_HANDLED \<and>
    writes w1 = writes w @ (if ch = 0 then [] else [(ireg bar IR_channel_int_enable_w1c, ch)]) \<and>
    (\<exists>d1 w2. serve_users hret (filter (bit u) [0..<nat (d_h2c_channel_max d)]) d
         (snd (read_register (ireg bar IR_user_int_request) w1)) = Some (d1, w2) \<and>
       d' = d1\<lparr>d_irq_count := d_irq_count d + 1\<rparr> \<and>
       writes w' = writes w2 \<and>
       ktrace w' =
         rev (map (ScheduleWork DMA_FROM_DEVICE)
           (filter (\<lambda>i. e_irq_bitmask (d_engine_c2h d ! i) AND (ch AND d_mask_irq_c2h d) \<noteq> 0)
             [0..<nat (d_c2h_channel_max d)])) @
         rev (map (ScheduleWork DMA_TO_DEVICE)
           (filter (\<lambda>i. e_irq_bitmask (d_engine_h2c d ! i) AND (ch AND d_mask_irq_h2c d) \<noteq> 0)
             [0..<nat (d_h2c_channel_max d)])) @ ktrace w2)"
proof -
  obtain wr where r1: "read_register (ireg bar IR_channel_int_request) w = (ch, wr)"
    using assms(5) by (metis fst_read prod.collapse)
  have w1: "(if ch \<noteq> 0 then write_register ch (ireg bar IR_channel_int_enable_w1c) wr else wr) = w1"
    unfolding assms(6) r1 by simp
  obtain w3 where r2: "read_register (ireg bar IR_user_int_request)
      (if ch \<noteq> 0 then write_register ch (ireg bar IR_channel_int_enable_w1c) wr else wr) = (u, w3)"
    unfolding w1 using assms(7) by (metis fst_read prod.collapse)
  then have w3: "snd (read_register (ireg bar IR_user_int_request) w1) = w3" unfolding w1 by simp
  obtain d1 w2 where s: "serve_users hret (filter (bit u) [0..<nat (d_h2c_channel_max d)]) d w3 = Some (d1, w2)"
    using assms(8) xdma_isr_eq[OF assms(1-4) r1 r2 refl] by (auto split: bind_splits)
  have r: "rv = IRQ_HANDLED" "d' = d1\<lparr>d_irq_count := d_irq_count d + 1\<rparr>"
    "w' = schedule_masked DMA_FROM_DEVICE (d_engine_c2h d) (nat (d_c2h_channel_max d)) (ch AND d_mask_irq_c2h d)
       (schedule_masked DMA_TO_DEVICE (d_engine_h2c d) (nat (d_h2c_channel_max d)) (ch AND d_mask_irq_h2c d) w2)"
    using assms(8) unfolding xdma_isr_eq[OF assms(1-4) r1 r2 s] by simp_all
  have "writes w1 = writes w @ (if ch = 0 then [] else [(ireg bar IR_channel_int_enable_w1c, ch)])"
    unfolding w1[symmetric] using read_frameD[OF r1] by simp
  then show ?thesis
    using r(1,2) s unfolding w3 r(3) schedule_masked_trace schedule_masked_writes by blast
qed

theorem isr_schedules_requested_witness:
  "\<exists>d' w'. xdma_isr (\<lambda>_ _ _. 1) sample_irq_dev (sample_world\<lparr>hw := \<lambda>_ a. if a = 0x12044 then 1 else 0\<rparr>) =
     Some (1, d', w') \<and> ScheduleWork DMA_TO_DEVICE 0 \<in> set (ktrace w')"
proof -
  let ?w = "sample_world\<lparr>hw := \<lambda>_ a. if a = 0x12044 then 1 else 0 :: u32\<rparr>"
  have c: "nat (d_h2c_channel_max sample_irq_dev) = 1" "nat (d_c2h_channel_max sample_irq_dev) = 0"
    "d_engine_h2c sample_irq_dev = [sample_engine]" "d_mask_irq_h2c sample_irq_dev = 1"
    by (simp_all add: sample_irq_dev_def sample_dev_def)
  have e: "nat (d_h2c_channel_max sample_irq_dev) \<le> 32"
    "engines_disjoint (d_engine_h2c sample_irq_dev) (nat (d_h2c_channel_max sample_irq_dev))"
    "engines_disjoint (d_engine_c2h sample_irq_dev) (nat (d_c2h_channel_max sample_irq_dev))"
    unfolding c by (simp_all add: engines_disjoint_def sample_engine_def)
  have a: "ireg 0x10000 IR_channel_int_request = 0x12044"
    by (simp add: ireg_def reg_addr_def interrupt_regs_def XDMA_OFS_INT_CTRL_def)
  have h: "1 = hw ?w (blog ?w) (ireg 0x10000 IR_channel_int_request)" by (simp add: a)
  obtain wr where r1: "read_register (ireg 0x10000 IR_channel_int_request) ?w = (1, wr)"
    by (metis fst_read h prod.collapse)
  obtain u w1 where r2: "read_register (ireg 0x10000 IR_user_int_request)
      (if (1 :: u32) \<noteq> 0 then write_register 1 (ireg 0x10000 IR_channel_int_enable_w1c) wr else wr) = (u, w1)"
    by fastforce
  have "user_irq_service (\<lambda>_ _ _. 1) 0 sample_irq_dev x \<noteq> None" for x
    by (simp add: user_irq_service_def arr_get_def sample_irq_dev_def)
  then obtain x where "user_irq_service (\<lambda>_ _ _. 1) 0 sample_irq_dev w1 = Some x" by blast
  then have "serve_users (\<lambda>_ _ _. 1) (filter (bit u) [0..<1]) sample_irq_dev w1 \<noteq> None"
    by (cases x) auto
  then obtain rv d' w' where r: "xdma_isr (\<lambda>_ _ _. 1) sample_irq_dev ?w = Some (rv, d', w')"
    unfolding xdma_isr_eq[OF sample_config_bar(2) e r1 r2 refl] c by fastforce
  then show ?thesis
    using isr_schedules_requested[OF sample_config_bar(2) e h refl refl r] unfolding c
    by (auto simp: sample_engine_def IRQ_HANDLED_def)
qed

text \<open>C27: The service routine looks for user interrupts only among as many lines as there
  are H2C channels: a request of a higher line is read and dropped, no handler runs and
  no waiter is woken.\<close>

theorem isr_drops_high_user_lines:
  assumes "config_bar d = Some bar" "nat (d_h2c_channel_max d) \<le> 32"
    and "\<And>l. hw w l (ireg bar IR_channel_int_request) = 0"
    and "\<And>l. hw w l (ireg bar IR_user_int_request) = u"
    and "\<And>i. i < nat (d_h2c_channel_max d) \<Longrightarrow> \<not> bit u i"
  shows "\<exists>w'. xdma_isr hret d w = Some (IRQ_HANDLED, d\<lparr>d_irq_count := d_irq_count d + 1\<rparr>, w') \<and>
    ktrace w' = ktrace w \<and> writes w' = writes w"
proof -
  obtain wr where r1: "read_register (ireg bar IR_channel_int_request) w = (0, wr)"
    by (metis fst_read assms(3) prod.collapse)
  have h: "hw wr = hw w" using read_frameD[OF r1] by simp
  obtain w1 where r2: "read_register (ireg bar IR_user_int_request) wr = (u, w1)"
    by (metis fst_read assms(4) h prod.collapse)
  have e: "filter (bit u) [0..<nat (d_h2c_channel_max d)] = []"
    using assms(5) by (auto simp: filter_empty_conv)
  have l: "isr_user_loop hret (nat (d_h2c_channel_max d)) 0 1 u d w1 = Some (d, w1)"
    using isr_user_loop_eq[of 0 "nat (d_h2c_channel_max d)" hret u d w1] assms(2) e by simp
  show ?thesis
    using read_frameD[OF r1] read_frameD[OF r2] l
    by (simp add: xdma_isr_def assms(1) r1 r2)
qed

theorem isr_drops_high_user_lines_witness:
  "\<exists>w'. xdma_isr (\<lambda>_ _ _. 1) sample_irq_dev (sample_world\<lparr>hw := \<lambda>_ a. if a = 0x12040 then 2 else 0\<rparr>) =
     Some (1, sample_irq_dev\<lparr>d_irq_count := 1\<rparr>, w') \<and> ktrace w' = []"
proof -
  let ?w = "sample_world\<lparr>hw := \<lambda>_ a. if a = 0x12040 then 2 else 0 :: u32\<rparr>"
  have c: "nat (d_h2c_channel_max sample_irq_dev) = 1" "d_irq_count sample_irq_dev = 0"
    by (simp_all add: sample_irq_dev_def sample_dev_def)
  have a: "ireg 0x10000 IR_channel_int_request = 0x12044" "ireg 0x10000 IR_user_int_request = 0x12040"
    by (simp_all add: ireg_def reg_addr_def interrupt_regs_def XDMA_OFS_INT_CTRL_def)
  have "nat (d_h2c_channel_max sample_irq_dev) \<le> 32" by (simp add: c)
  from isr_drops_high_user_lines[OF sample_config_bar(2) this, of ?w 2 "\<lambda>_ _ _. 1"]
  show ?thesis by (auto simp: a c sample_world_def IRQ_HANDLED_def)
qed

text \<open>C19: Programming the user vectors gives user interrupt \<^verbatim>\<open>k\<close> the vector after those of
  the channels: byte \<^verbatim>\<open>k mod 4\<close> of the word written to register \<^verbatim>\<open>k div 4\<close>.\<close>

theorem user_vectors_programmed:
  assumes "config_bar d = Some bar" "0 \<le> d_c2h_channel_max d" "0 \<le> d_h2c_channel_max d" "0 \<le> d_user_max d"
    and "d_c2h_channel_max d + d_h2c_channel_max d + d_user_max d \<le> 32" "k < nat (d_user_max d)"
  shows "\<exists>w' v. prog_irq_msix_user d False w = Some w' \<and>
    drop (length (writes w)) (writes w') ! (k div 4) = (ireg bar IR_user_msi_vector + of_nat (4 * (k div 4)), v) \<and>
    unat (take_bit 8 (drop_bit (8 * (k mod 4)) v)) = nat (d_c2h_channel_max d + d_h2c_channel_max d) + k"
proof -
  let ?i = "nat (d_c2h_channel_max d + d_h2c_channel_max d)"
  let ?m = "nat (d_c2h_channel_max d + d_h2c_channel_max d + d_user_max d)"
  let ?v = "vector_word (?i + 4 * (k div 4)) ?m"
  have m: "?m - ?i = nat (d_user_max d)" "?i + k < ?m" "?m \<le> 32" using assms(2-6) by linarith+
  have q: "k div 4 < (?m - ?i + 3) div 4" unfolding m(1) using assms(6) by linarith
  have f: "(0x1f :: u32) = mask 5" by (simp add: mask_eq_exp_minus_1)
  have s: "unat (of_nat n AND 0x1f :: u32) = n" if "n < 32" for n
    using that unfolding f take_bit_eq_mask[symmetric]
    by (simp add: unsigned_take_bit_eq take_bit_nat_eq_self unat_of_nat_u32)
  have "?i + 4 * (k div 4) + k mod 4 = ?i + k" by simp
  then have "take_bit 8 (drop_bit (8 * (k mod 4)) ?v) = vector_byte (?i + k) ?m"
    by (simp only: vector_word_byte[of "k mod 4"] mod_less_divisor)
  then have b: "unat (take_bit 8 (drop_bit (8 * (k mod 4)) ?v)) = ?i + k"
    using m s[of "?i + k"] by (simp add: vector_byte_def)
  have p: "prog_irq_msix_user d False w = Some (prog_vectors False (ireg bar IR_user_msi_vector) ?i ?m 0 w)"
    by (simp add: prog_irq_msix_user_def assms(1))
  show ?thesis
    by (intro exI[of _ "prog_vectors False (ireg bar IR_user_msi_vector) ?i ?m 0 w"] exI[of _ ?v] conjI p b)
      (simp add: prog_vectors_writes q)
qed

theorem user_vectors_programmed_witness:
  "\<exists>w' v. prog_irq_msix_user sample_irq_dev False sample_world = Some w' \<and>
     writes w' ! 0 = (0x12080, v) \<and> unat (take_bit 8 (drop_bit 8 v)) = 2"
proof -
  have d: "0 \<le> d_c2h_channel_max sample_irq_dev" "0 \<le> d_h2c_channel_max sample_irq_dev"
    "0 \<le> d_user_max sample_irq_dev"
    "d_c2h_channel_max sample_irq_dev + d_h2c_channel_max sample_irq_dev + d_user_max sample_irq_dev \<le> 32"
    "1 < nat (d_user_max sample_irq_dev)"
    by (simp_all add: sample_irq_dev_def sample_dev_def)
  have a: "ireg 0x10000 IR_user_msi_vector = 0x12080"
    by (simp add: ireg_def reg_addr_def interrupt_regs_def XDMA_OFS_INT_CTRL_def)
  show ?thesis
    using user_vectors_programmed[OF sample_config_bar(2) d, of sample_world]
    by (auto simp: a sample_world_def writes_def sample_irq_dev_def sample_dev_def numeral_2_eq_2)
qed

lemma or_absorb: "(m OR v) AND v = (v :: u32)"
  by (rule bit_word_eqI) (auto simp: bit_simps)

lemma clear_absorb: "(m AND NOT v) AND v = (0 :: u32)"
  by (rule bit_word_eqI) (auto simp: bit_simps)

text \<open>C20: In MSI-X mode the channel handler masks the interrupts of its engine and the work
  it schedules unmasks them again: after both, the engine's enable mask contains all the
  interrupts the driver had enabled, whatever the service did in between.\<close>

theorem channel_interrupts_come_back:
  assumes "xdma_channel_irq dir i d w = Some (rv, d', w1)"
    and "arr_get (int i) (engines_of d dir) = Some e" "d_msix_enabled d"
    and "engine_service_work fuel dma mp d' e w1 = Some (e', w2)"
  shows "w1_mask (ereg e ER_interrupt_enable_mask_w1s) (ereg e ER_interrupt_enable_mask_w1c) m (writes w1)
      AND e_interrupt_enable_mask_value e = 0 \<and>
    w1_mask (ereg e ER_interrupt_enable_mask_w1s) (ereg e ER_interrupt_enable_mask_w1c) m (writes w2)
      AND e_interrupt_enable_mask_value e = e_interrupt_enable_mask_value e \<and>
    ScheduleWork dir i \<in> set (ktrace w1)"
proof -
  let ?v = "e_interrupt_enable_mask_value e"
  have irq: "writes w1 = writes w @ [(ereg e ER_interrupt_enable_mask_w1c, ?v)]" "d_msix_enabled d'"
    "ScheduleWork dir i \<in> set (ktrace w1)"
    using assms(1-3) by (auto simp: xdma_channel_irq_def split: bind_splits)
  have ne: "ereg e ER_interrupt_enable_mask_w1c \<noteq> ereg e ER_interrupt_enable_mask_w1s"
    by (simp add: ereg_def reg_addr_def engine_regs_def)
  obtain r e1 w3 where sv: "(if e_cyclic_req e \<noteq> None then engine_service_cyclic fuel dma mp e w1
        else engine_service mp e 0 w1) = Some (r, e1, w3)"
    "w2 = write_register (e_interrupt_enable_mask_value e1) (ereg e1 ER_interrupt_enable_mask_w1s) w3"
    using assms(4) irq(2) by (auto simp: engine_service_work_def split: bind_splits if_splits)
  have "calm e w1 e1 w3"
    using sv(1) calm_cyclic calm_service by (auto split: if_splits)
  then have "e_interrupt_enable_mask_value e1 = ?v"
    "ereg e1 ER_interrupt_enable_mask_w1s = ereg e ER_interrupt_enable_mask_w1s"
    by (simp_all add: calm_def ereg_def)
  then have "writes w2 = writes w3 @ [(ereg e ER_interrupt_enable_mask_w1s, ?v)]"
    using sv(2) by simp
  then show ?thesis
    using irq(1,3) ne by (auto simp: w1_mask_append or_absorb clear_absorb)
qed

theorem channel_interrupts_come_back_witness:
  "\<exists>d w1 e w2. xdma_channel_irq DMA_TO_DEVICE 0 sample_irq_dev sample_world = Some (1, d, w1) \<and>
     engine_service_work 1 (\<lambda>_ r. r) default_modparams d sample_engine w1 = Some (e, w2) \<and>
     ScheduleWork DMA_TO_DEVICE 0 \<in> set (ktrace w1)"
proof -
  have c: "d_engine_h2c sample_irq_dev = [sample_engine]" "d_msix_enabled sample_irq_dev"
    by (simp_all add: sample_irq_dev_def sample_dev_def)
  have g: "arr_get (int 0) (engines_of sample_irq_dev DMA_TO_DEVICE) = Some sample_engine"
    by (simp add: engines_of_def c arr_get_def)
  obtain d w1 where i: "xdma_channel_irq DMA_TO_DEVICE 0 sample_irq_dev sample_world = Some (1, d, w1)"
    "d_msix_enabled d"
    using g sample_config_bar(2) c by (simp add: xdma_channel_irq_def IRQ_HANDLED_def)
  have s: "\<not> e_running sample_engine" "e_magic sample_engine = MAGIC_ENGINE" "e_cyclic_req sample_engine = None"
    by (simp_all add: sample_engine_def)
  obtain v w' where "engine_service default_modparams sample_engine 0 w1 = Some (0, sample_engine\<lparr>e_status := v\<rparr>, w')"
    using engine_service_idle[OF s(1)] by blast
  then obtain e w2 where w: "engine_service_work 1 (\<lambda>_ r. r) default_modparams d sample_engine w1 = Some (e, w2)"
    using s i(2) by (auto simp: engine_service_work_def)
  show ?thesis using channel_interrupts_come_back[OF i(1) g c(2) w] i w by blast
qed

end
