(* ===== verification/DeviceProps.thy ===== *)
theory DeviceProps
  imports Device IrqProps
begin

text \<open>
  Lemmas and properties of the device: which events each operation adds to the trace,
  the interrupt bits of the engines that probing finds, opening, closing and going off line.
\<close>

unbundle bit_operations_syntax

section \<open>Events an operation adds\<close>

definition adds :: "(kevent \<Rightarrow> bool) \<Rightarrow> world \<Rightarrow> world \<Rightarrow> bool" where
  "adds P w w' \<longleftrightarrow> (\<exists>evs. ktrace w' = evs @ ktrace w \<and> list_all P evs)"

lemma adds_same: "ktrace w' = ktrace w \<Longrightarrow> adds P w w'"
  by (auto simp: adds_def)

lemma adds_trans: "adds P w w' \<Longrightarrow> adds P w' w'' \<Longrightarrow> adds P w w''"
  unfolding adds_def by (metis append.assoc list_all_append)

lemma adds_kcall: "P e \<Longrightarrow> adds P w (kcall e w)"
  by (auto simp: adds_def intro: exI[of _ "[e]"])

fun is_irq_ev :: "kevent \<Rightarrow> bool" where
  "is_irq_ev (IrqRequested v ow) = True"
| "is_irq_ev (IrqFreed v ow) = True"
| "is_irq_ev (CfgWrite r v) = True"
| "is_irq_ev _ = False"

fun is_mem_ev :: "kevent \<Rightarrow> bool" where
  "is_mem_ev AllocDescs = True"
| "is_mem_ev AllocWriteback = True"
| "is_mem_ev AllocCyclicResult = True"
| "is_mem_ev FreeDescs = True"
| "is_mem_ev FreeWriteback = True"
| "is_mem_ev FreeCyclicResult = True"
| "is_mem_ev _ = False"

text \<open>
  What is counted along the trace: a count over the events that a component adds is the
  sum of the counts of the events, so events that do not count leave it alone.
\<close>

locale event_count =
  fixes count :: "kevent list \<Rightarrow> int"
  assumes count_Nil: "count [] = 0"
    and count_Cons: "count (e # es) = count [e] + count es"
begin

lemma count_append: "count (xs @ ys) = count xs + count ys"
proof (induction xs)
  case (Cons x xs)
  then show ?case using count_Cons[of x "xs @ ys"] count_Cons[of x xs] by simp
qed (simp add: count_Nil)

lemma count_none: "list_all P evs \<Longrightarrow> (\<And>e. P e \<Longrightarrow> count [e] = 0) \<Longrightarrow> count evs = 0"
proof (induction evs)
  case (Cons e es)
  then show ?case using count_Cons[of e es] by simp
qed (simp add: count_Nil)

lemma count_adds:
  assumes "adds P w w'" "\<And>e. P e \<Longrightarrow> count [e] = 0"
  shows "count (ktrace w') = count (ktrace w)"
proof -
  obtain evs where e: "ktrace w' = evs @ ktrace w" "list_all P evs"
    using assms(1) unfolding adds_def by blast
  show ?thesis using count_none[OF e(2) assms(2)] unfolding e(1) count_append by simp
qed

lemma count_kcall: "count (ktrace (kcall e w)) = count [e] + count (ktrace w)"
  unfolding kcall_frame(5) by (rule count_Cons)

end

interpretation bars: event_count "bar_balance i" for i
  by unfold_locales auto

interpretation lines: event_count "irq_balance v ow" for v ow
  by unfold_locales auto

lemma adds_call: "ktrace w1 = ktrace w \<Longrightarrow> P e \<Longrightarrow> adds P w (kcall e w1)"
  by (auto simp: adds_def intro: exI[of _ "[e]"])

lemmas adds_intros = adds_same adds_call

section \<open>Interrupts add only interrupt events\<close>

lemma adds_request_users:
  "request_users env n i j w = (rv, i', j', w') \<Longrightarrow> adds is_irq_ev w w'"
proof (induction n arbitrary: i j w)
  case (Suc n)
  have k: "adds is_irq_ev w (kcall (IrqRequested (irq_vector env j) (OwnUser i)) w)"
    by (rule adds_kcall) simp
  show ?case
    using Suc.prems adds_trans[OF k Suc.IH] by (auto simp: Let_def adds_same split: if_splits)
qed (simp add: adds_same)

lemma adds_free_users_back: "adds is_irq_ev w (free_users_back env n j w)"
proof (induction n arbitrary: j w)
  case (Suc n)
  have "adds is_irq_ev w (kcall (IrqFreed (irq_vector env j) (OwnUser n)) w)" by (rule adds_kcall) simp
  from adds_trans[OF this Suc.IH] show ?case by simp
qed (simp add: adds_same)

lemma adds_free_users: "adds is_irq_ev w (free_users env n i j w)"
proof (induction n arbitrary: i j w)
  case (Suc n)
  have "adds is_irq_ev w (kcall (IrqFreed (irq_vector env j) (OwnUser i)) w)" by (rule adds_kcall) simp
  from adds_trans[OF this Suc.IH] show ?case by simp
qed (simp add: adds_same)

lemma adds_request_channels:
  "request_channels env dir n i j es w = Some (rv, es', w') \<Longrightarrow> adds is_irq_ev w w'"
proof (induction n arbitrary: i j es w)
  case (Suc n)
  have k: "adds is_irq_ev w (kcall (IrqRequested (irq_vector env j) (OwnEngine dir i)) w)"
    by (rule adds_kcall) simp
  show ?case
    using Suc.prems adds_trans[OF k Suc.IH]
    by (auto simp: Let_def adds_same split: if_splits bind_splits)
qed (simp add: adds_same)

lemma adds_free_channels:
  "free_channels es dir n i w = Some w' \<Longrightarrow> adds is_irq_ev w w'"
proof (induction n arbitrary: i w)
  case (Suc n)
  have k: "adds is_irq_ev w (kcall (IrqFreed v (OwnEngine dir i)) w)" for v
    by (rule adds_kcall) simp
  show ?case
    using Suc.prems adds_trans[OF k Suc.IH] by (auto simp: adds_same split: if_splits bind_splits)
qed (simp add: adds_same)

lemma adds_prog:
  "prog_irq_msix_channel d c w = Some w' \<Longrightarrow> adds is_irq_ev w w'"
  "prog_irq_msix_user d c w = Some w' \<Longrightarrow> adds is_irq_ev w w'"
  by (auto dest!: prog_frame simp: adds_same)

lemma adds_irq_teardown:
  assumes "irq_teardown env d w = Some w'"
  shows "adds is_irq_ev w w'"
proof (cases "d_msix_enabled d")
  case True
  then obtain w1 w2 w3 w4 where "prog_irq_msix_channel d True w = Some w1"
    "free_channels (d_engine_h2c d) DMA_TO_DEVICE (nat (d_h2c_channel_max d)) 0 w1 = Some w2"
    "free_channels (d_engine_c2h d) DMA_FROM_DEVICE (nat (d_c2h_channel_max d)) 0 w2 = Some w3"
    "prog_irq_msix_user d True w3 = Some w4"
    "w' = free_users env (nat (d_user_max d)) 0 (d_h2c_channel_max d + d_c2h_channel_max d) w4"
    using assms by (auto simp: irq_teardown_def irq_msix_channel_teardown_def irq_msix_user_teardown_def
        split: bind_splits)
  then show ?thesis
    using adds_prog adds_free_channels adds_free_users adds_trans by metis
next
  case False
  then show ?thesis
    using assms by (auto simp: irq_teardown_def intro: adds_intros split: if_splits)
qed

lemma adds_one_line: "irq_msi_setup env d w = (rv, d', w') \<Longrightarrow> adds is_irq_ev w w'"
  by (auto simp: irq_msi_setup_def Let_def intro: adds_intros split: if_splits)

lemma adds_legacy:
  assumes "irq_legacy_setup env d w = Some (rv, d', w')"
  shows "adds is_irq_ev w w'"
proof -
  have f: "ktrace (fold (\<lambda>off w. write_register word (bar + off) w) offs x) = ktrace x" for offs word bar and x :: world
    by (induction offs arbitrary: x) simp_all
  obtain w1 where "ktrace w1 = ktrace w"
    "w' = w1 \<or> w' = kcall (IrqRequested (pci_irq env) OwnDev) w1"
  proof -
    from assms obtain x where x: "x = w \<or> (\<exists>word bar. x = fold (\<lambda>off w. write_register word (bar + off) w)
          [0x2080, 0x2084, 0x2088, 0x208C, 0x20A0, 0x20A4] w)"
      "w' = x \<or> w' = kcall (IrqRequested (pci_irq env) OwnDev) x"
      unfolding irq_legacy_setup_def Let_def by (auto simp del: fold_simps split: bind_splits if_splits)
    have "ktrace x = ktrace w" using x(1) f by auto
    then show thesis using x(2) that by blast
  qed
  then show ?thesis by (auto intro: adds_intros)
qed

lemma adds_user_setup: "irq_msix_user_setup env d w = (rv, w') \<Longrightarrow> adds is_irq_ev w w'"
proof -
  assume a: "irq_msix_user_setup env d w = (rv, w')"
  obtain rv1 i j w1 where r: "request_users env (nat (d_user_max d)) 0
      (d_h2c_channel_max d + d_c2h_channel_max d) w = (rv1, i, j, w1)" by (metis prod_cases4)
  then have "w' = (if rv1 \<noteq> 0 then free_users_back env i (j - 1) w1 else w1)"
    using a by (auto simp: irq_msix_user_setup_def Let_def)
  then show ?thesis
    using adds_request_users[OF r] adds_trans[OF _ adds_free_users_back] by auto
qed

lemma adds_channel_setup:
  assumes "irq_msix_channel_setup env d w = Some (rv, d', w')"
  shows "adds is_irq_ev w w'"
proof (cases "d_msix_enabled d")
  case True
  then obtain r1 es w1 where c: "request_channels env DMA_TO_DEVICE (nat (d_h2c_channel_max d)) 0 0 (d_engine_h2c d) w =
      Some (r1, es, w1)"
    "w' = w1 \<or> (\<exists>r2 fs. request_channels env DMA_FROM_DEVICE (nat (d_c2h_channel_max d)) 0
       (d_h2c_channel_max d) (d_engine_c2h d) w1 = Some (r2, fs, w'))"
    using assms unfolding irq_msix_channel_setup_def Let_def by (auto split: bind_splits if_splits)
  from c(2) have "adds is_irq_ev w1 w'"
    by (elim disjE exE) (auto simp: adds_same dest: adds_request_channels)
  with adds_request_channels[OF c(1)] show ?thesis by (rule adds_trans)
qed (use assms in \<open>auto simp: irq_msix_channel_setup_def adds_same\<close>)

lemma adds_irq_setup:
  assumes "irq_setup env d w = Some (rv, d', w')"
  shows "adds is_irq_ev w w'"
proof -
  let ?w = "pci_keep_intx_enabled env w"
  have k: "adds is_irq_ev w ?w"
    by (auto simp: pci_keep_intx_enabled_def Let_def intro: adds_intros)
  show ?thesis
  proof (cases "d_msix_enabled d")
    case True
    from assms obtain r1 d1 w1 where c: "irq_msix_channel_setup env d ?w = Some (r1, d1, w1)"
      "if r1 \<noteq> 0 then w' = w1 else \<exists>r2 w2. irq_msix_user_setup env d1 w1 = (r2, w2) \<and>
         (w' = w2 \<or> (\<exists>w3. prog_irq_msix_channel d1 False w2 = Some w3 \<and> prog_irq_msix_user d1 False w3 = Some w'))"
      using True unfolding irq_setup_def Let_def
      by (auto simp: case_prod_beta prod_eq_iff split: bind_splits if_splits)
    have "adds is_irq_ev w1 w'"
    proof (cases "r1 = 0")
      case True
      then obtain r2 w2 where u: "irq_msix_user_setup env d1 w1 = (r2, w2)"
        "w' = w2 \<or> (\<exists>w3. prog_irq_msix_channel d1 False w2 = Some w3 \<and> prog_irq_msix_user d1 False w3 = Some w')"
        using c(2) by auto
      have "adds is_irq_ev w2 w'"
        using u(2) adds_trans[OF adds_prog(1) adds_prog(2)] by (auto simp: adds_same)
      with adds_user_setup[OF u(1)] show ?thesis by (rule adds_trans)
    qed (use c(2) in \<open>simp add: adds_same\<close>)
    then show ?thesis by (intro adds_trans[OF k] adds_trans[OF adds_channel_setup[OF c(1)]])
  next
    case False
    then have "adds is_irq_ev ?w w'"
      using assms adds_one_line adds_legacy unfolding irq_setup_def Let_def
      by (cases "d_msi_enabled d") auto
    then show ?thesis by (rule adds_trans[OF k])
  qed
qed

section \<open>Engines add only allocations\<close>

lemma free_resource_adds:
  "engine_free_resource e w = (e', w') \<Longrightarrow> adds is_mem_ev w w'"
  unfolding engine_free_resource_def Let_def adds_def
  by (auto split: if_splits intro: exI[of _ "[]"] exI[of _ "[FreeWriteback]"] exI[of _ "[FreeDescs]"]
      exI[of _ "[FreeCyclicResult]"] exI[of _ "[FreeDescs, FreeWriteback]"]
      exI[of _ "[FreeCyclicResult, FreeWriteback]"] exI[of _ "[FreeCyclicResult, FreeDescs]"]
      exI[of _ "[FreeCyclicResult, FreeDescs, FreeWriteback]"])

lemma free_resource_fields:
  assumes "engine_free_resource e w = (e', w')"
  shows "e_irq_bitmask e' = e_irq_bitmask e" "e_magic e' = e_magic e" "writes w' = writes w"
    "e_desc e' = None" "e_cyclic_result e' = None" "e_poll_mode_addr_virt e' = None"
  using assms by (auto simp: engine_free_resource_def Let_def split: if_splits)

text \<open>Allocation and release keep the identity of the engine.\<close>

definition resourced :: "xdma_engine \<Rightarrow> world \<Rightarrow> xdma_engine \<Rightarrow> world \<Rightarrow> bool" where
  "resourced e w e' w' \<longleftrightarrow> e_irq_bitmask e' = e_irq_bitmask e \<and> e_magic e' = e_magic e \<and> adds is_mem_ev w w'"

lemma resourced_trans: "resourced e w e' w' \<Longrightarrow> resourced e' w' e'' w'' \<Longrightarrow> resourced e w e'' w''"
  unfolding resourced_def using adds_trans by auto

lemma resourced_free: "engine_free_resource e w = (e', w') \<Longrightarrow> resourced e w e' w'"
  unfolding resourced_def by (simp add: free_resource_fields(1,2) free_resource_adds)

lemma resourced_steps:
  "resourced e w (e\<lparr>e_desc := a\<rparr>) w" "resourced e w (e\<lparr>e_desc := a, e_desc_bus := b\<rparr>) (kcall AllocDescs w)"
  "resourced e w (e\<lparr>e_poll_mode_addr_virt := c\<rparr>) w"
  "resourced e w (e\<lparr>e_poll_mode_addr_virt := c, e_poll_mode_bus := b\<rparr>) (kcall AllocWriteback w)"
  "resourced e w (e\<lparr>e_cyclic_result := r\<rparr>) w"
  "resourced e w (e\<lparr>e_cyclic_result := r, e_cyclic_result_bus := b\<rparr>) (kcall AllocCyclicResult w)"
  "resourced e w e w"
  unfolding resourced_def by (auto intro: adds_intros)

lemma alloc_resource_fields:
  assumes "engine_alloc_resource env mp e w = (rv, e', w')"
  shows "resourced e w e' w' \<and> (rv = 0 \<or> rv = - ENOMEM)"
proof -
  have err: "resourced f x e' w' \<and> rv = - ENOMEM"
    if "(case engine_free_resource f x of (e, w) \<Rightarrow> (- ENOMEM, e, w)) = (rv, e', w')" for f x
    using that resourced_free by (auto split: prod.splits)
  show ?thesis
  proof (cases "coh_descs env (ktrace w)")
    case None
    then show ?thesis
      using assms err[of "e\<lparr>e_desc := None\<rparr>" w] resourced_trans[OF resourced_steps(1)]
      by (auto simp: engine_alloc_resource_def Let_def)
  next
    case (Some p)
    obtain ds bus where p: "p = (ds, bus)" by fastforce
    let ?e = "e\<lparr>e_desc := Some ds, e_desc_bus := bus\<rparr>" and ?w = "kcall AllocDescs w"
    obtain ok e1 w1 where q: "(if poll_mode mp then
                   (case coh_writeback env (ktrace ?w) of
                      None \<Rightarrow> (False, ?e\<lparr>e_poll_mode_addr_virt := None\<rparr>, ?w)
                    | Some (a, b) \<Rightarrow>
                        (True, ?e\<lparr>e_poll_mode_addr_virt := Some a, e_poll_mode_bus := b\<rparr>,
                         kcall AllocWriteback ?w))
                 else (True, ?e, ?w)) = (ok, e1, w1)" by (metis prod_cases3)
    have r1: "resourced e w e1 w1"
    proof (rule resourced_trans[OF resourced_steps(2)])
      show "resourced ?e ?w e1 w1"
        using q resourced_steps(3,4,7) by (auto split: if_splits option.splits)
    qed
    have a: "engine_alloc_resource env mp e w =
      (if \<not> ok then (case engine_free_resource e1 w1 of (e, w) \<Rightarrow> (- ENOMEM, e, w))
       else if e_streaming e1 \<and> e_dir e1 = DMA_FROM_DEVICE then
         (case coh_results env (ktrace w1) of
            None \<Rightarrow> (case engine_free_resource (e1\<lparr>e_cyclic_result := None\<rparr>) w1 of (e, w) \<Rightarrow> (- ENOMEM, e, w))
          | Some (r, b) \<Rightarrow>
              (0, e1\<lparr>e_cyclic_result := Some r, e_cyclic_result_bus := b\<rparr>, kcall AllocCyclicResult w1))
       else (0, e1, w1))"
      unfolding engine_alloc_resource_def Let_def Some p option.case prod.case q ..
    show ?thesis
    proof (cases "ok \<and> e_streaming e1 \<and> e_dir e1 = DMA_FROM_DEVICE")
      case True
      show ?thesis
      proof (cases "coh_results env (ktrace w1)")
        case None
        then show ?thesis
          using assms True err[of "e1\<lparr>e_cyclic_result := None\<rparr>" w1] unfolding a
          by (auto intro: resourced_trans[OF r1] resourced_trans[OF resourced_steps(5)])
      next
        case (Some x)
        then show ?thesis
          using assms True resourced_steps(6) unfolding a
          by (cases x) (auto intro: resourced_trans[OF r1])
      qed
    next
      case False
      then show ?thesis
        using assms err[of e1 w1] r1 resourced_trans[OF r1] unfolding a by (auto split: if_splits)
    qed
  qed
qed

lemma credit_mode_frame: "credit_mode mp d e r w = Some w' \<Longrightarrow> ktrace w' = ktrace w"
  by (auto simp: credit_mode_def Let_def split: if_splits bind_splits)

lemma init_interrupts_frame:
  "init_interrupts mp e w = Some (rv, v, w') \<Longrightarrow> rv = 0 \<and> ktrace w' = ktrace w"
  by (auto simp: init_interrupts_def engine_writeback_setup_def Let_def split: if_splits bind_splits)

lemma init_regs_fields:
  assumes "engine_init_regs mp d e w = Some (rv, e', w')"
  shows "rv = 0 \<and> ktrace w' = ktrace w \<and>
    (\<exists>a l b v. e' = e\<lparr>e_addr_align := a, e_len_granularity := l, e_addr_bits := b,
       e_interrupt_enable_mask_value := v\<rparr>)"
proof -
  let ?w = "write_register XDMA_CTRL_NON_INCR_ADDR (ereg e ER_control_w1c) w"
  obtain e1 w1 where al: "engine_alignments e ?w = (e1, w1)" by fastforce
  have e1: "\<exists>a l b. e1 = e\<lparr>e_addr_align := a, e_len_granularity := l, e_addr_bits := b\<rparr>"
    "ktrace w1 = ktrace w"
    using al by (auto simp: engine_alignments_def case_prod_beta Let_def split: if_splits)
  obtain r v w2 where i: "init_interrupts mp e1 w1 = Some (r, v, w2)"
    using assms by (auto simp: engine_init_regs_def al split: bind_splits)
  have "rv = 0 \<and> ktrace w' = ktrace w2 \<and> e' = e1\<lparr>e_interrupt_enable_mask_value := v\<rparr>"
    using assms init_interrupts_frame[OF i]
    by (auto simp: engine_init_regs_def al i Let_def split: bind_splits dest: credit_mode_frame)
  then show ?thesis using init_interrupts_frame[OF i] e1 by auto
qed

lemma set_engines_fields [simp]:
  "engines_of (set_engines dir es d) dir' =
     (if (dir' = DMA_TO_DEVICE) = (dir = DMA_TO_DEVICE) then es else engines_of d dir')"
  "d_bar (set_engines dir es d) = d_bar d" "d_got_regions (set_engines dir es d) = d_got_regions d"
  "d_config_bar_idx (set_engines dir es d) = d_config_bar_idx d"
  "d_engines_num (set_engines dir es d) = d_engines_num d"
  "d_h2c_channel_max (set_engines dir es d) = d_h2c_channel_max d"
  "d_c2h_channel_max (set_engines dir es d) = d_c2h_channel_max d"
  "d_mask_irq_h2c (set_engines dir es d) = d_mask_irq_h2c d"
  "d_mask_irq_c2h (set_engines dir es d) = d_mask_irq_c2h d"
  by (auto simp: set_engines_def engines_of_def)

definition mask_of :: "xdma_dev \<Rightarrow> dma_dir \<Rightarrow> u32" where
  "mask_of d dir = (if dir = DMA_TO_DEVICE then d_mask_irq_h2c d else d_mask_irq_c2h d)"

lemma engine_identity_fields:
  assumes "engine_identity off dir ch d w = Some (e, w')"
  shows "e_irq_bitmask e = push_bit (d_engines_num d) 1" "e_magic e = MAGIC_ENGINE"
    "ch < length (engines_of d dir)" "ktrace w' = ktrace w"
  using assms
  by (auto simp: engine_identity_def XDMA_ENG_IRQ_NUM_def arr_get_def case_prod_beta Let_def
      split: bind_splits if_splits)

text \<open>What setting up an engine leaves behind, whether it succeeds or not.\<close>

lemma engine_init_result:
  assumes "engine_init env mp off dir ch d w = Some (rv, d', w')"
  shows "\<exists>e. e_magic e = MAGIC_ENGINE \<and> e_irq_bitmask e = push_bit (d_engines_num d) 1 \<and>
    engines_of d' dir = (engines_of d dir)[ch := e] \<and> ch < length (engines_of d dir) \<and>
    d_engines_num d' = d_engines_num d + 1 \<and> config_bar d' = config_bar d \<and> d_bar d' = d_bar d \<and>
    d_got_regions d' = d_got_regions d \<and>
    mask_of d' dir = mask_of d dir OR push_bit (d_engines_num d) 1 \<and>
    d_h2c_channel_max d' = d_h2c_channel_max d \<and> d_c2h_channel_max d' = d_c2h_channel_max d \<and>
    (\<forall>dir'. (dir' = DMA_TO_DEVICE) \<noteq> (dir = DMA_TO_DEVICE) \<longrightarrow>
       engines_of d' dir' = engines_of d dir' \<and> mask_of d' dir' = mask_of d dir') \<and>
    adds is_mem_ev w w'"
proof -
  obtain e1 w1 where id: "engine_identity off dir ch d w = Some (e1, w1)"
    using assms unfolding engine_init_def by (auto split: bind_splits)
  note e1 = engine_identity_fields[OF id]
  let ?b = "push_bit (d_engines_num d) 1 :: u32"
  define dm where "dm = (if dir = DMA_TO_DEVICE then d\<lparr>d_mask_irq_h2c := d_mask_irq_h2c d OR ?b\<rparr>
             else d\<lparr>d_mask_irq_c2h := d_mask_irq_c2h d OR ?b\<rparr>)\<lparr>d_engines_num := d_engines_num d + 1\<rparr>"
  let ?put = "\<lambda>e. set_engines dir ((engines_of dm dir)[ch := e]) dm"
  let ?d = "if dir = DMA_TO_DEVICE then d\<lparr>d_mask_irq_h2c := d_mask_irq_h2c d OR e_irq_bitmask e1\<rparr>
             else d\<lparr>d_mask_irq_c2h := d_mask_irq_c2h d OR e_irq_bitmask e1\<rparr>"
  have dm': "dm = ?d\<lparr>d_engines_num := d_engines_num ?d + 1\<rparr>"
    unfolding dm_def e1(1) by (cases "dir = DMA_TO_DEVICE") simp_all
  obtain r2 e2 w2 where al: "engine_alloc_resource env mp e1 w1 = (r2, e2, w2)" by (metis prod_cases3)
  have eq: "engine_init env mp off dir ch d w =
      (if r2 \<noteq> 0 then Some (r2, ?put e2, w2)
       else Option.bind (engine_init_regs mp dm e2 w2) (\<lambda>(rv, e, w).
          if rv \<noteq> 0 then Some (rv, ?put e, w) else Some (0, ?put e, w)))"
    unfolding engine_init_def id bind.bind_lunit prod.case Let_def dm'[symmetric] al by (rule refl)
  have e2: "e_irq_bitmask e2 = ?b" "e_magic e2 = MAGIC_ENGINE" "adds is_mem_ev w1 w2"
    using alloc_resource_fields[OF al] e1 by (simp_all add: resourced_def)
  obtain e where e: "d' = ?put e" "e_irq_bitmask e = ?b" "e_magic e = MAGIC_ENGINE" "adds is_mem_ev w1 w'"
  proof (cases "r2 = 0")
    case False
    then show ?thesis using that[of e2] assms e2 unfolding eq by simp
  next
    case True
    then obtain e3 where e3: "engine_init_regs mp dm e2 w2 = Some (0, e3, w')" "d' = ?put e3"
      using assms unfolding eq by (auto split: bind_splits if_splits dest: init_regs_fields)
    show ?thesis
      using that[of e3] init_regs_fields[OF e3(1)] e2 e3(2) by (auto simp: adds_def)
  qed
  have o: "engines_of dm dir' = engines_of d dir'" "d_engines_num dm = d_engines_num d + 1"
    "config_bar dm = config_bar d" "d_bar dm = d_bar d" "d_got_regions dm = d_got_regions d" "d_h2c_channel_max dm = d_h2c_channel_max d"
    "d_c2h_channel_max dm = d_c2h_channel_max d" "mask_of dm dir = mask_of d dir OR ?b"
    "(dir' = DMA_TO_DEVICE) \<noteq> (dir = DMA_TO_DEVICE) \<Longrightarrow> mask_of dm dir' = mask_of d dir'" for dir'
    by (auto simp: dm_def engines_of_def config_bar_def mask_of_def)
  have s: "config_bar (set_engines dir es dm) = config_bar dm" "mask_of (set_engines dir es dm) = mask_of dm" for es
    by (auto simp: set_engines_def config_bar_def mask_of_def)
  have "adds is_mem_ev w w'" using e(4) e1(4) by (simp add: adds_def)
  then show ?thesis
    using e(2,3) e1(3) unfolding e(1) s by (intro exI[of _ e]) (auto simp: o)
qed

section \<open>Probing\<close>

lemma probe_for_result:
  assumes "probe_for_engine env mp dir ch d w = Some (rv, d', w')"
  shows "rv \<noteq> 0 \<and> d' = d \<and> ktrace w' = ktrace w \<or>
    (\<exists>off w1. ktrace w1 = ktrace w \<and> engine_init env mp off dir ch d w1 = Some (rv, d', w'))"
proof -
  have g: "ktrace (snd (get_engine_id a x)) = ktrace x" "ktrace (snd (get_engine_channel_id a x)) = ktrace x" for a x
    by (simp_all add: get_engine_id_def get_engine_channel_id_def case_prod_beta Let_def)
  define off where "off = (if dir = DMA_TO_DEVICE then ch * CHANNEL_SPACING else ch * CHANNEL_SPACING + H2C_CHANNEL_OFFSET)"
  define ex where "ex = (if dir = DMA_TO_DEVICE then XDMA_ID_H2C else XDMA_ID_C2H)"
  have p: "(if dir = DMA_TO_DEVICE then (ch * CHANNEL_SPACING, XDMA_ID_H2C)
       else (ch * CHANNEL_SPACING + H2C_CHANNEL_OFFSET, XDMA_ID_C2H)) = (off, ex)"
    by (simp add: off_def ex_def)
  obtain bar where b: "config_bar d = Some bar"
    using assms unfolding probe_for_engine_def Let_def p prod.case by (auto split: bind_splits)
  obtain v1 w1 v2 w2 where r: "get_engine_id (bar + of_nat off) w = (v1, w1)"
    "get_engine_channel_id (bar + of_nat off) w1 = (v2, w2)" by fastforce
  have k: "ktrace w2 = ktrace w"
    using g(1)[of "bar + of_nat off" w] g(2)[of "bar + of_nat off" w1] r by simp
  have "(if v1 \<noteq> ex \<or> v2 \<noteq> of_nat ch then Some (- EINVAL, d, w2)
      else Option.bind (engine_init env mp off dir ch d w2)
        (\<lambda>(rv, d, w). if rv \<noteq> 0 then Some (rv, d, w) else Some (0, d, w))) = Some (rv, d', w')"
    using assms unfolding probe_for_engine_def Let_def p prod.case b bind.bind_lunit r .
  then show ?thesis using k by (auto split: if_splits bind_splits)
qed

definition probed :: "xdma_dev \<Rightarrow> dma_dir \<Rightarrow> nat \<Rightarrow> nat \<Rightarrow> bool" where
  "probed d dir K i \<longleftrightarrow> i \<le> length (engines_of d dir) \<and>
     (\<forall>k < i. e_magic (engines_of d dir ! k) = MAGIC_ENGINE \<and>
       e_irq_bitmask (engines_of d dir ! k) = push_bit (K + k) 1 \<and>
       push_bit (K + k) 1 AND mask_of d dir = push_bit (K + k) 1)"

text \<open>What a loop over the channels of one direction leaves of the device.\<close>

definition probe_frame :: "dma_dir \<Rightarrow> xdma_dev \<Rightarrow> world \<Rightarrow> xdma_dev \<Rightarrow> world \<Rightarrow> bool" where
  "probe_frame dir d w d' w' \<longleftrightarrow>
     length (engines_of d' dir) = length (engines_of d dir) \<and> config_bar d' = config_bar d \<and>
     d_bar d' = d_bar d \<and> d_got_regions d' = d_got_regions d \<and>
     d_h2c_channel_max d' = d_h2c_channel_max d \<and> d_c2h_channel_max d' = d_c2h_channel_max d \<and>
     (\<forall>dir'. (dir' = DMA_TO_DEVICE) \<noteq> (dir = DMA_TO_DEVICE) \<longrightarrow>
        engines_of d' dir' = engines_of d dir' \<and> mask_of d' dir' = mask_of d dir') \<and>
     adds is_mem_ev w w'"

lemma probe_frame_refl: "ktrace w' = ktrace w \<Longrightarrow> probe_frame dir d w d w'"
  by (simp add: probe_frame_def adds_same)

lemma probe_frame_trans:
  "probe_frame dir d w d1 w1 \<Longrightarrow> probe_frame dir d1 w1 d2 w2 \<Longrightarrow> probe_frame dir d w d2 w2"
  unfolding probe_frame_def using adds_trans[of is_mem_ev w w1 w2] by auto

lemma bit_kept: "v AND m = (v :: u32) \<Longrightarrow> v AND (m OR x) = v"
  by (rule bit_word_eqI) (metis bit_and_iff bit_or_iff)

lemma init_step:
  assumes "engine_init env mp off dir ch d w = Some (rv, d', w')"
    and "d_engines_num d = K + ch" "probed d dir K ch"
  shows "probe_frame dir d w d' w'" "d_engines_num d' = K + Suc ch" "probed d' dir K ch"
    "probed d' dir K (Suc ch)"
proof -
  obtain e where e: "e_magic e = MAGIC_ENGINE" "e_irq_bitmask e = push_bit (K + ch) 1"
    "engines_of d' dir = (engines_of d dir)[ch := e]" "ch < length (engines_of d dir)"
    "d_engines_num d' = K + ch + 1" "mask_of d' dir = mask_of d dir OR push_bit (K + ch) 1"
    "probe_frame dir d w d' w'"
    using engine_init_result[OF assms(1)] unfolding assms(2) probe_frame_def by auto
  have n: "push_bit (K + ch) 1 AND (m OR push_bit (K + ch) 1) = (push_bit (K + ch) 1 :: u32)" for m
    by (rule bit_word_eqI) (auto simp: bit_simps)
  show "probe_frame dir d w d' w'" "d_engines_num d' = K + Suc ch" using e(5,7) by simp_all
  show "probed d' dir K ch"
    using assms(3) e(3,4,6) bit_kept unfolding probed_def by auto
  show "probed d' dir K (Suc ch)"
    using assms(3) e bit_kept n unfolding probed_def by (auto simp: less_Suc_eq)
qed

lemma probe_loop_result:
  "probe_loop env mp dir n i d w = Some (j, d', w') \<Longrightarrow> d_engines_num d = K + i \<Longrightarrow> probed d dir K i \<Longrightarrow>
   i \<le> j \<and> j \<le> i + n \<and> probed d' dir K j \<and> K + j \<le> d_engines_num d' \<and> d_engines_num d' \<le> K + j + 1 \<and>
   probe_frame dir d w d' w'"
proof (induction n arbitrary: i d w)
  case 0
  then show ?case by (auto intro: probe_frame_refl)
next
  case (Suc n)
  obtain rv d1 w1 where p: "probe_for_engine env mp dir i d w = Some (rv, d1, w1)"
    "if rv \<noteq> 0 then j = i \<and> d' = d1 \<and> w' = w1 else probe_loop env mp dir n (Suc i) d1 w1 = Some (j, d', w')"
    using Suc.prems(1) by (auto split: bind_splits if_splits)
  from probe_for_result[OF p(1)] show ?case
  proof (elim disjE conjE exE)
    assume "rv \<noteq> 0" "d1 = d" "ktrace w1 = ktrace w"
    then show ?thesis using p(2) Suc.prems(2,3) by (auto intro: probe_frame_refl)
  next
    fix off w0 assume k: "ktrace w0 = ktrace w" and ei: "engine_init env mp off dir i d w0 = Some (rv, d1, w1)"
    note st = init_step[OF ei Suc.prems(2,3)]
    have fr: "probe_frame dir d w d1 w1"
      by (rule probe_frame_trans[OF probe_frame_refl[OF k] st(1)])
    show ?thesis
    proof (cases "rv = 0")
      case True
      then have "probe_loop env mp dir n (Suc i) d1 w1 = Some (j, d', w')" using p(2) by simp
      from Suc.IH[OF this st(2,4)] show ?thesis
        using probe_frame_trans[OF fr] by auto
    next
      case False
      then show ?thesis using p(2) st fr by auto
    qed
  qed
qed

lemma disjoint_bits: "a \<noteq> b \<Longrightarrow> push_bit a 1 AND push_bit b 1 = (0 :: u32)"
  by (rule bit_word_eqI) (auto simp: bit_simps)

lemma probed_disjoint: "probed d dir K i \<Longrightarrow> engines_disjoint (engines_of d dir) i"
  unfolding probed_def engines_disjoint_def by (auto simp: disjoint_bits simp del: push_bit_of_1)

lemma probe_engines_result:
  assumes "probe_engines env mp d w = Some (rv, d', w')" "d_engines_num d = 0"
    and "0 \<le> d_h2c_channel_max d" "0 \<le> d_c2h_channel_max d"
  shows "rv = 0 \<and> d_h2c_channel_max d' \<le> d_h2c_channel_max d \<and> d_c2h_channel_max d' \<le> d_c2h_channel_max d \<and>
    0 \<le> d_h2c_channel_max d' \<and> 0 \<le> d_c2h_channel_max d' \<and> config_bar d' = config_bar d \<and>
    d_bar d' = d_bar d \<and> d_got_regions d' = d_got_regions d \<and> adds is_mem_ev w w' \<and> probed d' DMA_TO_DEVICE 0 (nat (d_h2c_channel_max d')) \<and>
    (\<exists>K. nat (d_h2c_channel_max d') \<le> K \<and> probed d' DMA_FROM_DEVICE K (nat (d_c2h_channel_max d')))"
proof -
  obtain i d1 w1 j d2 where h: "probe_loop env mp DMA_TO_DEVICE (nat (d_h2c_channel_max d)) 0 d w = Some (i, d1, w1)"
    and c: "probe_loop env mp DMA_FROM_DEVICE (nat (d_c2h_channel_max d1)) 0 (d1\<lparr>d_h2c_channel_max := int i\<rparr>) w1 = Some (j, d2, w')"
    and r: "rv = 0" "d' = d2\<lparr>d_c2h_channel_max := int j\<rparr>"
    using assms(1) by (auto simp: probe_engines_def Let_def split: bind_splits)
  have p0: "probed d DMA_TO_DEVICE 0 0" "d_engines_num d = 0 + 0" using assms(2) by (simp_all add: probed_def)
  note H = probe_loop_result[OF h p0(2,1)]
  let ?d1 = "d1\<lparr>d_h2c_channel_max := int i\<rparr>"
  have "probed ?d1 DMA_FROM_DEVICE (d_engines_num d1) 0" "d_engines_num ?d1 = d_engines_num d1 + 0"
    by (simp_all add: probed_def)
  note C = probe_loop_result[OF c this(2,1)]
  have e: "engines_of (x\<lparr>d_h2c_channel_max := n\<rparr>) = engines_of x" "engines_of (x\<lparr>d_c2h_channel_max := n\<rparr>) = engines_of x"
    "mask_of (x\<lparr>d_h2c_channel_max := n\<rparr>) = mask_of x" "mask_of (x\<lparr>d_c2h_channel_max := n\<rparr>) = mask_of x"
    "config_bar (x\<lparr>d_h2c_channel_max := n\<rparr>) = config_bar x" "config_bar (x\<lparr>d_c2h_channel_max := n\<rparr>) = config_bar x" for x n
    by (auto simp: engines_of_def mask_of_def config_bar_def fun_eq_iff)
  have m: "d_h2c_channel_max d' = int i" "d_c2h_channel_max d' = int j" "config_bar d' = config_bar d"
    "d_bar d' = d_bar d" "d_got_regions d' = d_got_regions d"
    using C H r(2) by (simp_all add: probe_frame_def e)
  have "engines_of d2 DMA_TO_DEVICE = engines_of d1 DMA_TO_DEVICE" "mask_of d2 DMA_TO_DEVICE = mask_of d1 DMA_TO_DEVICE"
    using C by (simp_all add: probe_frame_def e)
  then have "probed d' DMA_TO_DEVICE 0 i" using H r(2) by (simp add: probed_def e)
  moreover have "probed d' DMA_FROM_DEVICE (d_engines_num d1) j" "i \<le> d_engines_num d1"
    using C H r(2) by (auto simp: probed_def e)
  moreover have "adds is_mem_ev w w'"
    using H C adds_trans[of is_mem_ev w w1 w'] by (simp add: probe_frame_def)
  moreover have "i \<le> nat (d_h2c_channel_max d)" "j \<le> nat (d_c2h_channel_max d)"
    using H C by (auto simp: probe_frame_def)
  ultimately show ?thesis using m r(1) assms(3,4) by auto
qed

section \<open>Properties of probing and of the line state\<close>

text \<open>C21: Probing a fresh device keeps a prefix of the channels of each direction; every
  engine found is set up, the engines have pairwise different interrupt bits, each contained
  in the mask of its direction, as the interrupt service routine needs.\<close>

theorem probe_engines_interrupt_bits:
  assumes "probe_engines env mp d w = Some (rv, d', w')" "d_engines_num d = 0"
    and "0 \<le> d_h2c_channel_max d" "0 \<le> d_c2h_channel_max d"
  shows "rv = 0 \<and> d_h2c_channel_max d' \<le> d_h2c_channel_max d \<and> d_c2h_channel_max d' \<le> d_c2h_channel_max d \<and>
    engines_disjoint (d_engine_h2c d') (nat (d_h2c_channel_max d')) \<and>
    engines_disjoint (d_engine_c2h d') (nat (d_c2h_channel_max d')) \<and>
    (\<forall>i < nat (d_h2c_channel_max d'). e_irq_bitmask (d_engine_h2c d' ! i) AND d_mask_irq_h2c d' =
       e_irq_bitmask (d_engine_h2c d' ! i)) \<and>
    (\<forall>i < nat (d_c2h_channel_max d'). e_irq_bitmask (d_engine_c2h d' ! i) AND d_mask_irq_c2h d' =
       e_irq_bitmask (d_engine_c2h d' ! i)) \<and>
    (\<forall>i < nat (d_h2c_channel_max d'). \<forall>j < nat (d_c2h_channel_max d').
       e_irq_bitmask (d_engine_h2c d' ! i) AND e_irq_bitmask (d_engine_c2h d' ! j) = 0)"
proof -
  note r = probe_engines_result[OF assms]
  then obtain K where K: "nat (d_h2c_channel_max d') \<le> K"
    "probed d' DMA_FROM_DEVICE K (nat (d_c2h_channel_max d'))" by blast
  have H: "probed d' DMA_TO_DEVICE 0 (nat (d_h2c_channel_max d'))" using r by blast
  have e: "engines_of d' DMA_TO_DEVICE = d_engine_h2c d'" "engines_of d' DMA_FROM_DEVICE = d_engine_c2h d'"
    "mask_of d' DMA_TO_DEVICE = d_mask_irq_h2c d'" "mask_of d' DMA_FROM_DEVICE = d_mask_irq_c2h d'"
    by (simp_all add: engines_of_def mask_of_def)
  note D = probed_disjoint[OF H, unfolded e] probed_disjoint[OF K(2), unfolded e]
  note B = H[unfolded probed_def e] K(2)[unfolded probed_def e]
  have b: "e_irq_bitmask (d_engine_h2c d' ! i) AND d_mask_irq_h2c d' = e_irq_bitmask (d_engine_h2c d' ! i)"
    if "i < nat (d_h2c_channel_max d')" for i using B(1) that by (metis add_0)
  have c: "e_irq_bitmask (d_engine_c2h d' ! i) AND d_mask_irq_c2h d' = e_irq_bitmask (d_engine_c2h d' ! i)"
    if "i < nat (d_c2h_channel_max d')" for i using B(2) that by metis
  have x: "e_irq_bitmask (d_engine_h2c d' ! i) AND e_irq_bitmask (d_engine_c2h d' ! j) = 0"
    if "i < nat (d_h2c_channel_max d')" "j < nat (d_c2h_channel_max d')" for i j
  proof -
    have "i \<noteq> K + j" using that(1) K(1) by simp
    then show ?thesis using B that disjoint_bits[of i "K + j"] by (metis add_0)
  qed
  show ?thesis using r by (intro conjI allI impI D b c x) blast+
qed

lemma probe_nothing:
  assumes "config_bar d = Some b" "hw w = (\<lambda>_ _. 0)"
  shows "\<exists>w'. probe_for_engine env mp dir ch d w = Some (- EINVAL, d, w') \<and> hw w' = hw w"
proof -
  have g: "fst (get_engine_id a x) = 0" "hw (snd (get_engine_id a x)) = hw x"
    "hw (snd (get_engine_channel_id a x)) = hw x" if "hw x = (\<lambda>_ _. 0)" for a x
    using that by (simp_all add: get_engine_id_def get_engine_channel_id_def case_prod_beta Let_def fst_read)
  define off where "off = (if dir = DMA_TO_DEVICE then ch * CHANNEL_SPACING else ch * CHANNEL_SPACING + H2C_CHANNEL_OFFSET)"
  define ex where "ex = (if dir = DMA_TO_DEVICE then XDMA_ID_H2C else XDMA_ID_C2H)"
  have p: "(if dir = DMA_TO_DEVICE then (ch * CHANNEL_SPACING, XDMA_ID_H2C)
       else (ch * CHANNEL_SPACING + H2C_CHANNEL_OFFSET, XDMA_ID_C2H)) = (off, ex)"
    by (simp add: off_def ex_def)
  have e: "0 \<noteq> ex" by (simp add: ex_def XDMA_ID_H2C_def XDMA_ID_C2H_def)
  let ?a = "b + of_nat off"
  obtain w1 where w1: "get_engine_id ?a w = (0, w1)" "hw w1 = hw w"
    using g(1,2)[OF assms(2), of ?a] by (metis prod.collapse)
  obtain v w2 where w2: "get_engine_channel_id ?a w1 = (v, w2)" "hw w2 = hw w"
    using g(3)[of w1 ?a] w1(2) assms(2) by (metis prod.collapse)
  show ?thesis
    unfolding probe_for_engine_def Let_def p prod.case assms(1) bind.bind_lunit w1(1) w2(1) using e w2(2) by simp
qed

lemma sample_probe:
  "\<exists>d w. probe_engines sample_pci default_modparams (sample_dev\<lparr>d_engines_num := 0\<rparr>) sample_world = Some (0, d, w)"
proof -
  let ?d = "sample_dev\<lparr>d_engines_num := 0\<rparr>"
  have c: "config_bar ?d = Some 0x10000" "config_bar (?d\<lparr>d_h2c_channel_max := n\<rparr>) = Some 0x10000" for n
    using sample_config_bar(1) by (simp_all add: config_bar_def)
  have m: "nat (d_h2c_channel_max ?d) = Suc 3" "nat (d_c2h_channel_max (?d\<lparr>d_h2c_channel_max := n\<rparr>)) = Suc 3" for n
    by (simp_all add: sample_dev_def)
  have l: "\<exists>w'. probe_loop sample_pci default_modparams dir (Suc 3) 0 d x = Some (0, d, w') \<and> hw w' = hw x"
    if cb: "config_bar d = Some b" "hw x = (\<lambda>_ _. 0)" for dir d b x
  proof -
    obtain w' where "probe_for_engine sample_pci default_modparams dir 0 d x = Some (- EINVAL, d, w')" "hw w' = hw x"
      using probe_nothing[OF cb] by blast
    then show ?thesis unfolding probe_loop.simps by simp
  qed
  have h0: "hw sample_world = (\<lambda>_ _. 0)" by (simp add: sample_world_def)
  obtain w1 where w1: "probe_loop sample_pci default_modparams DMA_TO_DEVICE (Suc 3) 0 ?d sample_world = Some (0, ?d, w1)"
    "hw w1 = hw sample_world" using l[OF c(1) h0] by blast
  have h1: "hw w1 = (\<lambda>_ _. 0)" using w1(2) h0 by simp
  obtain w2 where w2: "probe_loop sample_pci default_modparams DMA_FROM_DEVICE (Suc 3) 0 (?d\<lparr>d_h2c_channel_max := int 0\<rparr>) w1 =
      Some (0, ?d\<lparr>d_h2c_channel_max := int 0\<rparr>, w2)" using l[OF c(2) h1] by blast
  show ?thesis
    unfolding probe_engines_def m w1(1) bind.bind_lunit Let_def prod.case w2 by blast
qed

theorem probe_engines_interrupt_bits_witness:
  "\<exists>d w. probe_engines sample_pci default_modparams (sample_dev\<lparr>d_engines_num := 0\<rparr>) sample_world = Some (0, d, w) \<and>
     d_h2c_channel_max d \<le> 4"
proof -
  obtain d w where p: "probe_engines sample_pci default_modparams (sample_dev\<lparr>d_engines_num := 0\<rparr>) sample_world = Some (0, d, w)"
    using sample_probe by blast
  show ?thesis using probe_engines_interrupt_bits[OF p] p by (auto simp: sample_dev_def)
qed

section \<open>Off line\<close>

text \<open>The effect on one engine.\<close>

definition offlined :: "xdma_engine \<Rightarrow> xdma_engine" where
  "offlined e = (if e_magic e = MAGIC_ENGINE
     then e\<lparr>e_shutdown := e_shutdown e OR ENGINE_SHUTDOWN_REQUEST, e_running := False\<rparr> else e)"

definition stop_one :: "modparams \<Rightarrow> xdma_engine \<Rightarrow> world \<Rightarrow> world" where
  "stop_one mp e w = (if e_magic e = MAGIC_ENGINE then xdma_engine_stop mp e w else w)"

lemma stop_one_frame [simp]:
  "ktrace (stop_one mp e w) = ktrace w" "xfers (stop_one mp e w) = xfers w"
  by (simp_all add: stop_one_def)

lemma stop_one_writes:
  "writes (stop_one mp e w) = writes w @
     (if e_magic e = MAGIC_ENGINE then [(ereg e ER_control, stop_control mp e)] else [])"
  by (simp add: stop_one_def xdma_engine_stop_def ereg_def)

lemma offline_step:
  "i < length es \<Longrightarrow> offline_loop mp (Suc n) i es w =
     offline_loop mp n (Suc i) (es[i := offlined (es ! i)]) (stop_one mp (es ! i) w)"
  by (simp add: arr_get_def offlined_def stop_one_def Let_def xdma_engine_stop_def stop_control_def ereg_def)

lemma offline_loop_eq:
  "i + n \<le> length es \<Longrightarrow> offline_loop mp n i es w =
     Some (map_range i n (\<lambda>_. offlined) es, fold (\<lambda>k. stop_one mp (es ! k)) [i..<i + n] w)"
proof (induction n arbitrary: i es w)
  case (Suc n)
  have i: "i < length es" using Suc.prems by simp
  have u: "[i..<i + Suc n] = i # [Suc i..<Suc i + n]" by (simp add: upt_rec)
  have f: "fold (\<lambda>k. stop_one mp (es[i := x] ! k)) [Suc i..<Suc i + n] =
      fold (\<lambda>k. stop_one mp (es ! k)) [Suc i..<Suc i + n]" for x
    by (intro fold_cong ext) auto
  show ?case
    unfolding offline_step[OF i] u fold_simps map_range_Suc[OF i]
    using Suc.IH[of "Suc i" "es[i := offlined (es ! i)]"] Suc.prems unfolding f by simp
qed simp

lemma stop_all_frame:
  "ktrace (fold (\<lambda>k. stop_one mp (es ! k)) ks w) = ktrace w"
  "xfers (fold (\<lambda>k. stop_one mp (es ! k)) ks w) = xfers w"
  by (induction ks arbitrary: w) simp_all

lemma stop_all_writes:
  "\<exists>ws. writes (fold (\<lambda>k. stop_one mp (es ! k)) ks w) = writes w @ ws \<and>
     (\<forall>k \<in> set ks. e_magic (es ! k) = MAGIC_ENGINE \<longrightarrow> (ereg (es ! k) ER_control, stop_control mp (es ! k)) \<in> set ws)"
proof (induction ks arbitrary: w)
  case (Cons a ks)
  obtain ws where "writes (fold (\<lambda>k. stop_one mp (es ! k)) ks (stop_one mp (es ! a) w)) = writes (stop_one mp (es ! a) w) @ ws"
    "\<forall>k \<in> set ks. e_magic (es ! k) = MAGIC_ENGINE \<longrightarrow> (ereg (es ! k) ER_control, stop_control mp (es ! k)) \<in> set ws"
    using Cons.IH by blast
  then show ?case
    by (intro exI[of _ "(if e_magic (es ! a) = MAGIC_ENGINE then [(ereg (es ! a) ER_control, stop_control mp (es ! a))] else []) @ ws"])
      (simp add: stop_one_writes)
qed simp

definition device_full :: "xdma_dev \<Rightarrow> bool" where
  "device_full d \<longleftrightarrow> nat (d_h2c_channel_max d) \<le> length (d_engine_h2c d) \<and>
     nat (d_c2h_channel_max d) \<le> length (d_engine_c2h d)"

definition offlined_dev :: "xdma_dev \<Rightarrow> xdma_dev" where
  "offlined_dev d = d\<lparr>d_flags := d_flags d OR XDEV_FLAG_OFFLINE,
     d_engine_h2c := map_range 0 (nat (d_h2c_channel_max d)) (\<lambda>_. offlined) (d_engine_h2c d),
     d_engine_c2h := map_range 0 (nat (d_c2h_channel_max d)) (\<lambda>_. offlined) (d_engine_c2h d)\<rparr>"

definition stopped_world :: "modparams \<Rightarrow> xdma_dev \<Rightarrow> world \<Rightarrow> world" where
  "stopped_world mp d w =
     fold (\<lambda>k. stop_one mp (d_engine_c2h d ! k)) [0..<nat (d_c2h_channel_max d)]
       (fold (\<lambda>k. stop_one mp (d_engine_h2c d ! k)) [0..<nat (d_h2c_channel_max d)] w)"

definition quiesce :: "xdma_dev \<Rightarrow> world \<Rightarrow> world option" where
  "quiesce d w = do {
     w \<leftarrow> channel_interrupts_disable d (NOT 0) w;
     w \<leftarrow> user_interrupts_disable d (NOT 0) w;
     (_, w) \<leftarrow> read_interrupts d w;
     Some w
   }"

lemma quiesce_frame:
  "quiesce d w = Some w' \<Longrightarrow> ktrace w' = ktrace w \<and> xfers w' = xfers w \<and> (\<exists>ws. writes w' = writes w @ ws)"
  by (auto simp: quiesce_def channel_interrupts_disable_def user_interrupts_disable_def read_interrupts_def
      case_prod_beta Let_def split: bind_splits)

lemma quiesce_defined: "config_bar d = Some b \<Longrightarrow> \<exists>w'. quiesce d w = Some w'"
  by (simp add: quiesce_def channel_interrupts_disable_def user_interrupts_disable_def read_interrupts_def
      case_prod_beta Let_def)

lemma device_offline_eq:
  assumes "device_full d" "\<not> d_lock d"
  shows "device_offline env mp d w = Option.bind (quiesce (offlined_dev d) (stopped_world mp d w))
     (\<lambda>w. Option.bind (irq_teardown env (offlined_dev d) w) (\<lambda>w. Some (offlined_dev d, w)))"
proof -
  have f: "xdma_device_flag_set d XDEV_FLAG_OFFLINE = Some (d\<lparr>d_flags := d_flags d OR XDEV_FLAG_OFFLINE\<rparr>)"
    using flag_set_eq[OF assms(2)] by simp
  have h: "nat (d_h2c_channel_max d) \<le> length (d_engine_h2c d)" "nat (d_c2h_channel_max d) \<le> length (d_engine_c2h d)"
    using assms(1) by (simp_all add: device_full_def)
  have e: "d\<lparr>d_flags := d_flags d OR XDEV_FLAG_OFFLINE,
     d_engine_h2c := map_range 0 (nat (d_h2c_channel_max d)) (\<lambda>_. offlined) (d_engine_h2c d),
     d_engine_c2h := map_range 0 (nat (d_c2h_channel_max d)) (\<lambda>_. offlined) (d_engine_c2h d)\<rparr> = offlined_dev d"
    by (simp add: offlined_dev_def)
  show ?thesis
    by (simp add: device_offline_def f offline_loop_eq h quiesce_def e stopped_world_def Let_def
        case_prod_unfold Option.bind_assoc)
qed

lemma offlined_dev_fields [simp]:
  "d_msix_enabled (offlined_dev d) = d_msix_enabled d" "config_bar (offlined_dev d) = config_bar d"
  "d_user_max (offlined_dev d) = d_user_max d" "d_h2c_channel_max (offlined_dev d) = d_h2c_channel_max d"
  "d_c2h_channel_max (offlined_dev d) = d_c2h_channel_max d" "d_lock (offlined_dev d) = d_lock d"
  "d_flags (offlined_dev d) = d_flags d OR XDEV_FLAG_OFFLINE" "d_pdev (offlined_dev d) = d_pdev d"
  by (simp_all add: offlined_dev_def config_bar_def)

text \<open>C22: After \<^verbatim>\<open>xdma_device_offline\<close> the device is marked off line, every engine of it
  has been written a control word without the run bit, is marked stopped and asked to shut
  down, and every further transfer is refused with \<^verbatim>\<open>-EBUSY\<close>.\<close>

theorem offline_stops_and_refuses:
  assumes "device_full d" "\<not> d_lock d" "device_offline env mp d w = Some (d', w')"
    and "i < nat (if dir = DMA_TO_DEVICE then d_h2c_channel_max d else d_c2h_channel_max d)"
    and "e_magic (engines_of d dir ! i) = MAGIC_ENGINE" "t_desc_num (xfers w' x) \<noteq> 0"
  shows "d_flags d' AND XDEV_FLAG_OFFLINE \<noteq> 0 \<and>
    (\<exists>e' w1 ws. arr_get (int i) (engines_of d' dir) = Some e' \<and> \<not> e_running e' \<and>
       e_shutdown e' AND ENGINE_SHUTDOWN_REQUEST \<noteq> 0 \<and>
       writes w1 = writes w @ ws \<and> (ereg (engines_of d dir ! i) ER_control, stop_control mp (engines_of d dir ! i)) \<in> set ws \<and>
       irq_teardown env d' w1 = Some w' \<and>
       transfer_queue mp d' e' x w' = Some (- EBUSY, e', w'))"
proof -
  obtain w1 where q: "quiesce (offlined_dev d) (stopped_world mp d w) = Some w1"
    "irq_teardown env (offlined_dev d) w1 = Some w'" and d': "d' = offlined_dev d"
    using assms(3) unfolding device_offline_eq[OF assms(1,2)] by (auto split: bind_splits)
  let ?e = "engines_of d dir ! i"
  let ?n = "nat (if dir = DMA_TO_DEVICE then d_h2c_channel_max d else d_c2h_channel_max d)"
  have "engines_of d' dir = map_range 0 ?n (\<lambda>_. offlined) (engines_of d dir)" "?n \<le> length (engines_of d dir)"
    using assms(1) by (auto simp: d' offlined_dev_def engines_of_def device_full_def)
  then have g: "arr_get (int i) (engines_of d' dir) = Some (offlined ?e)"
    using assms(4) by (simp add: arr_get_def map_range_nth)
  obtain ws1 ws2 where ws: "writes (stopped_world mp d w) = writes w @ ws1 @ ws2"
    "\<forall>k \<in> set [0..<nat (d_h2c_channel_max d)]. e_magic (d_engine_h2c d ! k) = MAGIC_ENGINE \<longrightarrow>
       (ereg (d_engine_h2c d ! k) ER_control, stop_control mp (d_engine_h2c d ! k)) \<in> set ws1"
    "\<forall>k \<in> set [0..<nat (d_c2h_channel_max d)]. e_magic (d_engine_c2h d ! k) = MAGIC_ENGINE \<longrightarrow>
       (ereg (d_engine_c2h d ! k) ER_control, stop_control mp (d_engine_c2h d ! k)) \<in> set ws2"
    using stop_all_writes unfolding stopped_world_def by (metis append.assoc)
  obtain ws3 where "writes w1 = writes w @ (ws1 @ ws2 @ ws3)"
    using quiesce_frame[OF q(1)] ws(1) by auto
  moreover have "(ereg ?e ER_control, stop_control mp ?e) \<in> set (ws1 @ ws2 @ ws3)"
    using ws(2,3) assms(4,5) by (auto simp: engines_of_def split: if_splits)
  moreover have fl: "d_flags d' AND XDEV_FLAG_OFFLINE \<noteq> 0"
    unfolding d' offlined_dev_fields XDEV_FLAG_OFFLINE_def using or_absorb[of "d_flags d" 1] by simp
  moreover have "transfer_queue mp d' f x w' = Some (- EBUSY, f, w')" for f
    by (rule transfer_queue_refused) (use fl assms(2,6) in \<open>simp_all add: d'\<close>)
  moreover have "\<not> e_running (offlined ?e)" "e_shutdown (offlined ?e) AND ENGINE_SHUTDOWN_REQUEST \<noteq> 0"
    using assms(5) or_absorb[of "e_shutdown ?e" ENGINE_SHUTDOWN_REQUEST]
    by (simp_all add: offlined_def ENGINE_SHUTDOWN_REQUEST_def)
  ultimately show ?thesis using g q(2) unfolding d' by blast
qed

lemma sample_offline: "\<exists>d w. device_offline sample_pci default_modparams sample_irq_dev sample_world = Some (d, w) \<and>
  xfers w = xfers sample_world"
proof -
  have f: "device_full sample_irq_dev" "\<not> d_lock sample_irq_dev"
    by (simp_all add: device_full_def sample_irq_dev_def sample_dev_def)
  have c: "config_bar (offlined_dev sample_irq_dev) = Some 0x10000" by (simp add: sample_config_bar)
  obtain w where "quiesce (offlined_dev sample_irq_dev) (stopped_world default_modparams sample_irq_dev sample_world) = Some w"
    using quiesce_defined[OF c] by blast
  moreover from quiesce_frame[OF this] have "xfers w = xfers sample_world" by (simp add: stopped_world_def stop_all_frame)
  moreover have "\<exists>w'. irq_teardown sample_pci (offlined_dev sample_irq_dev) w = Some w' \<and> xfers w' = xfers w"
    using prog_defined[OF c]
    by (simp add: irq_teardown_def irq_msix_channel_teardown_def irq_msix_user_teardown_def free_users_result
        sample_irq_dev_def sample_dev_def offlined_dev_def map_range_def arr_get_def offlined_def
        config_bar_def prog_irq_msix_channel_def prog_irq_msix_user_def Let_def)
  ultimately show ?thesis by (auto simp: device_offline_eq[OF f])
qed

theorem offline_stops_and_refuses_witness:
  "\<exists>d w e. device_offline sample_pci default_modparams sample_irq_dev sample_world = Some (d, w) \<and>
     arr_get 0 (d_engine_h2c d) = Some e \<and> \<not> e_running e \<and>
     transfer_queue default_modparams d e 0x1000 w = Some (- EBUSY, e, w)"
proof -
  obtain d w where o: "device_offline sample_pci default_modparams sample_irq_dev sample_world = Some (d, w)"
    and "xfers w = xfers sample_world"
    using sample_offline by blast
  then have x: "t_desc_num (xfers w 0x1000) \<noteq> 0" by (simp add: sample_world_def)
  have p: "device_full sample_irq_dev" "\<not> d_lock sample_irq_dev"
    "0 < nat (if DMA_TO_DEVICE = DMA_TO_DEVICE then d_h2c_channel_max sample_irq_dev else d_c2h_channel_max sample_irq_dev)"
    "e_magic (engines_of sample_irq_dev DMA_TO_DEVICE ! 0) = MAGIC_ENGINE"
    by (simp_all add: device_full_def sample_irq_dev_def sample_dev_def engines_of_def sample_engine_def)
  show ?thesis
    using offline_stops_and_refuses[OF p(1,2) o p(3,4) x] o by (auto simp: engines_of_def)
qed

end
