(* ===== verification/LifeProps.thy ===== *)
theory LifeProps
  imports DeviceProps
begin

text \<open>
  The life of a device as a whole: what a failed open gives back, what going off line and
  then closing releases, and which user interrupt handlers a registration sets.
\<close>

unbundle bit_operations_syntax

section \<open>Coherent memory\<close>

text \<open>How many coherent areas have been allocated and not freed.\<close>

fun mem_balance :: "kevent list \<Rightarrow> int" where
  "mem_balance [] = 0"
| "mem_balance (e # es) =
     (if e \<in> {AllocDescs, AllocWriteback, AllocCyclicResult} then 1
      else if e \<in> {FreeDescs, FreeWriteback, FreeCyclicResult} then - 1 else 0) + mem_balance es"

interpretation memory: event_count mem_balance
  by unfold_locales auto

definition held :: "xdma_engine \<Rightarrow> int" where
  "held e = (if e_desc e \<noteq> None then 1 else 0) + (if e_poll_mode_addr_virt e \<noteq> None then 1 else 0) +
     (if e_cyclic_result e \<noteq> None then 1 else 0)"

lemma held_free:
  "engine_free_resource e w = (e', w') \<Longrightarrow>
     held e' = 0 \<and> mem_balance (ktrace w') = mem_balance (ktrace w) - held e"
  by (auto simp: engine_free_resource_def held_def Let_def split: if_splits)

lemma held_alloc:
  assumes "engine_alloc_resource env mp e w = (rv, e', w')" "held e = 0"
  shows "mem_balance (ktrace w') = mem_balance (ktrace w) + held e' \<and> (rv \<noteq> 0 \<longrightarrow> held e' = 0)"
proof -
  have z: "e_desc e = None" "e_poll_mode_addr_virt e = None" "e_cyclic_result e = None"
    using assms(2) by (auto simp: held_def split: if_splits)
  show ?thesis
    using assms(1) z
    by (auto simp: engine_alloc_resource_def engine_free_resource_def held_def Let_def
        split: option.splits if_splits prod.splits)
qed

lemma held_regs: "engine_init_regs mp d e w = Some (rv, e', w') \<Longrightarrow> held e' = held e"
  by (drule init_regs_fields) (auto simp: held_def)

lemma held_identity:
  "engine_identity off dir ch d w = Some (e, w') \<Longrightarrow> held e = held (engines_of d dir ! ch)"
  by (auto simp: engine_identity_def held_def arr_get_def Let_def split: bind_splits if_splits prod.splits)

lemma held_zero [simp]: "held zero_engine = 0"
  by (simp add: held_def zero_engine_def)

text \<open>
  The engines below \<^verbatim>\<open>i\<close> of a direction may hold memory if they are set up; the others hold none.
\<close>

definition holders :: "xdma_engine list \<Rightarrow> nat \<Rightarrow> bool" where
  "holders es i \<longleftrightarrow> (\<forall>k < length es. held (es ! k) \<noteq> 0 \<longrightarrow> k < i \<and> e_magic (es ! k) = MAGIC_ENGINE)"

definition total_held :: "xdma_dev \<Rightarrow> int" where
  "total_held d = sum_list (map held (d_engine_h2c d)) + sum_list (map held (d_engine_c2h d))"

lemma sum_list_upd:
  "i < length xs \<Longrightarrow> sum_list (map f (xs[i := x])) = sum_list (map f xs) + (f x - f (xs ! i) :: int)"
  by (induction xs arbitrary: i) (auto split: nat.splits)

lemma total_held_set:
  "i < length (engines_of d dir) \<Longrightarrow>
   total_held (set_engines dir ((engines_of d dir)[i := e]) d) =
     total_held d + held e - held (engines_of d dir ! i)"
  by (simp add: total_held_def set_engines_def engines_of_def sum_list_upd split: if_splits)

lemma total_held_fields [simp]:
  "total_held (d\<lparr>d_engines_num := n\<rparr>) = total_held d" "total_held (d\<lparr>d_mask_irq_h2c := m\<rparr>) = total_held d"
  "total_held (d\<lparr>d_mask_irq_c2h := m\<rparr>) = total_held d" "total_held (d\<lparr>d_h2c_channel_max := c\<rparr>) = total_held d"
  "total_held (d\<lparr>d_c2h_channel_max := c\<rparr>) = total_held d"
  by (simp_all add: total_held_def)


text \<open>Steps that allocate exactly what the engines then hold.\<close>

definition settled :: "xdma_dev \<Rightarrow> world \<Rightarrow> xdma_dev \<Rightarrow> world \<Rightarrow> bool" where
  "settled d w d' w' \<longleftrightarrow>
     mem_balance (ktrace w') - total_held d' = mem_balance (ktrace w) - total_held d"

lemma settled_trans: "settled d w d1 w1 \<Longrightarrow> settled d1 w1 d2 w2 \<Longrightarrow> settled d w d2 w2"
  by (simp add: settled_def)

lemma settled_same: "ktrace w' = ktrace w \<Longrightarrow> settled d w d w'"
  by (simp add: settled_def)

lemma held_init:
  assumes "engine_init env mp off dir ch d w = Some (rv, d', w')" "held (engines_of d dir ! ch) = 0"
  shows "\<exists>e. engines_of d' dir = (engines_of d dir)[ch := e] \<and> e_magic e = MAGIC_ENGINE \<and>
    settled d w d' w' \<and> (rv \<noteq> 0 \<longrightarrow> held e = 0)"
proof -
  obtain e0 w0 where i: "engine_identity off dir ch d w = Some (e0, w0)"
    using assms(1) by (auto simp: engine_init_def split: bind_splits)
  obtain rv1 e1 w1 where a: "engine_alloc_resource env mp e0 w0 = (rv1, e1, w1)"
    by (metis prod_cases3)
  have h0: "held e0 = 0" using held_identity[OF i] assms(2) by simp
  note h1 = held_alloc[OF a h0]
  have m0: "e_magic e0 = MAGIC_ENGINE" "ch < length (engines_of d dir)" "ktrace w0 = ktrace w"
    using engine_identity_fields[OF i] by simp_all
  have m1: "e_magic e1 = MAGIC_ENGINE" using alloc_resource_fields[OF a] m0(1) by (simp add: resourced_def)
  let ?d = "(if dir = DMA_TO_DEVICE then d\<lparr>d_mask_irq_h2c := d_mask_irq_h2c d OR e_irq_bitmask e0\<rparr>
              else d\<lparr>d_mask_irq_c2h := d_mask_irq_c2h d OR e_irq_bitmask e0\<rparr>)\<lparr>d_engines_num := d_engines_num d + 1\<rparr>"
  have dd: "engines_of ?d dir = engines_of d dir" "total_held ?d = total_held d"
    by (simp_all add: engines_of_def)
  have main: "\<exists>e w2. held e = held e1 \<and> e_magic e = MAGIC_ENGINE \<and> ktrace w2 = ktrace w1 \<and> w' = w2 \<and>
      d' = set_engines dir ((engines_of ?d dir)[ch := e]) ?d \<and> (rv \<noteq> 0 \<longrightarrow> held e = 0)"
  proof (cases "rv1 = 0")
    case False
    then show ?thesis using assms(1) i a h1 m1 by (auto simp: engine_init_def Let_def)
  next
    case True
    then obtain rv2 e2 w2 where r: "engine_init_regs mp ?d e1 w1 = Some (rv2, e2, w2)"
      "d' = set_engines dir ((engines_of ?d dir)[ch := e2]) ?d" "w' = w2" "rv = rv2"
      using assms(1) i a by (auto simp: engine_init_def Let_def split: bind_splits if_splits)
    have "e_magic e2 = MAGIC_ENGINE" "rv2 = 0" "ktrace w2 = ktrace w1"
      using init_regs_fields[OF r(1)] m1 by auto
    then show ?thesis using r held_regs[OF r(1)] by auto
  qed
  then obtain e where e: "held e = held e1" "e_magic e = MAGIC_ENGINE" "ktrace w' = ktrace w1"
    "d' = set_engines dir ((engines_of ?d dir)[ch := e]) ?d" "rv \<noteq> 0 \<longrightarrow> held e = 0" by auto
  have "total_held d' = total_held d + held e"
    unfolding e(4) using total_held_set[of ch ?d dir e] m0(2) assms(2) dd by simp
  then show ?thesis
    using e h1 m0(3) dd(1) by (intro exI[of _ e]) (simp add: settled_def)
qed

lemma holders_update:
  "holders es i \<Longrightarrow> i \<le> j \<Longrightarrow> held e \<noteq> 0 \<longrightarrow> k < j \<and> e_magic e = MAGIC_ENGINE \<Longrightarrow> holders (es[k := e]) j"
  unfolding holders_def
proof (intro allI impI)
  fix ka assume h: "\<forall>k < length es. held (es ! k) \<noteq> 0 \<longrightarrow> k < i \<and> e_magic (es ! k) = MAGIC_ENGINE" "i \<le> j"
    "held e \<noteq> 0 \<longrightarrow> k < j \<and> e_magic e = MAGIC_ENGINE" "ka < length (es[k := e])" "held (es[k := e] ! ka) \<noteq> 0"
  then show "ka < j \<and> e_magic (es[k := e] ! ka) = MAGIC_ENGINE" by (cases "ka = k") auto
qed

lemma holders_free: "holders es i \<Longrightarrow> i \<le> k \<Longrightarrow> k < length es \<Longrightarrow> held (es ! k) = 0"
  unfolding holders_def by auto

lemma probe_loop_held:
  "probe_loop env mp dir n i d w = Some (j, d', w') \<Longrightarrow> holders (engines_of d dir) i \<Longrightarrow>
   settled d w d' w' \<and> holders (engines_of d' dir) j \<and>
   (\<forall>dir'. (dir' = DMA_TO_DEVICE) \<noteq> (dir = DMA_TO_DEVICE) \<longrightarrow> engines_of d' dir' = engines_of d dir') \<and>
   d_h2c_channel_max d' = d_h2c_channel_max d \<and> d_c2h_channel_max d' = d_c2h_channel_max d \<and>
   d_bar d' = d_bar d \<and> d_got_regions d' = d_got_regions d \<and> adds is_mem_ev w w'"
proof (induction n arbitrary: i d w)
  case 0
  then show ?case by (auto simp: settled_same adds_same)
next
  case (Suc n)
  obtain rv d1 w1 where p: "probe_for_engine env mp dir i d w = Some (rv, d1, w1)"
    using Suc.prems(1) by (auto split: bind_splits)
  from probe_for_result[OF p] show ?case
  proof (elim disjE exE conjE)
    assume "rv \<noteq> 0" "d1 = d" "ktrace w1 = ktrace w"
    then show ?thesis using Suc.prems p by (auto simp: settled_same adds_same)
  next
    fix off w0 assume w0: "ktrace w0 = ktrace w" and e: "engine_init env mp off dir i d w0 = Some (rv, d1, w1)"
    have len: "i < length (engines_of d dir)" using engine_init_result[OF e] by auto
    obtain x where x: "engines_of d1 dir = (engines_of d dir)[i := x]" "e_magic x = MAGIC_ENGINE"
      "settled d w0 d1 w1" "rv \<noteq> 0 \<longrightarrow> held x = 0"
      using held_init[OF e holders_free[OF Suc.prems(2) order.refl len]] by auto
    have s: "settled d w d1 w1" using x(3) w0 by (simp add: settled_def)
    have o: "\<forall>dir'. (dir' = DMA_TO_DEVICE) \<noteq> (dir = DMA_TO_DEVICE) \<longrightarrow> engines_of d1 dir' = engines_of d dir'"
      "d_h2c_channel_max d1 = d_h2c_channel_max d" "d_c2h_channel_max d1 = d_c2h_channel_max d"
      "d_bar d1 = d_bar d" "d_got_regions d1 = d_got_regions d"
      using engine_init_result[OF e] by auto
    have ad: "adds is_mem_ev w w1" using engine_init_result[OF e] adds_trans[OF adds_same[OF w0]] by blast
    show ?thesis
    proof (cases "rv = 0")
      case True
      have "holders (engines_of d1 dir) (Suc i)"
        unfolding x(1) by (rule holders_update[OF Suc.prems(2)]) (use x(2) in auto)
      moreover have "probe_loop env mp dir n (Suc i) d1 w1 = Some (j, d', w')"
        using Suc.prems(1) p True by simp
      ultimately show ?thesis using Suc.IH[of "Suc i" d1 w1] settled_trans[OF s] adds_trans[OF ad] o by auto
    next
      case False
      have "holders (engines_of d1 dir) i"
        unfolding x(1) by (rule holders_update[OF Suc.prems(2)]) (use x(4) False in auto)
      then show ?thesis using Suc.prems(1) p False s o ad by auto
    qed
  qed
qed

lemma probe_engines_held:
  assumes "probe_engines env mp d w = Some (rv, d', w')"
    and "holders (d_engine_h2c d) 0" "holders (d_engine_c2h d) 0"
  shows "settled d w d' w' \<and> holders (d_engine_h2c d') (nat (d_h2c_channel_max d')) \<and>
    holders (d_engine_c2h d') (nat (d_c2h_channel_max d')) \<and> d_bar d' = d_bar d \<and>
    d_got_regions d' = d_got_regions d \<and> adds is_mem_ev w w'"
proof -
  obtain i d1 w1 j d2 where l: "probe_loop env mp DMA_TO_DEVICE (nat (d_h2c_channel_max d)) 0 d w = Some (i, d1, w1)"
    "probe_loop env mp DMA_FROM_DEVICE (nat (d_c2h_channel_max (d1\<lparr>d_h2c_channel_max := int i\<rparr>))) 0
       (d1\<lparr>d_h2c_channel_max := int i\<rparr>) w1 = Some (j, d2, w')"
    "d' = d2\<lparr>d_c2h_channel_max := int j\<rparr>"
    using assms(1) by (auto simp: probe_engines_def split: bind_splits)
  have a: "settled d w d1 w1" "holders (d_engine_h2c d1) i" "d_engine_c2h d1 = d_engine_c2h d"
    "d_bar d1 = d_bar d" "d_got_regions d1 = d_got_regions d" "adds is_mem_ev w w1"
    using probe_loop_held[OF l(1)] assms(2) by (auto simp: engines_of_def)
  have b: "settled (d1\<lparr>d_h2c_channel_max := int i\<rparr>) w1 d2 w'" "holders (d_engine_c2h d2) j"
    "d_engine_h2c d2 = d_engine_h2c d1" "d_h2c_channel_max d2 = int i"
    "d_bar d2 = d_bar d1" "d_got_regions d2 = d_got_regions d1" "adds is_mem_ev w1 w'"
    using probe_loop_held[OF l(2)] assms(3) a(3) by (auto simp: engines_of_def)
  have "settled d w d' w'"
    using a(1) b(1) unfolding l(3) settled_def total_held_fields by simp
  then show ?thesis using a b adds_trans[OF a(6) b(7)] by (simp add: l(3))
qed

section \<open>Removing the engines\<close>

text \<open>What removing the engines of a direction leaves.\<close>

definition removed :: "xdma_engine list \<Rightarrow> nat \<Rightarrow> nat \<Rightarrow> xdma_engine list" where
  "removed es i n = map_range i n (\<lambda>_ e. if e_magic e = MAGIC_ENGINE then zero_engine else e) es"

lemma destroy_result:
  assumes "engine_destroy mp dir i d w = Some (d', w')"
  shows "engines_of d' dir = (engines_of d dir)[i := zero_engine] \<and> settled d w d' w' \<and> adds is_mem_ev w w' \<and>
    (\<exists>es n. d' = (set_engines dir es d)\<lparr>d_engines_num := n\<rparr>)"
proof -
  obtain e w1 e2 w2 where s: "arr_get (int i) (engines_of d dir) = Some e"
    "credit_mode mp d e SC_credit_mode_enable_w1c (write_register 0x0 (ereg e ER_interrupt_enable_mask) w) = Some w1"
    "engine_free_resource e w1 = (e2, w')"
    "d' = (set_engines dir ((engines_of d dir)[i := zero_engine]) d)\<lparr>d_engines_num := d_engines_num d - 1\<rparr>"
    using assms by (auto simp: engine_destroy_def Let_def case_prod_beta prod_eq_iff split: bind_splits)
  have i: "i < length (engines_of d dir)" "e = engines_of d dir ! i"
    using s(1) by (auto simp: arr_get_def split: if_splits)
  have k: "ktrace w1 = ktrace w" using credit_mode_frame[OF s(2)] by simp
  have "settled d w d' w'"
    using held_free[OF s(3)] k total_held_set[OF i(1), of zero_engine] unfolding s(4) settled_def i(2) total_held_fields
    by simp
  moreover have "adds is_mem_ev w w'" using adds_same[OF k] free_resource_adds[OF s(3)] by (rule adds_trans)
  ultimately show ?thesis unfolding s(4) by (auto simp: engines_of_def set_engines_def)
qed

definition engine_frame :: "xdma_dev \<Rightarrow> xdma_dev \<Rightarrow> bool" where
  "engine_frame d d' \<longleftrightarrow> (\<exists>es fs n. d' = d\<lparr>d_engine_h2c := es, d_engine_c2h := fs, d_engines_num := n\<rparr>)"

lemma engine_frame_trans: "engine_frame d d1 \<Longrightarrow> engine_frame d1 d2 \<Longrightarrow> engine_frame d d2"
proof -
  assume "engine_frame d d1" "engine_frame d1 d2"
  then obtain es fs n es' fs' n' where
    "d1 = d\<lparr>d_engine_h2c := es, d_engine_c2h := fs, d_engines_num := n\<rparr>"
    "d2 = d1\<lparr>d_engine_h2c := es', d_engine_c2h := fs', d_engines_num := n'\<rparr>"
    unfolding engine_frame_def by blast
  then have "d2 = d\<lparr>d_engine_h2c := es', d_engine_c2h := fs', d_engines_num := n'\<rparr>" by simp
  then show "engine_frame d d2" unfolding engine_frame_def by blast
qed

lemma engine_frame_intros:
  "engine_frame d d" "engine_frame d (set_engines dir es d\<lparr>d_engines_num := n\<rparr>)"
proof -
  have "d = d\<lparr>d_engine_h2c := d_engine_h2c d, d_engine_c2h := d_engine_c2h d, d_engines_num := d_engines_num d\<rparr>"
    by simp
  then show "engine_frame d d" unfolding engine_frame_def by blast
  have "(set_engines dir es d)\<lparr>d_engines_num := n\<rparr> =
      d\<lparr>d_engine_h2c := (if dir = DMA_TO_DEVICE then es else d_engine_h2c d),
        d_engine_c2h := (if dir = DMA_TO_DEVICE then d_engine_c2h d else es), d_engines_num := n\<rparr>"
    by (simp add: set_engines_def)
  then show "engine_frame d ((set_engines dir es d)\<lparr>d_engines_num := n\<rparr>)" unfolding engine_frame_def by blast
qed

lemma remove_loop_result:
  "remove_loop mp dir n i d w = Some (d', w') \<Longrightarrow>
   i + n \<le> max i (length (engines_of d dir)) \<and> engines_of d' dir = removed (engines_of d dir) i n \<and>
   (\<forall>dir'. (dir' = DMA_TO_DEVICE) \<noteq> (dir = DMA_TO_DEVICE) \<longrightarrow> engines_of d' dir' = engines_of d dir') \<and>
   settled d w d' w' \<and> adds is_mem_ev w w' \<and> engine_frame d d'"
proof (induction n arbitrary: i d w)
  case 0
  then show ?case by (simp add: removed_def settled_same adds_same engine_frame_intros)
next
  case (Suc n)
  let ?e = "engines_of d dir ! i"
  have i: "i < length (engines_of d dir)" and g: "arr_get (int i) (engines_of d dir) = Some ?e"
    using Suc.prems by (auto simp: arr_get_def split: bind_splits if_splits)
  show ?case
  proof (cases "e_magic ?e = MAGIC_ENGINE")
    case False
    then have r: "remove_loop mp dir n (Suc i) d w = Some (d', w')" using Suc.prems g by simp
    show ?thesis
      using Suc.IH[OF r] i False by (auto simp: removed_def map_range_Suc[OF i])
  next
    case True
    then obtain d1 w1 where s: "engine_destroy mp dir i d w = Some (d1, w1)"
      "remove_loop mp dir n (Suc i) d1 w1 = Some (d', w')"
      using Suc.prems g by (auto split: bind_splits)
    obtain es m where f: "d1 = (set_engines dir es d)\<lparr>d_engines_num := m\<rparr>" using destroy_result[OF s(1)] by blast
    have e1: "engines_of d1 dir = (engines_of d dir)[i := zero_engine]" "settled d w d1 w1" "adds is_mem_ev w w1"
      using destroy_result[OF s(1)] by blast+
    have o: "(dir' = DMA_TO_DEVICE) \<noteq> (dir = DMA_TO_DEVICE) \<Longrightarrow> engines_of d1 dir' = engines_of d dir'" for dir'
      unfolding f by (auto simp: engines_of_def set_engines_def)
    note IH = Suc.IH[OF s(2)]
    have "removed (engines_of d1 dir) (Suc i) n = removed (engines_of d dir) i (Suc n)"
      unfolding removed_def map_range_Suc[OF i] e1(1) using True by simp
    moreover have "engine_frame d d'"
      using engine_frame_trans[OF engine_frame_intros(2)[where d = d and dir = dir and es = es and n = m, folded f]] IH by blast
    moreover have "settled d w d' w'" using settled_trans[OF e1(2)] IH by blast
    moreover have "adds is_mem_ev w w'" using adds_trans[OF e1(3)] IH by blast
    ultimately show ?thesis using IH o i by (simp add: e1(1))
  qed
qed

lemma all_zero: "\<forall>x \<in> set xs. f x = 0 \<Longrightarrow> sum_list (map f xs) = (0 :: int)"
  by (induction xs) auto

lemma removed_holders: "holders es n \<Longrightarrow> n \<le> length es \<Longrightarrow> holders (removed es 0 n) 0"
  unfolding holders_def
proof (intro allI impI)
  fix k assume h: "\<forall>k < length es. held (es ! k) \<noteq> 0 \<longrightarrow> k < n \<and> e_magic (es ! k) = MAGIC_ENGINE" "n \<le> length es"
    "k < length (removed es 0 n)" "held (removed es 0 n ! k) \<noteq> 0"
  then have k: "k < length es" by (simp add: removed_def)
  show "k < 0 \<and> e_magic (removed es 0 n ! k) = MAGIC_ENGINE"
    using h k by (cases "e_magic (es ! k) = MAGIC_ENGINE") (auto simp: removed_def map_range_nth[OF k] split: if_splits)
qed

lemma holders_weaken: "holders es i \<Longrightarrow> i \<le> j \<Longrightarrow> holders es j"
  by (auto simp: holders_def)

definition engineless :: "xdma_dev \<Rightarrow> bool" where
  "engineless d \<longleftrightarrow> holders (d_engine_h2c d) 0 \<and> holders (d_engine_c2h d) 0"

lemma engineless_total:
  assumes "engineless d"
  shows "total_held d = 0"
proof -
  have "sum_list (map held es) = 0" if "holders es 0" for es
    by (rule all_zero) (use that in \<open>auto simp: holders_def in_set_conv_nth\<close>)
  then show ?thesis using assms by (simp add: engineless_def total_held_def)
qed

lemma remove_engines_result:
  assumes "remove_engines mp d w = Some (d', w')"
    and "holders (d_engine_h2c d) (nat (d_h2c_channel_max d))" "holders (d_engine_c2h d) (nat (d_c2h_channel_max d))"
  shows "settled d w d' w' \<and> adds is_mem_ev w w' \<and> engine_frame d d' \<and> engineless d'"
proof -
  obtain d1 w1 where l: "remove_loop mp DMA_TO_DEVICE (nat (d_h2c_channel_max d)) 0 d w = Some (d1, w1)"
    "remove_loop mp DMA_FROM_DEVICE (nat (d_c2h_channel_max d1)) 0 d1 w1 = Some (d', w')"
    using assms(1) by (auto simp: remove_engines_def split: bind_splits)
  note a = remove_loop_result[OF l(1)] and b = remove_loop_result[OF l(2)]
  have c: "d_c2h_channel_max d1 = d_c2h_channel_max d" using a by (auto simp: engine_frame_def)
  have "d_engine_h2c d' = removed (d_engine_h2c d) 0 (nat (d_h2c_channel_max d))"
    "d_engine_c2h d' = removed (d_engine_c2h d) 0 (nat (d_c2h_channel_max d))"
    "nat (d_h2c_channel_max d) \<le> length (d_engine_h2c d)" "nat (d_c2h_channel_max d) \<le> length (d_engine_c2h d)"
    using a b c by (auto simp: engines_of_def)
  then have "engineless d'" using removed_holders assms(2,3) by (simp add: engineless_def)
  moreover have "settled d w d' w'" by (rule settled_trans) (use a b in blast)+
  moreover have "adds is_mem_ev w w'" by (rule adds_trans) (use a b in blast)+
  moreover have "engine_frame d d'" by (rule engine_frame_trans) (use a b in blast)+
  ultimately show ?thesis by blast
qed

lemma adds_remove_engines: "remove_engines mp d w = Some (d', w') \<Longrightarrow> adds is_mem_ev w w' \<and> engine_frame d d'"
  unfolding remove_engines_def
  by (auto split: bind_splits dest!: remove_loop_result intro: adds_trans engine_frame_trans)

section \<open>Off line, then closed\<close>

fun is_bar_ev :: "kevent \<Rightarrow> bool" where
  "is_bar_ev (BarMapped i) = True"
| "is_bar_ev (BarUnmapped i) = True"
| "is_bar_ev _ = False"

lemma adds_unmap_loop: "unmap_bars_loop n i d w = Some (d', w') \<Longrightarrow> adds is_bar_ev w w' \<and> (\<exists>b. d' = d\<lparr>d_bar := b\<rparr>)"
proof (induction n arbitrary: i d w)
  case 0
  then show ?case by (auto simp: adds_same intro: exI[of _ "d_bar d"])
next
  case (Suc n)
  obtain b where b: "arr_get (int i) (d_bar d) = Some b" using Suc.prems by (auto split: bind_splits)
  show ?case
  proof (cases "b = None")
    case True
    then show ?thesis using Suc.prems Suc.IH[of "Suc i" d w] b by simp
  next
    case False
    let ?d = "d\<lparr>d_bar := (d_bar d)[i := None]\<rparr>"
    have "unmap_bars_loop n (Suc i) ?d (kcall (BarUnmapped i) w) = Some (d', w')" using Suc.prems b False by simp
    from Suc.IH[OF this] obtain c where "adds is_bar_ev (kcall (BarUnmapped i) w) w'" "d' = ?d\<lparr>d_bar := c\<rparr>" by blast
    moreover have "adds is_bar_ev w (kcall (BarUnmapped i) w)" by (rule adds_kcall) simp
    ultimately show ?thesis using adds_trans by fastforce
  qed
qed

lemma adds_unmap_bars: "unmap_bars d w = Some (d', w') \<Longrightarrow> adds is_bar_ev w w' \<and> (\<exists>b. d' = d\<lparr>d_bar := b\<rparr>)"
  unfolding unmap_bars_def by (rule adds_unmap_loop)

lemma offlined_line [simp]: "e_msix_irq_line (offlined e) = e_msix_irq_line e"
  by (simp add: offlined_def)

lemma offlined_lines:
  "lines_set env d \<Longrightarrow> lines_set env (offlined_dev d)"
  by (simp add: lines_set_def offlined_dev_def map_range_nth)

lemma offlined_dev_lines [simp]:
  "device_lines env (offlined_dev d) v ow = device_lines env d v ow"
  "user_device_lines env (offlined_dev d) v ow = user_device_lines env d v ow"
  by (simp_all add: device_lines_def user_device_lines_def)

lemma stopped_world_trace: "ktrace (stopped_world mp d w) = ktrace w"
  by (simp add: stopped_world_def stop_all_frame)

text \<open>What closing adds to the interrupt lines: exactly what its teardown does.\<close>

lemma close_lines:
  assumes "debug_check_dev_hndl pdev h tab = 0" "d = dt_devs tab h"
    and "xdma_device_close env mp pdev (Some h) tab w = Some (tab', w')"
  shows "\<exists>w1 w2. ktrace w1 = ktrace w \<and> irq_teardown env d w1 = Some w2 \<and>
    irq_balance v ow (ktrace w') = irq_balance v ow (ktrace w2)"
proof -
  obtain w1 w2 d2 w4 d3 w5 where s:
    "quiesce d w = Some w1" "irq_teardown env d w1 = Some w2"
    "remove_engines mp (fst (disable_msi_msix d w2)) (snd (disable_msi_msix d w2)) = Some (d2, w4)" "unmap_bars d2 w4 = Some (d3, w5)"
    "irq_balance v ow (ktrace w') = irq_balance v ow (ktrace w5)"
    using assms(3) unfolding xdma_device_close_def quiesce_def
    by (auto simp: assms(1,2) Let_def case_prod_unfold split: bind_splits if_splits)
  let ?w3 = "snd (disable_msi_msix d w2)"
  have "irq_balance v ow (ktrace ?w3) = irq_balance v ow (ktrace w2)"
    by (auto simp: disable_msi_msix_def split: if_splits)
  moreover have "irq_balance v ow (ktrace w4) = irq_balance v ow (ktrace ?w3)"
    by (rule lines.count_adds[of is_mem_ev]) (use adds_remove_engines[OF s(3)] in \<open>auto elim: is_mem_ev.elims\<close>)
  moreover have "irq_balance v ow (ktrace w5) = irq_balance v ow (ktrace w4)"
    by (rule lines.count_adds[of is_bar_ev]) (use adds_unmap_bars[OF s(4)] in \<open>auto elim: is_bar_ev.elims\<close>)
  ultimately show ?thesis using s quiesce_frame[OF s(1)] by auto
qed

text \<open>C29: A device that is taken off line and then closed releases every interrupt line
  twice: what it still holds of a line drops by two for each request its set up made.\<close>

theorem offline_close_releases_twice:
  assumes "device_full (dt_devs tab h)" "\<not> d_lock (dt_devs tab h)" "d_msix_enabled (dt_devs tab h)"
    and "lines_set env (dt_devs tab h)" "config_bar (dt_devs tab h) = Some b" "\<And>j. irq_vector env j \<noteq> 0"
    and "debug_check_dev_hndl pdev h tab = 0"
    and "xdma_device_offline env mp pdev (Some h) tab w = Some (tab1, w1)"
    and "xdma_device_close env mp pdev (Some h) tab1 w1 = Some (tab2, w2)"
  shows "irq_balance v ow (ktrace w2) = irq_balance v ow (ktrace w) -
    2 * (device_lines env (dt_devs tab h) v ow + user_device_lines env (dt_devs tab h) v ow)"
proof -
  let ?d = "dt_devs tab h"
  obtain d' where o: "device_offline env mp ?d w = Some (d', w1)" "tab1 = upd_dev h (\<lambda>_. d') tab"
    using assms(7,8) by (auto simp: xdma_device_offline_def split: bind_splits)
  obtain wq where q: "quiesce (offlined_dev ?d) (stopped_world mp ?d w) = Some wq"
    "irq_teardown env (offlined_dev ?d) wq = Some w1" and d': "d' = offlined_dev ?d"
    using o(1) unfolding device_offline_eq[OF assms(1,2)] by (auto split: bind_splits)
  have t: "ktrace wq = ktrace w" using quiesce_frame[OF q(1)] stopped_world_trace by simp
  have td: "irq_balance v ow (ktrace w'') = irq_balance v ow (ktrace u) -
      device_lines env ?d v ow - user_device_lines env ?d v ow"
    if "irq_teardown env (offlined_dev ?d) u = Some w''" for u w''
    using teardown_result[of "offlined_dev ?d" env b u] assms(3-6) offlined_lines that by auto
  have "d_pdev (dt_devs tab1 g) = d_pdev (dt_devs tab g)" for g
    unfolding o(2) d' by (cases "g = h") simp_all
  then have "xdev_find_by_pdev p tab1 = xdev_find_by_pdev p tab" for p
    by (simp add: xdev_find_by_pdev_def) (simp add: o(2))
  then have "debug_check_dev_hndl pdev h tab1 = debug_check_dev_hndl pdev h tab"
    by (simp add: debug_check_dev_hndl_def split: option.split)
  then have "debug_check_dev_hndl pdev h tab1 = 0" "offlined_dev ?d = dt_devs tab1 h"
    using assms(7) by (simp_all add: o(2) d')
  from close_lines[OF this assms(9), of v ow] obtain u1 u2 where u: "ktrace u1 = ktrace w1"
    "irq_teardown env (offlined_dev ?d) u1 = Some u2" "irq_balance v ow (ktrace w2) = irq_balance v ow (ktrace u2)"
    by blast
  show ?thesis using td[OF q(2)] td[OF u(2)] t u by simp
qed

definition sample_lined_dev :: xdma_dev where
  "sample_lined_dev = sample_irq_dev\<lparr>d_engine_h2c := [sample_engine\<lparr>e_msix_irq_line := 40\<rparr>]\<rparr>"

definition sample_tab :: devtab where
  "sample_tab = \<lparr>dt_devs = (\<lambda>_. sample_lined_dev), dt_list = [5], dt_rcu = [5]\<rparr>"

lemma sample_lined:
  "device_full sample_lined_dev" "\<not> d_lock sample_lined_dev" "d_msix_enabled sample_lined_dev"
  "lines_set sample_pci sample_lined_dev" "config_bar sample_lined_dev = Some 0x10000"
  "debug_check_dev_hndl (Some 7) 5 sample_tab = 0"
  by (simp_all add: device_full_def sample_lined_dev_def sample_irq_dev_def sample_dev_def lines_set_def sample_pci_def
      config_bar_def arr_get_def debug_check_dev_hndl_def xdev_find_by_pdev_def sample_tab_def)

lemma sample_vector: "irq_vector sample_pci j \<noteq> 0"
  by (simp add: sample_pci_def)

lemma sample_lined_teardown: "\<exists>w'. irq_teardown sample_pci (offlined_dev sample_lined_dev) w = Some w'"
proof -
  have "d_msix_enabled (offlined_dev sample_lined_dev)" "lines_set sample_pci (offlined_dev sample_lined_dev)"
    "config_bar (offlined_dev sample_lined_dev) = Some 0x10000"
    using sample_lined offlined_lines by simp_all
  from teardown_result[OF this sample_vector] show ?thesis by blast
qed

lemma sample_lined_offline:
  "\<exists>w1. xdma_device_offline sample_pci default_modparams (Some 7) (Some 5) sample_tab sample_world =
     Some (upd_dev 5 (\<lambda>_. offlined_dev sample_lined_dev) sample_tab, w1)"
proof -
  have c: "config_bar (offlined_dev sample_lined_dev) = Some 0x10000" by (simp add: sample_lined)
  obtain w where "quiesce (offlined_dev sample_lined_dev) (stopped_world default_modparams sample_lined_dev sample_world) = Some w"
    using quiesce_defined[OF c] by blast
  moreover obtain w1 where "irq_teardown sample_pci (offlined_dev sample_lined_dev) w = Some w1"
    using sample_lined_teardown by blast
  ultimately show ?thesis
    using sample_lined(1,2,6)
    by (simp add: xdma_device_offline_def sample_tab_def device_offline_eq)
qed

lemma sample_remove:
  "\<exists>d' w'. remove_engines default_modparams (offlined_dev sample_lined_dev\<lparr>d_msix_enabled := False\<rparr>) w = Some (d', w')"
  by (simp add: remove_engines_def sample_lined_dev_def sample_irq_dev_def sample_dev_def offlined_dev_def
      engines_of_def map_range_def arr_get_def engine_destroy_def credit_mode_def offlined_def sample_engine_def
      case_prod_beta Let_def default_modparams_def set_engines_def)

theorem offline_close_releases_twice_witness:
  "\<exists>tab1 w1 tab2 w2. xdma_device_offline sample_pci default_modparams (Some 7) (Some 5) sample_tab sample_world = Some (tab1, w1) \<and>
     xdma_device_close sample_pci default_modparams (Some 7) (Some 5) tab1 w1 = Some (tab2, w2) \<and>
     irq_balance 40 (OwnEngine DMA_TO_DEVICE 0) (ktrace w2) = - 2"
proof -
  let ?d = "offlined_dev sample_lined_dev" and ?t = "upd_dev 5 (\<lambda>_. offlined_dev sample_lined_dev) sample_tab"
  obtain w1 where o: "xdma_device_offline sample_pci default_modparams (Some 7) (Some 5) sample_tab sample_world = Some (?t, w1)"
    using sample_lined_offline by blast
  have c: "config_bar ?d = Some 0x10000" by (simp add: sample_lined)
  have h: "debug_check_dev_hndl (Some 7) 5 ?t = 0"
    by (simp add: debug_check_dev_hndl_def xdev_find_by_pdev_def sample_tab_def sample_lined_dev_def sample_irq_dev_def
        sample_dev_def)
  obtain u where u: "quiesce ?d w1 = Some u" using quiesce_defined[OF c] by blast
  obtain w2 where t: "irq_teardown sample_pci ?d u = Some w2"
    using sample_lined_teardown by blast
  have m: "disable_msi_msix ?d w2 = (?d\<lparr>d_msix_enabled := False\<rparr>, kcall MsixDisabled w2)"
    by (simp add: disable_msi_msix_def sample_lined)
  obtain d3 w3 where r: "remove_engines default_modparams (?d\<lparr>d_msix_enabled := False\<rparr>) (kcall MsixDisabled w2) = Some (d3, w3)"
    using sample_remove by blast
  have "length (d_bar ?d) = 6"
    by (simp add: sample_lined_dev_def sample_irq_dev_def sample_dev_def offlined_dev_def)
  moreover have "d_bar d3 = d_bar ?d" using adds_remove_engines[OF r] by (auto simp: engine_frame_def)
  ultimately have "bars_ok (\<lambda>i. bar_balance i (ktrace w3) - (if d_bar d3 ! i \<noteq> None then 1 else 0)) d3 w3"
    by (simp add: bars_ok_def)
  from unmap_bars_ok[OF this] obtain d4 w4 where b: "unmap_bars d3 w3 = Some (d4, w4)" by blast
  have "\<exists>tab2 w5. xdma_device_close sample_pci default_modparams (Some 7) (Some 5) ?t w1 = Some (tab2, w5)"
    using u t m r b h unfolding quiesce_def xdma_device_close_def
    by (auto simp: Let_def case_prod_unfold split: bind_splits)
  then obtain tab2 w5 where k: "xdma_device_close sample_pci default_modparams (Some 7) (Some 5) ?t w1 = Some (tab2, w5)"
    by blast
  have s: "dt_devs sample_tab 5 = sample_lined_dev" by (simp add: sample_tab_def)
  have "irq_balance 40 (OwnEngine DMA_TO_DEVICE 0) (ktrace w5) = - 2"
    using offline_close_releases_twice[of sample_tab 5 sample_pci "0x10000" "Some 7" default_modparams sample_world ?t w1 tab2 w5
        "40" "OwnEngine DMA_TO_DEVICE 0", unfolded s, OF sample_lined(1-5) sample_vector sample_lined(6) o k]
    by (simp add: device_lines_def user_device_lines_def sample_lined_dev_def sample_irq_dev_def sample_dev_def sample_pci_def
        sample_world_def numeral_2_eq_2)
  then show ?thesis using o k by blast
qed

section \<open>A failed open\<close>

text \<open>How many times the PCI regions have been requested and not released.\<close>

fun region_balance :: "kevent list \<Rightarrow> int" where
  "region_balance [] = 0"
| "region_balance (e # es) =
     (if e = RegionsRequested then 1 else if e = RegionsReleased then - 1 else 0) + region_balance es"

interpretation regions: event_count region_balance
  by unfold_locales auto

text \<open>Events that none of the three accounts counts.\<close>

fun is_plain_ev :: "kevent \<Rightarrow> bool" where
  "is_plain_ev e = (case e of
     BarMapped i \<Rightarrow> False | BarUnmapped i \<Rightarrow> False | RegionsRequested \<Rightarrow> False | RegionsReleased \<Rightarrow> False
   | AllocDescs \<Rightarrow> False | AllocWriteback \<Rightarrow> False | AllocCyclicResult \<Rightarrow> False
   | FreeDescs \<Rightarrow> False | FreeWriteback \<Rightarrow> False | FreeCyclicResult \<Rightarrow> False | _ \<Rightarrow> True)"

definition same_accounts :: "world \<Rightarrow> world \<Rightarrow> bool" where
  "same_accounts w w' \<longleftrightarrow> (\<forall>i. bar_balance i (ktrace w') = bar_balance i (ktrace w)) \<and>
     mem_balance (ktrace w') = mem_balance (ktrace w) \<and> region_balance (ktrace w') = region_balance (ktrace w)"

lemma same_accounts_refl: "same_accounts w w"
  by (simp add: same_accounts_def)

lemma same_accounts_trans: "same_accounts w w1 \<Longrightarrow> same_accounts w1 w2 \<Longrightarrow> same_accounts w w2"
  by (simp add: same_accounts_def)

lemma same_accounts_trace: "ktrace w' = ktrace w \<Longrightarrow> same_accounts w w'"
  by (simp add: same_accounts_def)

lemma plain_counts: "is_plain_ev e \<Longrightarrow> bar_balance i [e] = 0 \<and> mem_balance [e] = 0 \<and> region_balance [e] = 0"
  by (cases e) auto

lemma same_accounts_plain: "is_plain_ev e \<Longrightarrow> same_accounts w (kcall e w)"
  using plain_counts[of e] unfolding same_accounts_def bars.count_kcall memory.count_kcall regions.count_kcall by simp

lemma same_accounts_adds: "adds is_plain_ev w w' \<Longrightarrow> same_accounts w w'"
  unfolding same_accounts_def
  using bars.count_adds[of is_plain_ev] memory.count_adds[of is_plain_ev] regions.count_adds[of is_plain_ev] plain_counts
  by blast

lemma adds_mono: "adds P w w' \<Longrightarrow> (\<And>e. P e \<Longrightarrow> Q e) \<Longrightarrow> adds Q w w'"
  unfolding adds_def by (metis list.pred_mono_strong)

lemma irq_ev_plain: "is_irq_ev e \<Longrightarrow> is_plain_ev e"
  by (cases e) auto

lemma mem_ev_accounts:
  assumes "adds is_mem_ev w w'"
  shows "bar_balance i (ktrace w') = bar_balance i (ktrace w)" "region_balance (ktrace w') = region_balance (ktrace w)"
proof -
  show "bar_balance i (ktrace w') = bar_balance i (ktrace w)"
    by (rule bars.count_adds[OF assms]) (auto elim: is_mem_ev.elims)
  show "region_balance (ktrace w') = region_balance (ktrace w)"
    by (rule regions.count_adds[OF assms]) (auto elim: is_mem_ev.elims)
qed

lemma bar_ev_accounts:
  assumes "adds is_bar_ev w w'"
  shows "mem_balance (ktrace w') = mem_balance (ktrace w)" "region_balance (ktrace w') = region_balance (ktrace w)"
proof -
  show "mem_balance (ktrace w') = mem_balance (ktrace w)"
    by (rule memory.count_adds[OF assms]) (auto elim: is_bar_ev.elims)
  show "region_balance (ktrace w') = region_balance (ktrace w)"
    by (rule regions.count_adds[OF assms]) (auto elim: is_bar_ev.elims)
qed

text \<open>Mapping the BARs.\<close>

lemma adds_map_single:
  "map_single_bar env i d w = Some (rv, d', w') \<Longrightarrow> adds is_bar_ev w w' \<and> (\<exists>b. d' = d\<lparr>d_bar := b\<rparr>)"
  by (auto simp: map_single_bar_def Let_def adds_same split: bind_splits if_splits option.splits intro: adds_kcall)

definition bar_part :: "xdma_dev \<Rightarrow> xdma_dev \<Rightarrow> bool" where
  "bar_part d d' \<longleftrightarrow> (\<exists>b c u y. d' = d\<lparr>d_bar := b, d_config_bar_idx := c, d_user_bar_idx := u, d_bypass_bar_idx := y\<rparr>)"

lemma bar_part_trans: "bar_part d d1 \<Longrightarrow> bar_part d1 d2 \<Longrightarrow> bar_part d d2"
proof -
  assume "bar_part d d1" "bar_part d1 d2"
  then obtain b c u y b' c' u' y' where
    "d1 = d\<lparr>d_bar := b, d_config_bar_idx := c, d_user_bar_idx := u, d_bypass_bar_idx := y\<rparr>"
    "d2 = d1\<lparr>d_bar := b', d_config_bar_idx := c', d_user_bar_idx := u', d_bypass_bar_idx := y'\<rparr>"
    unfolding bar_part_def by blast
  then have "d2 = d\<lparr>d_bar := b', d_config_bar_idx := c', d_user_bar_idx := u', d_bypass_bar_idx := y'\<rparr>" by simp
  then show "bar_part d d2" unfolding bar_part_def by blast
qed

lemma bar_part_intros:
  "bar_part d d" "bar_part d (d\<lparr>d_bar := b\<rparr>)" "bar_part d (d\<lparr>d_config_bar_idx := c\<rparr>)" "bar_part d (identify_bars ids n p d)"
proof -
  have e: "d\<lparr>d_bar := b, d_config_bar_idx := c, d_user_bar_idx := u, d_bypass_bar_idx := y\<rparr> = d' \<Longrightarrow> bar_part d d'"
    for b c u y d' unfolding bar_part_def by blast
  show "bar_part d d"
    by (rule e[where b = "d_bar d" and c = "d_config_bar_idx d" and u = "d_user_bar_idx d" and y = "d_bypass_bar_idx d"]) simp
  show "bar_part d (d\<lparr>d_bar := b\<rparr>)"
    by (rule e[where b = b and c = "d_config_bar_idx d" and u = "d_user_bar_idx d" and y = "d_bypass_bar_idx d"]) simp
  show "bar_part d (d\<lparr>d_config_bar_idx := c\<rparr>)"
    by (rule e[where b = "d_bar d" and c = c and u = "d_user_bar_idx d" and y = "d_bypass_bar_idx d"]) simp
  show "bar_part d (identify_bars ids n p d)"
    by (rule e[where b = "d_bar d" and c = "d_config_bar_idx d" and u = "d_user_bar_idx (identify_bars ids n p d)"
          and y = "d_bypass_bar_idx (identify_bars ids n p d)"]) (simp add: identify_bars_def)
qed

lemma adds_map_loop:
  "map_bars_loop env n i ids pos d w = Some (rv, ids', pos', d', w') \<Longrightarrow> adds is_bar_ev w w' \<and> bar_part d d'"
proof (induction n arbitrary: i ids pos d w)
  case 0
  then show ?case by (simp add: adds_same bar_part_intros)
next
  case (Suc n)
  obtain l d1 w1 where m: "map_single_bar env i d w = Some (l, d1, w1)"
    using Suc.prems by (auto split: bind_splits)
  have a: "adds is_bar_ev w w1" "bar_part d d1" using adds_map_single[OF m] bar_part_intros(2) by auto
  have step: "adds is_bar_ev w w' \<and> bar_part d d'"
    if "map_bars_loop env n (Suc i) x p (d1\<lparr>d_config_bar_idx := c\<rparr>) w2 = Some (rv, ids', pos', d', w')" "ktrace w2 = ktrace w1"
    for x p c and w2 :: world
    using Suc.IH[OF that(1)] a adds_trans adds_same[OF that(2)] bar_part_trans bar_part_intros(3) by blast
  have s: "d1\<lparr>d_config_bar_idx := d_config_bar_idx d1\<rparr> = d1" by simp
  show ?case
  proof (cases "l = 0 \<or> l < 0 \<or> \<not> (int XDMA_BAR_SIZE \<le> l \<and> d_config_bar_idx d1 < 0)")
    case True
    then show ?thesis
      using Suc.prems m a step[of _ _ "d_config_bar_idx d1" w1] unfolding s by (auto split: if_splits)
  next
    case False
    obtain f w2 where c: "is_config_bar i d1 w1 = Some (f, w2)"
      using Suc.prems m False by (auto split: bind_splits)
    note k = is_config_bar_frame(1)[OF c]
    show ?thesis
      using Suc.prems m False c step[OF _ k] step[of _ _ "d_config_bar_idx d1", OF _ k] unfolding s
      by (auto split: if_splits)
  qed
qed

lemma adds_map_bars:
  assumes "map_bars env d w = Some (rv, d', w')"
  shows "adds is_bar_ev w w'" "bar_part d d'"
proof -
  obtain r ids pos d1 w1 where l: "map_bars_loop env XDMA_BAR_NUM 0 [] 0 d w = Some (r, ids, pos, d1, w1)"
    using assms by (auto simp: map_bars_def split: bind_splits)
  note a = adds_map_loop[OF l]
  have u: "unmap_bars d1 w1 = Some (d', w') \<Longrightarrow> adds is_bar_ev w w' \<and> bar_part d d'"
    using adds_unmap_bars adds_trans a bar_part_trans bar_part_intros(2) by blast
  have "adds is_bar_ev w w' \<and> bar_part d d'"
    using assms l a u bar_part_trans[OF _ bar_part_intros(4)]
    by (auto simp: map_bars_def split: bind_splits if_splits)
  then show "adds is_bar_ev w w'" "bar_part d d'" by simp_all
qed

text \<open>The accounts of a device are in order: it holds exactly what the trace has acquired.\<close>

definition accounts_ok :: "(nat \<Rightarrow> int) \<Rightarrow> int \<Rightarrow> int \<Rightarrow> xdma_dev \<Rightarrow> world \<Rightarrow> bool" where
  "accounts_ok base m r d w \<longleftrightarrow> bars_ok base d w \<and> mem_balance (ktrace w) = m + total_held d \<and>
     region_balance (ktrace w) = r + (if d_got_regions d then 1 else 0) \<and>
     holders (d_engine_h2c d) (nat (d_h2c_channel_max d)) \<and> holders (d_engine_c2h d) (nat (d_c2h_channel_max d))"

lemma accounts_same:
  "accounts_ok base m r d w \<Longrightarrow> same_accounts w w' \<Longrightarrow> accounts_ok base m r d w'"
  by (simp add: accounts_ok_def same_accounts_def bars_ok_def)

definition unmapped :: "xdma_dev \<Rightarrow> bool" where
  "unmapped d \<longleftrightarrow> (\<forall>j < 6. d_bar d ! j = None)"

text \<open>What reaching each label of \<^verbatim>\<open>open\<close> guarantees.\<close>

fun label_ok :: "open_label \<Rightarrow> xdma_dev \<Rightarrow> bool" where
  "label_ok err_enable d = (unmapped d \<and> engineless d \<and> \<not> d_got_regions d)"
| "label_ok err_regions d = (unmapped d \<and> engineless d \<and> \<not> d_got_regions d)"
| "label_ok err_map d = (unmapped d \<and> engineless d)"
| "label_ok err_mask d = engineless d"
| "label_ok l d = True"

lemma accounts_unmap:
  assumes "accounts_ok base m r d w" "unmap_bars d w = Some (d', w')"
  shows "accounts_ok base m r d' w' \<and> unmapped d' \<and> d_got_regions d' = d_got_regions d \<and>
    d_regions_in_use d' = d_regions_in_use d \<and> total_held d' = total_held d"
proof -
  note a = assms(1)[unfolded accounts_ok_def]
  obtain d1 w1 where u: "unmap_bars d w = Some (d1, w1)" "bars_ok base d1 w1" "\<forall>j < 6. d_bar d1 ! j = None"
    "d1 = d\<lparr>d_bar := d_bar d1\<rparr>"
    using unmap_bars_ok[of base d w] a by blast
  have e: "d1 = d'" "w1 = w'" using u(1) assms(2) by simp_all
  note k = bar_ev_accounts[OF conjunct1[OF adds_unmap_bars[OF assms(2)]]]
  obtain b where b: "d' = d\<lparr>d_bar := b\<rparr>" using adds_unmap_bars[OF assms(2)] by blast
  show ?thesis
    using a k u(2,3) unfolding e accounts_ok_def unmapped_def by (simp add: b total_held_def)
qed

lemma accounts_remove:
  assumes "accounts_ok base m r d w" "remove_engines mp d w = Some (d', w')"
  shows "accounts_ok base m r d' w' \<and> engineless d' \<and> d_got_regions d' = d_got_regions d \<and>
    d_regions_in_use d' = d_regions_in_use d"
proof -
  note a = assms(1)[unfolded accounts_ok_def]
  have r: "settled d w d' w'" "adds is_mem_ev w w'" "engine_frame d d'" "engineless d'"
    using remove_engines_result[OF assms(2)] a by blast+
  have h: "holders (d_engine_h2c d') n" "holders (d_engine_c2h d') n" for n
    using r(4) by (auto simp: engineless_def intro: holders_weaken)
  obtain es fs n where f: "d' = d\<lparr>d_engine_h2c := es, d_engine_c2h := fs, d_engines_num := n\<rparr>"
    using r(3) unfolding engine_frame_def by blast
  have fd: "d_bar d' = d_bar d" "d_got_regions d' = d_got_regions d" "d_regions_in_use d' = d_regions_in_use d"
    unfolding f by simp_all
  show ?thesis
    using a r(1,4) h mem_ev_accounts[OF r(2)] by (simp add: accounts_ok_def fd bars_ok_def settled_def)
qed

lemma accounts_release:
  assumes "accounts_ok base m r d w" "unmapped d" "engineless d" "i < 6"
  shows "bar_balance i (ktrace w) = base i" "mem_balance (ktrace w) = m"
    "region_balance (ktrace w) = r + (if d_got_regions d then 1 else 0)"
  using assms engineless_total[OF assms(3)] by (simp_all add: accounts_ok_def bars_ok_def unmapped_def)

lemma disable_msi_fields:
  assumes "disable_msi_msix d w = (d', w')"
  shows "same_accounts w w'" "d' = d\<lparr>d_msix_enabled := d_msix_enabled d', d_msi_enabled := d_msi_enabled d'\<rparr>"
  using assms unfolding disable_msi_msix_def
  by (auto split: if_splits intro: same_accounts_plain same_accounts_refl)

lemma accounts_msi:
  assumes "accounts_ok base m r d w" "disable_msi_msix d w = (d', w')"
  shows "accounts_ok base m r d' w' \<and> d_got_regions d' = d_got_regions d \<and> d_regions_in_use d' = d_regions_in_use d"
proof -
  have "accounts_ok base m r d w'" using accounts_same[OF assms(1) disable_msi_fields(1)[OF assms(2)]] .
  moreover have "d_bar d' = d_bar d \<and> d_got_regions d' = d_got_regions d \<and> d_regions_in_use d' = d_regions_in_use d \<and>
      d_engine_h2c d' = d_engine_h2c d \<and> d_engine_c2h d' = d_engine_c2h d \<and>
      d_h2c_channel_max d' = d_h2c_channel_max d \<and> d_c2h_channel_max d' = d_c2h_channel_max d"
    by (subst (1 2 3 4 5 6 7) disable_msi_fields(2)[OF assms(2)]) simp
  ultimately show ?thesis by (simp add: accounts_ok_def bars_ok_def total_held_def)
qed

text \<open>The unwinding releases everything, from whichever label it starts.\<close>

lemma accounts_teardown:
  "accounts_ok base m r d w \<Longrightarrow> irq_teardown env d w = Some w' \<Longrightarrow> accounts_ok base m r d w'"
  by (rule accounts_same, assumption, rule same_accounts_adds, rule adds_mono, erule adds_irq_teardown, erule irq_ev_plain)

lemma unwind_stages:
  assumes "open_unwind env mp l h d tab w = Some (tab', w')"
  shows "\<exists>w1 d2 w2 d3 w3 d4 w4.
    (if at_or_after l err_interrupts then irq_teardown env d w else Some w) = Some w1 \<and>
    (if at_or_after l err_enable_msix then disable_msi_msix d w1 else (d, w1)) = (d2, w2) \<and>
    (if at_or_after l err_engines then remove_engines mp d2 w2 else Some (d2, w2)) = Some (d3, w3) \<and>
    (if at_or_after l err_mask then unmap_bars d3 w3 else Some (d3, w3)) = Some (d4, w4) \<and>
    w' = kcall DeviceFreed (let w = if at_or_after l err_map \<and> d_got_regions d4 then kcall RegionsReleased w4 else w4
        in if at_or_after l err_regions \<and> \<not> d_regions_in_use d4 then kcall DeviceDisabled w else w) \<and>
    tab' = xdev_list_remove h (upd_dev h (\<lambda>_. d4) tab)"
proof -
  obtain w1 where 1: "(if at_or_after l err_interrupts then irq_teardown env d w else Some w) = Some w1"
    using assms unfolding open_unwind_def by (cases "if at_or_after l err_interrupts then irq_teardown env d w else Some w") simp_all
  obtain d2 w2 where 2: "(if at_or_after l err_enable_msix then disable_msi_msix d w1 else (d, w1)) = (d2, w2)"
    by (metis prod.collapse)
  obtain d3 w3 where 3: "(if at_or_after l err_engines then remove_engines mp d2 w2 else Some (d2, w2)) = Some (d3, w3)"
    using assms unfolding open_unwind_def 1 Option.bind.bind_lunit Let_def 2 prod.case
    by (cases "if at_or_after l err_engines then remove_engines mp d2 w2 else Some (d2, w2)") auto
  obtain d4 w4 where 4: "(if at_or_after l err_mask then unmap_bars d3 w3 else Some (d3, w3)) = Some (d4, w4)"
    using assms unfolding open_unwind_def 1 Option.bind.bind_lunit Let_def 2 prod.case 3
    by (cases "if at_or_after l err_mask then unmap_bars d3 w3 else Some (d3, w3)") auto
  have "Some (xdev_list_remove h (upd_dev h (\<lambda>_. d4) tab), kcall DeviceFreed
      (let w = if at_or_after l err_map \<and> d_got_regions d4 then kcall RegionsReleased w4 else w4
        in if at_or_after l err_regions \<and> \<not> d_regions_in_use d4 then kcall DeviceDisabled w else w)) = Some (tab', w')"
    using assms unfolding open_unwind_def 1 Option.bind.bind_lunit Let_def 2 prod.case 3 4 .
  then show ?thesis using 1 2 3 4 by blast
qed

lemma unwind_releases:
  assumes "accounts_ok base m r d w" "label_ok l d"
    and "open_unwind env mp l h d tab w = Some (tab', w')" "i < 6"
  shows "bar_balance i (ktrace w') = base i \<and> mem_balance (ktrace w') = m \<and> region_balance (ktrace w') = r \<and>
    dt_list tab' = remove1 h (dt_list tab) \<and> dt_rcu tab' = remove1 h (dt_rcu tab)"
proof -
  obtain w1 d2 w2 d3 w3 d4 w4 where s:
    "(if at_or_after l err_interrupts then irq_teardown env d w else Some w) = Some w1"
    "(if at_or_after l err_enable_msix then disable_msi_msix d w1 else (d, w1)) = (d2, w2)"
    "(if at_or_after l err_engines then remove_engines mp d2 w2 else Some (d2, w2)) = Some (d3, w3)"
    "(if at_or_after l err_mask then unmap_bars d3 w3 else Some (d3, w3)) = Some (d4, w4)"
    and w': "w' = kcall DeviceFreed (let w = if at_or_after l err_map \<and> d_got_regions d4 then kcall RegionsReleased w4 else w4
        in if at_or_after l err_regions \<and> \<not> d_regions_in_use d4 then kcall DeviceDisabled w else w)"
    and tab': "tab' = xdev_list_remove h (upd_dev h (\<lambda>_. d4) tab)"
    using unwind_stages[OF assms(3)] by blast
  have a1: "accounts_ok base m r d w1"
    using s(1) assms(1) accounts_teardown by (simp split: if_splits)
  have a2: "accounts_ok base m r d2 w2 \<and> d_got_regions d2 = d_got_regions d"
    using s(2) a1 accounts_msi[OF a1] by (simp split: if_splits)
  have a3: "accounts_ok base m r d3 w3 \<and> d_got_regions d3 = d_got_regions d"
    using s(3) a2 accounts_remove[of base m r d2 w2 mp d3 w3] by (simp split: if_splits)
  have e3: "engineless d3"
  proof (cases "at_or_after l err_engines")
    case True
    then show ?thesis using s(3) a2 accounts_remove[of base m r d2 w2 mp d3 w3] by simp
  next
    case False
    then have "d3 = d \<and> engineless d" using s(2,3) assms(2) by (cases l) (simp_all add: at_or_after_def Let_def)
    then show ?thesis by simp
  qed
  have a4: "accounts_ok base m r d4 w4 \<and> d_got_regions d4 = d_got_regions d \<and> d_engine_h2c d4 = d_engine_h2c d3 \<and>
      d_engine_c2h d4 = d_engine_c2h d3 \<and> unmapped d4"
  proof (cases "at_or_after l err_mask")
    case True
    then show ?thesis using s(4) a3 accounts_unmap[of base m r d3 w3 d4 w4] adds_unmap_bars[of d3 w3 d4 w4] by auto
  next
    case False
    then have "d3 = d \<and> d4 = d \<and> w4 = w3 \<and> unmapped d"
      using s(2-4) assms(2) by (cases l) (simp_all add: at_or_after_def Let_def)
    then show ?thesis using a3 by simp
  qed
  have e4: "engineless d4" using e3 a4 by (simp add: engineless_def)
  have g: "\<not> at_or_after l err_map \<Longrightarrow> \<not> d_got_regions d4"
    using assms(2) a4 by (cases l) (simp_all add: at_or_after_def Let_def)
  have t: "ktrace w' = DeviceFreed # (if at_or_after l err_regions \<and> \<not> d_regions_in_use d4 then [DeviceDisabled] else []) @
      (if d_got_regions d4 then [RegionsReleased] else []) @ ktrace w4"
    using g unfolding w' by (simp add: Let_def)
  show ?thesis
    using accounts_release[of base m r d4 w4 i] a4 e4 assms(4) unfolding t tab'
    by (simp add: xdev_list_remove_def Let_def)
qed

text \<open>Attaching and starting keep the accounts in order.\<close>

lemma accounts_part:
  assumes "accounts_ok base m r d w" "same_accounts w w'"
    and "d_bar d' = d_bar d" "d_got_regions d' = d_got_regions d" "d_engine_h2c d' = d_engine_h2c d"
    "d_engine_c2h d' = d_engine_c2h d" "d_h2c_channel_max d' = d_h2c_channel_max d" "d_c2h_channel_max d' = d_c2h_channel_max d"
  shows "accounts_ok base m r d' w'"
  using accounts_same[OF assms(1,2)] assms(3-) by (simp add: accounts_ok_def bars_ok_def total_held_def)

lemma accounts_map:
  assumes "accounts_ok base m r d w" "unmapped d" "d_config_bar_idx d < 0" "map_bars env d w = Some (rv, d', w')"
  shows "accounts_ok base m r d' w'" "d_engine_h2c d' = d_engine_h2c d" "d_engine_c2h d' = d_engine_c2h d"
    "rv \<noteq> 0 \<longrightarrow> unmapped d'"
proof -
  note a = assms(1)[unfolded accounts_ok_def]
  note k = bar_ev_accounts[OF adds_map_bars(1)[OF assms(4)]]
  have b: "bars_ok base d' w' \<and> (rv = 0 \<or> unmapped d')"
    using map_bars_ok[of base d w env] a assms(2-4) by (auto simp: unmapped_def)
  obtain p c u y where f: "d' = d\<lparr>d_bar := p, d_config_bar_idx := c, d_user_bar_idx := u, d_bypass_bar_idx := y\<rparr>"
    using adds_map_bars(2)[OF assms(4)] unfolding bar_part_def by blast
  then show "d_engine_h2c d' = d_engine_h2c d" "d_engine_c2h d' = d_engine_c2h d" by simp_all
  show "accounts_ok base m r d' w'" using a k b by (simp add: accounts_ok_def f total_held_def)
  show "rv \<noteq> 0 \<longrightarrow> unmapped d'" using b by auto
qed

lemma extended_tag_trace: "pci_check_extended_tag env d w = Some w' \<Longrightarrow> ktrace w' = ktrace w"
  by (auto simp: pci_check_extended_tag_def Let_def case_prod_beta split: if_splits bind_splits)

lemma intr_pend_accounts: "same_accounts w (pci_check_intr_pend env w)"
  by (auto simp: pci_check_intr_pend_def Let_def intro: same_accounts_plain same_accounts_refl)

lemma attach_prefix:
  assumes "pci_check_extended_tag env d (kcall RelaxedOrdering (pci_check_intr_pend env (kcall DeviceEnabled w))) = Some w1"
  shows "same_accounts w (kcall BusMaster (kcall (ReadRequestSize 512) w1))"
proof -
  have "same_accounts w (kcall RelaxedOrdering (pci_check_intr_pend env (kcall DeviceEnabled w)))"
    by (intro same_accounts_trans[OF same_accounts_plain same_accounts_trans[OF intr_pend_accounts same_accounts_plain]]) simp_all
  moreover have "same_accounts w1 (kcall BusMaster (kcall (ReadRequestSize 512) w1))"
    by (intro same_accounts_trans[OF same_accounts_plain same_accounts_plain]) simp_all
  ultimately show ?thesis using same_accounts_trace[OF extended_tag_trace[OF assms]] same_accounts_trans by blast
qed

lemma set_dma_accounts: "set_dma_mask env w = (rv, w') \<Longrightarrow> same_accounts w w'"
  by (auto simp: set_dma_mask_def split: if_splits
      intro: same_accounts_refl same_accounts_trans[OF same_accounts_plain same_accounts_plain])

lemma request_regions_cases:
  "request_regions env d w = (rv, d', w') \<Longrightarrow>
   rv \<noteq> 0 \<and> d' = d\<lparr>d_regions_in_use := True\<rparr> \<and> w' = w \<or>
   rv = 0 \<and> d' = d\<lparr>d_got_regions := True\<rparr> \<and> w' = kcall RegionsRequested w"
  unfolding request_regions_def Let_def by (cases "request_regions_rv env (ktrace w) = 0") auto

lemma regions_accounts:
  assumes "accounts_ok base m r d w" "\<not> d_got_regions d" "request_regions env d w = (rv, d', w')"
  shows "accounts_ok base m r d' w'" "rv \<noteq> 0 \<longrightarrow> \<not> d_got_regions d'"
    "d_bar d' = d_bar d" "d_config_bar_idx d' = d_config_bar_idx d" "d_engine_h2c d' = d_engine_h2c d"
    "d_engine_c2h d' = d_engine_c2h d"
  using request_regions_cases[OF assms(3)] assms(1,2)
  by (auto simp: accounts_ok_def bars_ok_def total_held_def)

lemma attach_regions:
  assumes "enable_device env (ktrace w) = 0"
    and "pci_check_extended_tag env d (kcall RelaxedOrdering (pci_check_intr_pend env (kcall DeviceEnabled w))) = Some w1"
    and "request_regions env d (kcall BusMaster (kcall (ReadRequestSize 512) w1)) = (rv2, d2, w2)"
  shows "open_attach env d w = (if rv2 \<noteq> 0 then Some (Some err_regions, d2, w2)
     else Option.bind (map_bars env d2 w2) (\<lambda>(rv, d, w). if rv \<noteq> 0 then Some (Some err_map, d, w)
       else if fst (set_dma_mask env w) \<noteq> 0 then Some (Some err_mask, d, snd (set_dma_mask env w))
       else Some (None, d, snd (set_dma_mask env w))))"
  unfolding open_attach_def Let_def using assms by (simp add: case_prod_unfold cong del: if_weak_cong)

lemma attach_accounts:
  assumes "accounts_ok base m r d w" "unmapped d" "d_config_bar_idx d < 0" "\<not> d_got_regions d" "engineless d"
    and "open_attach env d w = Some (l, d', w')"
  shows "accounts_ok base m r d' w' \<and> engineless d' \<and> (\<forall>k. l = Some k \<longrightarrow> label_ok k d')"
proof (cases "enable_device env (ktrace w) = 0")
  case False
  then have "l = Some err_enable \<and> d' = d \<and> w' = w" using assms(6) by (simp add: open_attach_def Let_def)
  then show ?thesis using assms(1-5) by simp
next
  case True
  obtain w1 where t: "pci_check_extended_tag env d (kcall RelaxedOrdering (pci_check_intr_pend env (kcall DeviceEnabled w))) = Some w1"
    using assms(6) True
    by (cases "pci_check_extended_tag env d (kcall RelaxedOrdering (pci_check_intr_pend env (kcall DeviceEnabled w)))")
      (simp_all add: open_attach_def Let_def)
  obtain rv2 d2 w2 where q: "request_regions env d (kcall BusMaster (kcall (ReadRequestSize 512) w1)) = (rv2, d2, w2)"
    by (metis prod_cases3)
  note o = assms(6)[unfolded attach_regions[OF True t q]]
  note a2 = regions_accounts[OF accounts_same[OF assms(1) attach_prefix[OF t]] assms(4) q]
  have f2: "unmapped d2" "d_config_bar_idx d2 < 0" "engineless d2"
    using assms(2,3,5) by (simp_all add: a2(3-6) unmapped_def engineless_def)
  show ?thesis
  proof (cases "rv2 = 0")
    case False
    then have "l = Some err_regions \<and> d' = d2 \<and> w' = w2" using o by simp
    then show ?thesis using a2(1,2) f2 False by simp
  next
    case z: True
    obtain rv3 d3 w3 where p: "map_bars env d2 w2 = Some (rv3, d3, w3)"
      using o z by (cases "map_bars env d2 w2") auto
    note a3 = accounts_map[OF a2(1) f2(1,2) p]
    have e3: "engineless d3" using f2(3) a3(2,3) by (simp add: engineless_def)
    have a4: "accounts_ok base m r d3 (snd (set_dma_mask env w3))"
      by (rule accounts_same[OF a3(1)]) (rule set_dma_accounts[OF prod.collapse[symmetric]])
    have "l = Some err_map \<and> rv3 \<noteq> 0 \<and> d' = d3 \<and> w' = w3 \<or>
        l \<in> {None, Some err_mask} \<and> d' = d3 \<and> w' = snd (set_dma_mask env w3)"
      using o z by (auto simp: p split: if_splits)
    then show ?thesis using a3(1,4) a4 e3 by auto
  qed
qed

text \<open>Setting up the interrupts changes the lines of the engines only.\<close>

definition relined :: "xdma_engine list \<Rightarrow> xdma_engine list \<Rightarrow> bool" where
  "relined es fs \<longleftrightarrow> length fs = length es \<and>
     (\<forall>k < length es. held (fs ! k) = held (es ! k) \<and> e_magic (fs ! k) = e_magic (es ! k))"

lemma relined_refl: "relined es es"
  by (simp add: relined_def)

lemma relined_trans: "relined es fs \<Longrightarrow> relined fs gs \<Longrightarrow> relined es gs"
  by (simp add: relined_def)

lemma relined_upd: "relined es (es[i := (es ! i)\<lparr>e_msix_irq_line := v\<rparr>])"
proof -
  have "held ((es ! i)\<lparr>e_msix_irq_line := v\<rparr>) = held (es ! i)" by (simp add: held_def)
  then have "held (es[i := (es ! i)\<lparr>e_msix_irq_line := v\<rparr>] ! k) = held (es ! k) \<and>
      e_magic (es[i := (es ! i)\<lparr>e_msix_irq_line := v\<rparr>] ! k) = e_magic (es ! k)" if "k < length es" for k
    using that by (cases "k = i") simp_all
  then show ?thesis by (simp add: relined_def)
qed

lemma request_channels_relined:
  "request_channels env dir n i j es w = Some (rv, fs, w') \<Longrightarrow> relined es fs"
proof (induction n arbitrary: i j es w)
  case (Suc n)
  obtain e where e: "arr_get (int i) es = Some e" using Suc.prems by (auto split: bind_splits)
  then have ei: "e = es ! i" by (auto simp: arr_get_def split: if_splits)
  let ?es = "es[i := (es ! i)\<lparr>e_msix_irq_line := irq_vector env j\<rparr>]"
  have "relined ?es fs \<or> fs = es"
    using Suc.prems Suc.IH e unfolding ei by (auto simp: Let_def split: if_splits)
  then show ?case using relined_trans[OF relined_upd] relined_refl by metis
qed (simp add: relined_refl)

lemma relined_holders: "relined es fs \<Longrightarrow> holders es n \<Longrightarrow> holders fs n"
  by (simp add: relined_def holders_def)

lemma relined_sum:
  assumes "relined es fs"
  shows "sum_list (map held fs) = sum_list (map held es)"
proof -
  have "map held fs = map held es" using assms by (intro nth_equalityI) (simp_all add: relined_def)
  then show ?thesis by simp
qed

lemma channel_setup_relined:
  assumes "irq_msix_channel_setup env d w = Some (rv, d', w')"
  shows "\<exists>es fs. d' = d\<lparr>d_engine_h2c := es, d_engine_c2h := fs\<rparr> \<and> relined (d_engine_h2c d) es \<and> relined (d_engine_c2h d) fs"
proof (cases "d_msix_enabled d")
  case False
  then have "d' = d\<lparr>d_engine_h2c := d_engine_h2c d, d_engine_c2h := d_engine_c2h d\<rparr>"
    using assms by (simp add: irq_msix_channel_setup_def)
  then show ?thesis using relined_refl by blast
next
  case True
  obtain r1 es w1 where c: "request_channels env DMA_TO_DEVICE (nat (d_h2c_channel_max d)) 0 0 (d_engine_h2c d) w = Some (r1, es, w1)"
    using assms True by (auto simp: irq_msix_channel_setup_def split: bind_splits)
  show ?thesis
  proof (cases "r1 = 0")
    case False
    then have "d' = d\<lparr>d_engine_h2c := es\<rparr>"
      using assms True c by (simp add: irq_msix_channel_setup_def Let_def)
    then have "d' = d\<lparr>d_engine_h2c := es, d_engine_c2h := d_engine_c2h d\<rparr>" by simp
    then show ?thesis using request_channels_relined[OF c] relined_refl by blast
  next
    case z: True
    obtain r2 fs where q: "request_channels env DMA_FROM_DEVICE (nat (d_c2h_channel_max d)) 0 (d_h2c_channel_max d)
        (d_engine_c2h d) w1 = Some (r2, fs, w')" "d' = d\<lparr>d_engine_h2c := es, d_engine_c2h := fs\<rparr>"
      using assms True c z by (auto simp: irq_msix_channel_setup_def Let_def split: bind_splits if_splits)
    then show ?thesis using request_channels_relined[OF c] request_channels_relined[OF q(1)] by blast
  qed
qed

lemma irq_setup_relined:
  assumes "irq_setup env d w = Some (rv, d', w')"
  shows "\<exists>es fs l. d' = d\<lparr>d_engine_h2c := es, d_engine_c2h := fs, d_irq_line := l\<rparr> \<and>
    relined (d_engine_h2c d) es \<and> relined (d_engine_c2h d) fs"
proof (cases "d_msix_enabled d")
  case True
  obtain r1 w1 where "irq_msix_channel_setup env d (pci_keep_intx_enabled env w) = Some (r1, d', w1)"
    using assms True by (auto simp: irq_setup_def Let_def case_prod_unfold split: bind_splits if_splits)
  from channel_setup_relined[OF this] obtain es fs where "d' = d\<lparr>d_engine_h2c := es, d_engine_c2h := fs\<rparr>"
    "relined (d_engine_h2c d) es" "relined (d_engine_c2h d) fs" by blast
  then show ?thesis by (intro exI[of _ es] exI[of _ fs] exI[of _ "d_irq_line d"]) simp
next
  case False
  then have "d' = d\<lparr>d_irq_line := pci_irq env\<rparr>"
    using assms
    by (auto simp: irq_setup_def irq_msi_setup_def irq_legacy_setup_def Let_def split: bind_splits if_splits)
  then show ?thesis
    using relined_refl
    by (intro exI[of _ "d_engine_h2c d"] exI[of _ "d_engine_c2h d"] exI[of _ "pci_irq env"]) simp
qed

lemma accounts_irq_setup:
  assumes "accounts_ok base m r d w" "irq_setup env d w = Some (rv, d', w')"
  shows "accounts_ok base m r d' w'"
proof -
  obtain es fs l where e: "d' = d\<lparr>d_engine_h2c := es, d_engine_c2h := fs, d_irq_line := l\<rparr>"
    "relined (d_engine_h2c d) es" "relined (d_engine_c2h d) fs"
    using irq_setup_relined[OF assms(2)] by blast
  have "same_accounts w w'" by (rule same_accounts_adds, rule adds_mono, rule adds_irq_setup[OF assms(2)], erule irq_ev_plain)
  from accounts_same[OF assms(1) this] show ?thesis
    using relined_holders[OF e(2)] relined_holders[OF e(3)] relined_sum[OF e(2)] relined_sum[OF e(3)]
    by (simp add: accounts_ok_def e(1) bars_ok_def total_held_def)
qed

lemma enable_msi_fields:
  assumes "enable_msi_msix env mp d w = (rv, d', w')"
  shows "same_accounts w w'" "d_bar d' = d_bar d" "d_got_regions d' = d_got_regions d" "d_engine_h2c d' = d_engine_h2c d"
    "d_engine_c2h d' = d_engine_c2h d" "d_h2c_channel_max d' = d_h2c_channel_max d" "d_c2h_channel_max d' = d_c2h_channel_max d"
  using assms by (auto simp: enable_msi_msix_def Let_def split: if_splits intro: same_accounts_plain same_accounts_refl)

lemma accounts_probe:
  assumes "accounts_ok base m r d w" "engineless d" "probe_engines env mp d w = Some (rv, d', w')"
  shows "accounts_ok base m r d' w'"
  using probe_engines_held[OF assms(3)] assms(1,2) mem_ev_accounts[of w w']
  by (simp add: accounts_ok_def engineless_def bars_ok_def settled_def)

lemma interrupts_off_trace:
  "channel_interrupts_enable d v w = Some w' \<Longrightarrow> ktrace w' = ktrace w"
  "check_nonzero_interrupt_status d w = Some w' \<Longrightarrow> ktrace w' = ktrace w"
  "read_interrupts d w = Some (x, w') \<Longrightarrow> ktrace w' = ktrace w"
  by (auto simp: channel_interrupts_enable_def check_nonzero_interrupt_status_def read_interrupts_def Let_def
      case_prod_unfold split: bind_splits)

lemma start_accounts:
  assumes "accounts_ok base m r d w" "engineless d" "open_start env mp d w = Some (l, d', w')"
  shows "accounts_ok base m r d' w' \<and> (\<forall>k. l = Some k \<longrightarrow> label_ok k d')"
proof -
  obtain w1 w2 where q: "check_nonzero_interrupt_status d w = Some w1" "quiesce d w1 = Some w2"
    using assms(3) unfolding open_start_def quiesce_def by (auto simp: case_prod_unfold split: bind_splits)
  have o: "open_start env mp d w = Option.bind (probe_engines env mp d w2) (\<lambda>(rv, d, w).
     if rv \<noteq> 0 then Some (Some err_engines, d, w)
     else do {
       let (rv, d, w) = enable_msi_msix env mp d w;
       if rv < 0 then Some (Some err_enable_msix, d, w)
       else do {
         (rv, d, w) \<leftarrow> irq_setup env d w;
         if rv < 0 then Some (Some err_interrupts, d, w)
         else do {
           w \<leftarrow> (if \<not> poll_mode mp then channel_interrupts_enable d (NOT 0) w else Some w);
           (_, w) \<leftarrow> read_interrupts d w;
           Some (None, d, w)
         }
       }
     })"
    using q unfolding open_start_def quiesce_def by (auto simp: case_prod_unfold split: bind_splits)
  have "same_accounts w w2"
    using interrupts_off_trace(2)[OF q(1)] quiesce_frame[OF q(2)] by (intro same_accounts_trace) simp
  note a1 = accounts_same[OF assms(1) this]
  obtain rv3 d3 w3 where p: "probe_engines env mp d w2 = Some (rv3, d3, w3)"
    using assms(3) o by (cases "probe_engines env mp d w2") auto
  note a3 = accounts_probe[OF a1 assms(2) p]
  show ?thesis
  proof (cases "rv3 = 0")
    case False
    then show ?thesis using assms(3) o p a3 by auto
  next
    case z3: True
    obtain rv4 d4 w4 where e: "enable_msi_msix env mp d3 w3 = (rv4, d4, w4)" by (metis prod_cases3)
    note a4 = accounts_part[OF a3 enable_msi_fields[OF e]]
    show ?thesis
    proof (cases "rv4 < 0")
      case True
      then show ?thesis using assms(3) o p z3 e a4 by auto
    next
      case z4: False
      obtain rv5 d5 w5 where i: "irq_setup env d4 w4 = Some (rv5, d5, w5)"
        using assms(3) o p z3 e z4 by (auto simp: Let_def split: bind_splits)
      note a5 = accounts_irq_setup[OF a4 i]
      have "(l = Some err_interrupts \<or> l = None) \<and> d' = d5 \<and> ktrace w' = ktrace w5"
        using assms(3) o p z3 e z4 i
        by (auto simp: Let_def interrupts_off_trace split: bind_splits if_splits)
      then show ?thesis using accounts_same[OF a5 same_accounts_trace, of w'] by auto
    qed
  qed
qed

lemma new_device_accounts:
  assumes "alloc_dev_instance env pdev = Some d"
    and "d' = d\<lparr>d_user_max := u, d_h2c_channel_max := h, d_c2h_channel_max := c, d_flags := f, d_idx := x\<rparr>"
  shows "accounts_ok (\<lambda>i. bar_balance i (ktrace w)) (mem_balance (ktrace w)) (region_balance (ktrace w)) d' w"
    "engineless d'" "unmapped d'" "d_config_bar_idx d' < 0" "\<not> d_got_regions d'"
proof -
  have z: "held (replicate n zero_engine ! k) = 0" if "k < n" for n k using that by simp
  have e: "engineless d'"
    using assms by (auto simp: alloc_dev_instance_def engineless_def holders_def split: if_splits)
  show "engineless d'" by (rule e)
  show u: "unmapped d'" "d_config_bar_idx d' < 0" "\<not> d_got_regions d'"
    using assms by (auto simp: alloc_dev_instance_def unmapped_def XDMA_BAR_NUM_def split: if_splits)
  have "length (d_bar d') = 6" using assms by (auto simp: alloc_dev_instance_def XDMA_BAR_NUM_def split: if_splits)
  then show "accounts_ok (\<lambda>i. bar_balance i (ktrace w)) (mem_balance (ktrace w)) (region_balance (ktrace w)) d' w"
    using e u engineless_total[OF e]
    by (auto simp: accounts_ok_def bars_ok_def unmapped_def engineless_def intro: holders_weaken)
qed

text \<open>C23: A failed \<^verbatim>\<open>xdma_device_open\<close> gives everything back, wherever it failed: every BAR
  is unmapped as often as it was mapped, all coherent memory is freed, the PCI regions are
  released, and the device is off both lists again.\<close>

theorem open_failure_releases_all:
  assumes "xdma_device_open env mp pdev h maxs tab w = Some (None, maxs', tab', w')"
    and "devtab_wf tab" "h \<notin> set (dt_list tab)" "i < 6"
  shows "maxs' = maxs \<and> dt_list tab' = dt_list tab \<and> dt_rcu tab' = dt_rcu tab \<and>
    bar_balance i (ktrace w') = bar_balance i (ktrace w) \<and>
    mem_balance (ktrace w') = mem_balance (ktrace w) \<and>
    region_balance (ktrace w') = region_balance (ktrace w)"
proof (cases "alloc_dev_instance env pdev")
  case None
  then show ?thesis using assms(1) by (simp add: xdma_device_open_def)
next
  case (Some d)
  obtain u c1 c2 where mx: "maxs = (u, c1, c2)" by (metis prod_cases3)
  have nl: "\<not> d_lock d" using Some by (auto simp: alloc_dev_instance_def split: if_splits)
  define d1 where "d1 = d\<lparr>d_user_max := u, d_h2c_channel_max := c1, d_c2h_channel_max := c2\<rparr>"
  define tab1 where "tab1 = xdev_list_add h (upd_dev h (\<lambda>_. d1\<lparr>d_flags := d_flags d1 OR XDEV_FLAG_OFFLINE\<rparr>) tab)"
  have fl: "xdma_device_flag_set d1 XDEV_FLAG_OFFLINE = Some (d1\<lparr>d_flags := d_flags d1 OR XDEV_FLAG_OFFLINE\<rparr>)"
    using flag_set_eq nl by (simp add: d1_def)
  define d2 where "d2 = (dt_devs tab1 h)\<lparr>d_user_max := clamp_max (d_user_max (dt_devs tab1 h)) MAX_USER_IRQ,
     d_h2c_channel_max := clamp_max (d_h2c_channel_max (dt_devs tab1 h)) XDMA_CHANNEL_NUM_MAX,
     d_c2h_channel_max := clamp_max (d_c2h_channel_max (dt_devs tab1 h)) XDMA_CHANNEL_NUM_MAX\<rparr>"
  have d2: "d2 = d\<lparr>d_user_max := d_user_max d2, d_h2c_channel_max := d_h2c_channel_max d2,
      d_c2h_channel_max := d_c2h_channel_max d2, d_flags := d_flags d2, d_idx := d_idx d2\<rparr>"
    by (simp add: d2_def tab1_def d1_def xdev_list_add_def Let_def)
  note new = new_device_accounts[OF Some d2]
  have o: "xdma_device_open env mp pdev h maxs tab w = Option.bind (open_device env mp d2 w) (\<lambda>(l, d, w).
      case l of Some l \<Rightarrow> Option.bind (open_unwind env mp l h d tab1 w) (\<lambda>(tab, w). Some (None, maxs, tab, w))
      | None \<Rightarrow> Option.bind (xdma_device_flag_clear d XDEV_FLAG_OFFLINE) (\<lambda>d.
          Some (Some h, (d_user_max d, d_h2c_channel_max d, d_c2h_channel_max d), upd_dev h (\<lambda>_. d) tab1, w)))"
    unfolding xdma_device_open_def Some mx Let_def option.case prod.case d1_def[symmetric] fl Option.bind.bind_lunit
      tab1_def[symmetric] d2_def[symmetric] by (rule refl)
  obtain l d3 w3 where f: "open_device env mp d2 w = Some (Some l, d3, w3)"
    "open_unwind env mp l h d3 tab1 w3 = Some (tab', w')" "maxs' = maxs"
    using assms(1) unfolding o by (auto split: bind_splits option.splits)
  obtain l4 d4 w4 where a: "open_attach env d2 w = Some (l4, d4, w4)"
    using f(1) by (auto simp: open_device_def split: bind_splits)
  note acc4 = attach_accounts[OF new(1,3,4,5,2) a]
  have acc3: "accounts_ok (\<lambda>i. bar_balance i (ktrace w)) (mem_balance (ktrace w)) (region_balance (ktrace w)) d3 w3 \<and> label_ok l d3"
  proof (cases l4)
    case None
    then have "open_start env mp d4 w4 = Some (Some l, d3, w3)" using f(1) a by (simp add: open_device_def)
    then show ?thesis using start_accounts[of _ _ _ d4 w4] acc4 by blast
  next
    case (Some k)
    then have "l = k \<and> d3 = d4 \<and> w3 = w4" using f(1) a by (simp add: open_device_def)
    then show ?thesis using acc4 Some by simp
  qed
  have "dt_rcu tab = dt_list tab" using assms(2) by (simp add: devtab_wf_def)
  then have "remove1 h (dt_list tab1) = dt_list tab" "remove1 h (dt_rcu tab1) = dt_rcu tab"
    using assms(3) by (simp_all add: tab1_def list_add_fields remove1_append)
  then show ?thesis
    using unwind_releases[OF conjunct1[OF acc3] conjunct2[OF acc3] f(2) assms(4)] f(3) by simp
qed

definition sample_unmappable :: pci_env where
  "sample_unmappable = sample_pci\<lparr>iomap := (\<lambda>_ _. None)\<rparr>"

lemma sample_unmap: "d_bar d = replicate 6 None \<Longrightarrow> unmap_bars d w = Some (d, w)"
  by (simp add: unmap_bars_def XDMA_BAR_NUM_def arr_get_def numeral_eq_Suc)

lemma sample_map: "d_bar d = replicate 6 None \<Longrightarrow> map_bars sample_unmappable d w = Some (- EINVAL, d, w)"
proof -
  assume d: "d_bar d = replicate 6 None"
  then have "map_single_bar sample_unmappable 0 d w = Some (- 1, d, w)"
    using list_update_id[of "d_bar d" 0]
    by (simp add: map_single_bar_def arr_mod_def arr_get_def sample_unmappable_def sample_pci_def Let_def)
  then have "map_bars_loop sample_unmappable (Suc 5) 0 [] 0 d w = Some (- EINVAL, [], 0, d, w)"
    unfolding map_bars_loop.simps by simp
  then show ?thesis using sample_unmap[OF d, of w] by (simp add: map_bars_def XDMA_BAR_NUM_def)
qed

lemma sample_attach:
  assumes "d_bar d = replicate 6 None" "d_config_bar_idx d < 0"
  shows "\<exists>w'. open_attach sample_unmappable d w = Some (Some err_map, d\<lparr>d_got_regions := True\<rparr>, w') \<and>
    RegionsRequested \<in> set (ktrace w')"
proof -
  have m: "map_bars sample_unmappable (d\<lparr>d_got_regions := True\<rparr>) u = Some (- EINVAL, d\<lparr>d_got_regions := True\<rparr>, u)" for u
    using sample_map assms by simp
  show ?thesis
    using assms(2) m
    by (simp add: open_attach_def pci_check_intr_pend_def pci_check_extended_tag_def request_regions_def
        sample_unmappable_def sample_pci_def Let_def PCI_EXP_DEVCTL_EXT_TAG_def PCI_STATUS_INTERRUPT_def)
qed

theorem open_failure_releases_all_witness:
  "\<exists>tab' w'. xdma_device_open sample_unmappable default_modparams 9 6 (16, 4, 4) sample_tab sample_world =
       Some (None, (16, 4, 4), tab', w') \<and>
     region_balance (ktrace w') = 0 \<and> RegionsRequested \<in> set (ktrace w') \<and> dt_list tab' = [5]"
proof -
  obtain d where d: "alloc_dev_instance sample_unmappable 9 = Some d" "d_bar d = replicate 6 None"
    "d_config_bar_idx d < 0" "\<not> d_lock d"
    by (simp add: alloc_dev_instance_def sample_unmappable_def sample_pci_def XDMA_BAR_NUM_def)
  have u: "open_unwind sample_unmappable default_modparams err_map h e tab w = Some
      (xdev_list_remove h (upd_dev h (\<lambda>_. e) tab), kcall DeviceFreed
         (let w = if d_got_regions e then kcall RegionsReleased w else w
          in if \<not> d_regions_in_use e then kcall DeviceDisabled w else w))" for h e tab w
    by (simp add: open_unwind_def at_or_after_def Let_def)
  have "\<exists>tab' w'. xdma_device_open sample_unmappable default_modparams 9 6 (16, 4, 4) sample_tab sample_world =
      Some (None, (16, 4, 4), tab', w') \<and> RegionsRequested \<in> set (ktrace w')"
  proof -
    define e where "e = d\<lparr>d_user_max := 16, d_h2c_channel_max := 4, d_c2h_channel_max := 4\<rparr>"
    have f: "xdma_device_flag_set e XDEV_FLAG_OFFLINE = Some (e\<lparr>d_flags := d_flags e OR XDEV_FLAG_OFFLINE\<rparr>)"
      using flag_set_eq d(4) by (simp add: e_def)
    define t where "t = xdev_list_add 6 (upd_dev 6 (\<lambda>_. e\<lparr>d_flags := d_flags e OR XDEV_FLAG_OFFLINE\<rparr>) sample_tab)"
    define e2 where "e2 = (dt_devs t 6)\<lparr>d_user_max := clamp_max (d_user_max (dt_devs t 6)) MAX_USER_IRQ,
       d_h2c_channel_max := clamp_max (d_h2c_channel_max (dt_devs t 6)) XDMA_CHANNEL_NUM_MAX,
       d_c2h_channel_max := clamp_max (d_c2h_channel_max (dt_devs t 6)) XDMA_CHANNEL_NUM_MAX\<rparr>"
    have "d_bar e2 = replicate 6 None" "d_config_bar_idx e2 < 0"
      using d(2,3) by (simp_all add: e2_def t_def e_def xdev_list_add_def Let_def)
    from sample_attach[OF this] obtain w1 where
      "open_attach sample_unmappable e2 sample_world = Some (Some err_map, e2\<lparr>d_got_regions := True\<rparr>, w1)"
      "RegionsRequested \<in> set (ktrace w1)" by blast
    then show ?thesis
      unfolding xdma_device_open_def d(1) Let_def option.case prod.case e_def[symmetric] f Option.bind.bind_lunit
        t_def[symmetric] e2_def[symmetric]
      by (simp add: open_device_def u Let_def)
  qed
  then obtain tab' w' where o: "xdma_device_open sample_unmappable default_modparams 9 6 (16, 4, 4) sample_tab sample_world =
      Some (None, (16, 4, 4), tab', w')" "RegionsRequested \<in> set (ktrace w')" by blast
  have "devtab_wf sample_tab" "6 \<notin> set (dt_list sample_tab)" "(0 :: nat) < 6"
    by (simp_all add: devtab_wf_def sample_tab_def sample_lined_dev_def sample_irq_dev_def sample_dev_def)
  from open_failure_releases_all[OF o(1) this] o show ?thesis
    by (auto simp: sample_tab_def sample_world_def)
qed

end
