(* ===== verification/ChardevProps.thy ===== *)
theory ChardevProps
  imports Chardev LifeProps
begin

text \<open>
  Properties of the character devices: every interface has a minor number of its own, and
  removing the interfaces gives back every device and node that creating them has made.
\<close>

unbundle bit_operations_syntax

section \<open>Devices and nodes in the trace\<close>

fun char_balance :: "nat \<times> nat \<Rightarrow> kevent list \<Rightarrow> int" where
  "char_balance p [] = 0"
| "char_balance p (e # es) =
     (if e = CharDevAdded (fst p) (snd p) then 1 else if e = CharDevRemoved (fst p) (snd p) then - 1 else 0) + char_balance p es"

fun node_balance :: "nat \<times> nat \<Rightarrow> kevent list \<Rightarrow> int" where
  "node_balance p [] = 0"
| "node_balance p (e # es) =
     (if e = SysDevAdded (fst p) (snd p) then 1 else if e = SysDevRemoved (fst p) (snd p) then - 1 else 0) + node_balance p es"

interpretation chars: event_count "char_balance p" for p
  by unfold_locales auto

interpretation nodes: event_count "node_balance p" for p
  by unfold_locales auto

section \<open>The devices of an interface\<close>

definition live :: "xdma_cdev \<Rightarrow> bool" where
  "live c \<longleftrightarrow> c_magic c = MAGIC_CHAR"

definition shows_at :: "nat \<times> nat \<Rightarrow> xdma_cdev \<Rightarrow> int" where
  "shows_at p c = (if live c \<and> c_major c = fst p \<and> c_minor c = snd p then 1 else 0)"

definition all_types :: "cdev_type list" where
  "all_types = [CHAR_USER, CHAR_CTRL, CHAR_XVC, CHAR_EVENTS, CHAR_XDMA_H2C, CHAR_XDMA_C2H,
     CHAR_BYPASS_H2C, CHAR_BYPASS_C2H, CHAR_BYPASS]"

definition shown :: "nat \<times> nat \<Rightarrow> cdev_type \<Rightarrow> xdma_pci_dev \<Rightarrow> int" where
  "shown p type xp = sum_list (map (shows_at p) (cdevs_of type xp))"

definition total_shown :: "nat \<times> nat \<Rightarrow> xdma_pci_dev \<Rightarrow> int" where
  "total_shown p xp = (\<Sum>type \<leftarrow> all_types. shown p type xp)"

lemma cdevs_of_set:
  "cdevs_of type (set_cdev type' i c xp) =
     (if type = type' then (if type \<in> {CHAR_USER, CHAR_CTRL, CHAR_XVC, CHAR_BYPASS} then [c] else (cdevs_of type xp)[i := c])
      else cdevs_of type xp)"
  by (cases type; cases type') (simp_all add: cdevs_of_def set_cdev_def)

lemma cdevs_of_set_at:
  "i < length (cdevs_of type' xp) \<Longrightarrow>
   cdevs_of type (set_cdev type' i c xp) = (if type = type' then (cdevs_of type xp)[i := c] else cdevs_of type xp)"
  by (cases type; cases type') (simp_all add: cdevs_of_def set_cdev_def)

lemma cdevs_of_fields [simp]:
  "cdevs_of type (xp\<lparr>x_major := m\<rparr>) = cdevs_of type xp"
  "cdevs_of type (xpdev_flag_set f xp) = cdevs_of type xp"
  by (cases type; simp add: cdevs_of_def xpdev_flag_set_def)+

lemma shown_fields [simp]:
  "shown p type (xp\<lparr>x_major := m\<rparr>) = shown p type xp"
  "shown p type (xpdev_flag_set f xp) = shown p type xp"
  by (simp_all add: shown_def)

lemma total_shown_fields [simp]:
  "total_shown p (xp\<lparr>x_major := m\<rparr>) = total_shown p xp"
  "total_shown p (xpdev_flag_set f xp) = total_shown p xp"
  by (simp_all add: total_shown_def)

lemma shown_set:
  "i < length (cdevs_of type' xp) \<Longrightarrow>
   shown p type (set_cdev type' i c xp) = shown p type xp +
     (if type = type' then shows_at p c - shows_at p (cdevs_of type xp ! i) else 0)"
  by (simp add: shown_def cdevs_of_set_at sum_list_upd)

lemma total_shown_set:
  "i < length (cdevs_of type' xp) \<Longrightarrow>
   total_shown p (set_cdev type' i c xp) = total_shown p xp + shows_at p c - shows_at p (cdevs_of type' xp ! i)"
  unfolding total_shown_def all_types_def by (cases type') (simp_all add: shown_set)

lemma set_cdev_frame [simp]:
  "x_major (set_cdev type i c xp) = x_major xp" "x_xdev (set_cdev type i c xp) = x_xdev xp"
  "x_flags (set_cdev type i c xp) = x_flags xp" "x_user_max (set_cdev type i c xp) = x_user_max xp"
  "x_h2c_channel_max (set_cdev type i c xp) = x_h2c_channel_max xp"
  "x_c2h_channel_max (set_cdev type i c xp) = x_c2h_channel_max xp"
  by (cases type; simp add: set_cdev_def)+

section \<open>Minor numbers\<close>

definition minor_at :: "cdev_type \<Rightarrow> nat \<Rightarrow> nat" where
  "minor_at type i = cdev_minor type (int i) i"

definition room_of :: "cdev_type \<Rightarrow> nat" where
  "room_of type = (if type = CHAR_EVENTS then 16
     else if type \<in> {CHAR_XDMA_H2C, CHAR_XDMA_C2H, CHAR_BYPASS_H2C, CHAR_BYPASS_C2H} then 4 else 1)"

lemma minor_at_inj:
  "i < room_of type \<Longrightarrow> j < room_of type' \<Longrightarrow> minor_at type i = minor_at type' j \<Longrightarrow> type = type' \<and> i = j"
  by (cases type; cases type') (simp_all add: room_of_def minor_at_def cdev_minor_def nat_add_distrib)

section \<open>Creating one device\<close>

lemma type_init_frame [simp]:
  "c_magic (cdev_type_init t c) = c_magic c" "c_xdev (cdev_type_init t c) = c_xdev c"
  "c_engine (cdev_type_init t c) = c_engine c" "c_bar (cdev_type_init t c) = c_bar c"
  by (simp_all add: cdev_type_init_def)

lemma config_frame:
  assumes "config_kobject env d type c = Some (v, c1)"
  shows "c_magic c1 = c_magic c" "c_xdev c1 = c_xdev c" "c_engine c1 = c_engine c" "c_bar c1 = c_bar c"
  using assms by (auto simp: config_kobject_def Let_def split: if_splits bind_splits)

lemma get_region_result:
  assumes "get_region env xp w = (0, dev, xp', w')"
  defines "M \<equiv> if x_major xp = 0 then chrdev_major env (ktrace w) else x_major xp"
  shows "xp' = xp\<lparr>x_major := M\<rparr>" "ktrace w' = (if x_major xp = 0 then [ChrdevRegion M] else []) @ ktrace w"
  using assms by (auto simp: get_region_def Let_def split: if_splits)

lemma get_region_failed: "get_region env xp w = (rv, dev, xp', w') \<Longrightarrow> rv = 0 \<or> rv = chrdev_rv env (ktrace w)"
  by (auto simp: get_region_def Let_def split: if_splits)

lemma add_xcdev_result:
  assumes "add_xcdev env dev xp c w = (rv, xp', c', w')" "0 \<le> rv" "class_made env"
  shows "xp' = xp" "c' = c\<lparr>c_sys_device := True\<rparr>"
    "ktrace w' = [SysDevAdded (c_major c) (c_minor c), CharDevAdded (c_major c) (c_minor c)] @ ktrace w"
  using assms by (auto simp: add_xcdev_def create_sys_device_def Let_def split: if_splits)

lemma create_xcdev_result:
  assumes c: "create_xcdev env d xp c bar eng type w = Some (rv, xp', c', w')" "0 \<le> rv" "class_made env"
    and rvs: "\<And>k. chrdev_rv env k \<le> 0"
  defines "M \<equiv> if x_major xp = 0 then chrdev_major env (ktrace w) else x_major xp"
    and "m \<equiv> cdev_minor type bar (case engine_at d eng of None \<Rightarrow> 0 | Some e \<Rightarrow> e_channel e)"
  shows "x_xdev xp \<noteq> None" "xp' = xp\<lparr>x_major := M\<rparr>"
    and "live c'" "c_xdev c' = x_xdev xp" "c_sys_device c'" "c_major c' = M" "c_minor c' = m"
    and "ktrace w' = [SysDevAdded M m, CharDevAdded M m] @ (if x_major xp = 0 then [ChrdevRegion M] else []) @ ktrace w"
proof -
  obtain rv0 dev xp0 w0 where g: "get_region env xp w = (rv0, dev, xp0, w0)" by (metis prod_cases4)
  have z: "rv0 = 0"
  proof (rule ccontr)
    assume n: "rv0 \<noteq> 0"
    then have "rv = rv0" using c(1) g by (auto simp: create_xcdev_def Let_def)
    then show False using n get_region_failed[OF g] rvs[of "ktrace w"] c(2) by auto
  qed
  note gr = get_region_result[OF g[unfolded z], folded M_def]
  let ?c = "c\<lparr>c_lock := False, c_magic := MAGIC_CHAR, c_xdev := x_xdev xp0, c_engine := eng, c_bar := bar\<rparr>"
  obtain v c1 where k: "x_xdev xp0 \<noteq> None" "config_kobject env d type ?c = Some (v, c1)"
    and a: "add_xcdev env dev xp0 ((cdev_type_init type c1)\<lparr>c_major := x_major xp0, c_minor := m\<rparr>) w0 = (rv, xp', c', w')"
    using c(1,2) unfolding create_xcdev_def Let_def g prod.case m_def
    by (auto simp: z split: bind_splits if_splits)
  note ar = add_xcdev_result[OF a c(2,3)]
  show "x_xdev xp \<noteq> None" "xp' = xp\<lparr>x_major := M\<rparr>" "live c'" "c_xdev c' = x_xdev xp" "c_sys_device c'"
    "c_major c' = M" "c_minor c' = m"
    "ktrace w' = [SysDevAdded M m, CharDevAdded M m] @ (if x_major xp = 0 then [ChrdevRegion M] else []) @ ktrace w"
    using k(1) config_frame[OF k(2)] ar gr by (simp_all add: live_def)
qed

section \<open>The invariant of the interfaces\<close>

definition made :: "nat \<Rightarrow> cdev_type \<Rightarrow> nat \<Rightarrow> xdma_cdev \<Rightarrow> bool" where
  "made M type i c \<longleftrightarrow> (live c \<longrightarrow> c_xdev c \<noteq> None \<and> c_sys_device c \<and> c_major c = M \<and> c_minor c = minor_at type i)"

definition none_from :: "cdev_type \<Rightarrow> nat \<Rightarrow> xdma_pci_dev \<Rightarrow> bool" where
  "none_from type n xp \<longleftrightarrow> (\<forall>i < length (cdevs_of type xp). n \<le> i \<longrightarrow> \<not> live (cdevs_of type xp ! i))"

definition ifaces :: "(nat \<times> nat \<Rightarrow> int) \<Rightarrow> (nat \<times> nat \<Rightarrow> int) \<Rightarrow> xdma_pci_dev \<Rightarrow> world \<Rightarrow> bool" where
  "ifaces bc bn xp w \<longleftrightarrow>
     (\<forall>type. length (cdevs_of type xp) = room_of type \<and> (x_major xp = 0 \<longrightarrow> none_from type 0 xp) \<and>
        (\<forall>i < room_of type. made (x_major xp) type i (cdevs_of type xp ! i))) \<and>
     (\<forall>p. char_balance p (ktrace w) = bc p + total_shown p xp \<and> node_balance p (ktrace w) = bn p + total_shown p xp)"

definition kept :: "xdma_pci_dev \<Rightarrow> xdma_pci_dev \<Rightarrow> bool" where
  "kept xp xp' \<longleftrightarrow> x_flags xp' = x_flags xp \<and> x_user_max xp' = x_user_max xp \<and> x_xdev xp' = x_xdev xp \<and>
     x_h2c_channel_max xp' = x_h2c_channel_max xp \<and> x_c2h_channel_max xp' = x_c2h_channel_max xp"

text \<open>Only the devices of one type have changed, and there is none from an index on.\<close>

definition grown :: "cdev_type \<Rightarrow> nat \<Rightarrow> xdma_pci_dev \<Rightarrow> xdma_pci_dev \<Rightarrow> bool" where
  "grown type n xp xp' \<longleftrightarrow> kept xp xp' \<and> none_from type n xp' \<and>
     (\<forall>t. t \<noteq> type \<longrightarrow> cdevs_of t xp' = cdevs_of t xp)"

text \<open>What is assumed of the kernel and of the device.\<close>

definition cdev_env_ok :: "cdev_env \<Rightarrow> bool" where
  "cdev_env_ok env \<longleftrightarrow> class_made env \<and> (\<forall>k. chrdev_rv env k \<le> 0 \<and> chrdev_major env k \<noteq> 0)"

definition channels_ok :: "xdma_dev \<Rightarrow> bool" where
  "channels_ok d \<longleftrightarrow> (\<forall>dir i e. arr_get (int i) (engines_of d dir) = Some e \<longrightarrow> e_magic e = MAGIC_ENGINE \<longrightarrow> e_channel e = i)"

lemma grown_trans: "grown type n xp xp1 \<Longrightarrow> grown type m xp1 xp2 \<Longrightarrow> grown type m xp xp2"
  by (auto simp: grown_def kept_def)

lemma shows_at_dead [simp]: "\<not> live c \<Longrightarrow> shows_at p c = 0"
  by (simp add: shows_at_def)

lemma create_at_ok:
  assumes "create_at env d type i bar eng xp w = Some (rv, xp', w')" "0 \<le> rv" "cdev_env_ok env"
    and inv: "ifaces bc bn xp w" and n: "none_from type i xp" "i < room_of type"
    and m: "cdev_minor type bar (case engine_at d eng of None \<Rightarrow> 0 | Some e \<Rightarrow> e_channel e) = minor_at type i"
  shows "ifaces bc bn xp' w' \<and> grown type (Suc i) xp xp' \<and> x_major xp' \<noteq> 0"
proof -
  let ?cs = "cdevs_of type xp"
  define M where "M = (if x_major xp = 0 then chrdev_major env (ktrace w) else x_major xp)"
  have l: "length (cdevs_of t xp) = room_of t" for t using inv by (simp add: ifaces_def)
  have dead: "\<not> live (?cs ! i)" using n l by (simp add: none_from_def)
  obtain xp1 c' where c: "create_xcdev env d xp (?cs ! i) bar eng type w = Some (rv, xp1, c', w')"
    and x: "xp' = set_cdev type i c' xp1"
    using assms(1) n(2) l[of type] by (auto simp: create_at_def arr_get_def split: bind_splits if_splits)
  have env: "class_made env" "chrdev_rv env k \<le> 0" "chrdev_major env k \<noteq> 0" for k
    using assms(3) by (simp_all add: cdev_env_ok_def)
  note r = create_xcdev_result[OF c assms(2) env(1,2), folded M_def, unfolded m]
  have M: "M \<noteq> 0" "x_major xp \<noteq> 0 \<Longrightarrow> M = x_major xp" using env(3) by (simp_all add: M_def)
  have i: "i < length (cdevs_of type xp1)" using n(2) l by (simp add: r(2))
  have s: "shows_at p c' = (if p = (M, minor_at type i) then 1 else 0)" for p
    using r(3,6,7) by (cases p) (auto simp: shows_at_def)
  have t: "total_shown p xp' = total_shown p xp + (if p = (M, minor_at type i) then 1 else 0)" for p
    using dead by (simp only: x total_shown_set[OF i] s) (simp add: r(2))
  have ch: "char_balance p (ktrace w') = char_balance p (ktrace w) + (if p = (M, minor_at type i) then 1 else 0)"
    and no: "node_balance p (ktrace w') = node_balance p (ktrace w) + (if p = (M, minor_at type i) then 1 else 0)" for p
    by (cases p; auto simp: r(8))+
  have cd: "cdevs_of t xp' = (if t = type then ?cs[i := c'] else cdevs_of t xp)" for t
    using n(2) l by (simp add: x r(2) cdevs_of_set_at)
  have all: "(\<forall>t. length (cdevs_of t xp') = room_of t \<and> (\<forall>j < room_of t. made M t j (cdevs_of t xp' ! j)))"
  proof (intro allI conjI impI)
    fix t j assume j: "j < room_of t"
    have "made M t j (cdevs_of t xp ! j)"
    proof (cases "x_major xp = 0")
      case True
      then show ?thesis using inv j l by (auto simp: ifaces_def none_from_def made_def)
    next
      case False
      then show ?thesis using inv j M(2) by (simp add: ifaces_def)
    qed
    moreover have "made M type i c'" using r(1,4-7) by (simp add: made_def)
    ultimately show "made M t j (cdevs_of t xp' ! j)" using j l[of type] by (cases "j = i") (auto simp: cd)
  qed (simp add: cd l)
  have xm: "x_major xp' = M" by (simp add: x r(2))
  have "ifaces bc bn xp' w'"
    using all inv M(1) unfolding ifaces_def xm t ch no by auto
  moreover have "grown type (Suc i) xp xp'"
    using n l by (auto simp: grown_def kept_def x r(2) none_from_def cdevs_of_set_at)
  ultimately show ?thesis using M(1) xm by simp
qed

lemma unless_failedE:
  assumes "unless_failed r f = Some (rv, xp', w')" "0 \<le> rv"
  obtains rv1 xp1 w1 where "r = Some (rv1, xp1, w1)" "0 \<le> rv1" "f xp1 w1 = Some (rv, xp', w')"
  using assms by (auto simp: unless_failed_def split: bind_splits if_splits)

lemma create_events_ok:
  "create_events env d n i xp w = Some (rv, xp', w') \<Longrightarrow> 0 \<le> rv \<Longrightarrow> cdev_env_ok env \<Longrightarrow> ifaces bc bn xp w \<Longrightarrow>
   none_from CHAR_EVENTS i xp \<Longrightarrow> i + n \<le> 16 \<Longrightarrow> x_major xp \<noteq> 0 \<Longrightarrow>
   ifaces bc bn xp' w' \<and> grown CHAR_EVENTS (i + n) xp xp' \<and> x_major xp' \<noteq> 0"
proof (induction n arbitrary: i xp w)
  case 0
  then show ?case by (simp add: grown_def kept_def)
next
  case (Suc n)
  obtain rv1 xp1 w1 where c: "create_at env d CHAR_EVENTS i (int i) None xp w = Some (rv1, xp1, w1)" "0 \<le> rv1"
    and rest: "create_events env d n (Suc i) xp1 w1 = Some (rv, xp', w')"
    using Suc.prems(1,2) by (auto split: bind_splits if_splits)
  have m: "cdev_minor CHAR_EVENTS (int i) (case engine_at d None of None \<Rightarrow> 0 | Some e \<Rightarrow> e_channel e) = minor_at CHAR_EVENTS i"
    "i < room_of CHAR_EVENTS"
    using Suc.prems(6) by (simp_all add: minor_at_def cdev_minor_def room_of_def)
  note a = create_at_ok[OF c Suc.prems(3,4,5) m(2,1)]
  have "none_from CHAR_EVENTS (Suc i) xp1" using a by (simp add: grown_def)
  then show ?case
    using Suc.IH[OF rest Suc.prems(2,3) conjunct1[OF a]] a Suc.prems(6) grown_trans[of CHAR_EVENTS "Suc i" xp xp1] by auto
qed

lemma create_channels_ok:
  "create_channels env d type dir n i xp w = Some (rv, xp', w') \<Longrightarrow> 0 \<le> rv \<Longrightarrow> cdev_env_ok env \<Longrightarrow> ifaces bc bn xp w \<Longrightarrow>
   none_from type i xp \<Longrightarrow> i + n \<le> 4 \<Longrightarrow> x_major xp \<noteq> 0 \<Longrightarrow> channels_ok d \<Longrightarrow>
   type \<in> {CHAR_XDMA_H2C, CHAR_XDMA_C2H, CHAR_BYPASS_H2C, CHAR_BYPASS_C2H} \<Longrightarrow>
   ifaces bc bn xp' w' \<and> grown type (i + n) xp xp' \<and> x_major xp' \<noteq> 0"
proof (induction n arbitrary: i xp w)
  case 0
  then show ?case by (simp add: grown_def kept_def)
next
  case (Suc n)
  obtain e where e: "arr_get (int i) (engines_of d dir) = Some e" using Suc.prems(1) by (auto split: bind_splits)
  show ?case
  proof (cases "e_magic e = MAGIC_ENGINE")
    case False
    then have "create_channels env d type dir n (Suc i) xp w = Some (rv, xp', w')" using Suc.prems(1) e by simp
    moreover have "none_from type (Suc i) xp" using Suc.prems(5) by (simp add: none_from_def)
    ultimately show ?thesis using Suc.IH[of "Suc i" xp w] Suc.prems by simp
  next
    case True
    obtain rv1 xp1 w1 where c: "create_at env d type i (int i) (Some (dir, i)) xp w = Some (rv1, xp1, w1)" "0 \<le> rv1"
      and rest: "create_channels env d type dir n (Suc i) xp1 w1 = Some (rv, xp', w')"
      using Suc.prems(1,2) e True by (auto split: bind_splits if_splits)
    have "e_channel e = i" using Suc.prems(8) e True by (simp add: channels_ok_def)
    then have m: "cdev_minor type (int i) (case engine_at d (Some (dir, i)) of None \<Rightarrow> 0 | Some e \<Rightarrow> e_channel e) = minor_at type i"
      "i < room_of type"
      using Suc.prems(6,9) e by (auto simp: minor_at_def engine_at_def room_of_def)
    note a = create_at_ok[OF c Suc.prems(3,4,5) m(2,1)]
    have "none_from type (Suc i) xp1" using a by (simp add: grown_def)
    then show ?thesis
      using Suc.IH[OF rest Suc.prems(2,3) conjunct1[OF a]] a Suc.prems(6,8,9) grown_trans[of type "Suc i" xp xp1] by auto
  qed
qed

section \<open>Removing the interfaces\<close>

definition sound :: "xdma_pci_dev \<Rightarrow> bool" where
  "sound xp \<longleftrightarrow> (\<forall>type. \<forall>c \<in> set (cdevs_of type xp). live c \<longrightarrow> c_xdev c \<noteq> None \<and> c_sys_device c)"

text \<open>A group of devices that the flag covers: those beyond \<^verbatim>\<open>n\<close>, or all without the flag, were not made.\<close>

definition covered :: "xpdev_flags_bits \<Rightarrow> cdev_type \<times> nat \<Rightarrow> xdma_pci_dev \<Rightarrow> bool" where
  "covered f g xp \<longleftrightarrow> snd g \<le> length (cdevs_of (fst g) xp) \<and> none_from (fst g) (snd g) xp \<and>
     (xpdev_flag_test f xp \<or> none_from (fst g) 0 xp)"

definition lowered :: "(nat \<times> nat \<Rightarrow> int) \<Rightarrow> world \<Rightarrow> world \<Rightarrow> bool" where
  "lowered h w w' \<longleftrightarrow> (\<forall>p. char_balance p (ktrace w') = char_balance p (ktrace w) - h p \<and>
     node_balance p (ktrace w') = node_balance p (ktrace w) - h p)"

lemma lowered_trans: "lowered h w w1 \<Longrightarrow> lowered g w1 w2 \<Longrightarrow> lowered (\<lambda>p. h p + g p) w w2"
  by (simp add: lowered_def)

lemma destroy_one:
  assumes "live c \<longrightarrow> c_xdev c \<noteq> None \<and> c_sys_device c" "class_made env"
  shows "\<exists>w'. destroy_xcdev env c w = Some (0, w') \<and> lowered (\<lambda>p. shows_at p c) w w'"
  using assms by (cases "live c") (auto simp: destroy_xcdev_def live_def shows_at_def lowered_def)

lemma destroy_loop_ok:
  "sound xp \<Longrightarrow> class_made env \<Longrightarrow> i + n \<le> length (cdevs_of type xp) \<Longrightarrow>
   \<exists>w'. destroy_loop env type n i xp w = Some w' \<and>
     lowered (\<lambda>p. sum_list (map (shows_at p) (take n (drop i (cdevs_of type xp))))) w w'"
proof (induction n arbitrary: i w)
  case (Suc n)
  let ?c = "cdevs_of type xp ! i"
  have i: "i < length (cdevs_of type xp)" using Suc.prems(3) by simp
  have "live ?c \<longrightarrow> c_xdev ?c \<noteq> None \<and> c_sys_device ?c" using Suc.prems(1) i unfolding sound_def by (metis nth_mem)
  from destroy_one[OF this Suc.prems(2)] obtain w1 where
    w1: "destroy_xcdev env ?c w = Some (0, w1)" "lowered (\<lambda>p. shows_at p ?c) w w1" by blast
  obtain w' where w': "destroy_loop env type n (Suc i) xp w1 = Some w'"
    "lowered (\<lambda>p. sum_list (map (shows_at p) (take n (drop (Suc i) (cdevs_of type xp))))) w1 w'"
    using Suc.IH[of "Suc i" w1] Suc.prems by auto
  have d: "take (Suc n) (drop i (cdevs_of type xp)) = ?c # take n (drop (Suc i) (cdevs_of type xp))"
    using i by (simp flip: Cons_nth_drop_Suc)
  show ?case using lowered_trans[OF w1(2) w'(2)] w1(1) w'(1) i unfolding d by simp
qed (simp add: lowered_def)

lemma none_from_sum: "none_from type n xp \<Longrightarrow> sum_list (map (shows_at p) (drop n (cdevs_of type xp))) = 0"
proof (rule all_zero, rule ballI)
  fix c assume n: "none_from type n xp" and "c \<in> set (drop n (cdevs_of type xp))"
  then obtain j where "j < length (drop n (cdevs_of type xp))" "c = drop n (cdevs_of type xp) ! j"
    unfolding in_set_conv_nth by blast
  then have "c = cdevs_of type xp ! (n + j)" "n + j < length (cdevs_of type xp)" by simp_all
  then show "shows_at p c = 0" using n by (simp add: none_from_def)
qed

lemma shown_take: "none_from type n xp \<Longrightarrow> sum_list (map (shows_at p) (take n (cdevs_of type xp))) = shown p type xp"
  using none_from_sum[of type n xp p] unfolding shown_def
  by (metis add.right_neutral append_take_drop_id map_append sum_list_append)

lemma shown_none: "none_from type 0 xp \<Longrightarrow> shown p type xp = 0"
  using none_from_sum[of type 0 xp p] by (simp add: shown_def)

lemma destroy_if_ok:
  assumes "sound xp" "class_made env" "\<forall>g \<in> set gs. covered f g xp"
  shows "\<exists>w'. destroy_if env f gs xp w = Some w' \<and> lowered (\<lambda>p. \<Sum>g \<leftarrow> gs. shown p (fst g) xp) w w'"
proof (cases "xpdev_flag_test f xp")
  case True
  have "\<exists>w'. fold (\<lambda>(type, n) r. Option.bind r (destroy_loop env type n 0 xp)) gs (Some w) = Some w' \<and>
      lowered (\<lambda>p. \<Sum>g \<leftarrow> gs. shown p (fst g) xp) w w'"
    using assms(3)
  proof (induction gs arbitrary: w)
    case (Cons g gs)
    obtain t n where g: "g = (t, n)" by force
    have c: "n \<le> length (cdevs_of t xp)" "none_from t n xp" using Cons.prems by (simp_all add: g covered_def)
    obtain w1 where w1: "destroy_loop env t n 0 xp w = Some w1" "lowered (\<lambda>p. shown p t xp) w w1"
      using destroy_loop_ok[OF assms(1,2), of 0 n t w] c by (auto simp: shown_take)
    obtain w2 where "fold (\<lambda>(type, n) r. Option.bind r (destroy_loop env type n 0 xp)) gs (Some w1) = Some w2"
      "lowered (\<lambda>p. \<Sum>g \<leftarrow> gs. shown p (fst g) xp) w1 w2"
      using Cons.IH[of w1] Cons.prems by auto
    then show ?case using lowered_trans[OF w1(2)] w1(1) by (auto simp: g)
  qed (simp add: lowered_def)
  then show ?thesis using True by (simp add: destroy_if_def)
next
  case False
  then have "\<forall>g \<in> set gs. shown p (fst g) xp = 0" for p using assms(3) by (auto simp: covered_def shown_none)
  then have "(\<Sum>g \<leftarrow> gs. shown p (fst g) xp) = 0" for p by (intro all_zero) blast
  then show ?thesis using False by (simp add: destroy_if_def lowered_def)
qed

text \<open>The groups that the removal visits.\<close>

definition groups :: "xdma_pci_dev \<Rightarrow> (xpdev_flags_bits \<times> (cdev_type \<times> nat) list) list" where
  "groups xp =
     [(XDF_CDEV_SG, [(CHAR_XDMA_H2C, x_h2c_channel_max xp), (CHAR_XDMA_C2H, x_c2h_channel_max xp)]),
      (XDF_CDEV_EVENT, [(CHAR_EVENTS, x_user_max xp)]), (XDF_CDEV_CTRL, [(CHAR_CTRL, 1)]),
      (XDF_CDEV_USER, [(CHAR_USER, 1)]), (XDF_CDEV_XVC, [(CHAR_XVC, 1)]),
      (XDF_CDEV_BYPASS, [(CHAR_BYPASS_H2C, x_h2c_channel_max xp), (CHAR_BYPASS_C2H, x_c2h_channel_max xp), (CHAR_BYPASS, 1)])]"

lemma destroy_interfaces_ok:
  assumes "sound xp" "class_made env" "\<forall>(f, gs) \<in> set (groups xp). \<forall>g \<in> set gs. covered f g xp"
  shows "\<exists>w'. xpdev_destroy_interfaces env xp w = Some w' \<and> lowered (\<lambda>p. total_shown p xp) w w'"
proof -
  note d = destroy_if_ok[OF assms(1,2)]
  have c: "\<forall>g \<in> set gs. covered f g xp" if "(f, gs) \<in> set (groups xp)" for f gs using assms(3) that by blast
  obtain w1 where w1: "destroy_if env XDF_CDEV_SG [(CHAR_XDMA_H2C, x_h2c_channel_max xp), (CHAR_XDMA_C2H, x_c2h_channel_max xp)] xp w = Some w1"
    "lowered (\<lambda>p. shown p CHAR_XDMA_H2C xp + shown p CHAR_XDMA_C2H xp) w w1"
    using d[OF c[of XDF_CDEV_SG "[(CHAR_XDMA_H2C, x_h2c_channel_max xp), (CHAR_XDMA_C2H, x_c2h_channel_max xp)]"], of w] by (auto simp: groups_def)
  obtain w2 where w2: "destroy_if env XDF_CDEV_EVENT [(CHAR_EVENTS, x_user_max xp)] xp w1 = Some w2" "lowered (\<lambda>p. shown p CHAR_EVENTS xp) w1 w2"
    using d[OF c[of XDF_CDEV_EVENT "[(CHAR_EVENTS, x_user_max xp)]"], of w1] by (auto simp: groups_def)
  obtain w3 where w3: "destroy_if env XDF_CDEV_CTRL [(CHAR_CTRL, 1)] xp w2 = Some w3" "lowered (\<lambda>p. shown p CHAR_CTRL xp) w2 w3"
    using d[OF c[of XDF_CDEV_CTRL "[(CHAR_CTRL, 1)]"], of w2] by (auto simp: groups_def)
  obtain w4 where w4: "destroy_if env XDF_CDEV_USER [(CHAR_USER, 1)] xp w3 = Some w4" "lowered (\<lambda>p. shown p CHAR_USER xp) w3 w4"
    using d[OF c[of XDF_CDEV_USER "[(CHAR_USER, 1)]"], of w3] by (auto simp: groups_def)
  obtain w5 where w5: "destroy_if env XDF_CDEV_XVC [(CHAR_XVC, 1)] xp w4 = Some w5" "lowered (\<lambda>p. shown p CHAR_XVC xp) w4 w5"
    using d[OF c[of XDF_CDEV_XVC "[(CHAR_XVC, 1)]"], of w4] by (auto simp: groups_def)
  obtain w6 where w6: "destroy_if env XDF_CDEV_BYPASS [(CHAR_BYPASS_H2C, x_h2c_channel_max xp), (CHAR_BYPASS_C2H, x_c2h_channel_max xp), (CHAR_BYPASS, 1)] xp w5 = Some w6"
    "lowered (\<lambda>p. shown p CHAR_BYPASS_H2C xp + (shown p CHAR_BYPASS_C2H xp + shown p CHAR_BYPASS xp)) w5 w6"
    using d[OF c[of XDF_CDEV_BYPASS "[(CHAR_BYPASS_H2C, x_h2c_channel_max xp), (CHAR_BYPASS_C2H, x_c2h_channel_max xp), (CHAR_BYPASS, 1)]"], of w5]
    by (auto simp: groups_def)
  have "lowered (\<lambda>p. total_shown p xp) w w6"
    using lowered_trans[OF lowered_trans[OF lowered_trans[OF lowered_trans[OF lowered_trans[OF w1(2) w2(2)] w3(2)] w4(2)] w5(2)] w6(2)]
    by (simp add: lowered_def total_shown_def all_types_def)
  moreover have "lowered h w w6 \<Longrightarrow> lowered h w (if x_major xp \<noteq> 0 then kcall (ChrdevRegionFreed (x_major xp)) w6 else w6)" for h
    by (simp add: lowered_def)
  ultimately show ?thesis using w1(1) w2(1) w3(1) w4(1) w5(1) w6(1) by (auto simp: xpdev_destroy_interfaces_def)
qed

section \<open>Creating the interfaces\<close>

lemma flag_set_frame [simp]:
  "x_major (xpdev_flag_set f xp) = x_major xp" "x_xdev (xpdev_flag_set f xp) = x_xdev xp"
  "x_user_max (xpdev_flag_set f xp) = x_user_max xp" "x_h2c_channel_max (xpdev_flag_set f xp) = x_h2c_channel_max xp"
  "x_c2h_channel_max (xpdev_flag_set f xp) = x_c2h_channel_max xp"
  "none_from type n (xpdev_flag_set f xp) = none_from type n xp"
  "ifaces bc bn (xpdev_flag_set f xp) w = ifaces bc bn xp w"
  by (simp_all add: xpdev_flag_set_def none_from_def ifaces_def flip: xpdev_flag_set_def)
    (simp_all add: xpdev_flag_set_def)

lemma flag_test_bit: "xpdev_flag_test f xp \<longleftrightarrow> bit (x_flags xp) (flag_bit f)"
  by (simp add: xpdev_flag_test_def push_bit_eq_mult and_exp_eq_0_iff_not_bit)

lemma flag_test_set: "xpdev_flag_test f (xpdev_flag_set g xp) \<longleftrightarrow> f = g \<or> xpdev_flag_test f xp"
  unfolding flag_test_bit by (cases f; cases g) (simp_all add: xpdev_flag_set_def bit_simps)

definition built :: "cdev_type set \<Rightarrow> xpdev_flags_bits set \<Rightarrow> xdma_pci_dev \<Rightarrow> xdma_pci_dev \<Rightarrow> bool" where
  "built S F xp xp' \<longleftrightarrow> x_user_max xp' = x_user_max xp \<and> x_h2c_channel_max xp' = x_h2c_channel_max xp \<and>
     x_c2h_channel_max xp' = x_c2h_channel_max xp \<and> x_major xp' \<noteq> 0 \<and>
     (\<forall>t. t \<notin> S \<longrightarrow> cdevs_of t xp' = cdevs_of t xp) \<and>
     (\<forall>f. xpdev_flag_test f xp' \<longleftrightarrow> f \<in> F \<or> xpdev_flag_test f xp)"

lemma grown_built: "grown type n xp xp' \<Longrightarrow> 0 < x_major xp' \<Longrightarrow> built {type} {} xp xp' \<and> none_from type n xp'"
  by (auto simp: grown_def kept_def built_def xpdev_flag_test_def)

lemma built_flag: "x_major xp \<noteq> 0 \<Longrightarrow> built {} {f} xp (xpdev_flag_set f xp)"
  by (simp add: built_def flag_test_set)

lemma built_refl: "x_major xp \<noteq> 0 \<Longrightarrow> built {} {} xp xp"
  by (simp add: built_def)

lemma built_trans: "built S F xp xp1 \<Longrightarrow> built T G xp1 xp2 \<Longrightarrow> built (S \<union> T) (F \<union> G) xp xp2"
  by (auto simp: built_def)

lemma built_none: "built S F xp xp' \<Longrightarrow> t \<notin> S \<Longrightarrow> none_from t n xp' = none_from t n xp"
  by (simp add: built_def none_from_def)

lemma create_single_ok:
  assumes "create_at env d type 0 bar None xp w = Some (rv, xp', w')" "0 \<le> rv" "cdev_env_ok env"
    and "ifaces bc bn xp w" "none_from type 0 xp" "type \<in> {CHAR_CTRL, CHAR_USER, CHAR_XVC, CHAR_BYPASS}"
  shows "ifaces bc bn xp' w' \<and> built {type} {} xp xp' \<and> none_from type 1 xp'"
proof -
  have m: "cdev_minor type bar (case engine_at d None of None \<Rightarrow> 0 | Some e \<Rightarrow> e_channel e) = minor_at type 0" "0 < room_of type"
    using assms(6) by (auto simp: minor_at_def cdev_minor_def engine_at_def room_of_def)
  show ?thesis using create_at_ok[OF assms(1-5) m(2,1)] by (auto dest: grown_built)
qed

text \<open>The parts of the creation, each with the types of devices it makes and the flags it sets.\<close>

lemma ctrl_events_ok:
  assumes "create_ctrl_events env d xp w = Some (rv, xp', w')" "0 \<le> rv" "cdev_env_ok env"
    and "ifaces bc bn xp w" "\<And>t. none_from t 0 xp" "x_user_max xp \<le> 16"
  shows "ifaces bc bn xp' w' \<and> built {CHAR_CTRL, CHAR_EVENTS} {XDF_CDEV_CTRL, XDF_CDEV_EVENT} xp xp' \<and>
    none_from CHAR_CTRL 1 xp' \<and> none_from CHAR_EVENTS (x_user_max xp) xp'"
proof -
  obtain r1 xp1 w1 where s1: "create_at env d CHAR_CTRL 0 (d_config_bar_idx d) None xp w = Some (r1, xp1, w1)" "0 \<le> r1"
    and k1: "unless_failed (create_events env d (x_user_max xp1) 0 (xpdev_flag_set XDF_CDEV_CTRL xp1) w1)
        (\<lambda>xp w. Some (0, xpdev_flag_set XDF_CDEV_EVENT xp, w)) = Some (rv, xp', w')"
    by (rule unless_failedE[OF assms(1)[unfolded create_ctrl_events_def] assms(2)]) (rule that)
  have c1: "ifaces bc bn xp1 w1 \<and> built {CHAR_CTRL} {} xp xp1 \<and> none_from CHAR_CTRL 1 xp1"
    using create_single_ok[OF s1 assms(3,4,5)] by simp
  then have u: "x_user_max xp1 = x_user_max xp" "x_major xp1 \<noteq> 0" by (simp_all add: built_def)
  obtain r2 xp2 where s2: "create_events env d (x_user_max xp1) 0 (xpdev_flag_set XDF_CDEV_CTRL xp1) w1 = Some (r2, xp2, w')" "0 \<le> r2"
    and x: "xp' = xpdev_flag_set XDF_CDEV_EVENT xp2"
    by (rule unless_failedE[OF k1 assms(2)]) (rule that, auto)
  have e: "none_from CHAR_EVENTS 0 (xpdev_flag_set XDF_CDEV_CTRL xp1)" "0 + x_user_max xp1 \<le> 16"
      "x_major (xpdev_flag_set XDF_CDEV_CTRL xp1) \<noteq> 0" "ifaces bc bn (xpdev_flag_set XDF_CDEV_CTRL xp1) w1"
    using c1 assms(5,6) u built_none[of "{CHAR_CTRL}" "{}" xp xp1 CHAR_EVENTS 0] by simp_all
  have c2: "ifaces bc bn xp2 w' \<and> built {CHAR_EVENTS} {} (xpdev_flag_set XDF_CDEV_CTRL xp1) xp2 \<and> none_from CHAR_EVENTS (x_user_max xp) xp2"
    using create_events_ok[OF s2 assms(3) e(4,1,2,3)] u by (auto dest: grown_built)
  have b1: "built {CHAR_CTRL} {} xp xp1" and b3: "built {CHAR_EVENTS} {} (xpdev_flag_set XDF_CDEV_CTRL xp1) xp2"
    and m2: "x_major xp2 \<noteq> 0"
    using c1 c2 by (simp_all add: built_def)
  have b: "built {CHAR_CTRL, CHAR_EVENTS} {XDF_CDEV_CTRL, XDF_CDEV_EVENT} xp xp'"
    using built_trans[OF built_trans[OF built_trans[OF b1 built_flag[OF u(2)]] b3] built_flag[OF m2, of XDF_CDEV_EVENT]]
    by (simp add: x insert_commute)
  have "none_from CHAR_CTRL 1 xp2" using c1 c2 built_none[of "{CHAR_EVENTS}" "{}" _ xp2 CHAR_CTRL 1] by auto
  then show ?thesis using c2 b by (simp add: x)
qed

lemma channel_pair_ok:
  assumes "unless_failed (create_channels env d t1 DMA_TO_DEVICE (x_h2c_channel_max xp) 0 xp w)
      (\<lambda>xp w. unless_failed (create_channels env d t2 DMA_FROM_DEVICE (x_c2h_channel_max xp) 0 xp w) f) = Some (rv, xp', w')"
    and "0 \<le> rv" "cdev_env_ok env" "ifaces bc bn xp w" "none_from t1 0 xp" "none_from t2 0 xp" "t1 \<noteq> t2"
    and "x_h2c_channel_max xp \<le> 4" "x_c2h_channel_max xp \<le> 4" "x_major xp \<noteq> 0" "channels_ok d"
    and t: "t1 \<in> {CHAR_XDMA_H2C, CHAR_XDMA_C2H, CHAR_BYPASS_H2C, CHAR_BYPASS_C2H}"
      "t2 \<in> {CHAR_XDMA_H2C, CHAR_XDMA_C2H, CHAR_BYPASS_H2C, CHAR_BYPASS_C2H}"
  shows "\<exists>xp2 w2. f xp2 w2 = Some (rv, xp', w') \<and> ifaces bc bn xp2 w2 \<and> built {t1, t2} {} xp xp2 \<and>
    none_from t1 (x_h2c_channel_max xp) xp2 \<and> none_from t2 (x_c2h_channel_max xp) xp2"
proof -
  obtain r1 xp1 w1 where s1: "create_channels env d t1 DMA_TO_DEVICE (x_h2c_channel_max xp) 0 xp w = Some (r1, xp1, w1)" "0 \<le> r1"
    and k1: "unless_failed (create_channels env d t2 DMA_FROM_DEVICE (x_c2h_channel_max xp1) 0 xp1 w1) f = Some (rv, xp', w')"
    by (rule unless_failedE[OF assms(1,2)]) (rule that)
  have b: "0 + x_h2c_channel_max xp \<le> 4" using assms(8) by simp
  have c1: "ifaces bc bn xp1 w1 \<and> built {t1} {} xp xp1 \<and> none_from t1 (x_h2c_channel_max xp) xp1"
    using create_channels_ok[OF s1 assms(3,4,5) b assms(10,11) t(1)] by (auto dest: grown_built)
  then have u: "x_c2h_channel_max xp1 = x_c2h_channel_max xp" "x_major xp1 \<noteq> 0" by (simp_all add: built_def)
  obtain r2 xp2 w2 where s2: "create_channels env d t2 DMA_FROM_DEVICE (x_c2h_channel_max xp1) 0 xp1 w1 = Some (r2, xp2, w2)" "0 \<le> r2"
    and k2: "f xp2 w2 = Some (rv, xp', w')"
    by (rule unless_failedE[OF k1 assms(2)]) (rule that)
  have n2: "none_from t2 0 xp1" "0 + x_c2h_channel_max xp1 \<le> 4"
    using c1 assms(6,7,9) u built_none[of "{t1}" "{}" xp xp1 t2 0] by simp_all
  have c2: "ifaces bc bn xp2 w2 \<and> built {t2} {} xp1 xp2 \<and> none_from t2 (x_c2h_channel_max xp) xp2"
    using create_channels_ok[OF s2 assms(3) conjunct1[OF c1] n2 u(2) assms(11) t(2)] u by (auto dest: grown_built)
  have "built {t1, t2} {} xp xp2" using c1 c2 built_trans[of "{t1}" "{}" xp xp1 "{t2}" "{}" xp2] by (simp add: insert_commute)
  moreover have "none_from t1 (x_h2c_channel_max xp) xp2"
    using c1 c2 assms(7) built_none[of "{t2}" "{}" xp1 xp2 t1] by simp
  ultimately show ?thesis using k2 c2 by blast
qed

lemma sgdma_ok:
  assumes "create_sgdma env d xp w = Some (rv, xp', w')" "0 \<le> rv" "cdev_env_ok env" "channels_ok d"
    and "ifaces bc bn xp w" "none_from CHAR_XDMA_H2C 0 xp" "none_from CHAR_XDMA_C2H 0 xp"
    and "x_h2c_channel_max xp \<le> 4" "x_c2h_channel_max xp \<le> 4" "x_major xp \<noteq> 0"
  shows "ifaces bc bn xp' w' \<and> built {CHAR_XDMA_H2C, CHAR_XDMA_C2H} {XDF_CDEV_SG} xp xp' \<and>
    none_from CHAR_XDMA_H2C (x_h2c_channel_max xp) xp' \<and> none_from CHAR_XDMA_C2H (x_c2h_channel_max xp) xp'"
proof -
  obtain xp2 where "xp' = xpdev_flag_set XDF_CDEV_SG xp2" "ifaces bc bn xp2 w'"
    and b: "built {CHAR_XDMA_H2C, CHAR_XDMA_C2H} {} xp xp2"
    and "none_from CHAR_XDMA_H2C (x_h2c_channel_max xp) xp2" "none_from CHAR_XDMA_C2H (x_c2h_channel_max xp) xp2"
    using channel_pair_ok[OF assms(1)[unfolded create_sgdma_def] assms(2,3,5,6,7) _ assms(8,9,10,4)] by auto
  then show ?thesis using built_trans[OF b built_flag] by (auto simp: built_def)
qed

lemma bypass_ok:
  assumes "create_bypass env d xp w = Some (rv, xp', w')" "0 \<le> rv" "cdev_env_ok env" "channels_ok d"
    and "ifaces bc bn xp w" "none_from CHAR_BYPASS_H2C 0 xp" "none_from CHAR_BYPASS_C2H 0 xp" "none_from CHAR_BYPASS 0 xp"
    and "x_h2c_channel_max xp \<le> 4" "x_c2h_channel_max xp \<le> 4" "x_major xp \<noteq> 0"
  shows "\<exists>F. ifaces bc bn xp' w' \<and> built {CHAR_BYPASS_H2C, CHAR_BYPASS_C2H, CHAR_BYPASS} F xp xp' \<and>
    (F = {XDF_CDEV_BYPASS} \<and> none_from CHAR_BYPASS_H2C (x_h2c_channel_max xp) xp' \<and>
       none_from CHAR_BYPASS_C2H (x_c2h_channel_max xp) xp' \<and> none_from CHAR_BYPASS 1 xp' \<or>
     F = {} \<and> none_from CHAR_BYPASS_H2C 0 xp' \<and> none_from CHAR_BYPASS_C2H 0 xp' \<and> none_from CHAR_BYPASS 0 xp')"
proof (cases "d_bypass_bar_idx d > 0")
  case False
  then have "xp' = xp" "w' = w" using assms(1) by (simp_all add: create_bypass_def)
  then show ?thesis using assms by (intro exI[of _ "{}"]) (simp add: built_def)
next
  case True
  let ?f = "\<lambda>xp w. unless_failed (create_at env d CHAR_BYPASS 0 (d_bypass_bar_idx d) None xp w)
    (\<lambda>xp w. Some (0 :: int, xpdev_flag_set XDF_CDEV_BYPASS xp, w))"
  have c: "unless_failed (create_channels env d CHAR_BYPASS_H2C DMA_TO_DEVICE (x_h2c_channel_max xp) 0 xp w)
      (\<lambda>xp w. unless_failed (create_channels env d CHAR_BYPASS_C2H DMA_FROM_DEVICE (x_c2h_channel_max xp) 0 xp w) ?f) = Some (rv, xp', w')"
    using assms(1) True by (simp add: create_bypass_def)
  obtain xp2 w2 where s: "?f xp2 w2 = Some (rv, xp', w')" and i2: "ifaces bc bn xp2 w2"
    and b2: "built {CHAR_BYPASS_H2C, CHAR_BYPASS_C2H} {} xp xp2"
    and n2: "none_from CHAR_BYPASS_H2C (x_h2c_channel_max xp) xp2" "none_from CHAR_BYPASS_C2H (x_c2h_channel_max xp) xp2"
    using channel_pair_ok[OF c assms(2,3,5,6,7) _ assms(9,10,11,4)] by auto
  obtain r3 xp3 where s3: "create_at env d CHAR_BYPASS 0 (d_bypass_bar_idx d) None xp2 w2 = Some (r3, xp3, w')" "0 \<le> r3"
    and x: "xp' = xpdev_flag_set XDF_CDEV_BYPASS xp3"
    by (rule unless_failedE[OF s assms(2)]) (rule that, auto)
  have n: "none_from CHAR_BYPASS 0 xp2" using assms(8) built_none[OF b2] by simp
  have c3: "ifaces bc bn xp3 w' \<and> built {CHAR_BYPASS} {} xp2 xp3 \<and> none_from CHAR_BYPASS 1 xp3"
    using create_single_ok[OF s3 assms(3) i2 n] by simp
  then have b3: "built {CHAR_BYPASS} {} xp2 xp3" and m3: "x_major xp3 \<noteq> 0" by (simp_all add: built_def)
  have "built {CHAR_BYPASS_H2C, CHAR_BYPASS_C2H, CHAR_BYPASS} {XDF_CDEV_BYPASS} xp xp'"
    using built_trans[OF built_trans[OF b2 b3] built_flag[OF m3]] by (simp add: x insert_commute)
  moreover have "none_from CHAR_BYPASS_H2C (x_h2c_channel_max xp) xp3" "none_from CHAR_BYPASS_C2H (x_c2h_channel_max xp) xp3"
    using n2 built_none[OF b3] by simp_all
  ultimately show ?thesis using c3 by (intro exI[of _ "{XDF_CDEV_BYPASS}"]) (simp add: x)
qed

lemma user_ok:
  assumes "create_user env d xp w = Some (rv, xp', w')" "0 \<le> rv" "cdev_env_ok env"
    and "ifaces bc bn xp w" "none_from CHAR_USER 0 xp" "none_from CHAR_XVC 0 xp" "x_major xp \<noteq> 0"
  shows "\<exists>F. ifaces bc bn xp' w' \<and> built {CHAR_USER, CHAR_XVC} F xp xp' \<and>
    (F = {XDF_CDEV_USER, XDF_CDEV_XVC} \<and> none_from CHAR_USER 1 xp' \<and> none_from CHAR_XVC 1 xp' \<or>
     F = {} \<and> none_from CHAR_USER 0 xp' \<and> none_from CHAR_XVC 0 xp')"
proof (cases "d_user_bar_idx d \<ge> 0")
  case False
  then have "xp' = xp" "w' = w" using assms(1) by (simp_all add: create_user_def)
  then show ?thesis using assms by (intro exI[of _ "{}"]) (simp add: built_def)
next
  case True
  have c: "unless_failed (create_at env d CHAR_USER 0 (d_user_bar_idx d) None xp w) (\<lambda>xp w.
        unless_failed (create_at env d CHAR_XVC 0 (d_user_bar_idx d) None (xpdev_flag_set XDF_CDEV_USER xp) w) (\<lambda>xp w.
        Some (0, xpdev_flag_set XDF_CDEV_XVC xp, w))) = Some (rv, xp', w')"
    using assms(1) True by (simp add: create_user_def)
  obtain r1 xp1 w1 where s1: "create_at env d CHAR_USER 0 (d_user_bar_idx d) None xp w = Some (r1, xp1, w1)" "0 \<le> r1"
    and k1: "unless_failed (create_at env d CHAR_XVC 0 (d_user_bar_idx d) None (xpdev_flag_set XDF_CDEV_USER xp1) w1) (\<lambda>xp w.
        Some (0, xpdev_flag_set XDF_CDEV_XVC xp, w)) = Some (rv, xp', w')"
    by (rule unless_failedE[OF c assms(2)]) (rule that)
  have c1: "ifaces bc bn xp1 w1 \<and> built {CHAR_USER} {} xp xp1 \<and> none_from CHAR_USER 1 xp1"
    using create_single_ok[OF s1 assms(3,4,5)] by simp
  then have b1: "built {CHAR_USER} {} xp xp1" and m1: "x_major xp1 \<noteq> 0" by (simp_all add: built_def)
  obtain r2 xp2 where s2: "create_at env d CHAR_XVC 0 (d_user_bar_idx d) None (xpdev_flag_set XDF_CDEV_USER xp1) w1 = Some (r2, xp2, w')" "0 \<le> r2"
    and x: "xp' = xpdev_flag_set XDF_CDEV_XVC xp2"
    by (rule unless_failedE[OF k1 assms(2)]) (rule that, auto)
  have i1: "ifaces bc bn (xpdev_flag_set XDF_CDEV_USER xp1) w1" "none_from CHAR_XVC 0 (xpdev_flag_set XDF_CDEV_USER xp1)"
    using c1 assms(6) built_none[OF b1] by simp_all
  have c2: "ifaces bc bn xp2 w' \<and> built {CHAR_XVC} {} (xpdev_flag_set XDF_CDEV_USER xp1) xp2 \<and> none_from CHAR_XVC 1 xp2"
    using create_single_ok[OF s2 assms(3) i1] by simp
  then have b2: "built {CHAR_XVC} {} (xpdev_flag_set XDF_CDEV_USER xp1) xp2" and m2: "x_major xp2 \<noteq> 0"
    by (simp_all add: built_def)
  have "built {CHAR_USER, CHAR_XVC} {XDF_CDEV_USER, XDF_CDEV_XVC} xp xp'"
    using built_trans[OF built_trans[OF built_trans[OF b1 built_flag[OF m1]] b2] built_flag[OF m2, of XDF_CDEV_XVC]]
    by (simp add: x insert_commute)
  moreover have "none_from CHAR_USER 1 xp2" using c1 built_none[OF b2] by simp
  ultimately show ?thesis using c2 by (intro exI[of _ "{XDF_CDEV_USER, XDF_CDEV_XVC}"]) (simp add: x)
qed

text \<open>A structure as \<^verbatim>\<open>xpdev_alloc\<close> leaves it, with the maxima that opening the device has set.\<close>

definition fresh :: "xdma_pci_dev \<Rightarrow> bool" where
  "fresh xp \<longleftrightarrow> x_major xp = 0 \<and> x_flags xp = 0 \<and> x_user_max xp \<le> 16 \<and> x_h2c_channel_max xp \<le> 4 \<and>
     x_c2h_channel_max xp \<le> 4 \<and> (\<forall>type. cdevs_of type xp = replicate (room_of type) zero_cdev)"

lemma zero_cdev_dead [simp]: "\<not> live zero_cdev"
  by (simp add: live_def zero_cdev_def MAGIC_CHAR_def)

lemma fresh_ok:
  assumes "fresh xp"
  shows "ifaces (\<lambda>p. char_balance p (ktrace w)) (\<lambda>p. node_balance p (ktrace w)) xp w" "none_from t 0 xp"
proof -
  have l: "length (cdevs_of t xp) = room_of t" and n: "none_from t 0 xp" for t
    using assms by (simp_all add: fresh_def none_from_def)
  have "shown p t xp = 0" for p t using n shown_none by simp
  then have "total_shown p xp = 0" for p by (simp add: total_shown_def all_types_def)
  moreover have "made M t i (cdevs_of t xp ! i)" if "i < room_of t" for M t i
    using assms that by (simp add: fresh_def made_def)
  ultimately show "ifaces (\<lambda>p. char_balance p (ktrace w)) (\<lambda>p. node_balance p (ktrace w)) xp w" "none_from t 0 xp"
    using l n by (simp_all add: ifaces_def)
qed

lemma create_interfaces_ok:
  assumes "fresh xp" "cdev_env_ok env" "channels_ok d"
    and "xpdev_create_interfaces env d xp w = Some (0, xp', w')"
  shows "ifaces (\<lambda>p. char_balance p (ktrace w)) (\<lambda>p. node_balance p (ktrace w)) xp' w'"
    and "\<forall>(f, gs) \<in> set (groups xp'). \<forall>g \<in> set gs. covered f g xp'"
proof -
  note fr = fresh_ok[OF assms(1)]
  have z: "x_flags xp = 0" "x_user_max xp \<le> 16" "x_h2c_channel_max xp \<le> 4" "x_c2h_channel_max xp \<le> 4"
    using assms(1) by (simp_all add: fresh_def)
  obtain rv where rv: "0 \<le> rv" and u: "unless_failed (create_ctrl_events env d xp w) (\<lambda>xp w.
       unless_failed (create_sgdma env d xp w) (\<lambda>xp w.
       unless_failed (create_bypass env d xp w) (create_user env d))) = Some (rv, xp', w')"
    using assms(4) by (auto simp: xpdev_create_interfaces_def split: bind_splits if_splits)
  obtain r1 xp1 w1 where s1: "create_ctrl_events env d xp w = Some (r1, xp1, w1)" "0 \<le> r1"
    and u1: "unless_failed (create_sgdma env d xp1 w1) (\<lambda>xp w.
       unless_failed (create_bypass env d xp w) (create_user env d)) = Some (rv, xp', w')"
    by (rule unless_failedE[OF u rv]) (rule that)
  obtain r2 xp2 w2 where s2: "create_sgdma env d xp1 w1 = Some (r2, xp2, w2)" "0 \<le> r2"
    and u2: "unless_failed (create_bypass env d xp2 w2) (create_user env d) = Some (rv, xp', w')"
    by (rule unless_failedE[OF u1 rv]) (rule that)
  obtain r3 xp3 w3 where s3: "create_bypass env d xp2 w2 = Some (r3, xp3, w3)" "0 \<le> r3"
    and s4: "create_user env d xp3 w3 = Some (rv, xp', w')"
    by (rule unless_failedE[OF u2 rv]) (rule that)
  note c1 = ctrl_events_ok[OF s1 assms(2) fr z(2)]
  then have b1: "built {CHAR_CTRL, CHAR_EVENTS} {XDF_CDEV_CTRL, XDF_CDEV_EVENT} xp xp1" and i1: "ifaces (\<lambda>p. char_balance p (ktrace w)) (\<lambda>p. node_balance p (ktrace w)) xp1 w1"
    and n1: "none_from CHAR_CTRL 1 xp1" "none_from CHAR_EVENTS (x_user_max xp) xp1" by simp_all
  have m1: "x_major xp1 \<noteq> 0" "x_h2c_channel_max xp1 = x_h2c_channel_max xp" "x_c2h_channel_max xp1 = x_c2h_channel_max xp"
    using b1 by (simp_all add: built_def)
  have e1: "none_from t 0 xp1" if "t \<notin> {CHAR_CTRL, CHAR_EVENTS}" for t using built_none[OF b1 that] fr(2) by simp
  have c2: "ifaces (\<lambda>p. char_balance p (ktrace w)) (\<lambda>p. node_balance p (ktrace w)) xp2 w2"
    and b2: "built {CHAR_XDMA_H2C, CHAR_XDMA_C2H} {XDF_CDEV_SG} xp1 xp2"
    and n2: "none_from CHAR_XDMA_H2C (x_h2c_channel_max xp) xp2" "none_from CHAR_XDMA_C2H (x_c2h_channel_max xp) xp2"
    using sgdma_ok[OF s2 assms(2,3) i1] e1 z m1 by auto
  have m2: "x_major xp2 \<noteq> 0" "x_h2c_channel_max xp2 = x_h2c_channel_max xp" "x_c2h_channel_max xp2 = x_c2h_channel_max xp"
    using b2 m1 by (simp_all add: built_def)
  have e2: "none_from t 0 xp2" if "t \<notin> {CHAR_CTRL, CHAR_EVENTS, CHAR_XDMA_H2C, CHAR_XDMA_C2H}" for t
    using built_none[OF b2] e1 that by simp
  obtain F3 where c3: "ifaces (\<lambda>p. char_balance p (ktrace w)) (\<lambda>p. node_balance p (ktrace w)) xp3 w3"
    and b3: "built {CHAR_BYPASS_H2C, CHAR_BYPASS_C2H, CHAR_BYPASS} F3 xp2 xp3"
    and n3: "F3 = {XDF_CDEV_BYPASS} \<and> none_from CHAR_BYPASS_H2C (x_h2c_channel_max xp) xp3 \<and>
         none_from CHAR_BYPASS_C2H (x_c2h_channel_max xp) xp3 \<and> none_from CHAR_BYPASS 1 xp3 \<or>
       F3 = {} \<and> none_from CHAR_BYPASS_H2C 0 xp3 \<and> none_from CHAR_BYPASS_C2H 0 xp3 \<and> none_from CHAR_BYPASS 0 xp3"
    using bypass_ok[OF s3 assms(2,3) c2] e2 z m2 by auto
  have m3: "x_major xp3 \<noteq> 0" using b3 by (simp add: built_def)
  have e3: "none_from t 0 xp3" if "t \<in> {CHAR_USER, CHAR_XVC}" for t
    using built_none[OF b3, of t 0] e2[of t] that by auto
  obtain F4 where c4: "ifaces (\<lambda>p. char_balance p (ktrace w)) (\<lambda>p. node_balance p (ktrace w)) xp' w'"
    and b4: "built {CHAR_USER, CHAR_XVC} F4 xp3 xp'"
    and n4: "F4 = {XDF_CDEV_USER, XDF_CDEV_XVC} \<and> none_from CHAR_USER 1 xp' \<and> none_from CHAR_XVC 1 xp' \<or>
       F4 = {} \<and> none_from CHAR_USER 0 xp' \<and> none_from CHAR_XVC 0 xp'"
    using user_ok[OF s4 rv assms(2) c3] e3 m3 by auto
  show "ifaces (\<lambda>p. char_balance p (ktrace w)) (\<lambda>p. node_balance p (ktrace w)) xp' w'" by (rule c4)
  note b34 = built_trans[OF b3 b4]
  note b234 = built_trans[OF b2 b34]
  have fl: "xpdev_flag_test f xp' \<longleftrightarrow> f \<in> {XDF_CDEV_CTRL, XDF_CDEV_EVENT} \<union> ({XDF_CDEV_SG} \<union> (F3 \<union> F4)) \<or> xpdev_flag_test f xp" for f
    using built_trans[OF b1 b234] unfolding built_def by blast
  have mx: "x_user_max xp' = x_user_max xp" "x_h2c_channel_max xp' = x_h2c_channel_max xp" "x_c2h_channel_max xp' = x_c2h_channel_max xp"
    using built_trans[OF b1 b234] unfolding built_def by blast+
  have n: "none_from CHAR_CTRL 1 xp'" "none_from CHAR_EVENTS (x_user_max xp) xp'"
    "none_from CHAR_XDMA_H2C (x_h2c_channel_max xp) xp'" "none_from CHAR_XDMA_C2H (x_c2h_channel_max xp) xp'"
    using n1 n2 built_none[OF b234] built_none[OF b34] by simp_all
  have bp: "none_from t j xp' = none_from t j xp3" if "t \<in> {CHAR_BYPASS_H2C, CHAR_BYPASS_C2H, CHAR_BYPASS}" for t j
    using built_none[OF b4, of t j] that by auto
  have l: "length (cdevs_of t xp') = room_of t" for t using c4 by (simp add: ifaces_def)
  have nw: "none_from t 0 xq \<Longrightarrow> none_from t j xq" for t j xq by (simp add: none_from_def)
  show "\<forall>(f, gs) \<in> set (groups xp'). \<forall>g \<in> set gs. covered f g xp'"
    using n n3 n4 z by (auto simp: groups_def covered_def l room_of_def fl mx bp intro: nw)
qed

section \<open>The properties\<close>

text \<open>C33: Once the interfaces of a device have been created, no two of its character devices
  have the same minor number.\<close>

theorem interfaces_own_minors:
  assumes "fresh xp" "cdev_env_ok env" "channels_ok d"
    and "xpdev_create_interfaces env d xp w = Some (0, xp', w')"
    and "i < length (cdevs_of type xp')" "live (cdevs_of type xp' ! i)"
    and "j < length (cdevs_of type' xp')" "live (cdevs_of type' xp' ! j)"
    and "c_minor (cdevs_of type xp' ! i) = c_minor (cdevs_of type' xp' ! j)"
  shows "type = type' \<and> i = j"
proof -
  have v: "ifaces (\<lambda>p. char_balance p (ktrace w)) (\<lambda>p. node_balance p (ktrace w)) xp' w'"
    by (rule create_interfaces_ok(1)[OF assms(1-4)])
  then have "minor_at type i = minor_at type' j" "i < room_of type" "j < room_of type'"
    using assms(5-9) by (auto simp: ifaces_def made_def)
  then show ?thesis by (intro minor_at_inj)
qed

text \<open>C34: Removing the interfaces that have been created returns, and gives back every
  character device and every node: none is left behind and none removed twice.\<close>

theorem interfaces_create_destroy:
  assumes "fresh xp" "cdev_env_ok env" "channels_ok d"
    and "xpdev_create_interfaces env d xp w = Some (0, xp', w')"
  shows "\<exists>w''. xpdev_destroy_interfaces env xp' w' = Some w'' \<and>
    (\<forall>p. char_balance p (ktrace w'') = char_balance p (ktrace w) \<and> node_balance p (ktrace w'') = node_balance p (ktrace w))"
proof -
  note c = create_interfaces_ok[OF assms]
  have "sound xp'" using c(1) by (auto simp: sound_def ifaces_def made_def in_set_conv_nth) 
  moreover have "class_made env" using assms(2) by (simp add: cdev_env_ok_def)
  ultimately show ?thesis
    using destroy_interfaces_ok[OF _ _ c(2), of env w'] c(1) by (auto simp: lowered_def ifaces_def)
qed

definition sample_cdevs :: cdev_env where
  "sample_cdevs = \<lparr>chrdev_rv = (\<lambda>_. 0), chrdev_major = (\<lambda>_. 240), stale_major = 0, name_rv = (\<lambda>_. 0),
     cdev_add_rv = (\<lambda>_ _. 0), sysdev_ok = (\<lambda>_ _. True), class_made = True\<rparr>"

definition sample_xpdev :: xdma_pci_dev where
  "sample_xpdev = \<lparr>x_magic = MAGIC_DEVICE, x_pdev = 7, x_xdev = Some 5, x_major = 0, x_user_max = 1,
     x_c2h_channel_max = 0, x_h2c_channel_max = 1, x_flags = 0, x_ctrl = zero_cdev,
     x_sgdma_c2h = replicate 4 zero_cdev, x_sgdma_h2c = replicate 4 zero_cdev, x_events = replicate 16 zero_cdev,
     x_user = zero_cdev, x_bypass_c2h = replicate 4 zero_cdev, x_bypass_h2c = replicate 4 zero_cdev,
     x_bypass_base = zero_cdev, x_xvc = zero_cdev\<rparr>"

lemma sample_fresh: "fresh sample_xpdev"
  unfolding fresh_def
proof (intro conjI allI)
  fix type show "cdevs_of type sample_xpdev = replicate (room_of type) zero_cdev"
    by (cases type) (simp_all add: sample_xpdev_def cdevs_of_def room_of_def)
qed (simp_all add: sample_xpdev_def)

lemma sample_cdevs_ok: "cdev_env_ok sample_cdevs" "channels_ok sample_dev"
  by (auto simp: cdev_env_ok_def sample_cdevs_def channels_ok_def sample_dev_def engines_of_def arr_get_def
      sample_engine_def split: if_splits)

lemma sample_create_at:
  assumes "i < length (cdevs_of type xp)" "x_xdev xp \<noteq> None"
    and "type \<notin> {CHAR_XDMA_H2C, CHAR_XDMA_C2H, CHAR_BYPASS_H2C, CHAR_BYPASS_C2H} \<or> engine_at d eng \<noteq> None"
  shows "\<exists>xp' w'. create_at sample_cdevs d type i bar eng xp w = Some (0, xp', w') \<and> x_xdev xp' = x_xdev xp \<and>
    x_user_max xp' = x_user_max xp \<and> x_h2c_channel_max xp' = x_h2c_channel_max xp \<and>
    x_c2h_channel_max xp' = x_c2h_channel_max xp \<and> (\<forall>t. length (cdevs_of t xp') = length (cdevs_of t xp))"
proof -
  obtain dev M w1 where g: "get_region sample_cdevs xp w = (0, dev, xp\<lparr>x_major := M\<rparr>, w1)"
  proof (cases "x_major xp = 0")
    case False
    then show ?thesis using that[of _ "x_major xp" w] by (simp add: get_region_def)
  qed (simp add: get_region_def sample_cdevs_def)
  have a: "\<exists>c' w'. add_xcdev sample_cdevs dev xp c w = (0, xp, c', w')" for xp c w
    by (simp add: add_xcdev_def create_sys_device_def sample_cdevs_def Let_def)
  have k: "\<exists>c1. config_kobject sample_cdevs d type c = Some (0, c1)" if "c_engine c = eng" for c
    using assms(3) that by (auto simp: config_kobject_def sample_cdevs_def Let_def)
  obtain c1 where c1: "config_kobject sample_cdevs d type ((cdevs_of type xp ! i)\<lparr>c_lock := False, c_magic := MAGIC_CHAR,
      c_xdev := x_xdev xp, c_engine := eng, c_bar := bar\<rparr>) = Some (0, c1)"
    using k by fastforce
  obtain c2 w2 where "create_xcdev sample_cdevs d xp (cdevs_of type xp ! i) bar eng type w = Some (0, xp\<lparr>x_major := M\<rparr>, c2, w2)"
    using c1 assms(2) a[of "xp\<lparr>x_major := M\<rparr>" "(cdev_type_init type c1)\<lparr>c_major := M,
        c_minor := cdev_minor type bar (case engine_at d eng of None \<Rightarrow> 0 | Some e \<Rightarrow> e_channel e)\<rparr>" w1]
    by (auto simp: create_xcdev_def g Let_def)
  then show ?thesis using assms(1) by (simp add: create_at_def cdevs_of_set_at)
qed

lemma sample_interfaces: "\<exists>xp' w'. xpdev_create_interfaces sample_cdevs sample_dev sample_xpdev sample_world = Some (0, xp', w')"
proof -
  have len: "length (cdevs_of t sample_xpdev) = room_of t" for t using sample_fresh by (simp add: fresh_def)
  have x: "x_xdev sample_xpdev = Some 5" "x_user_max sample_xpdev = 1" "x_h2c_channel_max sample_xpdev = 1"
    "x_c2h_channel_max sample_xpdev = 0" by (simp_all add: sample_xpdev_def)
  have d: "d_bypass_bar_idx sample_dev = - 1" "d_user_bar_idx sample_dev = - 1" by (simp_all add: sample_dev_def)
  have g: "arr_get 0 (engines_of sample_dev DMA_TO_DEVICE) = Some sample_engine" "e_magic sample_engine = MAGIC_ENGINE"
    by (simp_all add: sample_dev_def engines_of_def arr_get_def sample_engine_def)
  have en: "engine_at sample_dev (Some (DMA_TO_DEVICE, 0)) \<noteq> None"
    using g by (simp add: engine_at_def)
  obtain xp1 w1 where s1: "create_at sample_cdevs sample_dev CHAR_CTRL 0 (d_config_bar_idx sample_dev) None sample_xpdev sample_world =
      Some (0, xp1, w1)" and x1: "x_xdev xp1 = Some 5" "x_user_max xp1 = 1" "x_h2c_channel_max xp1 = 1"
    "x_c2h_channel_max xp1 = 0" "\<forall>t. length (cdevs_of t xp1) = room_of t"
    using sample_create_at[of 0 CHAR_CTRL sample_xpdev sample_dev None "d_config_bar_idx sample_dev" sample_world] len x
    by (auto simp: room_of_def)
  let ?x1 = "xpdev_flag_set XDF_CDEV_CTRL xp1"
  obtain xp2 w2 where s2: "create_at sample_cdevs sample_dev CHAR_EVENTS 0 0 None ?x1 w1 = Some (0, xp2, w2)"
    and x2: "x_xdev xp2 = Some 5" "x_user_max xp2 = 1" "x_h2c_channel_max xp2 = 1"
    "x_c2h_channel_max xp2 = 0" "\<forall>t. length (cdevs_of t xp2) = room_of t"
    using sample_create_at[of 0 CHAR_EVENTS ?x1 sample_dev None 0 w1] x1 by (auto simp: room_of_def)
  let ?x2 = "xpdev_flag_set XDF_CDEV_EVENT xp2"
  obtain xp3 w3 where s3: "create_at sample_cdevs sample_dev CHAR_XDMA_H2C 0 0 (Some (DMA_TO_DEVICE, 0)) ?x2 w2 = Some (0, xp3, w3)"
    and x3: "x_c2h_channel_max xp3 = 0"
    using sample_create_at[of 0 CHAR_XDMA_H2C ?x2 sample_dev "Some (DMA_TO_DEVICE, 0)" 0 w2] x2 en by (auto simp: room_of_def)
  have c1: "create_ctrl_events sample_cdevs sample_dev sample_xpdev sample_world = Some (0, ?x2, w2)"
    using s1 s2 x1(2) by (simp add: create_ctrl_events_def unless_failed_def)
  have c2: "create_sgdma sample_cdevs sample_dev ?x2 w2 = Some (0, xpdev_flag_set XDF_CDEV_SG xp3, w3)"
    using s3 x2(3) x3 g by (simp add: create_sgdma_def unless_failed_def)
  show ?thesis
    using c1 c2 by (simp add: xpdev_create_interfaces_def create_bypass_def create_user_def unless_failed_def d)
qed

theorem interfaces_own_minors_witness:
  "\<exists>xp' w'. xpdev_create_interfaces sample_cdevs sample_dev sample_xpdev sample_world = Some (0, xp', w') \<and>
     (live (x_ctrl xp') \<longrightarrow> live (x_events xp' ! 0) \<longrightarrow> c_minor (x_ctrl xp') \<noteq> c_minor (x_events xp' ! 0))"
proof -
  obtain xp' w' where c: "xpdev_create_interfaces sample_cdevs sample_dev sample_xpdev sample_world = Some (0, xp', w')"
    using sample_interfaces by blast
  have "length (cdevs_of t xp') = room_of t" for t
    using create_interfaces_ok(1)[OF sample_fresh sample_cdevs_ok c] by (simp add: ifaces_def)
  then have "0 < length (cdevs_of CHAR_CTRL xp')" "0 < length (cdevs_of CHAR_EVENTS xp')" by (simp_all add: room_of_def)
  from interfaces_own_minors[OF sample_fresh sample_cdevs_ok c this(1) _ this(2)] show ?thesis
    using c by (auto simp: cdevs_of_def)
qed

theorem interfaces_create_destroy_witness:
  "\<exists>xp' w' w''. xpdev_create_interfaces sample_cdevs sample_dev sample_xpdev sample_world = Some (0, xp', w') \<and>
     xpdev_destroy_interfaces sample_cdevs xp' w' = Some w'' \<and> char_balance (240, 1) (ktrace w'') = 0"
proof -
  obtain xp' w' where c: "xpdev_create_interfaces sample_cdevs sample_dev sample_xpdev sample_world = Some (0, xp', w')"
    using sample_interfaces by blast
  from interfaces_create_destroy[OF sample_fresh sample_cdevs_ok c] obtain w'' where
    "xpdev_destroy_interfaces sample_cdevs xp' w' = Some w''" "\<forall>p. char_balance p (ktrace w'') = char_balance p (ktrace sample_world)"
    by blast
  then show ?thesis using c by (auto simp: sample_world_def)
qed

end
