(* ===== verification/SgdmaProps.thy ===== *)
theory SgdmaProps
  imports Sgdma ChardevProps
begin

text \<open>
  Properties of the SG DMA character device: the alignment check against its reference
  definition, the table of a user buffer, and the pages that are pinned and released.
\<close>

unbundle bit_operations_syntax

section \<open>Alignment\<close>

lemma unat_low_bits:
  fixes x :: u64
  assumes "a < 32"
  shows "unat ((ucast x :: u32) AND (2 ^ a - 1)) = unat x mod 2 ^ a"
proof -
  have "(ucast x :: u32) AND (2 ^ a - 1) = take_bit a (ucast x)"
    by (simp add: take_bit_eq_mask mask_eq_decr_exp)
  then show ?thesis
    using assms by (simp add: unsigned_take_bit_eq unsigned_ucast_eq take_bit_take_bit min_def flip: take_bit_eq_mod)
qed

lemma low_bits_zero:
  fixes x :: u64
  assumes "a < 32"
  shows "(ucast x :: u32) AND (2 ^ a - 1) = 0 \<longleftrightarrow> 2 ^ a dvd unat x"
  using unat_low_bits[OF assms, of x] by (simp add: dvd_eq_mod_eq_0 flip: unat_eq_zero)

lemma low_bits_eq:
  fixes x y :: u64
  assumes "a < 32"
  shows "(ucast x :: u32) AND (2 ^ a - 1) = ucast y AND (2 ^ a - 1) \<longleftrightarrow> unat x mod 2 ^ a = unat y mod 2 ^ a"
  unfolding unat_low_bits[OF assms, symmetric] by (simp add: word_unat_eq_iff)

lemma scast_power: "g < 31 \<Longrightarrow> scast (2 ^ g :: u32) = (2 ^ g :: u64)"
  by (intro bit_word_eqI) (auto simp: bit_signed_iff bit_exp_iff min_def)

lemma length_bits_zero:
  fixes n :: u64
  assumes "g < 31"
  shows "n AND (scast (2 ^ g :: u32) - 1) = 0 \<longleftrightarrow> 2 ^ g dvd unat n"
proof -
  have "n AND (2 ^ g - 1) = take_bit g n" by (simp add: take_bit_eq_mask mask_eq_decr_exp)
  then have "unat (n AND (scast (2 ^ g :: u32) - 1)) = unat n mod 2 ^ g"
    unfolding scast_power[OF assms] by (simp only: unsigned_take_bit_eq) (simp only: take_bit_eq_mod)
  then show ?thesis by (simp add: dvd_eq_mod_eq_0 flip: unat_eq_zero)
qed

text \<open>The address, the position and the length against the alignment of the engine.\<close>

definition align_reference :: "bool \<Rightarrow> nat \<Rightarrow> nat \<Rightarrow> nat \<Rightarrow> nat \<Rightarrow> nat \<Rightarrow> bool \<Rightarrow> bool" where
  "align_reference fixed_addr align gran buf count pos sync \<longleftrightarrow>
     (if fixed_addr then align dvd buf \<and> (sync \<longrightarrow> align dvd pos) \<and> gran dvd count
      else buf mod align = pos mod align)"

text \<open>C32: The masks of \<^verbatim>\<open>check_transfer_align\<close> decide divisibility: for alignments that are
  powers of two the check accepts exactly the transfers of the reference definition, and
  refuses all others with \<^verbatim>\<open>-EINVAL\<close>.\<close>

theorem align_check_is_reference:
  assumes "e_addr_align e = 2 ^ a" "a < 32" "e_len_granularity e = 2 ^ g" "g < 31"
  shows "check_transfer_align e buf count pos sync =
    (if align_reference (e_non_incr_addr e) (2 ^ a) (2 ^ g) (unat buf) (unat count) (unat pos) sync
     then 0 else - EINVAL)"
  unfolding check_transfer_align_def align_reference_def assms Let_def
    low_bits_zero[OF assms(2)] low_bits_eq[OF assms(2)] length_bits_zero[OF assms(4)]
  by simp

theorem align_check_is_reference_witness:
  "check_transfer_align (sample_engine\<lparr>e_addr_align := 4, e_len_granularity := 8, e_non_incr_addr := True\<rparr>)
     0x2004 24 0x1000 True = 0"
proof -
  have "check_transfer_align (sample_engine\<lparr>e_addr_align := 4, e_len_granularity := 8, e_non_incr_addr := True\<rparr>)
     0x2004 24 0x1000 True =
    (if align_reference True (2 ^ 2) (2 ^ 3) (unat (0x2004 :: u64)) (unat (24 :: u64)) (unat (0x1000 :: u64)) True
     then 0 else - EINVAL)"
    using align_check_is_reference[of "sample_engine\<lparr>e_addr_align := 4, e_len_granularity := 8, e_non_incr_addr := True\<rparr>" 2 3]
    by simp
  then show ?thesis by (simp add: align_reference_def)
qed

section \<open>The number of pages\<close>

lemma page_of: "(buf::u64) AND NOT 0xFFF = buf - take_bit 12 buf"
proof -
  have m: "(0xFFF::u64) = mask 12" by (simp add: mask_eq_exp_minus_1)
  have "buf AND NOT 0xFFF = push_bit 12 (drop_bit 12 buf)"
    unfolding m by (intro bit_word_eqI) (auto simp: bit_simps)
  moreover have "push_bit 12 (drop_bit 12 buf) = buf - take_bit 12 buf"
    unfolding eq_diff_eq by (rule bits_ident)
  ultimately show ?thesis by (rule trans)
qed

lemma unat_count_pages:
  assumes "unat len \<le> 2 ^ 32"
  shows "unat (count_pages buf len) = (unat buf mod 4096 + unat len + 4095) div 4096"
proof -
  have t: "unat (take_bit 12 buf) = unat buf mod 4096"
    by (simp only: unsigned_take_bit_eq) (simp add: take_bit_eq_mod)
  have "(buf + len + of_nat PAGE_SIZE - 1) - (buf AND NOT 0xFFF) = take_bit 12 buf + len + 4095"
    unfolding page_of by (simp add: PAGE_SIZE_def)
  moreover have "unat (take_bit 12 buf + len + 4095) = unat buf mod 4096 + unat len + 4095"
    using assms mod_le_divisor[of 4096 "unat buf"] by (simp add: unat_word_ariths t)
  ultimately have "unat (drop_bit 12 ((buf + len + of_nat PAGE_SIZE - 1) - (buf AND NOT 0xFFF))) =
      (unat buf mod 4096 + unat len + 4095) div 4096"
    by (simp only: unat_drop_bit_eq) (simp only: drop_bit_eq_div, simp)
  then show ?thesis
    using assms unfolding count_pages_def by (simp only: unsigned_ucast_eq) (simp add: take_bit_eq_mod)
qed

section \<open>The bytes of the table\<close>

text \<open>The addresses that a table names, and those of the bytes of a buffer on its pages.\<close>

definition phys_bytes :: "(u64 \<times> u32) list \<Rightarrow> nat list" where
  "phys_bytes sg = concat (map (\<lambda>(a, n). [unat a ..< unat a + unat n]) sg)"

definition buffer_bytes :: "nat list \<Rightarrow> nat \<Rightarrow> nat \<Rightarrow> nat list" where
  "buffer_bytes ps off n = map (\<lambda>k. ps ! ((off + k) div 4096) * 4096 + (off + k) mod 4096) [0..<n]"

lemma unat_take_12: "unat (take_bit 12 (x :: u64)) = unat x mod 4096"
  by (simp only: unsigned_take_bit_eq) (simp add: take_bit_eq_mod)

lemma low_12: "(ucast (x :: u64) :: u32) AND 0xFFF = of_nat (unat x mod 4096)"
  "unat ((ucast (x :: u64) :: u32) AND 0xFFF) = unat x mod 4096"
proof -
  have "(ucast x :: u32) AND 0xFFF = take_bit 12 (ucast x)"
    by (simp add: take_bit_eq_mask mask_eq_exp_minus_1)
  then have "unat ((ucast x :: u32) AND 0xFFF) = take_bit 12 (unat x)"
    by (simp add: unsigned_take_bit_eq unsigned_ucast_eq take_bit_take_bit min_def)
  then show "unat ((ucast (x :: u64) :: u32) AND 0xFFF) = unat x mod 4096"
    by (simp add: take_bit_eq_mod)
  then show "(ucast (x :: u64) :: u32) AND 0xFFF = of_nat (unat x mod 4096)"
    by (metis of_nat_unat ucast_id)
qed

lemma bytes_Cons:
  assumes "off + n \<le> 4096"
  shows "buffer_bytes (p # ps) off n = [p * 4096 + off ..< p * 4096 + off + n]"
  using assms
proof (induction n)
  case (Suc n)
  then show ?case by (simp add: buffer_bytes_def)
qed (simp add: buffer_bytes_def)

lemma bytes_split:
  assumes "off < 4096" "4096 - off \<le> n"
  shows "buffer_bytes (p # ps) off n = [p * 4096 + off ..< p * 4096 + 4096] @ buffer_bytes ps 0 (n - (4096 - off))"
proof -
  let ?f = "\<lambda>k. (p # ps) ! ((off + k) div 4096) * 4096 + (off + k) mod 4096"
  have "[0..<n] = [0..<4096 - off] @ map (\<lambda>k. k + (4096 - off)) [0..<n - (4096 - off)]"
    using assms(2) upt_add_eq_append[of 0 "4096 - off" "n - (4096 - off)"]
    by (simp add: map_add_upt)
  then have "buffer_bytes (p # ps) off n = buffer_bytes (p # ps) off (4096 - off) @
     map (\<lambda>k. ?f (k + (4096 - off))) [0..<n - (4096 - off)]"
    by (simp add: buffer_bytes_def)
  moreover have "?f (k + (4096 - off)) = ps ! (k div 4096) * 4096 + k mod 4096" for k
  proof -
    have "off + (k + (4096 - off)) = k + 4096" using assms(1) by simp
    moreover have "(k + 4096) div 4096 = Suc (k div 4096)" by simp
    ultimately show ?thesis by (simp only: nth_Cons_Suc) simp
  qed
  ultimately show ?thesis using assms(1) bytes_Cons[of off "4096 - off" p ps] by (simp add: buffer_bytes_def)
qed

definition page_entry :: "u64 \<times> u32 \<Rightarrow> bool" where
  "page_entry = (\<lambda>(a, n). 0 < unat n \<and> unat a mod 4096 + unat n \<le> 4096)"

lemma next_page: "(b + (4096 - b mod 4096)) mod 4096 = (0 :: nat)"
proof -
  have "b mod 4096 < 4096" by simp
  then have "b + (4096 - b mod 4096) = (b div 4096 + 1) * 4096"
    using div_mult_mod_eq[of b 4096] unfolding distrib_right mult_1 by linarith
  then show ?thesis by (simp only: mod_mult_self2_is_0)
qed

lemma fill_table_bytes:
  assumes "unat buf + unat len < 2 ^ 64" "unat len < 2 ^ 32"
    and "length ps = (if len = 0 then 0 else (unat buf mod 4096 + unat len + 4095) div 4096)"
    and "\<forall>p \<in> set ps. p < 2 ^ 52"
    and "fill_table ps buf len = (sg, rest)"
  shows "rest = 0 \<and> phys_bytes sg = buffer_bytes ps (unat buf mod 4096) (unat len) \<and> list_all page_entry sg
    \<and> length sg = length ps"
  using assms
proof (induction ps arbitrary: buf len sg rest)
  case Nil
  have "len = 0"
  proof (rule ccontr)
    assume l: "len \<noteq> 0"
    then have "(unat buf mod 4096 + unat len + 4095) div 4096 = 0" using Nil(3) by simp
    then have "unat len = 0" by (simp add: div_eq_0_iff)
    then show False using l by (simp add: unat_eq_zero)
  qed
  then show ?case using Nil by (simp add: phys_bytes_def buffer_bytes_def)
next
  case (Cons p ps)
  define off where "off = unat buf mod 4096"
  define n where "n = min (4096 - off) (unat len)"
  define nb :: u32 where "nb = of_nat n"
  have off: "off < 4096" by (simp add: off_def)
  have len: "len \<noteq> 0" "0 < unat len" using Cons.prems(3) by (auto split: if_splits simp: unat_gt_0)
  have n: "n \<le> unat len" "n \<le> 4096 - off" "0 < n" using off len(2) by (auto simp: n_def)
  have un: "unat nb = n" using n by (simp add: nb_def unat_of_nat)
  have nb: "min (of_nat PAGE_SIZE - (ucast buf AND 0xFFF)) (ucast len) = nb"
  proof -
    have "unat (of_nat PAGE_SIZE - (ucast buf AND 0xFFF) :: u32) = 4096 - off"
      unfolding low_12(1) off_def[symmetric] using off
      by (simp add: PAGE_SIZE_def unat_sub_if' unat_of_nat)
    moreover have "unat (ucast len :: u32) = unat len"
      using Cons.prems(2) by (simp add: unsigned_ucast_eq take_bit_eq_mod)
    ultimately have "unat (min (of_nat PAGE_SIZE - (ucast buf AND 0xFFF)) (ucast len) :: u32) = n"
      by (simp add: n_def min_def word_le_nat_alt)
    then show ?thesis using un by (simp add: word_unat_eq_iff)
  qed
  obtain sg1 where f: "fill_table ps (buf + ucast nb) (len - ucast nb) = (sg1, rest)"
    and sg: "sg = (of_nat (p * PAGE_SIZE) + ucast (ucast buf AND 0xFFF :: u32), nb) # sg1"
    using Cons.prems(5) by (auto simp: Let_def nb split: prod.splits)
  have ul: "unat (len - ucast nb) = unat len - n"
    using n by (simp add: unat_sub_if' un)
  have ub: "unat (buf + ucast nb) = unat buf + n"
    using n Cons.prems(1) by (simp add: unat_word_ariths un)
  have a: "unat (of_nat (p * PAGE_SIZE) + ucast (ucast buf AND 0xFFF :: u32) :: u64) = p * 4096 + off"
  proof -
    have "p * 4096 + off < 2 ^ 64" "p * 4096 < 2 ^ 64" using Cons.prems(4) off by simp_all
    then show ?thesis by (simp add: PAGE_SIZE_def unat_word_ariths low_12(2) off_def unat_of_nat)
  qed
  have l0: "len - ucast nb = 0 \<longleftrightarrow> n = unat len" using ul n by (simp add: word_unat_eq_iff) linarith
  have lps: "length ps = (if len - ucast nb = 0 then 0 else ((unat buf + n) mod 4096 + (unat len - n) + 4095) div 4096)"
  proof (cases "n = unat len")
    case True
    then have "off + unat len \<le> 4096" using n(2) off by simp
    then have "(off + unat len + 4095) div 4096 = 1" using len(2) by simp
    then show ?thesis using Cons.prems(3) len(1) l0 True by (simp add: off_def)
  next
    case False
    then have nn: "n = 4096 - off" "4096 - off < unat len" by (auto simp: n_def)
    have "(unat buf + n) mod 4096 = 0" using next_page[of "unat buf"] nn(1) by (simp only: off_def)
    moreover have "(off + unat len + 4095) div 4096 = Suc ((unat len - n + 4095) div 4096)"
    proof -
      have "off + unat len + 4095 = (unat len - n + 4095) + 4096" using nn off by simp
      then show ?thesis by simp
    qed
    ultimately show ?thesis using Cons.prems(3) len(1) l0 False by (simp add: off_def)
  qed
  have ih: "rest = 0 \<and> phys_bytes sg1 = buffer_bytes ps ((unat buf + n) mod 4096) (unat len - n) \<and>
      list_all page_entry sg1 \<and> length sg1 = length ps"
  proof -
    have s: "unat (buf + ucast nb) + unat (len - ucast nb) < 2 ^ 64" "unat (len - ucast nb) < 2 ^ 32"
      "\<forall>p \<in> set ps. p < 2 ^ 52"
      using Cons.prems(1,2,4) n(1) unfolding ub ul by simp_all
    show ?thesis
      using Cons.IH[OF s(1,2) lps[folded ub ul] s(3) f] unfolding ub ul .
  qed
  have pb: "phys_bytes sg = [p * 4096 + off ..< p * 4096 + off + n] @ phys_bytes sg1"
    unfolding sg phys_bytes_def list.map concat.simps prod.case a un by simp
  have e: "page_entry (hd sg)" using a un n off by (simp add: sg page_entry_def)
  have "phys_bytes sg = buffer_bytes (p # ps) off (unat len)"
  proof (cases "n = unat len")
    case True
    then have "phys_bytes sg1 = []" using ih by (simp add: buffer_bytes_def)
    then show ?thesis
      using bytes_Cons[of off n p ps] n off True by (simp add: pb)
  next
    case False
    then have nn: "n = 4096 - off" "4096 - off \<le> unat len" by (auto simp: n_def)
    have "(unat buf + n) mod 4096 = 0" using next_page[of "unat buf"] nn(1) by (simp only: off_def)
    then show ?thesis
      using ih bytes_split[OF off nn(2), of p ps] nn off by (simp add: pb)
  qed
  then show ?case using ih e by (simp add: sg off_def)
qed

text \<open>C31: When the pages of a buffer of the user are pinned, the table that is made of them
  names exactly the bytes of the buffer, in order: byte k lies on page (offset + k) / 4096
  at (offset + k) mod 4096.  There is one entry for each page, none crosses a page, and
  the check at the end of the loop holds.\<close>

theorem user_table_names_buffer:
  assumes "0 < unat len" "unat len < 2 ^ 32" "unat buf + unat len < 2 ^ 64"
    and "sgl_ok env" "pages_ok env" "io_buf cb = buf" "io_len cb = len"
    and "pin_pages env buf (count_pages buf len) = (int (length ps), ps)"
    and "length ps = (unat buf mod 4096 + unat len + 4095) div 4096"
    and "\<not> adjacent_duplicates ps" "\<forall>p \<in> set ps. p < 2 ^ 52"
  shows "\<exists>cb'. char_sgdma_map_user_buf_to_sgl env cb wr w = Some (0, cb', pinned ps w) \<and>
     phys_bytes (sgl (io_sgt cb')) = buffer_bytes ps (unat buf mod 4096) (unat len) \<and>
     list_all page_entry (sgl (io_sgt cb')) \<and> length (sgl (io_sgt cb')) = length ps \<and>
     nents (io_sgt cb') = length ps"
proof -
  have n: "unat (count_pages buf len) = length ps"
    using unat_count_pages[of len buf] assms(2,9) by simp
  have z: "count_pages buf len \<noteq> 0"
    using n assms(1,9) by (auto simp: div_eq_0_iff simp flip: unat_eq_zero)
  obtain sg rest where f: "fill_table ps buf len = (sg, rest)" by fastforce
  have "rest = 0 \<and> phys_bytes sg = buffer_bytes ps (unat buf mod 4096) (unat len) \<and>
     list_all page_entry sg \<and> length sg = length ps"
  proof (rule fill_table_bytes[OF _ assms(2) _ assms(11) f])
    show "unat buf + unat len < 2 ^ 64" using assms(3) by simp
    show "length ps = (if len = 0 then 0 else (unat buf mod 4096 + unat len + 4095) div 4096)"
      using assms(1,9) by auto
  qed
  then show ?thesis
    using z assms(4,5,10) unfolding char_sgdma_map_user_buf_to_sgl_def Let_def assms(6,7,8)
    by (simp add: n f assms(6,7))
qed

section \<open>The pages are given back\<close>

fun page_balance :: "nat \<Rightarrow> kevent list \<Rightarrow> int" where
  "page_balance p [] = 0"
| "page_balance p (e # es) =
     (if e = UserPagePinned p then 1 else if e = UserPagePut p then - 1 else 0) + page_balance p es"

interpretation pages: event_count "page_balance p" for p
  by unfold_locales auto

lemma page_balance_filter: "page_balance p (filter is_page_ev es) = page_balance p es"
  by (induction es) auto

lemma page_balance_user: "user_pages w' = user_pages w \<Longrightarrow> page_balance p (ktrace w') = page_balance p (ktrace w)"
  unfolding user_pages_def by (metis page_balance_filter)

lemma page_balance_pinned:
  "page_balance p (ktrace (pinned ps w)) = int (count_list ps p) + page_balance p (ktrace w)"
  unfolding pinned_def by (induction ps arbitrary: w) auto

text \<open>All pages are put, however many the counter claims, when a missing page follows them.\<close>

lemma put_pages_balance:
  assumes "n = length ps \<or> length ps < n \<and> 0 < k"
  shows "\<exists>w'. put_pages wr n (map Some ps @ replicate k None) w = Some w' \<and>
    page_balance p (ktrace w') = page_balance p (ktrace w) - int (count_list ps p)"
  using assms
proof (induction ps arbitrary: n w)
  case Nil
  then show ?case by (cases k) auto
next
  case (Cons q ps)
  let ?w = "kcall (UserPagePut q) (if \<not> wr then kcall (UserPageDirty q) w else w)"
  have "n - 1 = length ps \<or> length ps < n - 1 \<and> 0 < k" "n \<noteq> 0" using Cons.prems by auto
  moreover obtain w' where "put_pages wr (n - 1) (map Some ps @ replicate k None) ?w = Some w'"
    "page_balance p (ktrace w') = page_balance p (ktrace ?w) - int (count_list ps p)"
    using Cons.IH[OF calculation(1)] by blast
  ultimately show ?case by (intro exI[of _ w']) auto
qed

text \<open>
  \<^verbatim>\<open>get_user_pages_fast\<close> returns an error and has pinned nothing, or returns the number of
  pages it has pinned, which is at most the number asked for.
\<close>

definition pin_ok :: "user_env \<Rightarrow> bool" where
  "pin_ok env \<longleftrightarrow> (\<forall>buf n rv ps. pin_pages env buf n = (rv, ps) \<longrightarrow>
     (if rv < 0 then ps = [] else rv = int (length ps) \<and> length ps \<le> unat n))"

lemma unmap_balance:
  assumes "io_pages cb = Some (map Some ps @ replicate k None)"
    and "unat (io_pages_nr cb) = length ps \<or> length ps < unat (io_pages_nr cb) \<and> 0 < k"
  shows "\<exists>cb' w'. char_sgdma_unmap_user_buf cb wr w = Some (cb', w') \<and>
    page_balance p (ktrace w') = page_balance p (ktrace w) - int (count_list ps p)"
proof (cases "io_pages_nr cb = 0")
  case True
  then show ?thesis using assms by (auto simp: char_sgdma_unmap_user_buf_def)
next
  case False
  obtain w' where "put_pages wr (unat (io_pages_nr cb)) (map Some ps @ replicate k None) w = Some w'"
    "page_balance p (ktrace w') = page_balance p (ktrace w) - int (count_list ps p)"
    using put_pages_balance[OF assms(2)] by blast
  then show ?thesis using False assms(1) by (auto simp: char_sgdma_unmap_user_buf_def)
qed

lemma map_user_buf_balance:
  assumes "pin_ok env" "io_pages cb = None" "io_pages_nr cb = 0" "unat (io_len cb) \<le> 2 ^ 32"
    and "char_sgdma_map_user_buf_to_sgl env cb wr w = Some (rv, cb', w')"
  shows "if rv < 0 then page_balance p (ktrace w') = page_balance p (ktrace w)
    else (\<exists>ps. io_pages cb' = Some (map Some ps) \<and> unat (io_pages_nr cb') = length ps \<and> w' = pinned ps w)"
proof -
  define n where "n = count_pages (io_buf cb) (io_len cb)"
  obtain r ps where pin: "pin_pages env (io_buf cb) n = (r, ps)" by fastforce
  have ok: "if r < 0 then ps = [] else r = int (length ps) \<and> length ps \<le> unat n"
    using assms(1) pin unfolding pin_ok_def by blast
  have n: "unat n < 2 ^ 21"
    unfolding n_def unat_count_pages[OF assms(4)]
    using assms(4) mod_less_divisor[of 4096 "unat (io_buf cb)"] by (simp add: div_less_iff_less_mult)
  let ?pages = "map Some ps @ replicate (unat n - length ps) None"
  note m = assms(5)[unfolded char_sgdma_map_user_buf_to_sgl_def Let_def, folded n_def, unfolded pin case_prod_conv]
  have settle: "page_balance p (ktrace w') = page_balance p (ktrace w)"
    if "char_sgdma_unmap_user_buf c wr (pinned ps w) = Some (cb', w')" "io_pages c = Some ?pages"
      "unat (io_pages_nr c) = length ps \<or> length ps < unat (io_pages_nr c) \<and> length ps < unat n" for c
    using unmap_balance[OF that(2), of wr "pinned ps w" p] that(1,3) page_balance_pinned[of p ps w] by auto
  consider (zero) "n = 0" | (oom) "n \<noteq> 0" "\<not> sgl_ok env" | (oom2) "n \<noteq> 0" "sgl_ok env" "\<not> pages_ok env"
    | (all) "n \<noteq> 0" "sgl_ok env" "pages_ok env"
    by blast
  then show ?thesis
  proof cases
    case zero
    then show ?thesis using m by simp
  next
    case oom
    then show ?thesis using m by simp
  next
    case oom2
    then show ?thesis using m by (auto simp: char_sgdma_unmap_user_buf_def)
  next
    case all
    then have al: "(n = 0) = False" "(\<not> sgl_ok env) = False" "(\<not> pages_ok env) = False" by simp_all
    note m = m[unfolded al if_False]
    consider (fail) "r < 0" | (short) "\<not> r < 0" "r \<noteq> int (unat n)"
      | (dup) "\<not> r < 0" "r = int (unat n)" "adjacent_duplicates ps"
      | (pinned) "\<not> r < 0" "r = int (unat n)" "\<not> adjacent_duplicates ps"
      by blast
    then show ?thesis
    proof cases
      case fail
      then have "ps = []" using ok by simp
      then show ?thesis
        using m fail settle assms(3) by (auto split: bind_splits)
    next
      case short
      have rl: "r = int (length ps)" "length ps \<le> unat n" using ok short(1) by simp_all
      moreover have "length ps \<noteq> unat n" using rl(1) short(2) by metis
      ultimately have l: "length ps < unat n" by linarith
      have f: "unat (word_of_int (- EFAULT) :: u32) = 4294967282" by simp
      have "rv = - EFAULT \<and> char_sgdma_unmap_user_buf
          (cb\<lparr>io_pages := Some ?pages, io_pages_nr := word_of_int (- EFAULT)\<rparr>) wr (pinned ps w) = Some (cb', w')"
        using m unfolding if_not_P[OF short(1)] if_P[OF short(2)] by (auto split: bind_splits)
      then show ?thesis
        using settle[of "cb\<lparr>io_pages := Some ?pages, io_pages_nr := word_of_int (- EFAULT)\<rparr>"] l n f by simp
    next
      case dup
      then have l: "length ps = unat n" using ok of_nat_eq_iff by metis
      have "rv = - EFAULT \<and> char_sgdma_unmap_user_buf
          (cb\<lparr>io_pages := Some ?pages, io_pages_nr := n\<rparr>) wr (pinned ps w) = Some (cb', w')"
        using m dup by (auto split: bind_splits)
      then show ?thesis using settle[of "cb\<lparr>io_pages := Some ?pages, io_pages_nr := n\<rparr>"] l by simp
    next
      case pinned
      then have l: "length ps = unat n" using ok of_nat_eq_iff by metis
      show ?thesis using m pinned l by (auto split: bind_splits prod.splits if_splits)
    qed
  qed
qed

text \<open>C30: Reading and writing give every page of the user back: when the call returns, with a
  count or an error, each page that has been pinned for it has been put exactly as often.
  This covers the call that gets fewer pages than it asked for, where the counter is set to
  \<^verbatim>\<open>-EFAULT\<close> and only the missing page stops the loop.\<close>

theorem read_write_puts_pages:
  assumes "env_calm senv" "pin_ok uenv" "unat count \<le> 2 ^ 32"
    and "char_sgdma_read_write uenv senv mp file buf count pos wr x tab w = Some (rv, tab', w')"
  shows "page_balance p (ktrace w') = page_balance p (ktrace w)"
proof -
  let ?cb = "zero_io_cb\<lparr>io_buf := buf, io_len := count\<rparr>"
  have none: "io_pages ?cb = None" "io_pages_nr ?cb = 0" by (simp_all add: zero_io_cb_def)
  consider (same) "w' = w"
    | (failed) r cb where "char_sgdma_map_user_buf_to_sgl uenv ?cb wr w = Some (r, cb, w')" "r < 0"
    | (run) r cb w1 h c res sgt tab2 w2 cb2 where
      "char_sgdma_map_user_buf_to_sgl uenv ?cb wr w = Some (r, cb, w1)" "\<not> r < 0"
      "xdma_xfer_submit senv mp h c wr pos (io_sgt cb) False x tab w1 = Some (res, sgt, tab2, w2)"
      "char_sgdma_unmap_user_buf (cb\<lparr>io_sgt := sgt\<rparr>) wr w2 = Some (cb2, w')"
  proof -
    let ?d = "file_dev file tab"
    note rw = assms(4)[unfolded char_sgdma_read_write_def Let_def]
    show thesis
    proof (cases "xcdev_check file ?d True < 0")
      case True
      then show thesis using rw same by simp
    next
      case False
      obtain c where f: "file = Some c"
        using False by (cases "file = None") (auto simp: xcdev_check_def)
      obtain e where "engine_at ?d (c_engine c) = Some e"
        using False f by (cases "engine_at ?d (c_engine c) = None") (auto simp: xcdev_check_def split: if_splits)
      note fe = f this[unfolded f]
      note rw = rw[unfolded fe bind.bind_lunit if_not_P[OF False[unfolded fe]]]
      show thesis
      proof (cases "(wr \<and> e_dir e \<noteq> DMA_TO_DEVICE \<or> \<not> wr \<and> e_dir e \<noteq> DMA_FROM_DEVICE) \<or>
          check_transfer_align e buf count pos True \<noteq> 0")
        case True
        then show thesis using rw fe same by (cases wr; auto split: if_splits)
      next
        case False
        then have ok: "(wr \<and> e_dir e \<noteq> DMA_TO_DEVICE \<or> \<not> wr \<and> e_dir e \<noteq> DMA_FROM_DEVICE) = False"
          "(check_transfer_align e buf count pos True \<noteq> 0) = False"
          by simp_all
        note rw = rw[unfolded ok if_False]
        obtain r cb w1 where m: "char_sgdma_map_user_buf_to_sgl uenv ?cb wr w = Some (r, cb, w1)"
          using rw by (cases "char_sgdma_map_user_buf_to_sgl uenv ?cb wr w = None") auto
        show thesis
        proof (cases "r < 0")
          case True
          then show thesis using rw m failed by simp
        next
          case nr: False
          then have "(do {
              (res, sgt, tab, w) \<leftarrow> xdma_xfer_submit senv mp (c_xdev c) (int (e_channel e)) wr pos
                (io_sgt cb) False x tab w1;
              (cb, w) \<leftarrow> char_sgdma_unmap_user_buf (cb\<lparr>io_sgt := sgt\<rparr>) wr w;
              Some (res, tab, w)
            }) = Some (rv, tab', w')"
            using rw m by simp
          then show thesis using run[OF m nr] by (auto split: bind_splits)
        qed
      qed
    qed
  qed
  then show ?thesis
  proof cases
    case (failed r cb)
    then show ?thesis using map_user_buf_balance[OF assms(2) none _ failed(1), of p] assms(3) by simp
  next
    case (run r cb w1 h c res sgt tab2 w2 cb2)
    obtain ps where ps: "io_pages cb = Some (map Some ps)" "unat (io_pages_nr cb) = length ps" "w1 = pinned ps w"
      using map_user_buf_balance[OF assms(2) none _ run(1), of p] run(2) assms(3) by auto
    have "page_balance p (ktrace w2) = int (count_list ps p) + page_balance p (ktrace w)"
      using page_balance_user[OF xfer_submit_pages[OF assms(1) run(3)]] page_balance_pinned[of p ps w] ps(3) by simp
    moreover have "page_balance p (ktrace w') = page_balance p (ktrace w2) - int (count_list ps p)"
      using unmap_balance[of "cb\<lparr>io_sgt := sgt\<rparr>" ps 0 wr w2 p] ps run(4) by simp
    ultimately show ?thesis by simp
  qed simp
qed

text \<open>A buffer of two pages of which only page 7 can be pinned.\<close>

definition short_pin :: user_env where
  "short_pin = \<lparr>sgl_ok = True, pages_ok = True, pin_pages = (\<lambda>buf n. if 1 \<le> unat n then (1, [7]) else (- 14, []))\<rparr>"

definition sample_file :: xdma_cdev where
  "sample_file = zero_cdev\<lparr>c_magic := MAGIC_CHAR, c_xdev := Some 0, c_engine := Some (DMA_TO_DEVICE, 0)\<rparr>"

definition sample_devtab :: devtab where
  "sample_devtab = \<lparr>dt_devs = (\<lambda>_. sample_dev), dt_list = [0], dt_rcu = [0]\<rparr>"

lemma pin_ok_short: "pin_ok short_pin"
  by (simp add: pin_ok_def short_pin_def)

lemma sample_short_pin:
  "char_sgdma_read_write short_pin sample_env default_modparams (Some sample_file) 0x1000 8192 0 True 0
     sample_devtab sample_world =
   Some (- EFAULT, sample_devtab, kcall (UserPagePut 7) (kcall (UserPagePinned 7) sample_world))"
proof -
  have n: "count_pages 0x1000 8192 = 2" by (simp add: count_pages_def PAGE_SIZE_def)
  have e: "engine_at sample_dev (Some (DMA_TO_DEVICE, 0)) = Some sample_engine"
    by (simp add: engine_at_def arr_get_def sample_dev_def engines_of_def)
  have a: "check_transfer_align sample_engine 0x1000 8192 0 True = 0"
    by (simp add: check_transfer_align_def sample_engine_def Let_def)
  have c: "xcdev_check (Some sample_file) sample_dev True = 0"
    using e by (simp add: xcdev_check_def sample_file_def zero_cdev_def) (simp add: sample_dev_def sample_engine_def)
  have m: "char_sgdma_map_user_buf_to_sgl short_pin (zero_io_cb\<lparr>io_buf := 0x1000, io_len := 8192\<rparr>) True sample_world =
      Some (- EFAULT, zero_io_cb\<lparr>io_buf := 0x1000, io_len := 8192, io_pages_nr := word_of_int (- EFAULT)\<rparr>,
        kcall (UserPagePut 7) (kcall (UserPagePinned 7) sample_world))"
    by (simp add: char_sgdma_map_user_buf_to_sgl_def zero_io_cb_def n short_pin_def char_sgdma_unmap_user_buf_def
        pinned_def Let_def)
  show ?thesis
    using e a c m
    by (simp add: char_sgdma_read_write_def file_dev_def sample_devtab_def sample_file_def zero_cdev_def Let_def)
      (simp add: sample_engine_def)
qed

theorem read_write_puts_pages_witness:
  "\<exists>w'. char_sgdma_read_write short_pin sample_env default_modparams (Some sample_file) 0x1000 8192 0 True 0
     sample_devtab sample_world = Some (- 14, sample_devtab, w') \<and>
     UserPagePinned 7 \<in> set (ktrace w') \<and> page_balance 7 (ktrace w') = 0"
  using read_write_puts_pages[OF sample_env_calm pin_ok_short _ sample_short_pin, of 7] sample_short_pin
  by (simp add: sample_world_def)

text \<open>A buffer that begins on one page and ends on the next.\<close>

definition two_pages :: user_env where
  "two_pages = \<lparr>sgl_ok = True, pages_ok = True, pin_pages = (\<lambda>buf n. (2, [5, 9]))\<rparr>"

theorem user_table_names_buffer_witness:
  "\<exists>cb'. char_sgdma_map_user_buf_to_sgl two_pages (zero_io_cb\<lparr>io_buf := 0x1F00, io_len := 0x200\<rparr>) True sample_world =
     Some (0, cb', pinned [5, 9] sample_world) \<and>
   phys_bytes (sgl (io_sgt cb')) = buffer_bytes [5, 9] 0xF00 0x200 \<and> nents (io_sgt cb') = 2"
proof -
  have "pin_pages two_pages 0x1F00 (count_pages 0x1F00 0x200) = (int (length [5, 9 :: nat]), [5, 9])"
    by (simp add: two_pages_def)
  from user_table_names_buffer[OF _ _ _ _ _ _ _ this, of "zero_io_cb\<lparr>io_buf := 0x1F00, io_len := 0x200\<rparr>" True sample_world]
  show ?thesis by (auto simp: two_pages_def)
qed

end
