(* ===== verification/CdevProps.thy ===== *)
theory CdevProps
  imports Xvc SgdmaProps
begin

text \<open>
  Properties of the virtual cable, control, bypass and event devices: the register writes
  of a shift and what comes back, the range that a mapping of a BAR shows to user space,
  and the faults of the error paths.
\<close>

unbundle bit_operations_syntax

section \<open>One shift\<close>

text \<open>A bridge that is always ready, and whose output is a function of what has been written.\<close>

definition bridge_answers :: "addr \<Rightarrow> ((addr \<times> u32) list \<Rightarrow> u32) \<Rightarrow> world \<Rightarrow> bool" where
  "bridge_answers io f w \<longleftrightarrow>
     (\<forall>log. hw w log (io + XVC_BAR_CTRL_REG) AND 1 = 0 \<and> hw w log (io + XVC_BAR_TDO_REG) = f (log_writes log))"

definition shift_writes :: "addr \<Rightarrow> u32 \<Rightarrow> u32 \<Rightarrow> (addr \<times> u32) list" where
  "shift_writes io tms tdi = [(io + XVC_BAR_TMS_REG, tms), (io + XVC_BAR_TDI_REG, tdi), (io + XVC_BAR_CTRL_REG, 1)]"

lemma bridge_same: "hw w' = hw w \<Longrightarrow> bridge_answers io f w' = bridge_answers io f w"
  by (simp add: bridge_answers_def)

lemma xvc_shift:
  assumes "bridge_answers io f w"
  shows "\<exists>w'. xvc_shift_bits io tms tdi t w = (0, f (writes w @ shift_writes io tms tdi), w') \<and>
    writes w' = writes w @ shift_writes io tms tdi \<and> hw w' = hw w"
proof -
  let ?w = "write_register 1 (io + XVC_BAR_CTRL_REG) (write_register tdi (io + XVC_BAR_TDI_REG)
    (write_register tms (io + XVC_BAR_TMS_REG) w))"
  let ?w1 = "snd (read_register (io + XVC_BAR_CTRL_REG) ?w)"
  have p: "xvc_poll io COMPLETION_LOOP_MAX ?w = (COMPLETION_LOOP_MAX, ?w1)"
    using assms by (simp add: COMPLETION_LOOP_MAX_def numeral_eq_Suc case_prod_beta fst_read bridge_answers_def)
  have wr: "writes ?w1 = writes w @ shift_writes io tms tdi" by (simp add: shift_writes_def)
  have "fst (read_register (io + XVC_BAR_TDO_REG) ?w1) = f (writes w @ shift_writes io tms tdi)"
    unfolding fst_read using assms wr by (simp add: bridge_answers_def writes_def)
  then show ?thesis
    unfolding xvc_shift_bits_def Let_def p using wr
    by (intro exI[of _ "snd (read_register (io + XVC_BAR_TDO_REG) ?w1)"])
      (simp add: case_prod_beta COMPLETION_LOOP_MAX_def prod_eq_iff shift_writes_def)
qed

section \<open>The loop\<close>

text \<open>
  The writes for word k of n bits, all of them up to word m, and the bytes that come back,
  when \<^verbatim>\<open>ws\<close> has been written before.
\<close>

definition word_writes :: "addr \<Rightarrow> nat \<Rightarrow> u8 list \<Rightarrow> u8 list \<Rightarrow> nat \<Rightarrow> (addr \<times> u32) list" where
  "word_writes io n tms tdi k =
     (if n - 32 * k < 32 then [(io + XVC_BAR_LENGTH_REG, of_nat (n - 32 * k))] else []) @
     shift_writes io (le_word (take 4 (drop (4 * k) tms))) (le_word (take 4 (drop (4 * k) tdi)))"

definition all_writes :: "addr \<Rightarrow> nat \<Rightarrow> u8 list \<Rightarrow> u8 list \<Rightarrow> nat \<Rightarrow> (addr \<times> u32) list" where
  "all_writes io n tms tdi m = concat (map (word_writes io n tms tdi) [0..<m])"

definition bytes_back ::
  "((addr \<times> u32) list \<Rightarrow> u32) \<Rightarrow> (addr \<times> u32) list \<Rightarrow> addr \<Rightarrow> nat \<Rightarrow> u8 list \<Rightarrow> u8 list \<Rightarrow> nat \<Rightarrow> u8 list" where
  "bytes_back f ws io n tms tdi m = concat (map (\<lambda>k. le_bytes (f (ws @ all_writes io n tms tdi (Suc k)))) [0..<m])"

lemma all_writes_Suc: "all_writes io n tms tdi (Suc k) = all_writes io n tms tdi k @ word_writes io n tms tdi k"
  by (simp add: all_writes_def)

lemma bytes_back_Suc:
  "bytes_back f ws io n tms tdi (Suc k) =
     bytes_back f ws io n tms tdi k @ le_bytes (f (ws @ all_writes io n tms tdi (Suc k)))"
  by (simp add: bytes_back_def)

lemma length_bytes_back: "length (bytes_back f ws io n tms tdi k) = 4 * k"
  by (induction k) (simp_all add: bytes_back_Suc le_bytes_def, simp add: bytes_back_def)

lemma unat_drop3: "unat (drop_bit 3 (x :: u32)) = unat x div 8"
  by (simp only: unat_drop_bit_eq) (simp only: drop_bit_eq_div, simp)

text \<open>The number of bytes of word k, as the loop computes it.\<close>

definition word_bytes :: "nat \<Rightarrow> nat \<Rightarrow> nat" where
  "word_bytes n k = (if n - 32 * k < 32 then (n - 32 * k + 7) div 8 else 4)"

lemma word_bytes_min:
  assumes "32 * k < n"
  shows "word_bytes n k = min 4 ((n + 7) div 8 - 4 * k)" "4 * k + word_bytes n k \<le> (n + 7) div 8"
proof -
  have d: "(n + 7) div 8 - 4 * k = (n - 32 * k + 7) div 8"
  proof -
    have "n + 7 = (n - 32 * k + 7) + 4 * k * 8" using assms by simp
    then have "(n + 7) div 8 = (n - 32 * k + 7) div 8 + 4 * k" by (metis div_mult_self3 zero_neq_numeral add.commute)
    then show ?thesis by simp
  qed
  show m: "word_bytes n k = min 4 ((n + 7) div 8 - 4 * k)"
    unfolding d word_bytes_def by (auto simp: min_def)
  have "4 * k \<le> (n + 7) div 8" using assms by linarith
  then show "4 * k + word_bytes n k \<le> (n + 7) div 8" unfolding m by simp
qed

lemma xvc_loop_step:
  assumes "bridge_answers io f w" "n \<le> 2 ^ 32 - 32" "32 * k < n"
    and "length tms = (n + 7) div 8" "length tdi = (n + 7) div 8" "length tdo = (n + 7) div 8"
    and "writes w = ws @ all_writes io n tms tdi k"
    and "take (4 * k) tdo = take ((n + 7) div 8) (bytes_back f ws io n tms tdi k)"
  shows "\<exists>tdo' w'. xvc_loop io (of_nat n) tms tdi (of_nat (32 * k)) (of_nat n - of_nat (32 * k)) 0 tdo w =
      xvc_loop io (of_nat n) tms tdi (of_nat (32 * Suc k)) (of_nat n - of_nat (32 * Suc k)) 0 tdo' w' \<and>
    hw w' = hw w \<and> writes w' = ws @ all_writes io n tms tdi (Suc k) \<and>
    length tdo' = (n + 7) div 8 \<and>
    take (4 * Suc k) tdo' = take ((n + 7) div 8) (bytes_back f ws io n tms tdi (Suc k))"
proof -
  let ?s = "word_bytes n k" and ?nb = "(n + 7) div 8"
  let ?left = "of_nat n - of_nat (32 * k) :: u32"
  note s = word_bytes_min[OF assms(3)]
  have un: "unat (of_nat n :: u32) = n" "unat (of_nat (32 * k) :: u32) = 32 * k"
    using assms(2,3) by (simp_all only: unat_of_nat_u32)
  have lt: "(of_nat (32 * k) :: u32) < of_nat n" using assms(3) un by (simp add: word_less_nat_alt)
  have ul: "unat ?left = n - 32 * k" using un assms(3) by (simp add: unat_sub_if')
  have l32: "?left < 32 \<longleftrightarrow> n - 32 * k < 32" using ul by (simp add: word_less_nat_alt)
  have b: "unat (drop_bit 3 (of_nat (32 * k) :: u32)) = 4 * k" unfolding unat_drop3 un by simp
  have sb: "(if ?left < 32 then unat (drop_bit 3 (?left + 7)) else 4) = ?s"
  proof (cases "n - 32 * k < 32")
    case True
    then have "unat (?left + 7) = n - 32 * k + 7" using ul by (simp add: unat_word_ariths)
    then show ?thesis using True l32 by (simp add: unat_drop3 word_bytes_def)
  qed (use l32 in \<open>simp add: word_bytes_def\<close>)
  have left_w: "of_nat (n - 32 * k) = ?left" using assms(3) by simp
  define w1 where "w1 = (if ?left < 32 then write_register ?left (io + XVC_BAR_LENGTH_REG) w else w)"
  have w1: "hw w1 = hw w" "writes w1 = writes w @ (if n - 32 * k < 32 then [(io + XVC_BAR_LENGTH_REG, ?left)] else [])"
    using l32 by (simp_all add: w1_def)
  have tk: "take ?s (drop (4 * k) xs) = take 4 (drop (4 * k) xs)" if "length xs = ?nb" for xs :: "u8 list"
    using that s(1) by (simp add: min_def)
  have at: "bytes_at (4 * k) ?s xs = Some (take 4 (drop (4 * k) xs))" if "length xs = ?nb" for xs
    using that s(2) tk by (simp add: bytes_at_def)
  let ?tms = "le_word (take 4 (drop (4 * k) tms))" and ?tdi = "le_word (take 4 (drop (4 * k) tdi))"
  have wk: "writes w1 @ shift_writes io ?tms ?tdi = ws @ all_writes io n tms tdi (Suc k)"
    unfolding w1(2) assms(7) all_writes_Suc word_writes_def left_w by simp
  have "bridge_answers io f w1" using assms(1) bridge_same[OF w1(1)] by simp
  from xvc_shift[OF this, of ?tms ?tdi 0] obtain w2 where
    sh: "xvc_shift_bits io ?tms ?tdi 0 w1 = (0, f (ws @ all_writes io n tms tdi (Suc k)), w2)"
    and w2: "writes w2 = ws @ all_writes io n tms tdi (Suc k)" "hw w2 = hw w1"
    unfolding wk by blast
  define v where "v = f (ws @ all_writes io n tms tdi (Suc k))"
  define tdo1 where "tdo1 = take (4 * k) tdo @ take ?s (le_bytes v) @ drop (4 * k + ?s) tdo"
  have ls: "length (take ?s (le_bytes v)) = ?s" using s(1) by (simp add: le_bytes_def)
  have put: "put_bytes (4 * k) (take ?s (le_bytes v)) tdo = Some tdo1"
    using s(2) assms(6) unfolding put_bytes_def ls tdo1_def by simp
  have e: "xvc_loop io (of_nat n) tms tdi (of_nat (32 * k)) ?left 0 tdo w =
      xvc_loop io (of_nat n) tms tdi (of_nat (32 * Suc k)) (of_nat n - of_nat (32 * Suc k)) 0 tdo1 w2"
  proof -
    have nx: "of_nat (32 * k) + 32 = (of_nat (32 * Suc k) :: u32)" "?left - 32 = of_nat n - of_nat (32 * Suc k)" by simp_all
    show ?thesis
      using lt by (subst xvc_loop.simps)
        (simp add: Let_def b sb w1_def[symmetric] at[OF assms(4)] at[OF assms(5)] sh v_def[symmetric] put nx del: of_nat_mult of_nat_Suc mult_Suc_right)
  qed
  have k4: "4 * k \<le> ?nb" using s(2) by simp
  have l1: "length tdo1 = ?nb" using s(2) assms(6) ls by (simp add: tdo1_def)
  have "take (4 * Suc k) tdo1 = take (4 * k) tdo @ take ?s (le_bytes v)"
  proof (cases "?s = 4")
    case True
    then show ?thesis using assms(6) k4 ls by (simp add: tdo1_def)
  next
    case False
    then have "4 * k + ?s = ?nb" using s by (simp add: min_def split: if_splits)
    then show ?thesis using assms(6) k4 ls s(1) by (simp add: tdo1_def)
  qed
  also have "\<dots> = take ?nb (bytes_back f ws io n tms tdi (Suc k))"
    using assms(8) k4 s(1) unfolding bytes_back_Suc v_def[symmetric]
    by (simp add: length_bytes_back min_def le_bytes_def)
  finally show ?thesis using e w2 w1(1) l1 by (intro exI[of _ tdo1] exI[of _ w2]) simp
qed

lemma xvc_loop_all:
  assumes "bridge_answers io f w" "n \<le> 2 ^ 32 - 32" "k \<le> (n + 31) div 32"
    and "length tms = (n + 7) div 8" "length tdi = (n + 7) div 8" "length tdo = (n + 7) div 8"
    and "writes w = ws @ all_writes io n tms tdi k"
    and "take (4 * k) tdo = take ((n + 7) div 8) (bytes_back f ws io n tms tdi k)"
  shows "\<exists>w'. xvc_loop io (of_nat n) tms tdi (of_nat (32 * k)) (of_nat n - of_nat (32 * k)) 0 tdo w =
      Some (0, take ((n + 7) div 8) (bytes_back f ws io n tms tdi ((n + 31) div 32)), w') \<and>
    hw w' = hw w \<and> writes w' = ws @ all_writes io n tms tdi ((n + 31) div 32)"
  using assms
proof (induction "(n + 31) div 32 - k" arbitrary: k tdo w)
  case 0
  then have k: "k = (n + 31) div 32" by simp
  have n: "n \<le> 4294967264" using 0(3) by simp
  have b: "n \<le> 32 * k" using k by linarith
  have "32 * k < 4294967296" using k n by linarith
  then have b: "n \<le> 32 * k" "32 * k < 2 ^ 32" using b by simp_all
  then have "\<not> (of_nat (32 * k) :: u32) < of_nat n"
    by (simp only: word_less_nat_alt unat_of_nat_u32[OF b(2)]) (use b in \<open>simp add: unat_of_nat_u32\<close>)
  then have "xvc_loop io (of_nat n) tms tdi (of_nat (32 * k)) (of_nat n - of_nat (32 * k)) 0 tdo w = Some (0, tdo, w)"
    by (subst xvc_loop.simps) simp
  moreover have "(n + 7) div 8 \<le> 4 * k" using b(1) by linarith
  ultimately show ?case using 0(7-9) k by simp
next
  case (Suc j)
  then have lt: "32 * k < n" "Suc k \<le> (n + 31) div 32" "j = (n + 31) div 32 - Suc k" by linarith+
  obtain tdo' w1 where st: "xvc_loop io (of_nat n) tms tdi (of_nat (32 * k)) (of_nat n - of_nat (32 * k)) 0 tdo w =
      xvc_loop io (of_nat n) tms tdi (of_nat (32 * Suc k)) (of_nat n - of_nat (32 * Suc k)) 0 tdo' w1"
    and inv: "hw w1 = hw w" "writes w1 = ws @ all_writes io n tms tdi (Suc k)" "length tdo' = (n + 7) div 8"
      "take (4 * Suc k) tdo' = take ((n + 7) div 8) (bytes_back f ws io n tms tdi (Suc k))"
    using xvc_loop_step[OF Suc(3,4) lt(1) Suc(6-10)] by blast
  have "bridge_answers io f w1" using Suc(3) bridge_same[OF inv(1)] by simp
  from Suc(1)[OF lt(3) this Suc(4) lt(2) Suc(6,7) inv(3,2,4)] show ?case
    unfolding st inv(1) .
qed

section \<open>The whole ioctl\<close>

definition buffer_of :: "(nat \<Rightarrow> u8) \<Rightarrow> nat \<Rightarrow> u8 list" where
  "buffer_of user n = map user [0..<(n + 7) div 8]"

text \<open>C35: The ioctl of the virtual cable shifts exactly the bits of the user, on a bridge that
  is ready: the register writes are those of the words in order, the length register set to
  32 and again to the rest for a last part, and the call succeeds, gives back the lock and
  returns one byte for each started eight bits: what the bridge has put out after each word,
  or in the loop-back mode the bits that were shifted in.\<close>

theorem xvc_ioctl_shifts_buffers:
  assumes "bridge_answers io f w" "n = unat (xo_length (xvc_obj env))" "n \<le> 2 ^ 32 - 32"
    and "xcdev_check (Some c) d False = 0" "\<not> c_lock c" "bar_base d (c_bar c) = Some base" "io = base + c_base c"
    and "xo_opcode (xvc_obj env) = 1 \<or> xo_opcode (xvc_obj env) = 2" "buffer_ok env"
    and "obj_left env = 0" "tms_left env = 0" "tdi_left env = 0" "tdo_left env = 0"
    and "tms = buffer_of (tms_user env) n" "tdi = buffer_of (tdi_user env) n"
    and "start = (if n \<ge> 32 then [(io + XVC_BAR_LENGTH_REG, 0x20)] else [])"
  shows "\<exists>out w'. xvc_ioctl env c d XDMA_IOCXVC w = Some (0, Some out, c, w') \<and>
    writes w' = writes w @ start @ all_writes io n tms tdi ((n + 31) div 32) \<and>
    out = (if xo_opcode (xvc_obj env) = 2 then tdi
           else take ((n + 7) div 8) (bytes_back f (writes w @ start) io n tms tdi ((n + 31) div 32)))"
proof -
  let ?nb = "(n + 7) div 8"
  have n: "xo_length (xvc_obj env) = of_nat n" using assms(2) by simp
  have "unat (of_nat n + 7 :: u32) = n + 7" using assms(3) by (simp add: unat_word_ariths unat_of_nat)
  then have nb: "unat (drop_bit 3 (of_nat n + 7 :: u32)) = ?nb" by (simp add: unat_drop3)
  have g32: "(of_nat n :: u32) \<ge> 32 \<longleftrightarrow> n \<ge> 32"
    using assms(3) by (simp add: word_le_nat_alt unat_of_nat)
  define w1 where "w1 = (if (of_nat n :: u32) \<ge> 32 then write_register 0x20 (io + XVC_BAR_LENGTH_REG) w else w)"
  have w1: "hw w1 = hw w" "writes w1 = writes w @ start" by (simp_all add: w1_def g32 assms(16))
  have len: "length tms = ?nb" "length tdi = ?nb" by (simp_all add: assms(14,15) buffer_of_def)
  have br: "bridge_answers io f w1" using assms(1) bridge_same[OF w1(1)] by simp
  obtain w2 where l: "xvc_loop io (of_nat n) tms tdi 0 (of_nat n) 0 (buffer_of (fresh_byte env) n) w1 =
      Some (0, take ?nb (bytes_back f (writes w @ start) io n tms tdi ((n + 31) div 32)), w2)"
    and w2: "writes w2 = (writes w @ start) @ all_writes io n tms tdi ((n + 31) div 32)"
    using xvc_loop_all[OF br assms(3) _ len, of 0 "buffer_of (fresh_byte env) n" "writes w @ start"] w1(2)
    by (auto simp: buffer_of_def all_writes_def bytes_back_def)
  have lk: "lock_cdev c = Some (c\<lparr>c_lock := True\<rparr>)" using assms(5) by (simp add: lock_cdev_def)
  have ul: "unlock_cdev (c\<lparr>c_lock := True\<rparr>) = Some c" using assms(5) by (simp add: unlock_cdev_def)
  have cond: "(0 :: int) < 0 \<longleftrightarrow> False" "(xo_opcode (xvc_obj env) \<noteq> 1 \<and> xo_opcode (xvc_obj env) \<noteq> 2) = False"
    "(\<not> buffer_ok env) = False" "(XDMA_IOCXVC \<noteq> XDMA_IOCXVC) = False" "((0 :: nat) \<noteq> 0) = False"
    using assms(8,9) by simp_all
  have fl: "c_bar (c\<lparr>c_lock := True\<rparr>) = c_bar c" "c_base (c\<lparr>c_lock := True\<rparr>) = c_base c" by simp_all
  have e: "xvc_ioctl env c d XDMA_IOCXVC w =
      xvc_cleanup 0 (Some (if xo_opcode (xvc_obj env) = 2 then tdi
        else take ?nb (bytes_back f (writes w @ start) io n tms tdi ((n + 31) div 32)))) (c\<lparr>c_lock := True\<rparr>) w2"
    unfolding xvc_ioctl_def Let_def assms(4,10-13) n nb lk buffer_of_def[symmetric] assms(14,15)[symmetric]
      cond if_False bind.bind_lunit fl assms(6) assms(7)[symmetric] w1_def[symmetric] l case_prod_conv ..
  show ?thesis
    unfolding e xvc_cleanup_def ul bind.bind_lunit using w2 by simp
qed

definition sample_xvc :: xvc_env where
  "sample_xvc = \<lparr>obj_left = 0, xvc_obj = \<lparr>xo_opcode = 2, xo_length = 40\<rparr>, buffer_ok = True, tms_left = 0,
     tms_user = (\<lambda>_. 0), tdi_left = 0, tdi_user = (\<lambda>i. of_nat (i + 1)), fresh_byte = (\<lambda>_. 0), tdo_left = 0\<rparr>"

definition sample_cable :: xdma_cdev where
  "sample_cable = sample_file\<lparr>c_base := XVC_BAR_OFFSET_DFLT\<rparr>"

lemma sample_cable_ok:
  "xcdev_check (Some sample_cable) sample_dev False = 0" "\<not> c_lock sample_cable"
  "bar_base sample_dev (c_bar sample_cable) = Some 0x10000" "c_base sample_cable = 0x40000"
  by (simp_all add: xcdev_check_def sample_cable_def sample_file_def zero_cdev_def sample_dev_def bar_base_def
      arr_get_def XVC_BAR_OFFSET_DFLT_def)

theorem xvc_ioctl_shifts_buffers_witness:
  "\<exists>w'. xvc_ioctl sample_xvc sample_cable sample_dev XDMA_IOCXVC sample_world = Some (0, Some [1, 2, 3, 4, 5], sample_cable, w') \<and>
     length (writes w') = 8"
proof -
  have b: "bridge_answers 0x50000 (\<lambda>_. 0) sample_world" by (simp add: bridge_answers_def sample_world_def)
  have t: "buffer_of (tdi_user sample_xvc) 40 = [1, 2, 3, 4, 5]" by (simp add: buffer_of_def sample_xvc_def upt_rec)
  have "length (all_writes io 40 tms tdi 2) = 7" for io tms tdi
    by (simp add: all_writes_def word_writes_def shift_writes_def upt_rec)
  then show ?thesis
    using xvc_ioctl_shifts_buffers[OF b _ _ sample_cable_ok(1-3) _ _ _ _ _ _ _ refl refl refl, of 40 sample_xvc]
      sample_cable_ok(4) t
    by (auto simp: sample_xvc_def sample_world_def writes_def)
qed

section \<open>Faults of the error paths\<close>

text \<open>A structure that cannot be copied in makes the ioctl release a lock that it does not hold.\<close>

lemma xvc_early_exit_unlocks:
  assumes "xcdev_check (Some c) d False = 0" "\<not> c_lock c" "obj_left env \<noteq> 0"
  shows "xvc_ioctl env c d XDMA_IOCXVC w = None"
  using assms by (simp add: xvc_ioctl_def xvc_cleanup_def unlock_cdev_def Let_def)

text \<open>The number of bytes wraps to zero for lengths near 4G, and the first word is read outside the buffers.\<close>

lemma xvc_length_wraps:
  assumes "xcdev_check (Some c) d False = 0" "xo_opcode (xvc_obj env) = 1" "buffer_ok env"
    and "obj_left env = 0" "tms_left env = 0" "tdi_left env = 0" "xo_length (xvc_obj env) = 0xFFFFFFFF"
  shows "xvc_ioctl env c d XDMA_IOCXVC w = None"
proof -
  have nb: "unat (drop_bit 3 (0xFFFFFFFF + 7 :: u32)) = 0" by (simp add: unat_drop3)
  have at: "bytes_at 0 4 [] = None" by (simp add: bytes_at_def)
  have "xvc_loop io 0xFFFFFFFF [] [] 0 0xFFFFFFFF 0 [] w = None" for io w
    by (subst xvc_loop.simps) (simp add: at Let_def)
  then show ?thesis
    using assms nb by (auto simp: xvc_ioctl_def Let_def split: option.splits bind_splits)
qed

text \<open>The device of the whole bypass BAR has no engine, so reading it is always refused.\<close>

lemma bypass_base_refused:
  "c_engine c = None \<Longrightarrow> char_bypass_read ok (Some c) b n d w = Some (- EINVAL, [])"
  by (simp add: char_bypass_read_def xcdev_check_def engine_at_def Let_def)

section \<open>Mapping a BAR\<close>

text \<open>C40: Which mappings of a BAR are accepted: one that begins inside the BAR exactly when it
  also ends inside; but one that begins behind the end of the BAR is accepted too, since the
  room that is left is computed by an unsigned subtraction that wraps.  An accepted mapping
  shows the pages at the physical address of its offset, and a refused one nothing.\<close>

theorem bridge_mmap_accepts:
  assumes "xcdev_check (Some c) d False = 0"
    and "start = resource_start env (c_bar c)" "stop = resource_end env (c_bar c)" "start \<le> stop"
    and "len = unat stop - unat start + 1" "len < 2 ^ 64"
    and "off = unat (vm_pgoff vma) * 4096" "off < 2 ^ 64"
    and "vm_start vma \<le> vm_end vma" "vsize = unat (vm_end vma) - unat (vm_start vma)"
  shows "\<exists>rv w'. bridge_mmap env (Some c) d vma w = Some (rv, w') \<and>
    (rv = 0 \<longleftrightarrow> remap_ok env \<and> (if off \<le> len then off + vsize \<le> len else off + vsize \<le> 2 ^ 64 + len)) \<and>
    (if rv = 0 then w' = kcall (UserMapped (drop_bit 12 (start + of_nat off)) (of_nat vsize)) w else w' = w)"
proof -
  let ?off = "push_bit 12 (vm_pgoff vma)" and ?vs = "vm_end vma - vm_start vma"
  have o: "unat ?off = off"
    using assms(7,8) by (simp add: push_bit_eq_mult unat_word_ariths)
  have v: "unat ?vs = vsize" using assms(9,10) by (simp add: unat_sub)
  have l: "unat (stop - start + 1) = len" using assms(4-6) by (simp add: unat_word_ariths unat_sub)
  have p: "unat (stop - start + 1 - ?off) = (if off \<le> len then len - off else 2 ^ 64 + len - off)"
    unfolding unat_sub_if' l o by (simp add: add.commute[of len])
  have "?vs > stop - start + 1 - ?off \<longleftrightarrow>
      \<not> (if off \<le> len then off + vsize \<le> len else off + vsize \<le> 2 ^ 64 + len)"
    unfolding word_less_nat_alt v p using assms(8) by auto
  moreover have "of_nat off = ?off" "of_nat vsize = ?vs" unfolding o[symmetric] v[symmetric] by simp_all
  ultimately show ?thesis
    using assms(1) by (simp add: bridge_mmap_def map_bar_range_def Let_def flip: assms(2,3))
qed

text \<open>A BAR of one page, and a mapping of four pages behind its end.\<close>

theorem bridge_mmap_accepts_witness:
  "\<exists>w'. bridge_mmap \<lparr>resource_start = (\<lambda>_. 0x10000), resource_end = (\<lambda>_. 0x10FFF), remap_ok = True\<rparr> (Some sample_cable) sample_dev
     \<lparr>vm_start = 0x7000, vm_end = 0xB000, vm_pgoff = 2\<rparr> sample_world = Some (0, w') \<and> w' \<noteq> sample_world"
proof -
  let ?env = "\<lparr>resource_start = (\<lambda>_. 0x10000), resource_end = (\<lambda>_. 0x10FFF), remap_ok = True\<rparr>"
  let ?vma = "\<lparr>vm_start = 0x7000, vm_end = 0xB000, vm_pgoff = 2\<rparr>"
  obtain rv w' where "bridge_mmap ?env (Some sample_cable) sample_dev ?vma sample_world = Some (rv, w')"
    "rv = 0" "w' = kcall (UserMapped (drop_bit 12 (0x10000 + of_nat 8192)) (of_nat 16384)) sample_world"
    using bridge_mmap_accepts[OF sample_cable_ok(1), where start = "0x10000" and env = ?env and stop = "0x10FFF" and len = 4096
        and off = 8192 and vma = ?vma and vsize = 16384 and w = sample_world]
    by auto
  then show ?thesis by (auto simp: kcall_def sample_world_def)
qed

end
