(* ===== verification/ZynqProps.thy ===== *)
theory ZynqProps
  imports ZynqMain CdevProps
begin

text \<open>
  Properties of the sensor FPGA: what a probe sets up and a removal gives back, the fault
  after a failed probe, and which times of the GPS receiver are taken.
\<close>

unbundle bit_operations_syntax

section \<open>The structure of a device\<close>

definition mr_device :: zynq_dev where
  "mr_device = the (alloc_loop 16 0 0 0 (zero_zdev\<lparr>zdev_chan_cnt := 16, zdev_can_cnt := 4, zdev_video_cnt := 5,
     zdev_can_map := 0x3C00, zdev_video_map := 0x1F, zdev_chans := replicate 16 zero_chan,
     zdev_cans := replicate 4 None, zdev_videos := replicate 5 None\<rparr>))"

lemma hweight_maps: "hweight_long 0x3C00 = 4" "hweight_long 0x1F = 5" "hweight_long 0 = 0"
  by code_simp+

lemma mr_loop:
  "alloc_loop 16 0 0 0 (zero_zdev\<lparr>zdev_chan_cnt := 16, zdev_can_cnt := 4, zdev_video_cnt := 5,
     zdev_can_map := 0x3C00, zdev_video_map := 0x1F, zdev_chans := replicate 16 zero_chan,
     zdev_cans := replicate 4 None, zdev_videos := replicate 5 None\<rparr>) = Some mr_device"
proof -
  have "alloc_loop 16 0 0 0 (zero_zdev\<lparr>zdev_chan_cnt := 16, zdev_can_cnt := 4, zdev_video_cnt := 5,
     zdev_can_map := 0x3C00, zdev_video_map := 0x1F, zdev_chans := replicate 16 zero_chan,
     zdev_cans := replicate 4 None, zdev_videos := replicate 5 None\<rparr>) \<noteq> None"
    by code_simp
  then show ?thesis by (auto simp: mr_device_def)
qed

lemma alloc_loop_frame:
  "alloc_loop n i c v z = Some z' \<Longrightarrow>
     zdev_hw_cap z' = zdev_hw_cap z \<and> zdev_chan_cnt z' = zdev_chan_cnt z \<and> zdev_can_cnt z' = zdev_can_cnt z \<and>
     length (zdev_chans z') = length (zdev_chans z)"
proof (induction n arbitrary: i c v z)
  case (Suc n)
  show ?case
    using Suc.prems by (auto simp: Let_def arr_mod_def dest!: Suc.IH split: bind_splits if_splits)
qed simp

lemma zdev_alloc_ok:
  "\<exists>z. zdev_alloc zp True PCI_DEVICE_ID_MOONROVER = Some (Some z) \<and> zdev_hw_cap z = 0"
proof (cases "zynq_fwupdate zp")
  case True
  then show ?thesis
    by (simp add: zdev_alloc_def zynq_zdev_init_def hweight_maps) (simp add: zero_zdev_def)
next
  case False
  have "zdev_hw_cap mr_device = 0" using alloc_loop_frame[OF mr_loop] by (simp add: zero_zdev_def)
  then show ?thesis
    using False mr_loop
    by (simp add: zdev_alloc_def zynq_zdev_init_def hweight_maps ZYNQ_DMA_CHAN_NUM_MR_def ZYNQ_VIDEO_MAP_MR_def ZYNQ_CAN_MAP_MR_def)
qed

section \<open>A probe that fails\<close>

definition probe_goes_well :: "zynq_env \<Rightarrow> bool" where
  "probe_goes_well env \<longleftrightarrow> zynq_ioremap env \<noteq> None \<and> zynq_device_created env \<and> zynq_cdev_added env \<and>
     (zynq_dma64_ok env \<or> zynq_dma32_ok env) \<and> zynq_coherent_ok env"

lemma probe_fail_dangles:
  "zynq_probe_fail m h err s w = Some (rv, s', w') \<Longrightarrow> zdevs s' h = None \<and> zdev_static s' = zdev_static s"
  by (auto simp: zynq_probe_fail_def free_zdev_def Let_def)

lemma remove_freed: "zdev_static s = Some h \<Longrightarrow> zdevs s h = None \<Longrightarrow> zynq_remove zp s w = None"
  by (simp add: zynq_remove_def zynq_gps_fini_def Let_def)

lemma g_reg_total:
  assumes "zdev_bar0 z \<noteq> None"
  shows "\<exists>v w'. zynq_g_reg_read zp z r w = Some (v, w') \<and> ktrace w' = ktrace w"
    "\<exists>w'. zynq_g_reg_write zp z r x w = Some w' \<and> ktrace w' = ktrace w"
  using assms by (auto simp: zynq_g_reg_read_def zynq_g_reg_write_def read_register_def write_register_def Let_def)

lemma setup_fails:
  assumes "zdev_bar0 z \<noteq> None" "zynq_ioremap env \<noteq> None" "\<not> probe_goes_well env"
  shows "\<exists>rv s' w'. zynq_probe_setup zp env h z s w = Some (rv, s', w') \<and> zdev_static s' = zdev_static s \<and> zdevs s' h = None"
proof -
  obtain v w1 where r: "zynq_g_reg_read zp z ZYNQ_G_VERSION (kcall ZynqBarMapped w) = Some (v, w1)"
    using g_reg_total(1)[OF assms(1)] by blast
  obtain rv z2 s2 w2 where c: "zynq_create_cdev_all env (z\<lparr>zdev_version := v\<rparr>) s w1 = (rv, z2, s2, w2)"
    using prod_cases4 by blast
  then have s2: "zdev_static s2 = zdev_static s"
    by (auto simp: zynq_create_cdev_all_def zynq_create_cdev_def Let_def split: prod.splits if_splits)
  show ?thesis
  proof (cases "rv = 0")
    case False
    then show ?thesis
      using s2 by (simp add: zynq_probe_setup_def Let_def r c zynq_probe_fail_def free_zdev_def)
  next
    case True
    then have "zynq_device_created env \<and> zynq_cdev_added env"
      using c by (auto simp: zynq_create_cdev_all_def zynq_create_cdev_def Let_def split: prod.splits if_splits)
    then have "\<not> ((zynq_dma64_ok env \<or> zynq_dma32_ok env) \<and> zynq_coherent_ok env)"
      using assms(2,3) by (auto simp: probe_goes_well_def)
    moreover obtain ok w3 where m: "zynq_dma_masks env (kcall BusMaster w2) = (ok, w3)"
      by (cases "zynq_dma_masks env (kcall BusMaster w2)")
    ultimately have "ok = False" by (auto simp: zynq_dma_masks_def Let_def split: if_splits)
    then have m: "zynq_dma_masks env (kcall BusMaster w2) = (False, w3)" using m by simp
    then show ?thesis
      using True s2 by (simp add: zynq_probe_setup_def Let_def r c zynq_probe_fail_def free_zdev_def)
  qed
qed

text \<open>C38: A probe of the sensor FPGA that fails after its structure has been allocated frees
  the structure but leaves the global pointer to it, so that removing the device uses freed
  memory.  The caller ignores the result of the probe, so this removal does happen.\<close>

theorem failed_zynq_probe_dangles:
  assumes "zynq_pci_did env = PCI_DEVICE_ID_MOONROVER" "zynq_alloc_ok env" "\<not> probe_goes_well env"
  shows "\<exists>rv s' w'. zynq_probe zp env h s w = Some (rv, s', w') \<and> zdev_static s' = Some h \<and> zdevs s' h = None \<and>
    zynq_remove zp s' w'' = None"
proof -
  obtain z where al: "zdev_alloc zp (zynq_alloc_ok env) (zynq_pci_did env) = Some (Some z)"
    using zdev_alloc_ok[of zp] assms(1,2) by auto
  have "\<exists>rv s' w'. zynq_probe zp env h s w = Some (rv, s', w') \<and> zdev_static s' = Some h \<and> zdevs s' h = None"
  proof (cases "zynq_ioremap env = None")
    case True
    then show ?thesis by (simp add: zynq_probe_def al Let_def zynq_probe_fail_def free_zdev_def)
  next
    case False
    define Z where "Z = z\<lparr>zdev_inst := zynq_instance s, zdev_can_num_start := zynq_can_count s,
      zdev_vid := zynq_pci_vid env, zdev_did := zynq_pci_did env,
      zdev_bar0 := zynq_ioremap env, zdev_bar0_len := zynq_bar_len env\<rparr>"
    define S where "S = s\<lparr>zdev_static := Some h, zynq_can_count := zynq_can_count s + zdev_can_cnt z,
      zynq_instance := zynq_instance s + 1\<rparr>"
    have "zdev_bar0 Z \<noteq> None" "zdev_static S = Some h" using False by (auto simp: Z_def S_def)
    then obtain rv s' w' where "zynq_probe_setup zp env h Z S w = Some (rv, s', w')" "zdev_static s' = Some h" "zdevs s' h = None"
      using setup_fails[OF _ False assms(3), of Z zp h S w] by auto
    moreover have "zynq_probe zp env h s w = zynq_probe_setup zp env h Z S w"
      using False by (auto simp: zynq_probe_def al Z_def S_def Let_def)
    ultimately show ?thesis by simp
  qed
  then show ?thesis using remove_freed by blast
qed

definition sample_zparams :: zynq_params where
  "sample_zparams = \<lparr>zynq_trace_stats = False, zynq_trace_intr = False, zynq_bringup = False, zynq_fwupdate = False,
     zynq_stats_log_interval = 1, zynq_gps_sync_time = 10, zynq_gps_smooth_step = 1000, zynq_gps_smooth_max = 1000,
     zynq_gps_checksum = False, zynq_gps_high_factor = 100000, zynq_gps_low_factor = 100\<rparr>"

definition sample_zenv :: zynq_env where
  "sample_zenv = \<lparr>zynq_alloc_ok = True, zynq_pci_vid = 0x1D22, zynq_pci_did = PCI_DEVICE_ID_MOONROVER,
     zynq_bar_len = 0x10000, zynq_ioremap = Some 0x80000, zynq_device_created = True, zynq_cdev_added = True,
     zynq_dma64_ok = True, zynq_dma32_ok = True, zynq_coherent_ok = True,
     zynq_thread_ok = True, stale_err = 0, stale_i = 3\<rparr>"

definition sample_zstate :: zynq_state where
  "sample_zstate = \<lparr>zdevs = (\<lambda>_. None), zdev_static = None, zynq_gps_master_dev = None, zynq_gps_taskp = False,
     zynq_gps_valid_once = False, zynq_instance = 0, zynq_can_count = 0, zynq_dev_list = None, zynq_major = 240,
     zynq_minor = 0, zynq_class = True\<rparr>"

theorem failed_zynq_probe_dangles_witness:
  "\<exists>rv s' w'. zynq_probe sample_zparams (sample_zenv\<lparr>zynq_ioremap := None\<rparr>) 3 sample_zstate sample_world = Some (rv, s', w') \<and>
     zynq_remove sample_zparams s' w' = None"
  using failed_zynq_probe_dangles[of "sample_zenv\<lparr>zynq_ioremap := None\<rparr>" sample_zparams 3 sample_zstate sample_world]
  by (fastforce simp: sample_zenv_def probe_goes_well_def remove_freed)

section \<open>A probe and a removal\<close>

lemma enable_total:
  assumes "zdev_bar0 z \<noteq> None"
  shows "\<exists>w'. zdev_enable_intr_all zp z w = Some w' \<and> ktrace w' = ktrace w"
    "\<exists>w'. zdev_disable_intr_all zp z w = Some w' \<and> ktrace w' = ktrace w"
proof -
  have one: "\<exists>w'. zynq_g_reg_write zp z r x w = Some w' \<and> ktrace w' = ktrace w" for r x w
    by (rule g_reg_total(2)[OF assms])
  have three: "\<exists>w'. (do { w \<leftarrow> zynq_g_reg_write zp z r x w; w \<leftarrow> zynq_g_reg_write zp z r' x' w; zynq_g_reg_write zp z r'' x'' w })
      = Some w' \<and> ktrace w' = ktrace w" for r x r' x' r'' x''
  proof -
    obtain w1 where 1: "zynq_g_reg_write zp z r x w = Some w1" "ktrace w1 = ktrace w" using one by blast
    obtain w2 where 2: "zynq_g_reg_write zp z r' x' w1 = Some w2" "ktrace w2 = ktrace w1" using one by blast
    obtain w3 where 3: "zynq_g_reg_write zp z r'' x'' w2 = Some w3" "ktrace w3 = ktrace w2" using one by blast
    show ?thesis by (simp add: 1 2 3)
  qed
  show "\<exists>w'. zdev_enable_intr_all zp z w = Some w' \<and> ktrace w' = ktrace w"
    by (cases "zynq_fwupdate zp") (simp_all add: zdev_enable_intr_all_def Let_def three)
  show "\<exists>w'. zdev_disable_intr_all zp z w = Some w' \<and> ktrace w' = ktrace w"
    by (simp add: zdev_disable_intr_all_def three)
qed

lemma gps_init_total:
  assumes "zdevs s h = Some z" "zdev_bar0 z \<noteq> None" "zdev_hw_cap z = 0" "zynq_gps_master_dev s = None"
    "thread_ok \<or> zynq_fwupdate zp"
  shows "\<exists>w'. zynq_gps_init zp thread_ok h s w =
      Some (if zynq_fwupdate zp then s else s\<lparr>zynq_gps_master_dev := Some h, zynq_gps_taskp := True\<rparr>, w') \<and>
    ktrace w' = (if zynq_fwupdate zp then [] else [GpsThreadStarted]) @ ktrace w"
proof -
  obtain v w1 where "zynq_g_reg_read zp z ZYNQ_G_STATUS w = Some (v, w1)" "ktrace w1 = ktrace w"
    using g_reg_total(1)[OF assms(2)] by blast
  then show ?thesis
    using assms by (cases thread_ok)
      (simp_all add: zynq_gps_init_def zynq_gps_config_def zynq_gps_status_def ZYNQ_CAP_def zynq_gps_thread_init_def)
qed

lemma setup_succeeds:
  assumes "zdev_bar0 z \<noteq> None" "zdev_hw_cap z = 0" "probe_goes_well env" "zynq_gps_master_dev s = None"
    "(zynq_major s, zynq_minor s) \<noteq> (0, 0)" "zynq_thread_ok env \<or> zynq_fwupdate zp"
  shows "\<exists>z' s' w'. zynq_probe_setup zp env h z s w = Some (0, s', w') \<and> zdevs s' = (zdevs s)(h := Some z') \<and>
    zdev_bar0 z' \<noteq> None \<and> zdev_dev_gps z' = (zynq_major s, zynq_minor s) \<and> zdev_static s' = zdev_static s \<and>
    zynq_dev_list s' = Some h \<and> zynq_minor s' = zynq_minor s + 1 \<and> zynq_gps_taskp s' = (zynq_gps_taskp s \<or> \<not> zynq_fwupdate zp) \<and>
    ktrace w' = (if zynq_fwupdate zp then [] else [GpsThreadStarted]) @
      [ConsistentMaskSet 64, DmaMaskSet (if zynq_dma64_ok env then 64 else 32), BusMaster,
       CharDevAdded (zynq_major s) (zynq_minor s), SysDevAdded (zynq_major s) (zynq_minor s), ZynqBarMapped] @ ktrace w"
proof -
  let ?n = "(zynq_major s, zynq_minor s)"
  obtain v w1 where r: "zynq_g_reg_read zp z ZYNQ_G_VERSION (kcall ZynqBarMapped w) = Some (v, w1)"
    "ktrace w1 = ZynqBarMapped # ktrace w"
    using g_reg_total(1)[OF assms(1), of zp ZYNQ_G_VERSION "kcall ZynqBarMapped w"] by (auto simp: kcall_def)
  define s2 where "s2 = s\<lparr>zynq_minor := zynq_minor s + 1\<rparr>"
  define z2 where "z2 = z\<lparr>zdev_version := v, zdev_dev_gps := ?n\<rparr>"
  define w2 where "w2 = kcall (CharDevAdded (fst ?n) (snd ?n)) (kcall (SysDevAdded (fst ?n) (snd ?n)) w1)"
  have c: "zynq_create_cdev_all env (z\<lparr>zdev_version := v\<rparr>) s w1 = (0, z2, s2, w2)"
    using assms(3,5) by (auto simp: zynq_create_cdev_all_def zynq_create_cdev_def Let_def probe_goes_well_def s2_def z2_def w2_def)
  define w3 where "w3 = kcall (ConsistentMaskSet 64) (kcall (DmaMaskSet (if zynq_dma64_ok env then 64 else 32)) (kcall BusMaster w2))"
  have m: "zynq_dma_masks env (kcall BusMaster w2) = (True, w3)"
    using assms(3) by (auto simp: zynq_dma_masks_def probe_goes_well_def Let_def w3_def)
  have z2: "zdev_bar0 z2 \<noteq> None" "zdev_hw_cap z2 = 0" using assms(1,2) by (simp_all add: z2_def)
  obtain w4 where e: "zdev_enable_intr_all zp z2 w3 = Some w4" "ktrace w4 = ktrace w3"
    using enable_total(1)[OF z2(1)] by blast
  define z3 where "z3 = z2\<lparr>zdev_next := zynq_dev_list s2\<rparr>"
  define s3 where "s3 = put_zdev h z3 (s2\<lparr>zynq_dev_list := Some h\<rparr>)"
  have s3: "zdevs s3 h = Some z3" "zdev_bar0 z3 \<noteq> None" "zdev_hw_cap z3 = 0" "zynq_gps_master_dev s3 = None"
    using z2 assms(4) by (simp_all add: s3_def z3_def s2_def put_zdev_def)
  obtain w5 where g: "zynq_gps_init zp (zynq_thread_ok env) h s3 w4 =
      Some (if zynq_fwupdate zp then s3 else s3\<lparr>zynq_gps_master_dev := Some h, zynq_gps_taskp := True\<rparr>, w5)"
    "ktrace w5 = (if zynq_fwupdate zp then [] else [GpsThreadStarted]) @ ktrace w4"
    using gps_init_total[OF s3 assms(6)] by blast
  have run: "zynq_probe_setup zp env h z s w =
      Some (0, if zynq_fwupdate zp then s3 else s3\<lparr>zynq_gps_master_dev := Some h, zynq_gps_taskp := True\<rparr>, w5)"
    using e(1) g(1) by (simp add: zynq_probe_setup_def Let_def r(1) c m z3_def s3_def)
  have "ktrace w5 = (if zynq_fwupdate zp then [] else [GpsThreadStarted]) @
      [ConsistentMaskSet 64, DmaMaskSet (if zynq_dma64_ok env then 64 else 32), BusMaster,
       CharDevAdded (zynq_major s) (zynq_minor s), SysDevAdded (zynq_major s) (zynq_minor s), ZynqBarMapped] @ ktrace w"
    using g(2) e(2) r(2) by (simp add: w3_def w2_def kcall_def)
  moreover have "zdevs s3 = (zdevs s)(h := Some z3)" "zdev_dev_gps z3 = ?n" "zdev_static s3 = zdev_static s"
    "zynq_dev_list s3 = Some h" "zynq_minor s3 = zynq_minor s + 1" "zynq_gps_taskp s3 = zynq_gps_taskp s"
    by (simp_all add: s3_def z3_def z2_def s2_def put_zdev_def)
  ultimately show ?thesis using run s3(2) by auto
qed

lemma remove_releases:
  assumes "zdev_static s = Some h" "zdevs s h = Some z" "zdev_bar0 z \<noteq> None" "zdev_dev_gps z \<noteq> (0, 0)"
  shows "\<exists>w'. zynq_remove zp s w = Some ((free_zdev h (s\<lparr>zynq_gps_master_dev := None\<rparr>))\<lparr>zdev_static := None\<rparr>, w') \<and>
    ktrace w' = [ZynqDevFreed, ZynqBarUnmapped, SysDevRemoved (fst (zdev_dev_gps z)) (snd (zdev_dev_gps z)),
      CharDevRemoved (fst (zdev_dev_gps z)) (snd (zdev_dev_gps z))] @
      (if zynq_gps_taskp s then [GpsThreadStopped] else []) @ [GpsWake] @ ktrace w"
proof -
  define w1 where "w1 = zynq_gps_thread_fini (s\<lparr>zynq_gps_master_dev := None\<rparr>) w"
  obtain w2 where d: "zdev_disable_intr_all zp z w1 = Some w2" "ktrace w2 = ktrace w1"
    using enable_total(2)[OF assms(3)] by blast
  have "ktrace w1 = (if zynq_gps_taskp s then [GpsThreadStopped] else []) @ [GpsWake] @ ktrace w"
    by (simp add: w1_def zynq_gps_thread_fini_def Let_def kcall_def)
  then show ?thesis
    using assms(1,2,4) d
    by (simp add: zynq_remove_def zynq_gps_fini_def Let_def w1_def[symmetric] zynq_destroy_cdev_all_def
        zynq_destroy_cdev_def kcall_def)
qed

text \<open>C37: A probe of the sensor FPGA that goes well, its thread started, and the removal that
  follows make exactly the calls listed (the latest first).  The node with its system device, the
  mapping of BAR 0 and, unless the firmware is being updated, the thread are given back in the
  reverse order; the structure and two of the pointers to it are gone, while the list of the
  devices still points to it.  Not undone are bus mastering and the two DMA masks.  The removal
  wakes the thread of the GPS before it stops it, and it stops whatever thread the pointer
  names: while the firmware is being updated, one that an earlier probe has left behind, although
  this probe has started none.\<close>

theorem zynq_probe_remove:
  assumes "zynq_pci_did env = PCI_DEVICE_ID_MOONROVER" "zynq_alloc_ok env" "probe_goes_well env"
    "zynq_gps_master_dev s = None" "n = (zynq_major s, zynq_minor s)" "n \<noteq> (0, 0)"
    "zynq_thread_ok env \<or> zynq_fwupdate zp"
  shows "\<exists>s' w' s'' w''. zynq_probe zp env h s w = Some (0, s', w') \<and> zdev_static s' = Some h \<and>
    zynq_remove zp s' w' = Some (s'', w'') \<and> zdev_static s'' = None \<and> zynq_gps_master_dev s'' = None \<and>
    zdevs s'' = (zdevs s)(h := None) \<and> zynq_dev_list s'' = Some h \<and>
    ktrace w' = (if zynq_fwupdate zp then [] else [GpsThreadStarted]) @
      [ConsistentMaskSet 64, DmaMaskSet (if zynq_dma64_ok env then 64 else 32), BusMaster,
       CharDevAdded (fst n) (snd n), SysDevAdded (fst n) (snd n), ZynqBarMapped] @ ktrace w \<and>
    ktrace w'' =
      [ZynqDevFreed, ZynqBarUnmapped, SysDevRemoved (fst n) (snd n), CharDevRemoved (fst n) (snd n)] @
      (if zynq_gps_taskp s \<or> \<not> zynq_fwupdate zp then [GpsThreadStopped] else []) @ [GpsWake] @ ktrace w'"
proof -
  obtain z where al: "zdev_alloc zp (zynq_alloc_ok env) (zynq_pci_did env) = Some (Some z)" "zdev_hw_cap z = 0"
    using zdev_alloc_ok[of zp] assms(1,2) by auto
  define Z where "Z = z\<lparr>zdev_inst := zynq_instance s, zdev_can_num_start := zynq_can_count s,
    zdev_vid := zynq_pci_vid env, zdev_did := zynq_pci_did env,
    zdev_bar0 := zynq_ioremap env, zdev_bar0_len := zynq_bar_len env\<rparr>"
  define S where "S = s\<lparr>zdev_static := Some h, zynq_can_count := zynq_can_count s + zdev_can_cnt z,
    zynq_instance := zynq_instance s + 1\<rparr>"
  have p: "zynq_probe zp env h s w = zynq_probe_setup zp env h Z S w"
    using assms(3) al(1) by (auto simp: zynq_probe_def Z_def S_def Let_def probe_goes_well_def)
  have Z: "zdev_bar0 Z \<noteq> None" "zdev_hw_cap Z = 0" using assms(3) al(2) by (simp_all add: Z_def probe_goes_well_def)
  have S: "zynq_gps_master_dev S = None" "(zynq_major S, zynq_minor S) \<noteq> (0, 0)"
    "(zynq_major S, zynq_minor S) = n" "zdev_static S = Some h" "zdevs S = zdevs s" "zynq_gps_taskp S = zynq_gps_taskp s"
    using assms(4-6) by (simp_all add: S_def)
  obtain z' s' w' where q: "zynq_probe_setup zp env h Z S w = Some (0, s', w')" "zdevs s' = (zdevs s)(h := Some z')"
    "zdev_bar0 z' \<noteq> None" "zdev_dev_gps z' = n" "zdev_static s' = Some h" "zynq_dev_list s' = Some h"
    "zynq_gps_taskp s' = (zynq_gps_taskp s \<or> \<not> zynq_fwupdate zp)"
    "ktrace w' = (if zynq_fwupdate zp then [] else [GpsThreadStarted]) @
      [ConsistentMaskSet 64, DmaMaskSet (if zynq_dma64_ok env then 64 else 32), BusMaster,
       CharDevAdded (fst n) (snd n), SysDevAdded (fst n) (snd n), ZynqBarMapped] @ ktrace w"
    using setup_succeeds[OF Z assms(3) S(1,2) assms(7), of h w] unfolding S(4-6)
    by (auto simp: assms(5) S_def)
  obtain w'' where r: "zynq_remove zp s' w' = Some ((free_zdev h (s'\<lparr>zynq_gps_master_dev := None\<rparr>))\<lparr>zdev_static := None\<rparr>, w'')"
    "ktrace w'' = [ZynqDevFreed, ZynqBarUnmapped, SysDevRemoved (fst n) (snd n), CharDevRemoved (fst n) (snd n)] @
      (if zynq_gps_taskp s' then [GpsThreadStopped] else []) @ [GpsWake] @ ktrace w'"
    using remove_releases[of s' h z' zp w'] q(2-5) assms(6) by auto
  show ?thesis
    using p q r(1) r(2)[unfolded q(7)] by (auto simp: free_zdev_def)
qed

theorem zynq_probe_remove_witness:
  "\<exists>s' w' s'' w''. zynq_probe sample_zparams sample_zenv 3 sample_zstate sample_world = Some (0, s', w') \<and>
     zynq_remove sample_zparams s' w' = Some (s'', w'') \<and> zdev_static s'' = None"
  using zynq_probe_remove[of sample_zenv sample_zstate "(240, 0)" sample_zparams 3 sample_world]
  by (auto simp: sample_zenv_def sample_zstate_def probe_goes_well_def)

section \<open>The time of the receiver\<close>

lemma valid_bit: "v AND ucast ZYNQ_GPS_TIME_VALID = (0 :: u64) \<longleftrightarrow> even (uint v)"
proof -
  have "v AND 1 = (0 :: u64) \<longleftrightarrow> uint (v mod 2) = 0" by (simp only: and_one_eq uint_0_iff)
  also have "\<dots> \<longleftrightarrow> uint v mod 2 = 0" by (simp add: uint_mod_distrib)
  also have "\<dots> \<longleftrightarrow> even (uint v)" by presburger
  finally show ?thesis by (simp add: ZYNQ_GPS_TIME_VALID_def)
qed

lemma ntp_value: "uint (push_bit 32 (ucast (hi :: u32)) OR ucast (lo :: u32) :: u64) = uint hi * 2 ^ 32 + uint lo"
proof -
  have "push_bit 32 (ucast hi) OR ucast lo = (push_bit 32 (ucast hi) + ucast lo :: u64)"
    by (rule disjunctive_add[symmetric]) (auto simp: bit_simps dest: bit_imp_le_length)
  moreover have "uint hi < 2 ^ 32" "uint lo < 2 ^ 32" "0 \<le> uint hi" "0 \<le> uint lo"
    using uint_bounded[of hi] uint_bounded[of lo] by auto
  ultimately show ?thesis
    by (simp add: uint_word_ariths push_bit_eq_mult uint_up_ucast is_up)
qed

lemma ones_value: "v = (- 1 :: u64) \<longleftrightarrow> uint v = 2 ^ 64 - 1"
proof -
  have "uint (- 1 :: u64) = 2 ^ 64 - 1" by code_simp
  then show ?thesis by (metis word_uint_eq_iff)
qed

lemma carry: "(a + n div k) * k + n mod k = a * k + (n :: int)"
  by (simp add: distrib_right)

lemma time_fields:
  "tv_sec (zynq_gps_time_ts v) * 10 ^ 9 + tv_nsec (zynq_gps_time_ts v) = uint v div 2 ^ 20 * 10 ^ 9 + uint v mod 2 ^ 20 * 10 ^ 5"
  "0 \<le> tv_nsec (zynq_gps_time_ts v)" "tv_nsec (zynq_gps_time_ts v) < 10 ^ 9"
proof -
  have m: "(0xfffff :: u64) = mask 20" by (simp add: mask_eq_exp_minus_1)
  have lo: "uint (v AND 0xfffff) = uint v mod 2 ^ 20"
    unfolding m by (simp only: take_bit_eq_mask[symmetric] unsigned_take_bit_eq) (simp only: take_bit_eq_mod)
  have "take_bit 64 (uint v) = uint v"
    using uint_bounded[of v] by (simp add: take_bit_int_eq_self)
  then have hi: "uint (drop_bit 20 v) = uint v div 2 ^ 20"
    by (simp only: unsigned_drop_bit_eq) (simp add: drop_bit_eq_div)
  have ts: "zynq_gps_time_ts v = \<lparr>tv_sec = uint v div 2 ^ 20 + (uint v mod 2 ^ 20 * 10 ^ 5) div 10 ^ 9,
      tv_nsec = (uint v mod 2 ^ 20 * 10 ^ 5) mod 10 ^ 9\<rparr>"
    by (simp add: zynq_gps_time_ts_def timespec_add_def Let_def lo[simplified] hi[simplified] mult.commute)
  show "tv_sec (zynq_gps_time_ts v) * 10 ^ 9 + tv_nsec (zynq_gps_time_ts v) = uint v div 2 ^ 20 * 10 ^ 9 + uint v mod 2 ^ 20 * 10 ^ 5"
    unfolding ts timespec.simps by (rule carry)
  show "0 \<le> tv_nsec (zynq_gps_time_ts v)" "tv_nsec (zynq_gps_time_ts v) < 10 ^ 9"
    unfolding ts timespec.simps by simp_all
qed

lemma gps_time_plain:
  assumes "zynq_g_reg_read zp z ZYNQ_G_NTP_LO w = Some (lo, w1)" "zynq_g_reg_read zp z ZYNQ_G_NTP_HI w1 = Some (hi, w2)"
    "zdev_hw_cap z = 0" "v = push_bit 32 (ucast hi) OR ucast lo"
  shows "zynq_get_gps_time zp z once w =
    (if v = - 1 \<or> v AND ucast ZYNQ_GPS_TIME_VALID = 0 then Some (- 1, v, once, w2) else Some (0, v, True, w2))"
  using assms by (simp add: zynq_get_gps_time_def Let_def ZYNQ_CAP_def)

text \<open>C39: Without the smoothing of the hardware, which no code ever enables, a synchronisation
  takes the time of the receiver exactly when its lowest bit is set and it is not all ones.
  That bit belongs to the count of tenths of milliseconds, so that the even counts are
  refused and leave the device as it was.  A time that is taken is stored as the same instant
  with a normal fraction, and counted.\<close>

theorem gps_sync_takes_odd_counts:
  assumes "zynq_g_reg_read zp z ZYNQ_G_NTP_LO w = Some (lo, w1)" "zynq_g_reg_read zp z ZYNQ_G_NTP_HI w1 = Some (hi, w2)"
    "zdev_hw_cap z = 0" "v = uint hi * 2 ^ 32 + uint lo" "taken \<longleftrightarrow> odd v \<and> v \<noteq> 2 ^ 64 - 1"
  shows "\<exists>z' once'. zynq_do_gps_sync zp clock z once w = Some (if taken then 0 else - 1, z', once', w2) \<and>
    (\<not> taken \<longrightarrow> z' = z \<and> once' = once) \<and>
    (taken \<longrightarrow> once' \<and> zdev_gps_cnt z' = zdev_gps_cnt z + 1 \<and> tv_nsec (zdev_gps_ts z') \<in> {0..<10 ^ 9} \<and>
      tv_sec (zdev_gps_ts z') * 10 ^ 9 + tv_nsec (zdev_gps_ts z') = v div 2 ^ 20 * 10 ^ 9 + v mod 2 ^ 20 * 10 ^ 5)"
proof -
  define u :: u64 where "u = push_bit 32 (ucast hi) OR ucast lo"
  have u: "uint u = v" unfolding u_def ntp_value assms(4) ..
  have g: "zynq_get_gps_time zp z once w = (if taken then Some (0, u, True, w2) else Some (- 1, u, once, w2))"
    using gps_time_plain[OF assms(1-3) u_def] assms(5) by (auto simp: valid_bit ones_value u)
  show ?thesis
  proof (cases taken)
    case True
    then show ?thesis
      using time_fields[of u] u g by (auto simp: zynq_do_gps_sync_def zynq_gps_ts_check_def Let_def)
  next
    case False
    then show ?thesis using g by (simp add: zynq_do_gps_sync_def zynq_gps_ts_check_def Let_def)
  qed
qed

text \<open>A receiver at an odd count of tenths of milliseconds.\<close>

definition sample_receiver :: world where
  "sample_receiver = sample_world\<lparr>hw := (\<lambda>_ a. if a = 0x81000 then 0xEEF00003 else if a = 0x81004 then 0x600 else 0)\<rparr>"

theorem gps_sync_takes_odd_counts_witness:
  "\<exists>z' w'. zynq_do_gps_sync sample_zparams (\<lambda>_. \<lparr>tv_sec = 0, tv_nsec = 0\<rparr>) (zero_zdev\<lparr>zdev_bar0 := Some 0x80000\<rparr>) False sample_receiver
     = Some (0, z', True, w') \<and> zdev_gps_cnt z' = 1"
proof -
  let ?z = "zero_zdev\<lparr>zdev_bar0 := Some 0x80000\<rparr>"
  obtain w1 where 1: "zynq_g_reg_read sample_zparams ?z ZYNQ_G_NTP_LO sample_receiver = Some (0xEEF00003, w1)" "hw w1 = hw sample_receiver"
    by (simp add: zynq_g_reg_read_def sample_zparams_def read_register_def Let_def sample_receiver_def ZYNQ_G_NTP_LO_def)
  obtain w2 where 2: "zynq_g_reg_read sample_zparams ?z ZYNQ_G_NTP_HI w1 = Some (0x600, w2)"
    using 1(2) by (simp add: zynq_g_reg_read_def sample_zparams_def read_register_def Let_def sample_receiver_def ZYNQ_G_NTP_HI_def)
  show ?thesis
    using gps_sync_takes_odd_counts[OF 1(1) 2 _ refl refl, of "\<lambda>_. \<lparr>tv_sec = 0, tv_nsec = 0\<rparr>" False]
    by (auto simp: zero_zdev_def)
qed

end
