(* ===== verification/ModuleProps.thy ===== *)
theory ModuleProps
  imports Module ZynqProps
begin

text \<open>
  Properties of the module: the structures of the PCI devices are counted, each bound device
  has one of its own, and what failed probes leave behind.
\<close>

unbundle bit_operations_syntax

section \<open>Creating the interfaces keeps the owner\<close>

definition owner :: "xdma_pci_dev \<Rightarrow> nat \<times> nat option" where
  "owner xp = (x_pdev xp, x_xdev xp)"

lemma owner_simps [simp]:
  "owner (xpdev_flag_set f xp) = owner xp" "owner (set_cdev type i c xp) = owner xp"
  "owner (xp\<lparr>x_major := m\<rparr>) = owner xp"
  by (cases type; simp add: owner_def xpdev_flag_set_def set_cdev_def)+

lemma owner_add: "add_xcdev env dev xp c w = (rv, xp', c', w') \<Longrightarrow> owner xp' = owner xp"
  by (auto simp: add_xcdev_def Let_def split: if_splits prod.splits)

lemma owner_region: "get_region env xp w = (rv, dev, xp', w') \<Longrightarrow> owner xp' = owner xp"
  by (auto simp: get_region_def Let_def split: if_splits)

lemma owner_create: "create_xcdev env d xp c bar eng type w = Some (rv, xp', c', w') \<Longrightarrow> owner xp' = owner xp"
  by (auto simp: create_xcdev_def Let_def dest!: owner_add owner_region split: prod.splits if_splits bind_splits)

lemma owner_at: "create_at env d type i bar eng xp w = Some (rv, xp', w') \<Longrightarrow> owner xp' = owner xp"
  by (auto simp: create_at_def dest!: owner_create split: bind_splits)

lemma owner_events: "create_events env d n i xp w = Some (rv, xp', w') \<Longrightarrow> owner xp' = owner xp"
proof (induction n arbitrary: i xp w)
  case (Suc n)
  show ?case using Suc.prems by (auto dest!: owner_at Suc.IH split: bind_splits if_splits)
qed simp

lemma owner_channels: "create_channels env d type dir n i xp w = Some (rv, xp', w') \<Longrightarrow> owner xp' = owner xp"
proof (induction n arbitrary: i xp w)
  case (Suc n)
  show ?case using Suc.prems by (auto dest!: owner_at Suc.IH split: bind_splits if_splits)
qed simp

lemma owner_unless:
  assumes "unless_failed r f = Some (rv, xp', w')"
    and "\<And>rv1 xp1 w1. r = Some (rv1, xp1, w1) \<Longrightarrow> owner xp1 = owner xp"
    and "\<And>xp1 w1. f xp1 w1 = Some (rv, xp', w') \<Longrightarrow> owner xp' = owner xp1"
  shows "owner xp' = owner xp"
proof -
  obtain rv1 xp1 w1 where r: "r = Some (rv1, xp1, w1)" and f: "(rv1, xp1, w1) = (rv, xp', w') \<or> f xp1 w1 = Some (rv, xp', w')"
    using assms(1) by (auto simp: unless_failed_def split: bind_splits if_splits)
  then show ?thesis using assms(2)[OF r] assms(3)[of xp1 w1] by auto
qed

lemma owner_ctrl_events: "create_ctrl_events env d xp w = Some (rv, xp', w') \<Longrightarrow> owner xp' = owner xp"
  unfolding create_ctrl_events_def
  by (erule owner_unless, erule owner_at, erule owner_unless) (auto dest: owner_events)

lemma owner_sgdma: "create_sgdma env d xp w = Some (rv, xp', w') \<Longrightarrow> owner xp' = owner xp"
  unfolding create_sgdma_def
  by (erule owner_unless, erule owner_channels, erule owner_unless) (auto dest: owner_channels)

lemma owner_bypass: "create_bypass env d xp w = Some (rv, xp', w') \<Longrightarrow> owner xp' = owner xp"
  unfolding create_bypass_def
  by (simp split: if_splits, erule owner_unless, erule owner_channels, erule owner_unless, erule owner_channels,
      erule owner_unless) (auto dest: owner_at)

lemma owner_user: "create_user env d xp w = Some (rv, xp', w') \<Longrightarrow> owner xp' = owner xp"
  unfolding create_user_def
  by (simp split: if_splits, erule owner_unless, erule owner_at, erule owner_unless) (auto dest: owner_at)

lemma owner_interfaces: "xpdev_create_interfaces env d xp w = Some (rv, xp', w') \<Longrightarrow> owner xp' = owner xp"
proof -
  have s: "owner xp1 = owner xp" if "unless_failed (create_ctrl_events env d xp w) (\<lambda>xp w.
       unless_failed (create_sgdma env d xp w) (\<lambda>xp w.
       unless_failed (create_bypass env d xp w) (create_user env d))) = Some (rv1, xp1, w1)" for rv1 xp1 w1
    using that
    by (elim owner_unless owner_ctrl_events owner_sgdma owner_bypass owner_user)
  assume "xpdev_create_interfaces env d xp w = Some (rv, xp', w')"
  then show ?thesis by (auto simp: xpdev_create_interfaces_def dest!: s split: bind_splits if_splits)
qed

section \<open>What each operation does to the structures\<close>

lemma free_result:
  "xpdev_free mp env x s w = Some (s', w') \<Longrightarrow>
     \<exists>tab. s' = s\<lparr>mod_devs := tab, xpdev_cnt := xpdev_cnt s - 1, xpdevs := (xpdevs s)(x := None)\<rparr>"
  by (auto simp: xpdev_free_def Let_def split: bind_splits)

text \<open>The four ways a probe ends: nothing has changed, the structure has been lost, it has been
  freed, or it is bound to its device.\<close>

inductive probe_outcome :: "nat \<Rightarrow> nat \<Rightarrow> mod_state \<Rightarrow> int \<Rightarrow> mod_state \<Rightarrow> bool" for p x s where
  no_memory: "rv \<noteq> 0 \<Longrightarrow> probe_outcome p x s rv s"
| lost: "rv \<noteq> 0 \<Longrightarrow> xpdevs s' = (xpdevs s)(x := Some xp) \<Longrightarrow> xpdev_cnt s' = xpdev_cnt s + 1 \<Longrightarrow>
    drvdata s' = drvdata s \<Longrightarrow> probe_outcome p x s rv s'"
| freed: "rv \<noteq> 0 \<Longrightarrow> xpdevs s' = (xpdevs s)(x := None) \<Longrightarrow> xpdev_cnt s' = xpdev_cnt s \<Longrightarrow>
    drvdata s' = drvdata s \<Longrightarrow> probe_outcome p x s rv s'"
| bound: "xpdevs s' = (xpdevs s)(x := Some xp) \<Longrightarrow> xpdev_cnt s' = xpdev_cnt s + 1 \<Longrightarrow>
    drvdata s' = (drvdata s)(p := Some x) \<Longrightarrow> owner xp = (p, Some h) \<Longrightarrow> probe_outcome p x s 0 s'"

inductive_cases probe_outcomeE: "probe_outcome p x s rv s'"

lemma err_out_outcome:
  assumes "probe_err_out mp env x rv s w = Some (rv', s', w')" "rv \<noteq> 0"
    and "xpdevs s = (xpdevs s0)(x := Some xp)" "xpdev_cnt s = xpdev_cnt s0 + 1" "drvdata s = drvdata s0"
  shows "probe_outcome p x s0 rv' s'"
  using assms by (auto simp: probe_err_out_def dest!: free_result intro!: freed split: bind_splits)

lemma interfaces_outcome:
  assumes "probe_interfaces mp env p x h zh xp s w = Some (rv, s', w')" "x_pdev xp = p"
    and "xpdevs s = (xpdevs s0)(x := Some xp)" "xpdev_cnt s = xpdev_cnt s0 + 1" "drvdata s = drvdata s0"
  shows "probe_outcome p x s0 rv s'"
proof -
  obtain rv1 xp1 w1 where c: "xpdev_create_interfaces (mod_cdev env) (dt_devs (mod_devs s) h) (xp\<lparr>x_xdev := Some h\<rparr>) w = Some (rv1, xp1, w1)"
    using assms(1) by (auto simp: probe_interfaces_def Let_def split: bind_splits)
  then have o: "owner xp1 = (p, Some h)" using assms(2) owner_interfaces[OF c] by (simp add: owner_def)
  note r = assms(1)[unfolded probe_interfaces_def Let_def c bind.bind_lunit prod.case]
  show ?thesis
  proof (cases "rv1 = 0")
    case False
    then show ?thesis
      using r assms(3-5) by (auto intro!: err_out_outcome[of mp env x rv1 "put_xpdev x xp1 s"] simp: put_xpdev_def)
  next
    case True
    then show ?thesis
      using r assms(3-5) o by (auto intro!: bound simp: put_xpdev_def split: bind_splits)
  qed
qed

lemma opened_outcome:
  assumes "probe_opened mp env p x h zh xp s w = Some (rv, s', w')" "x_pdev xp = p"
    and "xpdevs s = (xpdevs s0)(x := Some xp)" "xpdev_cnt s = xpdev_cnt s0 + 1" "drvdata s = drvdata s0"
  shows "probe_outcome p x s0 rv s'"
proof -
  let ?e = "if x_user_max xp \<noteq> 0
      then xdma_user_isr_enable (Some h) (push_bit (x_user_max xp + 1) 1 - 1) (mod_devs s) w
      else Some (0, mod_devs s, w)"
  obtain rv1 tab w1 where e: "?e = Some (rv1, tab, w1)"
    using assms(1) unfolding probe_opened_def by (cases ?e) (auto split: if_splits)
  let ?s = "s\<lparr>mod_devs := tab\<rparr>"
  have s: "xpdevs ?s = (xpdevs s0)(x := Some xp)" "xpdev_cnt ?s = xpdev_cnt s0 + 1" "drvdata ?s = drvdata s0"
    using assms(3-5) by simp_all
  have r: "(if rv1 \<noteq> 0 then probe_err_out mp env x rv1 ?s w1
      else (case xdev_find_by_pdev p (mod_devs ?s) of
          None \<Rightarrow> Some (- EINVAL, ?s, w1)
        | Some xdev \<Rightarrow> do { BUG_ON (h \<noteq> xdev); probe_interfaces mp env p x h zh xp ?s w1 })) = Some (rv, s', w')"
    using assms(1) unfolding probe_opened_def e bind_BUG_ON bind.bind_lunit prod.case Let_def
    by (simp split: if_splits)
  show ?thesis
  proof (cases "rv1 = 0")
    case False
    then show ?thesis using r err_out_outcome[OF _ False s] by auto
  next
    case True
    show ?thesis
    proof (cases "xdev_find_by_pdev p tab")
      case None
      then have "rv = - EINVAL" "s' = ?s" using r True by auto
      then show ?thesis using lost[OF _ s] by simp
    next
      case (Some g)
      then have "probe_interfaces mp env p x h zh xp ?s w1 = Some (rv, s', w')"
        using r True by (auto split: if_splits)
      then show ?thesis using assms(2) s by (rule interfaces_outcome)
    qed
  qed
qed

lemma probe_one_allocated:
  assumes "xpdev_alloc (xpdev_alloc_ok env) p x s = (True, s0)" "xpdevs s0 x = Some xp0"
  shows "probe_one mp env p x h zh s w = do {
    (hn, (um, hm, cm), tab, w) \<leftarrow> xdma_device_open (mod_pci env) (mod_mp mp) p h
      (int (x_user_max xp0), int (x_h2c_channel_max xp0), int (x_c2h_channel_max xp0)) (mod_devs s0) w;
    let xp1 = xp0\<lparr>x_user_max := nat um, x_h2c_channel_max := nat hm, x_c2h_channel_max := nat cm\<rparr>;
    let s1 = put_xpdev x xp1 (s0\<lparr>mod_devs := tab\<rparr>);
    case hn of None \<Rightarrow> Some (- EINVAL, s1, w) | Some g \<Rightarrow> probe_opened mp env p x g zh xp1 s1 w
  }"
  by (simp only: probe_one_def assms Let_def prod.case bind.bind_lunit not_True_eq_False if_False)

lemma probe_one_refused:
  assumes "xpdev_alloc (xpdev_alloc_ok env) p x s = (False, s0)"
  shows "probe_one mp env p x h zh s w = Some (- ENOMEM, s0, w)"
  by (simp only: probe_one_def assms Let_def prod.case not_False_eq_True if_True)

lemma alloc_result:
  assumes "xpdev_alloc True p x s = (ok, s0)"
  obtains xp0 where "ok" "xpdevs s0 = (xpdevs s)(x := Some xp0)" "x_pdev xp0 = p" "xpdev_cnt s0 = xpdev_cnt s + 1"
    "drvdata s0 = drvdata s"
  using assms by (auto simp: xpdev_alloc_def put_xpdev_def)

lemma probe_outcome:
  assumes "probe_one mp env p x h zh s w = Some (rv, s', w')"
  shows "probe_outcome p x s rv s'"
proof (cases "xpdev_alloc_ok env")
  case False
  then have "xpdev_alloc (xpdev_alloc_ok env) p x s = (False, s)" by (simp add: xpdev_alloc_def)
  from assms[unfolded probe_one_refused[OF this]] have "rv = - ENOMEM" "s' = s" by simp_all
  then show ?thesis by (auto intro: no_memory)
next
  case True
  obtain ok s0 where al: "xpdev_alloc True p x s = (ok, s0)" by (cases "xpdev_alloc True p x s")
  then obtain xp0 where ok: "ok" and s0: "xpdevs s0 = (xpdevs s)(x := Some xp0)" "x_pdev xp0 = p"
    "xpdev_cnt s0 = xpdev_cnt s + 1" "drvdata s0 = drvdata s"
    by (rule alloc_result)
  have "xpdev_alloc (xpdev_alloc_ok env) p x s = (True, s0)" "xpdevs s0 x = Some xp0"
    using al ok True s0(1) by simp_all
  note r = assms[unfolded probe_one_allocated[OF this]]
  let ?o = "xdma_device_open (mod_pci env) (mod_mp mp) p h
      (int (x_user_max xp0), int (x_h2c_channel_max xp0), int (x_c2h_channel_max xp0)) (mod_devs s0) w"
  have "?o \<noteq> None"
  proof
    assume "?o = None"
    from r[unfolded this] show False by (simp only: bind.bind_lzero option.distinct)
  qed
  then obtain hn ms tab w1 where "?o = Some (hn, ms, tab, w1)" by (cases ?o) auto
  moreover obtain um hm cm where "ms = (um, hm, cm)" by (cases ms)
  ultimately have op: "?o = Some (hn, (um, hm, cm), tab, w1)" by simp
  define xp1 where "xp1 = xp0\<lparr>x_user_max := nat um, x_h2c_channel_max := nat hm, x_c2h_channel_max := nat cm\<rparr>"
  define s1 where "s1 = put_xpdev x xp1 (s0\<lparr>mod_devs := tab\<rparr>)"
  have x1: "x_pdev xp1 = p" using s0(2) by (simp add: xp1_def)
  have s1: "xpdevs s1 = (xpdevs s)(x := Some xp1)" "xpdev_cnt s1 = xpdev_cnt s + 1" "drvdata s1 = drvdata s"
    using s0 by (simp_all add: s1_def put_xpdev_def)
  have r1: "(case hn of None \<Rightarrow> Some (- EINVAL, s1, w1) | Some g \<Rightarrow> probe_opened mp env p x g zh xp1 s1 w1) = Some (rv, s', w')"
    using r by (simp only: op bind.bind_lunit prod.case Let_def xp1_def s1_def)
  show ?thesis
  proof (cases hn)
    case None
    then have "rv = - EINVAL" "s' = s1" using r1 by simp_all
    then show ?thesis using lost[OF _ s1] by simp
  next
    case (Some g)
    then have "probe_opened mp env p x g zh xp1 s1 w1 = Some (rv, s', w')" using r1 by simp
    then show ?thesis using x1 s1 by (rule opened_outcome)
  qed
qed

section \<open>The states of the module\<close>

text \<open>
  The kernel probes a device that is not bound, with addresses that are not in use, removes
  one that is bound, and reports errors of one that is bound.  Operations run one after the
  other; one that faults has no step.
\<close>

inductive mod_step :: "mod_params \<Rightarrow> mod_state \<times> world \<Rightarrow> mod_state \<times> world \<Rightarrow> bool" for mp where
  probe: "drvdata s p = None \<Longrightarrow> xpdevs s x = None \<Longrightarrow> probe_one mp env p x h zh s w = Some (rv, s', w') \<Longrightarrow>
    mod_step mp (s, w) (s', w')"
| remove: "drvdata s p \<noteq> None \<Longrightarrow> remove_one mp env (Some p) s w = Some (s', w') \<Longrightarrow> mod_step mp (s, w) (s', w')"
| detected: "drvdata s p \<noteq> None \<Longrightarrow> xdma_error_detected mp env p state s w = Some (r, s', w') \<Longrightarrow> mod_step mp (s, w) (s', w')"
| reset: "drvdata s p \<noteq> None \<Longrightarrow> xdma_slot_reset mp env ok p s w = Some (r, s', w') \<Longrightarrow> mod_step mp (s, w) (s', w')"
| prepare: "drvdata s p \<noteq> None \<Longrightarrow> xdma_reset_prepare mp env p s w = Some (s', w') \<Longrightarrow> mod_step mp (s, w) (s', w')"
| finished: "drvdata s p \<noteq> None \<Longrightarrow> xdma_reset_done mp env p s w = Some (s', w') \<Longrightarrow> mod_step mp (s, w) (s', w')"

definition mod_start :: "devtab \<Rightarrow> zynq_state \<Rightarrow> mod_state" where
  "mod_start tab zs = \<lparr>xpdevs = (\<lambda>_. None), drvdata = (\<lambda>_. None), xpdev_cnt = 0, mod_devs = tab, mod_zynq = zs\<rparr>"

inductive mod_reachable :: "mod_params \<Rightarrow> mod_state \<Rightarrow> world \<Rightarrow> bool" for mp where
  start: "mod_reachable mp (mod_start tab zs) w"
| step: "mod_reachable mp s w \<Longrightarrow> mod_step mp (s, w) (s', w') \<Longrightarrow> mod_reachable mp s' w'"

definition mod_inv :: "mod_state \<Rightarrow> bool" where
  "mod_inv s \<longleftrightarrow> finite (dom (xpdevs s)) \<and> xpdev_cnt s = int (card (dom (xpdevs s))) \<and>
     (\<forall>p x. drvdata s p = Some x \<longrightarrow> (\<exists>xp h. xpdevs s x = Some xp \<and> owner xp = (p, Some h)))"

lemma mod_inv_start: "mod_inv (mod_start tab zs)"
  by (simp add: mod_inv_def mod_start_def)

lemma mod_inv_same:
  "mod_inv s \<Longrightarrow> xpdevs s' = xpdevs s \<Longrightarrow> xpdev_cnt s' = xpdev_cnt s \<Longrightarrow> drvdata s' = drvdata s \<Longrightarrow> mod_inv s'"
  by (simp add: mod_inv_def)

text \<open>A structure that no device is bound to can come and go.\<close>

lemma mod_inv_new:
  assumes "mod_inv s" "xpdevs s x = None" "xpdevs s' = (xpdevs s)(x := Some xp)" "xpdev_cnt s' = xpdev_cnt s + 1"
    and "drvdata s' = drvdata s \<or> drvdata s' = (drvdata s)(p := Some x) \<and> owner xp = (p, Some h)"
  shows "mod_inv s'"
proof -
  have "dom (xpdevs s') = insert x (dom (xpdevs s))" "x \<notin> dom (xpdevs s)" using assms(2,3) by auto
  then have "finite (dom (xpdevs s'))" "xpdev_cnt s' = int (card (dom (xpdevs s')))"
    using assms(1,4) by (simp_all add: mod_inv_def)
  moreover have "\<exists>xp' h'. xpdevs s' y = Some xp' \<and> owner xp' = (q, Some h')" if "drvdata s' q = Some y" for q y
  proof (cases "drvdata s q = Some y \<and> y \<noteq> x")
    case True
    then show ?thesis using assms(1,3) by (auto simp: mod_inv_def)
  next
    case False
    have "drvdata s q \<noteq> Some x" using assms(1,2) by (force simp: mod_inv_def)
    then show ?thesis using False that assms(3,5) by (auto split: if_splits)
  qed
  ultimately show ?thesis by (simp add: mod_inv_def)
qed

lemma mod_inv_gone:
  assumes "mod_inv s" "drvdata s p = Some x" "xpdevs s' = (xpdevs s)(x := None)" "xpdev_cnt s' = xpdev_cnt s - 1"
    and "drvdata s' = (drvdata s)(p := None)"
  shows "mod_inv s'"
proof -
  obtain xp h where xp: "xpdevs s x = Some xp" "owner xp = (p, Some h)" using assms(1,2) unfolding mod_inv_def by blast
  have "dom (xpdevs s') = dom (xpdevs s) - {x}" using assms(3) by auto
  moreover have "x \<in> dom (xpdevs s)" using xp(1) by blast
  moreover have fin: "finite (dom (xpdevs s))" "xpdev_cnt s = int (card (dom (xpdevs s)))" using assms(1) by (simp_all add: mod_inv_def)
  ultimately have "finite (dom (xpdevs s'))" "xpdev_cnt s' = int (card (dom (xpdevs s')))"
    using assms(4) card_gt_0_iff[of "dom (xpdevs s)"] by (auto simp: card_Diff_singleton)
  moreover have "\<exists>xp' h'. xpdevs s' y = Some xp' \<and> owner xp' = (q, Some h')" if "drvdata s' q = Some y" for q y
  proof -
    have q: "q \<noteq> p" "drvdata s q = Some y" using that assms(5) by (auto split: if_splits)
    then obtain xp' h' where y: "xpdevs s y = Some xp'" "owner xp' = (q, Some h')" using assms(1) unfolding mod_inv_def by blast
    then have "y \<noteq> x" using xp q(1) by auto
    then show ?thesis using y assms(3) by auto
  qed
  ultimately show ?thesis by (simp add: mod_inv_def)
qed

lemma offline_result: "mod_offline mp env p s w = Some (s', w') \<Longrightarrow> \<exists>tab. s' = s\<lparr>mod_devs := tab\<rparr>"
  by (auto simp: mod_offline_def split: bind_splits)

lemma online_result: "mod_online mp env p s w = Some (s', w') \<Longrightarrow> \<exists>tab. s' = s\<lparr>mod_devs := tab\<rparr>"
  by (auto simp: mod_online_def split: bind_splits)

lemma mod_inv_devs: "mod_inv (s\<lparr>mod_devs := tab\<rparr>) = mod_inv s"
  by (simp add: mod_inv_def)

lemma remove_result:
  assumes "remove_one mp env (Some p) s w = Some (s', w')" "drvdata s p = Some x"
  shows "xpdevs s' = (xpdevs s)(x := None)" "xpdev_cnt s' = xpdev_cnt s - 1" "drvdata s' = (drvdata s)(p := None)"
  using assms by (auto simp: remove_one_def Let_def dest!: free_result split: bind_splits)

lemma mod_inv_probe:
  assumes "mod_inv s" "drvdata s p = None" "xpdevs s x = None" "probe_outcome p x s rv s'"
  shows "mod_inv s'"
  using assms(4)
proof (cases rule: probe_outcome.cases)
  case no_memory
  then show ?thesis using assms(1) by simp
next
  case (lost xp)
  then show ?thesis using mod_inv_new[OF assms(1,3)] by blast
next
  case freed
  then show ?thesis using assms(1,3) by (intro mod_inv_same[OF assms(1)]) (auto simp: fun_upd_idem)
next
  case (bound xp h)
  then show ?thesis using mod_inv_new[OF assms(1,3)] by blast
qed

lemma mod_inv_step:
  assumes "mod_step mp (s, w) (s', w')" and inv: "mod_inv s"
  shows "mod_inv s'"
  using assms(1)
proof (cases rule: mod_step.cases)
  case (probe p x env h zh rv)
  then show ?thesis using probe_outcome mod_inv_probe[OF inv] by blast
next
  case (remove p env)
  obtain x where "drvdata s p = Some x" using remove(1) by blast
  then show ?thesis using mod_inv_gone[OF inv] remove_result[OF remove(2)] by blast
next
  case (detected p env state r)
  then show ?thesis
    using inv
    by (auto simp: xdma_error_detected_def mod_inv_devs dest!: offline_result split: pci_channel_state.splits bind_splits)
next
  case (reset p env ok r)
  then show ?thesis
    using inv by (auto simp: xdma_slot_reset_def mod_inv_devs dest!: online_result split: if_splits bind_splits)
next
  case (prepare p env)
  then show ?thesis using inv by (auto simp: xdma_reset_prepare_def mod_inv_devs dest!: offline_result)
next
  case (finished p env)
  then show ?thesis using inv by (auto simp: xdma_reset_done_def mod_inv_devs dest!: online_result)
qed

lemma mod_reachable_inv: "mod_reachable mp s w \<Longrightarrow> mod_inv s"
proof (induction rule: mod_reachable.induct)
  case (start tab zs w)
  show ?case by (rule mod_inv_start)
next
  case (step s w s' w')
  then show ?case using mod_inv_step by blast
qed

section \<open>The properties\<close>

text \<open>C36: In every state of the module the counter is the number of allocated structures, and
  every bound device has a structure of its own, which names the device and an open handle;
  so neither a removal nor the handling of an error meets a freed structure.\<close>

theorem module_counts_structures:
  assumes "mod_reachable mp s w"
  shows "xpdev_cnt s = int (card (dom (xpdevs s))) \<and> inj_on (drvdata s) (dom (drvdata s)) \<and>
    (\<forall>p x. drvdata s p = Some x \<longrightarrow> (\<exists>xp h. xpdevs s x = Some xp \<and> x_pdev xp = p \<and> x_xdev xp = Some h))"
proof -
  have i: "mod_inv s" by (rule mod_reachable_inv[OF assms])
  have b: "\<exists>xp h. xpdevs s x = Some xp \<and> x_pdev xp = p \<and> x_xdev xp = Some h" if d: "drvdata s p = Some x" for p x
  proof -
    obtain xp h where "xpdevs s x = Some xp" "owner xp = (p, Some h)" using i d unfolding mod_inv_def by blast
    then show ?thesis by (auto simp: owner_def)
  qed
  have "inj_on (drvdata s) (dom (drvdata s))"
  proof (rule inj_onI)
    fix p q assume d: "p \<in> dom (drvdata s)" and e: "drvdata s p = drvdata s q"
    obtain x where x: "drvdata s p = Some x" using d by blast
    then have y: "drvdata s q = Some x" using e by simp
    obtain xp where "xpdevs s x = Some xp" "x_pdev xp = p" using b[OF x] by blast
    moreover obtain xq where "xpdevs s x = Some xq" "x_pdev xq = q" using b[OF y] by blast
    ultimately show "p = q" by simp
  qed
  then show ?thesis using i b unfolding mod_inv_def by blast
qed

text \<open>A device that the library cannot open leaves its structure behind.\<close>

lemma failed_open_leaks:
  assumes "xpdev_alloc_ok env"
    and "\<And>tab u. \<exists>ms tab' w1. xdma_device_open (mod_pci env) (mod_mp mp) p h (16, 4, 4) tab u = Some (None, ms, tab', w1)"
  shows "\<exists>s' w'. probe_one mp env p x h zh s w = Some (- EINVAL, s', w') \<and> xpdevs s' x \<noteq> None \<and> xpdev_cnt s' = xpdev_cnt s + 1 \<and> drvdata s' = drvdata s"
proof -
  define xp0 where "xp0 = zero_xpdev\<lparr>x_magic := MAGIC_DEVICE, x_pdev := p, x_user_max := MAX_USER_IRQ,
    x_h2c_channel_max := XDMA_CHANNEL_NUM_MAX, x_c2h_channel_max := XDMA_CHANNEL_NUM_MAX\<rparr>"
  define s0 where "s0 = (put_xpdev x xp0 s)\<lparr>xpdev_cnt := xpdev_cnt s + 1\<rparr>"
  have a: "xpdev_alloc (xpdev_alloc_ok env) p x s = (True, s0)" "xpdevs s0 x = Some xp0"
    using assms(1) by (simp_all add: xpdev_alloc_def xp0_def s0_def put_xpdev_def)
  have m: "int (x_user_max xp0) = 16" "int (x_h2c_channel_max xp0) = 4" "int (x_c2h_channel_max xp0) = 4"
    by (simp_all add: xp0_def MAX_USER_IRQ_def XDMA_CHANNEL_NUM_MAX_def)
  obtain um hm cm tab w1 where op: "xdma_device_open (mod_pci env) (mod_mp mp) p h (16, 4, 4) (mod_devs s0) w = Some (None, (um, hm, cm), tab, w1)"
    using assms(2)[of "mod_devs s0" w] by auto
  show ?thesis
    unfolding probe_one_allocated[OF a] m op bind.bind_lunit prod.case Let_def option.case
    by (simp add: put_xpdev_def s0_def)
qed

text \<open>Interfaces that cannot all be created are removed by the function that creates them and,
  from the same structure, once more by the exit of the probe.\<close>

lemma create_failed:
  assumes "xpdev_create_interfaces env d xp w = Some (rv, xp', w')" "rv \<noteq> 0"
  shows "\<exists>w0. xpdev_destroy_interfaces env xp' w0 = Some w'"
  using assms by (auto simp: xpdev_create_interfaces_def split: bind_splits if_splits)

lemma failed_interfaces_destroyed_twice:
  assumes "probe_interfaces mp env p x h zh xp s w = Some (rv, s', w')" "rv \<noteq> 0"
  shows "\<exists>xp' w0 w1 w2. xpdev_destroy_interfaces (mod_cdev env) xp' w0 = Some w1 \<and>
    xpdev_destroy_interfaces (mod_cdev env) xp' w1 = Some w2"
proof -
  obtain rv1 xp1 w1 where c: "xpdev_create_interfaces (mod_cdev env) (dt_devs (mod_devs s) h) (xp\<lparr>x_xdev := Some h\<rparr>) w = Some (rv1, xp1, w1)"
    using assms(1) by (auto simp: probe_interfaces_def Let_def split: bind_splits)
  note r = assms(1)[unfolded probe_interfaces_def Let_def c bind.bind_lunit prod.case]
  have "rv1 \<noteq> 0" using r assms(2) by (auto split: bind_splits)
  then have "xpdev_free mp env x (put_xpdev x xp1 s) w1 \<noteq> None" using r by (auto simp: probe_err_out_def split: bind_splits)
  then have "xpdev_destroy_interfaces (mod_cdev env) xp1 w1 \<noteq> None"
    by (auto simp: xpdev_free_def put_xpdev_def Let_def split: bind_splits)
  then show ?thesis using create_failed[OF c \<open>rv1 \<noteq> 0\<close>] by blast
qed

definition sample_no_memory :: mod_env where
  "sample_no_memory = \<lparr>xpdev_alloc_ok = True, mod_pci = sample_pci\<lparr>alloc_dev_ok := False\<rparr>, mod_cdev = sample_cdevs,
     mod_zenv = sample_zenv\<rparr>"

definition sample_mparams :: mod_params where
  "sample_mparams = \<lparr>mod_mp = default_modparams, mod_zp = sample_zparams\<rparr>"

lemma sample_no_open:
  "xdma_device_open (mod_pci sample_no_memory) mp p h maxs tab w = Some (None, maxs, tab, w)"
  by (simp add: xdma_device_open_def alloc_dev_instance_def sample_no_memory_def)

theorem module_counts_structures_witness:
  "\<exists>s w. mod_reachable sample_mparams s w \<and> xpdev_cnt s = 1 \<and> card (dom (xpdevs s)) = 1 \<and> drvdata s 7 = None"
proof -
  let ?s = "mod_start sample_tab sample_zstate"
  have "xpdev_alloc_ok sample_no_memory" by (simp add: sample_no_memory_def)
  from failed_open_leaks[OF this, of sample_mparams 7 2 1 3 ?s sample_world] obtain s' w' where
    p: "probe_one sample_mparams sample_no_memory 7 1 2 3 ?s sample_world = Some (- EINVAL, s', w')"
    and e: "xpdevs s' 1 \<noteq> None" "xpdev_cnt s' = xpdev_cnt ?s + 1" "drvdata s' = drvdata ?s"
    by (auto simp: sample_no_open)
  have "mod_step sample_mparams (?s, sample_world) (s', w')"
    by (rule mod_step.probe[OF _ _ p]) (simp_all add: mod_start_def)
  then have r: "mod_reachable sample_mparams s' w'" by (rule mod_reachable.step[OF mod_reachable.start])
  from module_counts_structures[OF this] e r show ?thesis
    by (intro exI[of _ s'] exI[of _ w']) (simp add: mod_start_def)
qed

end
