(* ===== verification/Spec2Isabelle.thy ===== *)
theory Spec2Isabelle
  imports EngineProps CyclicProps ModuleProps
begin

text \<open>
  A verification development for the XDMA PCIe driver and the sensor FPGA behind it
  (directory src/xdma of the repository).

  \<^bold>\<open>The program.\<close>  A kernel module for Linux.  The library (libxdma.c) opens a PCI device, maps
  its BARs, finds its DMA engines, sets up the interrupts, and moves scatter-gather tables
  through an engine: a submission cuts the table into descriptors, queues the transfer and
  sleeps; an interrupt handler or a poll services the engine, which completes the transfers
  at the head of the queue and restarts the engine for the rest.  A streaming engine can also
  fill a ring of pages for ever, from which a reader takes packets.  Above the library the
  character devices (xdma_cdev.c and the cdev files) turn file operations into calls of it,
  and the module (xdma_mod.c) binds everything to the PCI core.  The sensor FPGA
  (zynq_main.c, zynq_gps.c) shares the device and gives the time of a GPS receiver.

  \<^bold>\<open>How the code is modelled.\<close>  A function of C is a HOL function of the same name.  What it
  changes, the engine, the device, the tables of structures and the kernel side
  (\<^verbatim>\<open>world\<close>: registers, transfers, and a trace of calls into the kernel, the latest first), it
  takes and returns.  Machine integers are words of their width.  The option type holds a
  stop of the kernel: \<^verbatim>\<open>BUG_ON\<close>, a null pointer, an access outside an array, the use of freed
  memory; a return code stays a return code.  The device is not a program and answers as
  it likes: a register reads as a function of the accesses so far.  What the kernel and user
  space answer (allocators, mappings, copies, waits, clocks) are records named \<^verbatim>\<open>..._env\<close>; every
  property holds for all their values that meet its hypotheses.

  \<^bold>\<open>The theories\<close>, in the order in which they build on each other.
  \<^item> \<^verbatim>\<open>Prelude\<close>, \<^verbatim>\<open>Regs\<close>, \<^verbatim>\<open>Types\<close>: integers, return codes and shared lemmas; constants, register files
    and the register bus (libxdma.h); structures and device flags.
  \<^item> \<^verbatim>\<open>Descriptors\<close>, \<^verbatim>\<open>Request\<close>: descriptors and their chains; requests, transfers, and the cutting
    of a table into pieces, with its specification \<^verbatim>\<open>pieces\<close>.
  \<^item> \<^verbatim>\<open>Engine\<close>, \<^verbatim>\<open>Service\<close>, \<^verbatim>\<open>RingPoll\<close>, \<^verbatim>\<open>Frames\<close>, \<^verbatim>\<open>Submit\<close>: control and queue of an engine, its
    service, the loops without bound, what each operation leaves alone, and
    \<^verbatim>\<open>xdma_xfer_submit\<close>.  \<^verbatim>\<open>EngineSM\<close> is the engine as a state machine whose steps are the calls made
    on it, with the history of what was queued as a ghost.  \<^verbatim>\<open>EngineProps\<close> and this theory hold
    the properties.
  \<^item> \<^verbatim>\<open>DevList\<close>, \<^verbatim>\<open>Pci\<close>, \<^verbatim>\<open>Irq\<close>, \<^verbatim>\<open>Device\<close>: the list of devices, configuration space, MSI and BARs, the
    interrupt handlers and lines, and opening, closing, going off line and on line; properties in
    \<^verbatim>\<open>IrqProps\<close>, \<^verbatim>\<open>DeviceProps\<close>, \<^verbatim>\<open>LifeProps\<close>.
  \<^item> \<^verbatim>\<open>Cyclic\<close>, \<^verbatim>\<open>CyclicProps\<close>: the receive ring and its reader.
  \<^item> \<^verbatim>\<open>Chardev\<close>, \<^verbatim>\<open>Sgdma\<close>, \<^verbatim>\<open>Ctrl\<close>, \<^verbatim>\<open>Xvc\<close>: making and removing the character devices; the SG DMA device with
    the pages of the user; the control, bypass and event devices; the virtual cable.  Properties
    in \<^verbatim>\<open>ChardevProps\<close>, \<^verbatim>\<open>SgdmaProps\<close>, \<^verbatim>\<open>CdevProps\<close>.
  \<^item> \<^verbatim>\<open>Zynq\<close>, \<^verbatim>\<open>Gps\<close>, \<^verbatim>\<open>ZynqMain\<close>, \<^verbatim>\<open>ZynqProps\<close>: registers and structures of the sensor FPGA, the GPS time,
    the device.
  \<^item> \<^verbatim>\<open>Module\<close>, \<^verbatim>\<open>ModuleProps\<close>: probing and removing, PCI errors, start and end of the module.
  \<^item> \<^verbatim>\<open>Samples\<close>: the concrete states of the witnesses.

  \<^bold>\<open>Interfaces.\<close>  \<^verbatim>\<open>register_bus\<close> (what a write and a read of a register do to the log),
  \<^verbatim>\<open>fifo_queue\<close> (the queue of an engine) and \<^verbatim>\<open>event_count\<close> (a count over the trace, used for BARs,
  interrupt lines, coherent memory, regions, pages, character devices and nodes) are locales,
  interpreted on the definitions of the model.

  \<^bold>\<open>What is shown.\<close>
  \<^item> A submission returns the bytes of its table, unmaps it exactly once, and writes a chain of
    descriptors that is the abstract chain, with adjacency hints that stay in the page.
  \<^item> Under every sequence of building, queueing, servicing (deferred or polled, plain or cyclic),
    settling a wait, the stop and the drain of a cyclic transfer, and going off line and on line,
    the queue of an engine is first in first out; what is in it is submitted or has been given up in its place; what left
    it has a final state, unless it was the cyclic request.  A queue that is not empty has an engine
    that is marked running, unless going off line or the end of a cyclic transfer has
    stopped it.  Being marked running is not running: after a time-out the mark stays.
  \<^item> Servicing completes a prefix of the queue, and returns; for an engine that sends only when the
    text of an error status fits its buffer.  The wait for the polled write-back ends at the
    first look with an error, the expected count or the deadline.
  \<^item> Interrupt lines (with MSI-X), BARs, coherent memory, regions, user pages, character devices and
    nodes are balanced: what is acquired is given back once, on the paths named; the
    structures of the module are counted in every reachable state.  The calls of a probe and a removal of the
    sensor FPGA are listed, with what the removal does not undo.
  \<^item> A cyclic read takes one packet off the abstract ring and stays in the buffer of the reader.  With
    interrupts it returns, whatever services and writes of the device happen while it
    sleeps; in polled mode it does unless a poll never sees an error or the end of a packet,
    which is what happens after a faulty result in a ring that has overrun.
  \<^item> The alignment check equals divisibility, the table of a user buffer names its bytes, the
    virtual cable shifts the bits of the user, a synchronisation stores the instant it read.
  \<^item> Where the code does something else than it means to, the property says what it does: the
    engine that stays marked running after a time-out, lines that are released twice, user
    interrupts that are never dispatched, a read that reports too much, the use of a freed
    structure after a failed probe, mappings past the end of a BAR.

  \<^bold>\<open>Bounds and fuel.\<close>  The loops over the channels, lines, pages and descriptors are structural or have
  a termination proof; the scan of the result ring ends after its 256 entries and a cyclic read
  runs at most 11 rounds, as in the code.  Four loops of the code have no bound: the poll of
  the write-back and the polled cyclic service take fuel, the wait for an idle ring and the
  shift of a cable are partial functions.  The write-back poll returns whenever the fuel exceeds the number of looks
  at the clock until the time-out (\<^verbatim>\<open>wb_monitor_returns\<close>); the polled cyclic service
  has no deadline, and no fuel is enough for the loop that \<^verbatim>\<open>polled_read_after_overrun_hangs\<close>
  describes; the cable loop is shown to return for every length up to \<^verbatim>\<open>2 ^ 32 - 32\<close> on a
  bridge that answers.

  \<^bold>\<open>Not modelled.\<close>  Locks are held for a whole function, so a function, or the part of it under one lock,
  is one step; the spin locks of the device flags and of a character device are modelled because the code gets them wrong.
  Printed messages other than the status of an engine, the sysfs attributes, names in structures that nothing reads, the wrap of
  allocation sizes, and the code for kernels before 4.13 are left out.  The headers of the
  CAN, video and DMA ring parts of the sensor FPGA describe code that the repository does not
  hold.  The tools (src/tools) are programs of user space that make single file operations,
  and src/src is a camera node in C++ for ROS.
\<close>

unbundle bit_operations_syntax

section \<open>Submission\<close>

text \<open>C1: When \<^verbatim>\<open>xdma_xfer_submit\<close> reaches its engine and succeeds, it returns the number of
  bytes of the mapped scatter-gather table: all rounds together, each of at most 2048
  descriptors, transfer exactly the sum of the entry lengths.\<close>

theorem submit_returns_byte_count:
  assumes "submit_on_engine env mp xdev m x dir ep sgt e w = Some (rv, sgt', e', w')"
    and "env_calm env" "has_descs e" "0 \<le> rv"
    and "tab = (if m then sgt else map_sg env sgt)" "nents tab \<le> length (sgl tab)"
    and "sg = take (nents tab) (sgl tab)"
    and "desc_blen_max mp \<noteq> 0" "no_wrap (desc_blen_max mp) sg"
    and "extra_spec (desc_blen_max mp) sg < 2 ^ 32"
    and "sum_list (map (unat \<circ> snd) sg) < 2 ^ 32"
  shows "rv = int (sum_list (map (unat \<circ> snd) sg))"
  by (rule submit_bytes[OF assms])

theorem submit_returns_byte_count_witness:
  "\<exists>rv. rv = (4096 :: int) \<and> (\<exists>s e w. submit_on_engine sample_env default_modparams sample_dev False 0
     DMA_TO_DEVICE 0x1000 sample_sgt sample_engine sample_world = Some (rv, s, e, w))"
proof -
  obtain s e w where "submit_on_engine sample_env default_modparams sample_dev False 0
     DMA_TO_DEVICE 0x1000 sample_sgt sample_engine sample_world = Some (4096, s, e, w)"
    using sample_submit by blast
  from submit_returns_byte_count[OF this sample_env_calm sample_has_descs _ refl, of "[(0x2000, 4096)]"] this
  show ?thesis
    using sample_table by simp
qed

text \<open>C3: A table that the driver maps itself is unmapped exactly once, whatever the
  outcome of the submission: by the last transfer when it gets there, by the exit path
  otherwise, never by both.\<close>

theorem submit_unmaps_exactly_once:
  assumes "env_calm env" "nents (map_sg env sgt) \<noteq> 0"
    and "submit_on_engine env mp xdev False x dir ep sgt e w = Some (rv, sgt', e', w')"
  shows "unmaps w' = Suc (unmaps w) \<and> nents sgt' = 0"
  by (rule submit_unmaps_once[OF assms])

theorem submit_unmaps_exactly_once_witness:
  "\<exists>s e w. submit_on_engine sample_env default_modparams sample_dev False 0
     DMA_TO_DEVICE 0x1000 sample_sgt sample_engine sample_world = Some (4096, s, e, w) \<and>
     unmaps w = 1"
proof -
  obtain s e w where r: "submit_on_engine sample_env default_modparams sample_dev False 0
     DMA_TO_DEVICE 0x1000 sample_sgt sample_engine sample_world = Some (4096, s, e, w)"
    using sample_submit by blast
  have "nents (map_sg sample_env sample_sgt) \<noteq> 0"
    unfolding sample_table(7) by (simp add: sample_sgt_def)
  from submit_unmaps_exactly_once[OF sample_env_calm this r]
  have "unmaps w = 1" by (simp add: unmaps_def sample_world_def)
  with r show ?thesis by blast
qed

section \<open>Descriptor chains\<close>

text \<open>C4: The chain that \<^verbatim>\<open>transfer_init\<close> writes: descriptor k moves the k-th remaining
  piece between its bus address and the end point address advanced by the earlier pieces,
  points to the next descriptor of the array, carries the magic, and only the last one stops
  the engine, ends the packet and interrupts.\<close>

theorem transfer_init_chain:
  assumes "e_desc e = Some ds" "XDMA_TRANSFER_MAX_DESC \<le> length ds" "e_desc_bus e AND 0x1f = 0"
    and "r_sw_desc_idx req < r_sw_desc_cnt req" "r_sw_desc_cnt req \<le> length (r_sdesc req)"
    and "n = min (r_sw_desc_cnt req - r_sw_desc_idx req) XDMA_TRANSFER_MAX_DESC"
    and "transfer_init e req = Some (e', req')" "k < n"
  shows "\<exists>ds'. e_desc e' = Some ds' \<and>
    (let d = ds' ! k; s = r_sdesc req ! (r_sw_desc_idx req + k);
         ep = ep_step (e_non_incr_addr e) (take k (drop (r_sw_desc_idx req) (r_sdesc req))) (r_ep_addr req)
     in bytes d = sd_len s \<and>
        (desc_src d, desc_dst d) =
          (if e_dir e = DMA_TO_DEVICE then (sd_addr s, ep) else (ep, sd_addr s)) \<and>
        desc_next d = (if k + 1 < n then e_desc_bus e + of_nat (32 * (k + 1)) else 0) \<and>
        drop_bit 16 (control d) = 0xAD4B \<and>
        control d AND 0xff =
          (if k + 1 = n then XDMA_DESC_STOPPED OR XDMA_DESC_COMPLETED OR XDMA_DESC_EOP else 0))"
proof -
  let ?ss = "take n (drop (r_sw_desc_idx req) (r_sdesc req))"
  obtain ds' where ds': "e_desc e' = Some ds'"
    "ds' ! k = xfer_desc (e_desc_bus e) n (e_non_incr_addr e) ?ss (r_ep_addr req) (e_dir e) k (ds ! k)"
    using transfer_init_descs[OF assms(1,2,4-8)] by blast
  have s: "?ss ! k = r_sdesc req ! (r_sw_desc_idx req + k)"
    "take k ?ss = take k (drop (r_sw_desc_idx req) (r_sdesc req))"
    using assms(4-6,8) by auto
  have c: "XDMA_DESC_STOPPED OR XDMA_DESC_COMPLETED OR XDMA_DESC_EOP = 0x13" by (simp add: const_defs)
  show ?thesis
    unfolding Let_def ds'(2) s[symmetric]
    by (intro exI[of _ ds'] conjI) (simp_all add: ds' xfer_desc_fields[OF assms(8,3)] c del: take_take)
qed

theorem transfer_init_chain_witness:
  "\<exists>e' req' ds'. transfer_init sample_engine sample_req = Some (e', req') \<and> e_desc e' = Some ds' \<and>
     bytes (ds' ! 0) = 4096 \<and> desc_src (ds' ! 0) = 0x2000 \<and> desc_next (ds' ! 0) = 0"
proof -
  obtain e' req' where i: "transfer_init sample_engine sample_req = Some (e', req')"
    using sample_init by blast
  have "e_desc sample_engine = Some sample_descs" "XDMA_TRANSFER_MAX_DESC \<le> length sample_descs"
    "e_desc_bus sample_engine AND 0x1f = 0" "r_sw_desc_idx sample_req < r_sw_desc_cnt sample_req"
    "r_sw_desc_cnt sample_req \<le> length (r_sdesc sample_req)"
    "1 = min (r_sw_desc_cnt sample_req - r_sw_desc_idx sample_req) XDMA_TRANSFER_MAX_DESC"
    by (simp_all add: sample_engine_def sample_req_def XDMA_TRANSFER_MAX_DESC_def)
  from transfer_init_chain[OF this i, of 0] i show ?thesis
    by (auto simp: sample_req_def sample_engine_def Let_def)
qed

text \<open>C5: The adjacency hint of a descriptor never makes the hardware fetch across a 4K
  page, nor past the end of the chain.\<close>

theorem transfer_adjacency_in_page:
  assumes "e_desc e = Some ds" "XDMA_TRANSFER_MAX_DESC \<le> length ds" "e_desc_bus e AND 0x1f = 0"
    and "r_sw_desc_idx req < r_sw_desc_cnt req" "r_sw_desc_cnt req \<le> length (r_sdesc req)"
    and "n = min (r_sw_desc_cnt req - r_sw_desc_idx req) XDMA_TRANSFER_MAX_DESC"
    and "transfer_init e req = Some (e', req')" "k + 1 < n"
  shows "\<exists>ds'. e_desc e' = Some ds' \<and>
    unat (next_lo (ds' ! k) AND 0xFFF) + 32 * (unat (desc_adj (ds' ! k)) + 1) \<le> 0x1000 \<and>
    k + 1 + unat (desc_adj (ds' ! k)) < n"
proof -
  let ?ss = "take n (drop (r_sw_desc_idx req) (r_sdesc req))"
  let ?nlo = "ucast (PCI_DMA_L (e_desc_bus e + of_nat (32 * (k + 1)))) :: u32"
  have kn: "k < n" using assms(8) by simp
  obtain ds' where ds': "e_desc e' = Some ds'"
    "ds' ! k = xfer_desc (e_desc_bus e) n (e_non_incr_addr e) ?ss (r_ep_addr req) (e_dir e) k (ds ! k)"
    using transfer_init_descs[OF assms(1,2,4-7) kn] by blast
  have a: "unat (desc_adj (ds' ! k)) = adj_spec (int (n - 1 - k)) ?nlo"
    unfolding ds'(2) xfer_desc_fields(7)[OF kn assms(3)] by (rule unat_adj_spec)
  have l: "next_lo (ds' ! k) = ?nlo"
    using assms(8) unfolding ds'(2)
    by (simp add: xfer_desc_def Let_def xdma_desc_adjacent_def xdma_desc_set_def init_desc_def
        less_diff_conv)
  have pg: "unat (?nlo AND 0xFFF) + 32 * (adj_spec (int (n - 1 - k)) ?nlo + 1) \<le> 0x1000"
    by (rule adj_in_page[OF aligned_page_offset[OF add_aligned[OF assms(3)]]])
  have ch: "k + 1 + adj_spec (int (n - 1 - k)) ?nlo < n" by (rule adj_in_chain[OF assms(8)])
  show ?thesis
    unfolding ds'(1) by (intro exI[of _ ds'] conjI refl) (simp_all only: a l pg ch)
qed

theorem transfer_adjacency_in_page_witness:
  "\<exists>e' req' ds'. transfer_init sample_engine sample_req2 = Some (e', req') \<and> e_desc e' = Some ds' \<and>
     unat (next_lo (ds' ! 0) AND 0xFFF) + 32 * (unat (desc_adj (ds' ! 0)) + 1) \<le> 0x1000"
proof -
  obtain e' req' where i: "transfer_init sample_engine sample_req2 = Some (e', req')"
    using sample_init2 by blast
  have "e_desc sample_engine = Some sample_descs" "XDMA_TRANSFER_MAX_DESC \<le> length sample_descs"
    "e_desc_bus sample_engine AND 0x1f = 0" "r_sw_desc_idx sample_req2 < r_sw_desc_cnt sample_req2"
    "r_sw_desc_cnt sample_req2 \<le> length (r_sdesc sample_req2)"
    "2 = min (r_sw_desc_cnt sample_req2 - r_sw_desc_idx sample_req2) XDMA_TRANSFER_MAX_DESC"
    by (simp_all add: sample_engine_def sample_req2_def XDMA_TRANSFER_MAX_DESC_def)
  from transfer_adjacency_in_page[OF this i, of 0] i show ?thesis by auto
qed

end
